(* ===== verification/Prelude.thy ===== *)
theory Prelude
  imports Main "HOL-Library.AList" "HOL-Library.Word" "HOL-Library.Product_Lexorder"
    "HOL-Library.Option_ord" "HOL-Library.Multiset"
begin

text \<open>
  Shared vocabulary of the development: the Rust standard-library types and functions the
  source uses (strings of Unicode scalar values, fixed-width integers, hash maps, the
  question-mark operator, the iterator methods \<open>max_by_key\<close>, \<open>position\<close>), the JSON values it
  keeps, and the lemma collections the component proofs draw on.

  Conventions. A \<open>String\<close> is the list of its code points, so that \<open>chars().count()\<close> is
  \<open>length\<close> and \<open>len()\<close> is the length of the UTF-8 encoding. A \<open>DateTime<Utc>\<close> is the number
  of nanoseconds since the epoch. A \<open>HashMap\<close> is an association list: its order stands for
  the map's unspecified iteration order, so a statement about every list is a statement
  about every iteration order. A method on \<open>&mut self\<close> returns the pair of its \<open>Result\<close>
  and the state it leaves, also where it returns an error.
\<close>

named_theorems hm_simps \<open>rewriting of hash-map reads over writes\<close>
named_theorems op_defs \<open>definitions of the operations, unfolded to analyse their branches\<close>
named_theorems val_defs \<open>definitions of the input validators\<close>

section \<open>Machine integers, identifiers and time\<close>

type_synonym u32 = "32 word"
type_synonym u64 = "64 word"
type_synonym i64 = "64 word"
type_synonym uuid = "128 word"
type_synonym instant = int

definition is_nil :: "uuid \<Rightarrow> bool" where
  "is_nil u \<longleftrightarrow> u = 0"

definition checked_succ_u32 :: "u32 \<Rightarrow> u32 option" where
  "checked_succ_u32 n = (if n = - 1 then None else Some (n + 1))"

text \<open>\<open>i64::checked_add(1)\<close>: the word is read as two's complement, whose greatest value is
  \<open>2 ^ 63 - 1\<close>.\<close>

definition checked_succ_i64 :: "i64 \<Rightarrow> i64 option" where
  "checked_succ_i64 n = (if n = 9223372036854775807 then None else Some (n + 1))"

lemma checked_succ_u32_Some: "checked_succ_u32 n = Some m \<Longrightarrow> unat m = Suc (unat n)"
  by (auto simp: checked_succ_u32_def add_eq_0_iff add.commute split: if_splits intro!: unatSuc)

lemma checked_succ_i64_ne: "checked_succ_i64 n = Some m \<Longrightarrow> m = n + 1 \<and> m \<noteq> n"
  by (auto simp: checked_succ_i64_def split: if_splits)

text \<open>
  How a truncation to a word is computed: a literal that is small anyway is kept, without a power of two.
\<close>

lemma take_bit_small [code]: "take_bit n (k::int) = (if 0 \<le> k \<and> k < 65536 \<and> 16 \<le> n then k
    else if 0 \<le> k \<and> k < 9223372036854775808 \<and> 63 \<le> n then k else k mod 2 ^ n)"
proof -
  have keep: "take_bit n k = k" if "0 \<le> k" "k < 2 ^ m" "m \<le> n" for m
  proof -
    have "(2::int) ^ m \<le> 2 ^ n" using that(3) by (intro power_increasing) simp_all
    then have "k < 2 ^ n" using that(2) by (rule less_le_trans [rotated])
    then show ?thesis using that(1) by (simp add: take_bit_eq_mod)
  qed
  show ?thesis
    using keep [of 16] keep [of 63] by (simp add: take_bit_eq_mod)
qed

definition seconds :: "int \<Rightarrow> int" where
  "seconds n = n * 1000000000"

definition minutes :: "int \<Rightarrow> int" where
  "minutes n = seconds (60 * n)"

text \<open>\<open>timestamp_micros\<close> rounds towards minus infinity.\<close>

definition timestamp_micros :: "instant \<Rightarrow> int" where
  "timestamp_micros t = t div 1000"


section \<open>Results\<close>

text \<open>
  \<open>Result<T, E>\<close> is \<open>'e + 'a\<close> with the error on the left. \<open>rbind\<close> is the question mark in a
  function without state; \<open>try_in\<close> is the question mark in a method that owns the state
  \<open>st\<close>: an error leaves it as it is at that point.
\<close>

definition rbind :: "'e + 'a \<Rightarrow> ('a \<Rightarrow> 'e + 'b) \<Rightarrow> 'e + 'b" where
  "rbind r k = (case r of Inl e \<Rightarrow> Inl e | Inr x \<Rightarrow> k x)"

definition try_in :: "'s \<Rightarrow> 'e + 'a \<Rightarrow> ('a \<Rightarrow> ('e + 'b) \<times> 's) \<Rightarrow> ('e + 'b) \<times> 's" where
  "try_in st r k = (case r of Inl e \<Rightarrow> (Inl e, st) | Inr x \<Rightarrow> k x)"

definition ok_or :: "'a option \<Rightarrow> 'e \<Rightarrow> 'e + 'a" where
  "ok_or x e = (case x of None \<Rightarrow> Inl e | Some y \<Rightarrow> Inr y)"

lemma rbind_simps [simp]: "rbind (Inl e) k = Inl e" "rbind (Inr x) k = k x"
  by (simp_all add: rbind_def)

lemma try_in_simps [simp]: "try_in st (Inl e) k = (Inl e, st)" "try_in st (Inr x) k = k x"
  by (simp_all add: try_in_def)

lemma ok_or_simps [simp]: "ok_or None e = Inl e" "ok_or (Some y) e = Inr y"
  by (simp_all add: ok_or_def)

lemma rbind_split: "P (rbind r k) \<longleftrightarrow> (\<forall>e. r = Inl e \<longrightarrow> P (Inl e)) \<and> (\<forall>x. r = Inr x \<longrightarrow> P (k x))"
  by (cases r) simp_all

lemma rbind_split_asm:
  "P (rbind r k) \<longleftrightarrow> \<not> ((\<exists>e. r = Inl e \<and> \<not> P (Inl e)) \<or> (\<exists>x. r = Inr x \<and> \<not> P (k x)))"
  by (cases r) simp_all

lemma try_in_split:
  "P (try_in st r k) \<longleftrightarrow> (\<forall>e. r = Inl e \<longrightarrow> P (Inl e, st)) \<and> (\<forall>x. r = Inr x \<longrightarrow> P (k x))"
  by (cases r) simp_all

lemma try_in_split_asm:
  "P (try_in st r k) \<longleftrightarrow> \<not> ((\<exists>e. r = Inl e \<and> \<not> P (Inl e, st)) \<or> (\<exists>x. r = Inr x \<and> \<not> P (k x)))"
  by (cases r) simp_all

lemmas result_splits = rbind_split rbind_split_asm try_in_split try_in_split_asm

lemma ok_or_eq_Inr [simp]: "ok_or x e = Inr y \<longleftrightarrow> x = Some y"
  by (cases x) simp_all

lemma ok_or_eq_Inl [simp]: "ok_or x e = Inl e' \<longleftrightarrow> x = None \<and> e' = e"
  by (cases x) auto

lemma rbind_eq_Inr: "rbind r k = Inr y \<longleftrightarrow> (\<exists>x. r = Inr x \<and> k x = Inr y)"
  by (cases r) simp_all

text \<open>A handler that checks first and writes last keeps the state when it fails.\<close>

definition err_keeps :: "'s \<Rightarrow> ('e + 'a) \<times> 's \<Rightarrow> bool" where
  "err_keeps st res \<longleftrightarrow> (\<forall>e. fst res = Inl e \<longrightarrow> snd res = st)"

lemma err_keeps_simps [simp]: "err_keeps st (Inl e, st)" "err_keeps st (Inr x, st')"
  by (simp_all add: err_keeps_def)

lemma err_keeps_try_in: "(\<And>x. m = Inr x \<Longrightarrow> err_keeps st (k x)) \<Longrightarrow> err_keeps st (try_in st m k)"
  by (simp split: try_in_split)

section \<open>Strings\<close>

type_synonym str = "nat list"

definition lit :: "string \<Rightarrow> str" where
  "lit s = map of_char s"

lemma lit_eq_iff [simp]: "lit s = lit t \<longleftrightarrow> s = t"
  by (auto simp: lit_def inj_map_eq_map inj_def)

lemma length_lit [simp]: "length (lit s) = length s"
  by (simp add: lit_def)

text \<open>The 25 code points with the property \<open>White_Space\<close>, which \<open>str::trim\<close> removes.\<close>

definition is_whitespace :: "nat \<Rightarrow> bool" where
  "is_whitespace c \<longleftrightarrow> (9 \<le> c \<and> c \<le> 13) \<or> c = 32 \<or> c = 133 \<or> c = 160 \<or> c = 5760 \<or>
     (8192 \<le> c \<and> c \<le> 8202) \<or> c = 8232 \<or> c = 8233 \<or> c = 8239 \<or> c = 8287 \<or> c = 12288"

lemma is_whitespace_code [code]:
  "is_whitespace c \<longleftrightarrow> (if c < 128 then (9 \<le> c \<and> c \<le> 13) \<or> c = 32
     else c = 133 \<or> c = 160 \<or> c = 5760 \<or> (8192 \<le> c \<and> c \<le> 8202) \<or> c = 8232 \<or> c = 8233 \<or> c = 8239 \<or>
       c = 8287 \<or> c = 12288)"
  by (auto simp: is_whitespace_def)

definition is_control :: "nat \<Rightarrow> bool" where
  "is_control c \<longleftrightarrow> c < 32 \<or> (127 \<le> c \<and> c \<le> 159)"

definition is_ascii_uppercase :: "nat \<Rightarrow> bool" where
  "is_ascii_uppercase c \<longleftrightarrow> 65 \<le> c \<and> c \<le> 90"

definition is_ascii_digit :: "nat \<Rightarrow> bool" where
  "is_ascii_digit c \<longleftrightarrow> 48 \<le> c \<and> c \<le> 57"

definition trim :: "str \<Rightarrow> str" where
  "trim s = rev (dropWhile is_whitespace (rev (dropWhile is_whitespace s)))"

definition utf8_width :: "nat \<Rightarrow> nat" where
  "utf8_width c = (if c < 128 then 1 else if c < 2048 then 2 else if c < 65536 then 3 else 4)"

definition byte_len :: "str \<Rightarrow> nat" where
  "byte_len s = sum_list (map utf8_width s)"

definition starts_with :: "str \<Rightarrow> str \<Rightarrow> bool" where
  "starts_with p s \<longleftrightarrow> take (length p) s = p"

definition strip_prefix :: "str \<Rightarrow> str \<Rightarrow> str option" where
  "strip_prefix p s = (if starts_with p s then Some (drop (length p) s) else None)"

lemma length_trim_le: "length (trim s) \<le> length s"
  unfolding trim_def by (metis length_dropWhile_le length_rev order_trans)

lemma trim_idem [simp]: "trim (trim s) = trim s"
proof -
  define t where "t = dropWhile is_whitespace s"
  have hd_t: "t = [] \<or> \<not> is_whitespace (hd t)"
    unfolding t_def using hd_dropWhile by blast
  have "dropWhile is_whitespace (rev (dropWhile is_whitespace (rev t))) =
        rev (dropWhile is_whitespace (rev t))"
  proof (cases "dropWhile is_whitespace (rev t) = []")
    case False
    then have "last (dropWhile is_whitespace (rev t)) = last (rev t)"
      by (metis last_appendR takeWhile_dropWhile_id)
    moreover from False have "t \<noteq> []"
      by auto
    ultimately have "hd (rev (dropWhile is_whitespace (rev t))) = hd t"
      using False by (simp add: hd_rev last_rev)
    with hd_t \<open>t \<noteq> []\<close> show ?thesis
      by (simp add: dropWhile_eq_self_iff)
  next
    case True
    show ?thesis unfolding True by simp
  qed
  then show ?thesis
    by (simp add: trim_def t_def [symmetric])
qed

lemma strip_prefix_Some: "strip_prefix p s = Some r \<Longrightarrow> s = p @ r"
  by (auto simp: strip_prefix_def starts_with_def split: if_splits) (metis append_take_drop_id)


section \<open>JSON values\<close>

text \<open>
  \<open>serde_json::Value\<close>. An object is the list of its entries in ascending key order, which is
  how the crate's default \<open>BTreeMap\<close> representation iterates. Indexing a missing key or a
  value that is no object yields \<open>Null\<close>; \<open>get\<close> yields \<open>None\<close> instead.
\<close>

datatype number = NPos u64 | NNeg i64 | NFloat "64 word"

datatype json =
    JNull
  | JBool bool
  | JNum number
  | JStr str
  | JArr "json list"
  | JObj "(str \<times> json) list"

fun jget :: "json \<Rightarrow> str \<Rightarrow> json option" where
  "jget (JObj m) k = map_of m k"
| "jget _ k = None"

definition jindex :: "json \<Rightarrow> str \<Rightarrow> json" where
  "jindex v k = (case jget v k of None \<Rightarrow> JNull | Some x \<Rightarrow> x)"

fun as_str :: "json \<Rightarrow> str option" where
  "as_str (JStr s) = Some s"
| "as_str _ = None"

fun as_u64 :: "json \<Rightarrow> u64 option" where
  "as_u64 (JNum (NPos n)) = Some n"
| "as_u64 _ = None"

fun as_array :: "json \<Rightarrow> json list option" where
  "as_array (JArr xs) = Some xs"
| "as_array _ = None"

fun is_object :: "json \<Rightarrow> bool" where
  "is_object (JObj _) = True"
| "is_object _ = False"

lemma as_str_eq_Some [simp]: "as_str v = Some s \<longleftrightarrow> v = JStr s"
  by (cases v) auto

section \<open>Iterators\<close>

text \<open>\<open>Iterator::max_by_key\<close> keeps the last of several greatest elements.\<close>

definition max_by_key :: "('a \<Rightarrow> 'k::linorder) \<Rightarrow> 'a list \<Rightarrow> 'a option" where
  "max_by_key f xs =
     fold (\<lambda>x best. case best of None \<Rightarrow> Some x | Some y \<Rightarrow> if f y \<le> f x then Some x else Some y)
       xs None"

lemma max_by_key_fold:
  "fold (\<lambda>x best. case best of None \<Rightarrow> Some x | Some y \<Rightarrow> if f y \<le> f x then Some x else Some y) xs b
     = (case b of None \<Rightarrow> max_by_key f xs
        | Some y \<Rightarrow> (case max_by_key f xs of None \<Rightarrow> Some y
                     | Some z \<Rightarrow> if f y \<le> f z then Some z else Some y))"
proof (induction xs arbitrary: b)
  case Nil
  show ?case by (simp add: max_by_key_def split: option.split)
next
  case (Cons x xs)
  let ?g = "\<lambda>x best. case best of None \<Rightarrow> Some x | Some y \<Rightarrow> if f y \<le> f x then Some x else Some y"
  have mk: "max_by_key f (x # xs) = fold ?g xs (Some x)"
    by (simp add: max_by_key_def)
  show ?case
  proof (cases b)
    case None
    then show ?thesis by (simp add: mk)
  next
    case (Some y)
    show ?thesis
      unfolding mk using Some Cons.IH[of "Some x"] Cons.IH[of "Some y"]
      by (auto split: option.split)
  qed
qed

lemma max_by_key_simps [simp]:
  "max_by_key f [] = None"
  "max_by_key f (x # xs) =
     (case max_by_key f xs of None \<Rightarrow> Some x | Some z \<Rightarrow> if f x \<le> f z then Some z else Some x)"
proof -
  show "max_by_key f [] = None" by (simp add: max_by_key_def)
  have "max_by_key f (x # xs) =
    fold (\<lambda>x best. case best of None \<Rightarrow> Some x | Some y \<Rightarrow> if f y \<le> f x then Some x else Some y)
      xs (Some x)"
    by (simp add: max_by_key_def)
  also have "\<dots> = (case max_by_key f xs of None \<Rightarrow> Some x
      | Some z \<Rightarrow> if f x \<le> f z then Some z else Some x)"
    by (simp only: max_by_key_fold option.case)
  finally show "max_by_key f (x # xs) = \<dots>" .
qed

lemma max_by_key_None_iff [simp]: "max_by_key f xs = None \<longleftrightarrow> xs = []"
  by (cases xs) (auto split: option.split)

lemma max_by_key_in: "max_by_key f xs = Some x \<Longrightarrow> x \<in> set xs"
  by (induction xs arbitrary: x) (auto split: option.splits if_splits)

lemma max_by_key_ge: "max_by_key f xs = Some x \<Longrightarrow> y \<in> set xs \<Longrightarrow> f y \<le> f x"
  by (induction xs arbitrary: x) (auto split: option.splits if_splits intro: order_trans)

fun find_index :: "('a \<Rightarrow> bool) \<Rightarrow> 'a list \<Rightarrow> nat option" where
  "find_index p [] = None"
| "find_index p (x # xs) = (if p x then Some 0 else map_option Suc (find_index p xs))"

lemma find_index_None_iff: "find_index p xs = None \<longleftrightarrow> (\<forall>x\<in>set xs. \<not> p x)"
  by (induction xs) auto

lemma find_index_Some:
  "find_index p xs = Some i \<Longrightarrow> i < length xs \<and> p (xs ! i) \<and> (\<forall>j<i. \<not> p (xs ! j))"
  by (induction xs arbitrary: i) (auto simp: nth_Cons split: if_splits nat.split)

lemma find_index_iff_find:
  "List.find p xs = map_option (nth xs) (find_index p xs)"
  by (induction xs) (auto simp: option.map_comp comp_def)

text \<open>Updating the first element that \<open>iter_mut().find(p)\<close> returns.\<close>

definition update_first :: "('a \<Rightarrow> bool) \<Rightarrow> ('a \<Rightarrow> 'a) \<Rightarrow> 'a list \<Rightarrow> 'a list" where
  "update_first p f xs = (case find_index p xs of None \<Rightarrow> xs | Some i \<Rightarrow> xs[i := f (xs ! i)])"

lemma length_update_first [simp]: "length (update_first p f xs) = length xs"
  by (simp add: update_first_def split: option.split)

lemma update_first_simps [simp]:
  "update_first p f [] = []"
  "update_first p f (x # xs) = (if p x then f x # xs else x # update_first p f xs)"
  by (auto simp: update_first_def split: option.split)

lemma set_update_first: "set (update_first p f xs) \<subseteq> set xs \<union> {f x | x. x \<in> set xs \<and> p x}"
  by (induction xs) auto

lemma find_SomeD: "find p xs = Some x \<Longrightarrow> x \<in> set xs \<and> p x"
  by (induction xs) (auto split: if_splits)

text \<open>Sorting by a key that identifies the elements forgets the order of the input.\<close>

lemma filter_eq_rep: "filter (\<lambda>x. k = x) zs = replicate (count (mset zs) k) k"
  by (induction zs) auto

lemma sort_key_perm:
  assumes "mset xs = mset ys" and "inj_on f (set xs)"
  shows "sort_key f xs = sort_key f ys"
proof (rule properties_for_sort_key)
  show "mset (sort_key f ys) = mset xs" using assms(1) by simp
  have set: "set xs = set ys" using assms(1) by (metis set_mset_mset)
  fix k
  assume "k \<in> set (sort_key f ys)"
  then have k: "k \<in> set xs" using set by simp
  have flt: "filter (\<lambda>x. f k = f x) zs = replicate (count (mset xs) k) k" if zs: "mset zs = mset xs" for zs
  proof -
    have "set zs = set xs" using zs by (metis set_mset_mset)
    then have "filter (\<lambda>x. f k = f x) zs = filter (\<lambda>x. k = x) zs"
      using assms(2) k by (intro filter_cong) (auto dest: inj_onD)
    then show ?thesis by (simp add: filter_eq_rep zs)
  qed
  show "filter (\<lambda>x. f k = f x) (sort_key f ys) = filter (\<lambda>x. f k = f x) xs"
    using flt [of "sort_key f ys"] flt [of xs] assms(1) by simp
qed simp

end
