(* ===== verification/Platform.thy ===== *)
theory Platform
  imports Prelude
begin

text \<open>
  The contracts every component shares: typed identifiers (\<open>projects/tenancy.rs\<close>, and the
  macro of the same shape in \<open>agent/mod.rs\<close>), tenant scopes, the error value
  (\<open>error.rs\<close>), the event envelope (\<open>event.rs\<close>) and the operation handle
  (\<open>operation.rs\<close>).
\<close>

section \<open>Errors\<close>

datatype error_code =
    InvalidRequest
  | Unauthorized
  | Forbidden
  | NotFound
  | Conflict
  | NotReady
  | CapabilityMissing
  | DependencyUnavailable
  | Internal

fun default_status :: "error_code \<Rightarrow> nat" where
  "default_status InvalidRequest = 400"
| "default_status Unauthorized = 401"
| "default_status Forbidden = 403"
| "default_status NotFound = 404"
| "default_status Conflict = 409"
| "default_status NotReady = 503"
| "default_status CapabilityMissing = 503"
| "default_status DependencyUnavailable = 503"
| "default_status Internal = 500"

record app_error =
  err_code :: error_code
  err_message :: str
  err_details :: "json option"

type_synonym 'a result = "app_error + 'a"

definition app_error_new :: "error_code \<Rightarrow> str \<Rightarrow> app_error" where
  "app_error_new c m = \<lparr>err_code = c, err_message = m, err_details = None\<rparr>"

definition with_details :: "app_error \<Rightarrow> json \<Rightarrow> app_error" where
  "with_details e d = e\<lparr>err_details := Some d\<rparr>"

definition invalid_request :: "str \<Rightarrow> app_error" where
  "invalid_request m = app_error_new InvalidRequest m"

definition not_found :: "str \<Rightarrow> app_error" where
  "not_found m = app_error_new NotFound m"

definition unauthorized :: "str \<Rightarrow> app_error" where
  "unauthorized m = app_error_new Unauthorized m"

definition forbidden :: "str \<Rightarrow> app_error" where
  "forbidden m = app_error_new Forbidden m"

definition conflict :: "str \<Rightarrow> app_error" where
  "conflict m = app_error_new Conflict m"

definition not_ready :: "str \<Rightarrow> app_error" where
  "not_ready m = app_error_new NotReady m"

definition capability_missing :: "str \<Rightarrow> app_error" where
  "capability_missing m = app_error_new CapabilityMissing m"

lemmas error_defs = app_error_new_def invalid_request_def not_found_def unauthorized_def
  forbidden_def conflict_def not_ready_def capability_missing_def

lemma err_code_simps [simp]:
  "err_code (app_error_new c m) = c"
  "err_code (invalid_request m) = InvalidRequest"
  "err_code (not_found m) = NotFound"
  "err_code (unauthorized m) = Unauthorized"
  "err_code (forbidden m) = Forbidden"
  "err_code (conflict m) = Conflict"
  "err_code (not_ready m) = NotReady"
  "err_code (capability_missing m) = CapabilityMissing"
  by (simp_all add: error_defs)

section \<open>Typed identifiers\<close>

text \<open>
  The identifier macros wrap a UUID in one type per name. Here the name is a phantom tag, so
  that the types stay distinct and share one order, the derived one.
\<close>

datatype 'tag ident = Ident (as_uuid: uuid)

instantiation ident :: (type) linorder
begin

definition less_eq_ident :: "'a ident \<Rightarrow> 'a ident \<Rightarrow> bool" where
  "less_eq_ident x y \<longleftrightarrow> as_uuid x \<le> as_uuid y"

definition less_ident :: "'a ident \<Rightarrow> 'a ident \<Rightarrow> bool" where
  "less_ident x y \<longleftrightarrow> as_uuid x < as_uuid y"

instance
proof
  fix x y z :: "'a ident"
  show "x < y \<longleftrightarrow> x \<le> y \<and> \<not> y \<le> x"
    by (auto simp: less_eq_ident_def less_ident_def)
  show "x \<le> x"
    by (simp add: less_eq_ident_def)
  show "x \<le> y \<Longrightarrow> y \<le> z \<Longrightarrow> x \<le> z"
    by (simp add: less_eq_ident_def)
  show "x \<le> y \<Longrightarrow> y \<le> x \<Longrightarrow> x = y"
    by (simp add: less_eq_ident_def ident.expand)
  show "x \<le> y \<or> y \<le> x"
    by (auto simp: less_eq_ident_def)
qed

end

datatype operator_tag = OperatorTag
datatype tenant_tag = TenantTag
datatype project_tag = ProjectTag
datatype user_tag = UserTag

type_synonym operator_id = "operator_tag ident"
type_synonym tenant_id = "tenant_tag ident"
type_synonym project_id = "project_tag ident"
type_synonym user_id = "user_tag ident"

section \<open>Tenant scopes\<close>

record tenant_scope_id =
  tsi_operator_id :: operator_id
  tsi_tenant_id :: tenant_id

record tenant_scope =
  ts_operator_id :: operator_id
  ts_tenant_id :: tenant_id
  ts_project_id :: "project_id option"

definition tenant_scope_new :: "operator_id \<Rightarrow> tenant_id \<Rightarrow> project_id option \<Rightarrow> tenant_scope" where
  "tenant_scope_new o_id t_id p_id =
     \<lparr>ts_operator_id = o_id, ts_tenant_id = t_id, ts_project_id = p_id\<rparr>"

definition scope_tenant :: "tenant_scope \<Rightarrow> tenant_scope_id" where
  "scope_tenant s = \<lparr>tsi_operator_id = ts_operator_id s, tsi_tenant_id = ts_tenant_id s\<rparr>"

definition scope_contains :: "tenant_scope \<Rightarrow> tenant_scope \<Rightarrow> bool" where
  "scope_contains s c \<longleftrightarrow>
     ts_operator_id s = ts_operator_id c \<and> ts_tenant_id s = ts_tenant_id c \<and>
     (case ts_project_id s of None \<Rightarrow> True | Some p \<Rightarrow> ts_project_id c = Some p)"

text \<open>The UUID crate renders an identifier; \<open>storage_key\<close> takes its \<open>Display\<close> as a parameter.\<close>

definition tenant_storage_key :: "(uuid \<Rightarrow> str) \<Rightarrow> tenant_scope_id \<Rightarrow> str" where
  "tenant_storage_key show_uuid s =
     show_uuid (as_uuid (tsi_operator_id s)) @ lit '':'' @ show_uuid (as_uuid (tsi_tenant_id s))"

definition storage_key :: "(uuid \<Rightarrow> str) \<Rightarrow> tenant_scope \<Rightarrow> str" where
  "storage_key show_uuid s = (case ts_project_id s of
       Some p \<Rightarrow> show_uuid (as_uuid (ts_operator_id s)) @ lit '':'' @
                 show_uuid (as_uuid (ts_tenant_id s)) @ lit '':'' @ show_uuid (as_uuid p)
     | None \<Rightarrow> tenant_storage_key show_uuid (scope_tenant s))"

lemma scope_contains_refl [simp]: "scope_contains s s"
  by (simp add: scope_contains_def split: option.split)

lemma scope_contains_trans: "scope_contains a b \<Longrightarrow> scope_contains b c \<Longrightarrow> scope_contains a c"
  by (auto simp: scope_contains_def split: option.splits)

lemma scope_contains_antisym: "scope_contains a b \<Longrightarrow> scope_contains b a \<Longrightarrow> a = b"
  by (auto simp: scope_contains_def intro!: tenant_scope.equality split: option.splits)

lemma scope_contains_tenant: "scope_contains a b \<Longrightarrow> scope_tenant a = scope_tenant b"
  by (simp add: scope_contains_def scope_tenant_def)

lemma scope_contains_project:
  "ts_project_id s = Some p \<Longrightarrow> scope_contains s c \<Longrightarrow> c = s"
  by (auto simp: scope_contains_def intro!: tenant_scope.equality)

lemma tenant_scope_new_sel [simp]:
  "ts_operator_id (tenant_scope_new o_id t_id p_id) = o_id"
  "ts_tenant_id (tenant_scope_new o_id t_id p_id) = t_id"
  "ts_project_id (tenant_scope_new o_id t_id p_id) = p_id"
  by (simp_all add: tenant_scope_new_def)

section \<open>Draws from the environment\<close>

text \<open>
  A handler calls \<open>Uuid::new_v4()\<close> and \<open>Utc::now()\<close>. \<open>draws\<close> is what these calls return
  during one execution of the handler: \<open>uuid_at d i\<close> is the result of its \<open>i\<close>-th call of
  \<open>new_v4\<close> and \<open>now_at d i\<close> the result of its \<open>i\<close>-th reading of the clock, both counted from
  0 in program order.
\<close>

record draws =
  uuid_at :: "nat \<Rightarrow> uuid"
  now_at :: "nat \<Rightarrow> instant"

definition fresh_ident :: "draws \<Rightarrow> nat \<Rightarrow> 'tag ident" where
  "fresh_ident d i = Ident (uuid_at d i)"

section \<open>Event envelopes and operation handles\<close>

record event_envelope =
  ee_event_id :: uuid
  ee_event_type :: str
  ee_schema_version :: u32
  ee_operator_id :: operator_id
  ee_tenant_id :: tenant_id
  ee_project_id :: "project_id option"
  ee_cycle_id :: "uuid option"
  ee_aggregate_id :: uuid
  ee_aggregate_version :: u64
  ee_occurred_at :: instant
  ee_correlation_id :: uuid
  ee_causation_id :: "uuid option"
  ee_payload_ref :: "str option"

definition event_envelope_new ::
  "draws \<Rightarrow> str \<Rightarrow> tenant_scope \<Rightarrow> uuid \<Rightarrow> u64 \<Rightarrow> uuid \<Rightarrow> event_envelope" where
  "event_envelope_new d event_type scope aggregate_id aggregate_version correlation_id =
     \<lparr>ee_event_id = uuid_at d 0, ee_event_type = event_type, ee_schema_version = 1,
      ee_operator_id = ts_operator_id scope, ee_tenant_id = ts_tenant_id scope,
      ee_project_id = ts_project_id scope, ee_cycle_id = None, ee_aggregate_id = aggregate_id,
      ee_aggregate_version = aggregate_version, ee_occurred_at = now_at d 0,
      ee_correlation_id = correlation_id, ee_causation_id = None, ee_payload_ref = None\<rparr>"

definition envelope_scope :: "event_envelope \<Rightarrow> tenant_scope" where
  "envelope_scope e = tenant_scope_new (ee_operator_id e) (ee_tenant_id e) (ee_project_id e)"

lemma envelope_scope_new [simp]: "envelope_scope (event_envelope_new d ty scope a v c) = scope"
  by (simp add: envelope_scope_def event_envelope_new_def tenant_scope_new_def)

datatype operation_status = OpQueued | OpRunning | OpSucceeded | OpFailed

record operation =
  op_id :: uuid
  op_kind :: str
  op_status :: operation_status
  op_scope :: tenant_scope
  op_result :: "json option"
  op_error :: "app_error option"
  op_created_at :: instant
  op_updated_at :: instant

definition operation_queued :: "draws \<Rightarrow> str \<Rightarrow> tenant_scope \<Rightarrow> operation" where
  "operation_queued d kind scope =
     \<lparr>op_id = uuid_at d 0, op_kind = kind, op_status = OpQueued, op_scope = scope,
      op_result = None, op_error = None, op_created_at = now_at d 0, op_updated_at = now_at d 0\<rparr>"

end
