(* ===== verification/Hash_Maps.thy ===== *)
theory Hash_Maps
  imports Prelude
begin

text \<open>
  Hash maps as association lists, with the interface the components use stated as the
  locale \<open>dictionary\<close> and discharged on the association-list operations. The locale
  \<open>keyed_dictionary\<close> adds the convention all in-memory repositories follow: a record is
  stored under the identifier it carries.
\<close>

type_synonym ('k, 'v) hash_map = "('k \<times> 'v) list"

definition hm_get :: "('k, 'v) hash_map \<Rightarrow> 'k \<Rightarrow> 'v option" where
  "hm_get m k = map_of m k"

definition hm_insert :: "'k \<Rightarrow> 'v \<Rightarrow> ('k, 'v) hash_map \<Rightarrow> ('k, 'v) hash_map" where
  "hm_insert k v m = AList.update k v m"

definition hm_remove :: "'k \<Rightarrow> ('k, 'v) hash_map \<Rightarrow> ('k, 'v) hash_map" where
  "hm_remove k m = AList.delete k m"

definition hm_values :: "('k, 'v) hash_map \<Rightarrow> 'v list" where
  "hm_values m = map snd m"

definition hm_contains :: "('k, 'v) hash_map \<Rightarrow> 'k \<Rightarrow> bool" where
  "hm_contains m k \<longleftrightarrow> hm_get m k \<noteq> None"

definition hm_wf :: "('k, 'v) hash_map \<Rightarrow> bool" where
  "hm_wf m \<longleftrightarrow> distinct (map fst m)"

text \<open>\<open>entry(k).and_modify(|n| *n += 1).or_insert(1)\<close> on a map of counters: the counter after
  the call, and the map.\<close>

definition hm_bump :: "'k \<Rightarrow> ('k, u64) hash_map \<Rightarrow> u64 \<times> ('k, u64) hash_map" where
  "hm_bump k m = (let n = (case hm_get m k of None \<Rightarrow> 1 | Some s \<Rightarrow> s + 1) in (n, hm_insert k n m))"

section \<open>The interface\<close>

locale dictionary =
  fixes empty :: 'm
    and lookup :: "'m \<Rightarrow> 'k \<Rightarrow> 'v option"
    and insert :: "'k \<Rightarrow> 'v \<Rightarrow> 'm \<Rightarrow> 'm"
    and remove :: "'k \<Rightarrow> 'm \<Rightarrow> 'm"
    and vals :: "'m \<Rightarrow> 'v list"
    and wf :: "'m \<Rightarrow> bool"
  assumes lookup_empty: "lookup empty k = None"
    and lookup_insert: "lookup (insert k v m) k' = (if k' = k then Some v else lookup m k')"
    and lookup_remove: "wf m \<Longrightarrow> lookup (remove k m) k' = (if k' = k then None else lookup m k')"
    and wf_empty: "wf empty"
    and wf_insert: "wf m \<Longrightarrow> wf (insert k v m)"
    and wf_remove: "wf m \<Longrightarrow> wf (remove k m)"
    and vals_iff: "wf m \<Longrightarrow> v \<in> set (vals m) \<longleftrightarrow> (\<exists>k. lookup m k = Some v)"
begin

lemma vals_insertD: "wf m \<Longrightarrow> v' \<in> set (vals (insert k v m)) \<Longrightarrow> v' = v \<or> v' \<in> set (vals m)"
  by (auto simp: vals_iff wf_insert lookup_insert split: if_splits)

lemma vals_insert_new: "wf m \<Longrightarrow> v \<in> set (vals (insert k v m))"
  by (auto simp: vals_iff wf_insert lookup_insert)

lemma vals_removeD: "wf m \<Longrightarrow> v \<in> set (vals (remove k m)) \<Longrightarrow> v \<in> set (vals m)"
  by (auto simp: vals_iff wf_remove lookup_remove split: if_splits)

lemma lookup_in_vals: "wf m \<Longrightarrow> lookup m k = Some v \<Longrightarrow> v \<in> set (vals m)"
  by (auto simp: vals_iff)

end

locale keyed_dictionary = dictionary empty lookup insert remove vals wf
  for empty :: 'm
    and lookup :: "'m \<Rightarrow> 'k \<Rightarrow> 'v option"
    and insert :: "'k \<Rightarrow> 'v \<Rightarrow> 'm \<Rightarrow> 'm"
    and remove :: "'k \<Rightarrow> 'm \<Rightarrow> 'm"
    and vals :: "'m \<Rightarrow> 'v list"
    and wf :: "'m \<Rightarrow> bool" +
  fixes key :: "'v \<Rightarrow> 'k"
begin

definition keyed :: "'m \<Rightarrow> bool" where
  "keyed m \<longleftrightarrow> (\<forall>k v. lookup m k = Some v \<longrightarrow> key v = k)"

lemma keyed_empty: "keyed empty"
  by (simp add: keyed_def lookup_empty)

lemma keyed_insert: "keyed m \<Longrightarrow> key v = k \<Longrightarrow> keyed (insert k v m)"
  by (simp add: keyed_def lookup_insert)

lemma keyed_remove: "wf m \<Longrightarrow> keyed m \<Longrightarrow> keyed (remove k m)"
  by (simp add: keyed_def lookup_remove)

lemma keyed_lookup: "keyed m \<Longrightarrow> lookup m k = Some v \<Longrightarrow> key v = k"
  by (simp add: keyed_def)

lemma keyed_vals: "wf m \<Longrightarrow> keyed m \<Longrightarrow> v \<in> set (vals m) \<longleftrightarrow> lookup m (key v) = Some v"
  by (auto simp: vals_iff keyed_def)

end

section \<open>Association lists implement it\<close>

interpretation hm: dictionary "[]" hm_get hm_insert hm_remove hm_values hm_wf
proof unfold_locales
  fix m :: "('k, 'v) hash_map" and v
  assume "hm_wf m"
  then show "v \<in> set (hm_values m) \<longleftrightarrow> (\<exists>k. hm_get m k = Some v)"
    by (force simp: hm_wf_def hm_values_def hm_get_def)
qed (simp_all add: hm_get_def hm_insert_def hm_remove_def hm_wf_def update_conv' delete_conv'
      distinct_update distinct_delete)

declare hm.lookup_empty [simp, hm_simps]
declare hm.lookup_insert [simp, hm_simps]
declare hm.wf_empty [simp, intro]
declare hm.wf_insert [simp, intro]
declare hm.wf_remove [simp, intro]

lemma hm_ex_insert:
  assumes "hm_get m k = None"
  shows "(\<exists>x a. hm_get (hm_insert k v m) x = Some a \<and> P a) \<longleftrightarrow> P v \<or> (\<exists>x a. hm_get m x = Some a \<and> P a)"
proof
  assume "P v \<or> (\<exists>x a. hm_get m x = Some a \<and> P a)"
  then show "\<exists>x a. hm_get (hm_insert k v m) x = Some a \<and> P a"
  proof
    assume "P v"
    then show ?thesis by (auto intro!: exI [of _ k])
  next
    assume "\<exists>x a. hm_get m x = Some a \<and> P a"
    then obtain x a where "hm_get m x = Some a" "P a" by blast
    with assms show ?thesis by (auto intro!: exI [of _ x])
  qed
qed (auto split: if_splits)

text \<open>A record type becomes a keyed map by naming the field it is stored under.\<close>

interpretation hmk: keyed_dictionary "[]" hm_get hm_insert hm_remove hm_values hm_wf key
  for key :: "'v \<Rightarrow> 'k"
  by unfold_locales

abbreviation hm_keyed :: "('v \<Rightarrow> 'k) \<Rightarrow> ('k, 'v) hash_map \<Rightarrow> bool" where
  "hm_keyed key m \<equiv> keyed_dictionary.keyed hm_get key m"

section \<open>Maps that only grow\<close>

definition grows :: "('v \<Rightarrow> 'v \<Rightarrow> bool) \<Rightarrow> ('k, 'v) hash_map \<Rightarrow> ('k, 'v) hash_map \<Rightarrow> bool" where
  "grows le m m' \<longleftrightarrow> (\<forall>k v. hm_get m k = Some v \<longrightarrow> (\<exists>v'. hm_get m' k = Some v' \<and> le v v'))"

lemma grows_refl: "(\<And>v. le v v) \<Longrightarrow> grows le m m"
  by (simp add: grows_def)

lemma grows_trans:
  assumes "\<And>x y z. le x y \<Longrightarrow> le y z \<Longrightarrow> le x z" and "grows le a b" and "grows le b c"
  shows "grows le a c"
  using assms unfolding grows_def by blast

lemma grows_insert:
  "(\<And>v. le v v) \<Longrightarrow> (\<And>w. hm_get m k = Some w \<Longrightarrow> le w v) \<Longrightarrow> grows le m (hm_insert k v m)"
  by (simp add: grows_def)

end
