(* ===== verification/Agent_Types.thy ===== *)
theory Agent_Types
  imports Platform Hash_Maps
begin

text \<open>
  The data model of \<open>crates/domain/src/agent/mod.rs\<close>: conversations, messages, turns, runs,
  conversation events, checkpoints, the tool-call ledger, and the state of
  \<open>MemoryAgentRepository\<close>. Record fields carry the struct's field name behind a prefix that
  names the struct.
\<close>

datatype conversation_tag = ConversationTag
datatype message_tag = MessageTag
datatype turn_tag = TurnTag
datatype run_tag = RunTag
datatype event_tag = EventTag
datatype attachment_tag = AttachmentTag
datatype checkpoint_tag = CheckpointTag
datatype ledger_tag = LedgerTag

type_synonym conversation_id = "conversation_tag ident"
type_synonym message_id = "message_tag ident"
type_synonym turn_id = "turn_tag ident"
type_synonym run_id = "run_tag ident"
type_synonym conversation_event_id = "event_tag ident"
type_synonym attachment_id = "attachment_tag ident"
type_synonym checkpoint_id = "checkpoint_tag ident"
type_synonym tool_call_ledger_id = "ledger_tag ident"

record object_ref =
  or_object_id :: str
  or_version :: "str option"

record attachment_reference =
  at_attachment_id :: attachment_id
  at_object_id :: str
  at_filename :: str
  at_media_type :: "str option"
  at_size_bytes :: "u64 option"
  at_sha256 :: "str option"
  at_object_version :: "str option"

definition attachment_object_ref :: "attachment_reference \<Rightarrow> object_ref" where
  "attachment_object_ref a = \<lparr>or_object_id = at_object_id a, or_version = at_object_version a\<rparr>"

datatype conversation_status = ConvActive | ConvArchived
datatype message_role = RoleUser | RoleAssistant | RoleSystem | RoleTool
datatype turn_status = TurnQueued | TurnRunning | TurnSucceeded | TurnFailed | TurnCancelled
datatype run_status = RunQueued | RunRunning | RunSucceeded | RunFailed | RunCancelled
datatype runtime_capability_status = CapAvailable | CapMissing | CapUnavailable

record runtime_capability =
  rc_status :: runtime_capability_status
  rc_runtime :: str
  rc_version :: "str option"
  rc_reason :: "str option"

definition capability_missing_rc :: "str \<Rightarrow> runtime_capability" where
  "capability_missing_rc reason =
     \<lparr>rc_status = CapMissing, rc_runtime = lit ''deno_core'', rc_version = None,
      rc_reason = Some reason\<rparr>"

definition capability_unavailable_rc :: "str \<Rightarrow> runtime_capability" where
  "capability_unavailable_rc reason =
     \<lparr>rc_status = CapUnavailable, rc_runtime = lit ''deno_core'', rc_version = None,
      rc_reason = Some reason\<rparr>"

definition capability_available_rc :: "str \<Rightarrow> str option \<Rightarrow> runtime_capability" where
  "capability_available_rc runtime version =
     \<lparr>rc_status = CapAvailable, rc_runtime = runtime, rc_version = version, rc_reason = None\<rparr>"

definition is_available :: "runtime_capability \<Rightarrow> bool" where
  "is_available c \<longleftrightarrow> rc_status c = CapAvailable"

record conversation =
  cv_id :: conversation_id
  cv_operator_id :: operator_id
  cv_tenant_id :: tenant_id
  cv_project_id :: project_id
  cv_created_by :: "user_id option"
  cv_title :: "str option"
  cv_status :: conversation_status
  cv_revision :: u64
  cv_created_at :: instant
  cv_updated_at :: instant

definition conversation_scope :: "conversation \<Rightarrow> tenant_scope" where
  "conversation_scope c =
     tenant_scope_new (cv_operator_id c) (cv_tenant_id c) (Some (cv_project_id c))"

record message =
  ms_id :: message_id
  ms_conversation_id :: conversation_id
  ms_operator_id :: operator_id
  ms_tenant_id :: tenant_id
  ms_project_id :: project_id
  ms_turn_id :: "turn_id option"
  ms_role :: message_role
  ms_content :: str
  ms_attachments :: "attachment_reference list"
  ms_metadata :: json
  ms_sequence :: u64
  ms_created_at :: instant

definition message_scope :: "message \<Rightarrow> tenant_scope" where
  "message_scope m = tenant_scope_new (ms_operator_id m) (ms_tenant_id m) (Some (ms_project_id m))"

record turn =
  tn_id :: turn_id
  tn_conversation_id :: conversation_id
  tn_root_message_id :: message_id
  tn_previous_turn_id :: "turn_id option"
  tn_run_id :: "run_id option"
  tn_status :: turn_status
  tn_cancel_version :: u64
  tn_created_at :: instant
  tn_updated_at :: instant

record agent_run =
  rn_id :: run_id
  rn_conversation_id :: conversation_id
  rn_turn_id :: turn_id
  rn_operator_id :: operator_id
  rn_tenant_id :: tenant_id
  rn_project_id :: project_id
  rn_status :: run_status
  rn_capability :: runtime_capability
  rn_error :: "app_error option"
  rn_cancel_version :: u64
  rn_created_at :: instant
  rn_updated_at :: instant

definition run_scope :: "agent_run \<Rightarrow> tenant_scope" where
  "run_scope r = tenant_scope_new (rn_operator_id r) (rn_tenant_id r) (Some (rn_project_id r))"

text \<open>The payloads \<open>json!\<close> builds, before serialization: one constructor per shape.\<close>

datatype event_payload =
    PConversation conversation_id
  | PMessage message
  | PTurnRun turn_id run_id
  | PRunStatus run_id run_status
  | PRunError run_id run_status app_error
  | PRunAbandoned run_id run_status app_error str
  | PRunCancelled run_id u64

record conversation_event =
  ce_id :: conversation_event_id
  ce_conversation_id :: conversation_id
  ce_operator_id :: operator_id
  ce_tenant_id :: tenant_id
  ce_project_id :: project_id
  ce_sequence :: u64
  ce_event_type :: str
  ce_turn_id :: "turn_id option"
  ce_run_id :: "run_id option"
  ce_payload :: event_payload
  ce_occurred_at :: instant

definition event_scope :: "conversation_event \<Rightarrow> tenant_scope" where
  "event_scope e = tenant_scope_new (ce_operator_id e) (ce_tenant_id e) (Some (ce_project_id e))"

datatype tool_call_decision = Allowed | Denied
datatype tool_call_outcome = OutIntent | OutAttempted | OutSucceeded | OutFailed | OutUnknown

record agent_checkpoint =
  cp_id :: checkpoint_id
  cp_run_id :: run_id
  cp_conversation_id :: conversation_id
  cp_operator_id :: operator_id
  cp_tenant_id :: tenant_id
  cp_project_id :: project_id
  cp_checkpoint_scope :: str
  cp_step_key :: str
  cp_input_hash :: str
  cp_result_ref :: "object_ref option"
  cp_version :: u64
  cp_state :: json
  cp_created_at :: instant
  cp_updated_at :: instant

definition checkpoint_scope_of :: "agent_checkpoint \<Rightarrow> tenant_scope" where
  "checkpoint_scope_of c =
     tenant_scope_new (cp_operator_id c) (cp_tenant_id c) (Some (cp_project_id c))"

record store_checkpoint_input =
  sc_checkpoint_scope :: str
  sc_step_key :: str
  sc_input_hash :: str
  sc_result_ref :: "object_ref option"
  sc_state :: json

record tool_call_ledger_entry =
  tl_id :: tool_call_ledger_id
  tl_run_id :: run_id
  tl_turn_id :: turn_id
  tl_conversation_id :: conversation_id
  tl_operator_id :: operator_id
  tl_tenant_id :: tenant_id
  tl_project_id :: project_id
  tl_tool_call_id :: str
  tl_tool_name :: str
  tl_arguments_hash :: str
  tl_idempotency_key_hash :: str
  tl_permission :: tool_call_decision
  tl_budget :: tool_call_decision
  tl_intent :: json
  tl_attempt_count :: u64
  tl_result_ref :: "object_ref option"
  tl_outcome :: tool_call_outcome
  tl_cost_minor :: "i64 option"
  tl_currency :: "str option"
  tl_created_at :: instant
  tl_updated_at :: instant

definition ledger_scope :: "tool_call_ledger_entry \<Rightarrow> tenant_scope" where
  "ledger_scope e = tenant_scope_new (tl_operator_id e) (tl_tenant_id e) (Some (tl_project_id e))"

record record_tool_call =
  rt_run_id :: run_id
  rt_tool_call_id :: str
  rt_tool_name :: str
  rt_arguments_hash :: str
  rt_idempotency_key_hash :: str
  rt_permission :: tool_call_decision
  rt_budget :: tool_call_decision
  rt_intent :: json
  rt_attempt_count :: u64
  rt_result_ref :: "object_ref option"
  rt_outcome :: tool_call_outcome
  rt_cost_minor :: "i64 option"
  rt_currency :: "str option"

record tool_call_identity =
  ti_run_id :: run_id
  ti_tool_call_id :: str
  ti_tool_name :: str
  ti_arguments_hash :: str
  ti_idempotency_key_hash :: str

definition identity_from_record :: "record_tool_call \<Rightarrow> tool_call_identity" where
  "identity_from_record i =
     \<lparr>ti_run_id = rt_run_id i, ti_tool_call_id = rt_tool_call_id i,
      ti_tool_name = rt_tool_name i, ti_arguments_hash = rt_arguments_hash i,
      ti_idempotency_key_hash = rt_idempotency_key_hash i\<rparr>"

definition identity_matches :: "tool_call_identity \<Rightarrow> tool_call_ledger_entry \<Rightarrow> bool" where
  "identity_matches i e \<longleftrightarrow>
     ti_run_id i = tl_run_id e \<and> ti_tool_call_id i = tl_tool_call_id e \<and>
     ti_tool_name i = tl_tool_name e \<and> ti_arguments_hash i = tl_arguments_hash e \<and>
     ti_idempotency_key_hash i = tl_idempotency_key_hash e"

record create_conversation_input =
  ci_title :: "str option"

record append_message_input =
  am_content :: str
  am_attachments :: "attachment_reference list"
  am_metadata :: json

record submit_acceptance =
  sa_conversation :: conversation
  sa_message :: message
  sa_turn :: turn
  sa_run :: agent_run
  sa_events_url :: str

record conversation_detail =
  cd_conversation :: conversation
  cd_messages :: "message list"
  cd_turns :: "turn list"
  cd_runs :: "agent_run list"

record turn_history_message =
  th_message_id :: message_id
  th_role :: message_role
  th_content :: str
  th_root_message_id :: message_id
  th_sequence :: u64

record turn_input =
  tu_conversation_id :: conversation_id
  tu_message_id :: message_id
  tu_turn_id :: turn_id
  tu_run_id :: run_id
  tu_prompt :: str
  tu_attachments :: "attachment_reference list"
  tu_history :: "turn_history_message list"
  tu_history_omitted_turns :: nat

datatype run_completion =
    CompletionSucceeded str json
  | CompletionFailed app_error

record run_transition =
  tr_run :: agent_run
  tr_turn :: turn
  tr_message :: "message option"

section \<open>Repository state\<close>

text \<open>
  \<open>AgentState\<close> together with the broadcast channel of \<open>MemoryAgentRepository\<close>, whose
  \<open>ag_live\<close> lists what has been sent on it, oldest first.
\<close>

record agent_state =
  ag_conversations :: "(conversation_id, conversation) hash_map"
  ag_messages :: "(message_id, message) hash_map"
  ag_turns :: "(turn_id, turn) hash_map"
  ag_runs :: "(run_id, agent_run) hash_map"
  ag_events :: "(conversation_id, conversation_event list) hash_map"
  ag_next_message_sequence :: "(conversation_id, u64) hash_map"
  ag_next_event_sequence :: "(conversation_id, u64) hash_map"
  ag_idempotent_submissions ::
    "(str \<times> conversation_id, str \<times> submit_acceptance) hash_map"
  ag_checkpoints :: "(run_id \<times> str \<times> str, agent_checkpoint) hash_map"
  ag_tool_calls :: "(run_id \<times> str, tool_call_ledger_entry) hash_map"
  ag_live :: "conversation_event list"

definition agent_state_default :: agent_state where
  "agent_state_default =
     \<lparr>ag_conversations = [], ag_messages = [], ag_turns = [], ag_runs = [], ag_events = [],
      ag_next_message_sequence = [], ag_next_event_sequence = [],
      ag_idempotent_submissions = [], ag_checkpoints = [], ag_tool_calls = [], ag_live = []\<rparr>"

end
