(* ===== verification/Agent_Validate.thy ===== *)
theory Agent_Validate
  imports Agent_Types
begin

text \<open>
  The input validators of \<open>agent/mod.rs\<close> that both repositories share. Each returns the
  first rejection in the order of the source's checks, or the value to persist.
\<close>

definition max_message_chars :: nat where
  "max_message_chars = 100000"

text \<open>\<open>\<not> value.trim().is_empty()\<close> and at most \<open>n\<close> characters.\<close>

definition bounded_text :: "nat \<Rightarrow> str \<Rightarrow> bool" where
  "bounded_text n s \<longleftrightarrow> trim s \<noteq> [] \<and> length s \<le> n"

definition validate_agent_key :: "str \<Rightarrow> str \<Rightarrow> unit result" where
  "validate_agent_key field s =
     (if trim s = [] \<or> length s > 200
      then Inl (invalid_request (field @ lit '' must be between 1 and 200 characters''))
      else Inr ())"

definition validate_agent_digest :: "str \<Rightarrow> str \<Rightarrow> unit result" where
  "validate_agent_digest field s =
     (if trim s = [] \<or> length s > 512
      then Inl (invalid_request (field @ lit '' must be between 1 and 512 characters''))
      else Inr ())"

definition validate_object_ref :: "object_ref option \<Rightarrow> unit result" where
  "validate_object_ref r = (case r of
       None \<Rightarrow> Inr ()
     | Some x \<Rightarrow>
         if trim (or_object_id x) = [] \<or> length (or_object_id x) > 500
         then Inl (invalid_request (lit ''object_id must be between 1 and 500 characters''))
         else Inr ())"

definition validate_tool_call_identity :: "tool_call_identity \<Rightarrow> unit result" where
  "validate_tool_call_identity i =
     rbind (validate_agent_key (lit ''tool_call_id'') (ti_tool_call_id i)) (\<lambda>_.
     rbind (validate_agent_key (lit ''tool_name'') (ti_tool_name i)) (\<lambda>_.
     rbind (validate_agent_digest (lit ''arguments_hash'') (ti_arguments_hash i)) (\<lambda>_.
     rbind (validate_agent_digest (lit ''idempotency_key_hash'') (ti_idempotency_key_hash i)) (\<lambda>_.
     Inr ()))))"

definition valid_currency :: "str \<Rightarrow> bool" where
  "valid_currency c \<longleftrightarrow> length c = 3 \<and> list_all is_ascii_uppercase c"

definition validate_tool_call_write :: "record_tool_call \<Rightarrow> unit result" where
  "validate_tool_call_write i =
     rbind (validate_agent_key (lit ''tool_call_id'') (rt_tool_call_id i)) (\<lambda>_.
     rbind (validate_agent_key (lit ''tool_name'') (rt_tool_name i)) (\<lambda>_.
     rbind (validate_agent_digest (lit ''arguments_hash'') (rt_arguments_hash i)) (\<lambda>_.
     rbind (validate_agent_digest (lit ''idempotency_key_hash'') (rt_idempotency_key_hash i)) (\<lambda>_.
     rbind (validate_object_ref (rt_result_ref i)) (\<lambda>_.
     if (case rt_currency i of None \<Rightarrow> False | Some c \<Rightarrow> \<not> valid_currency c)
     then Inl (invalid_request (lit ''currency must be a three letter uppercase code''))
     else if (case rt_cost_minor i of None \<Rightarrow> False | Some c \<Rightarrow> sint c < 0)
     then Inl (invalid_request (lit ''cost_minor must not be negative''))
     else Inr ())))))"

definition validate_tool_call_begin :: "record_tool_call \<Rightarrow> unit result" where
  "validate_tool_call_begin i =
     rbind (validate_tool_call_write i) (\<lambda>_.
     if rt_outcome i \<noteq> OutIntent \<or> rt_attempt_count i \<noteq> 0 \<or> rt_result_ref i \<noteq> None \<or>
        rt_cost_minor i \<noteq> None \<or> rt_currency i \<noteq> None
     then Inl (invalid_request
            (lit ''tool call intent must not include an attempt, result, or cost''))
     else Inr ())"

definition validate_tool_call_finish :: "tool_call_outcome \<Rightarrow> unit result" where
  "validate_tool_call_finish out =
     (if \<not> (out = OutSucceeded \<or> out = OutFailed \<or> out = OutUnknown)
      then Inl (invalid_request
             (lit ''tool call completion must be succeeded, failed, or unknown''))
      else Inr ())"

definition validate_tool_call_authorized :: "tool_call_ledger_entry \<Rightarrow> unit result" where
  "validate_tool_call_authorized e =
     (if tl_permission e \<noteq> Allowed \<or> tl_budget e \<noteq> Allowed
      then Inl (forbidden (lit ''tool call permission or budget was denied''))
      else Inr ())"

definition validate_checkpoint_write :: "store_checkpoint_input \<Rightarrow> unit result" where
  "validate_checkpoint_write i =
     rbind (validate_agent_key (lit ''checkpoint_scope'') (sc_checkpoint_scope i)) (\<lambda>_.
     rbind (validate_agent_key (lit ''step_key'') (sc_step_key i)) (\<lambda>_.
     rbind (validate_agent_digest (lit ''input_hash'') (sc_input_hash i)) (\<lambda>_.
     rbind (validate_object_ref (sc_result_ref i)) (\<lambda>_.
     Inr ()))))"

text \<open>
  The attachment loop: \<open>seen\<close> is the hash set of identifiers met so far. The four checks run
  in order on each attachment, and the first attachment that fails one ends the loop.
\<close>

fun validate_attachments :: "attachment_id list \<Rightarrow> attachment_reference list \<Rightarrow> unit result" where
  "validate_attachments seen [] = Inr ()"
| "validate_attachments seen (a # as) =
     (if at_attachment_id a \<in> set seen
      then Inl (invalid_request (lit ''attachment IDs must be unique within a message''))
      else if trim (at_object_id a) = [] \<or> length (at_object_id a) > 500
      then Inl (invalid_request (lit ''attachment object_id must be between 1 and 500 characters''))
      else if trim (at_filename a) = [] \<or> length (at_filename a) > 512
      then Inl (invalid_request (lit ''attachment filename must be between 1 and 512 characters''))
      else if (case at_size_bytes a of None \<Rightarrow> False | Some n \<Rightarrow> n > 104857600)
      then Inl (invalid_request (lit ''attachment size_bytes must be at most 100 MiB''))
      else validate_attachments (at_attachment_id a # seen) as)"

definition validate_append_message :: "append_message_input \<Rightarrow> str result" where
  "validate_append_message i =
     (let content = trim (am_content i) in
      if content = [] \<and> am_attachments i = []
      then Inl (invalid_request (lit ''message content or at least one attachment is required''))
      else if length content > max_message_chars
      then Inl (invalid_request (lit ''message content must be at most 100000 characters''))
      else if length (am_attachments i) > 100
      then Inl (invalid_request (lit ''a message may contain at most 100 attachments''))
      else rbind (validate_attachments [] (am_attachments i)) (\<lambda>_. Inr content))"

definition validate_message_content :: "str \<Rightarrow> str result" where
  "validate_message_content s =
     (let content = trim s in
      if content = []
      then Inl (invalid_request (lit ''message content must not be empty''))
      else if length content > max_message_chars
      then Inl (invalid_request (lit ''message content must be at most 100000 characters''))
      else Inr content)"

lemmas [val_defs] = validate_agent_key_def validate_agent_digest_def validate_object_ref_def
  validate_tool_call_identity_def validate_tool_call_write_def validate_tool_call_begin_def
  validate_tool_call_finish_def validate_tool_call_authorized_def validate_checkpoint_write_def
  validate_append_message_def validate_message_content_def

section \<open>What the validators accept\<close>

definition valid_attachment :: "attachment_reference \<Rightarrow> bool" where
  "valid_attachment a \<longleftrightarrow>
     bounded_text 500 (at_object_id a) \<and> bounded_text 512 (at_filename a) \<and>
     (\<forall>n. at_size_bytes a = Some n \<longrightarrow> n \<le> 104857600)"

lemma validate_attachments_iff:
  "validate_attachments seen as = Inr () \<longleftrightarrow>
     distinct (map at_attachment_id as) \<and> at_attachment_id ` set as \<inter> set seen = {} \<and>
     (\<forall>a\<in>set as. valid_attachment a)"
  by (induction seen as rule: validate_attachments.induct)
     (auto simp: valid_attachment_def bounded_text_def not_less split: option.splits)

lemma validate_attachments_code: "validate_attachments seen as = Inl e \<Longrightarrow> err_code e = InvalidRequest"
  by (induction seen as rule: validate_attachments.induct) (auto split: if_splits)

lemma validate_append_message_iff:
  "validate_append_message i = Inr c \<longleftrightarrow>
     c = trim (am_content i) \<and> (c \<noteq> [] \<or> am_attachments i \<noteq> []) \<and> length c \<le> max_message_chars \<and>
     length (am_attachments i) \<le> 100 \<and> distinct (map at_attachment_id (am_attachments i)) \<and>
     (\<forall>a\<in>set (am_attachments i). valid_attachment a)"
proof -
  have unit: "validate_attachments [] as = Inr u \<longleftrightarrow> validate_attachments [] as = Inr ()" for as u
    by simp
  show ?thesis
    by (auto simp: validate_append_message_def Let_def rbind_eq_Inr unit validate_attachments_iff)
qed

lemma validate_append_message_code:
  "validate_append_message i = Inl e \<Longrightarrow> err_code e = InvalidRequest"
  by (auto simp: validate_append_message_def Let_def split: if_splits result_splits
      dest: validate_attachments_code)

lemma validate_message_content_iff:
  "validate_message_content s = Inr c \<longleftrightarrow> c = trim s \<and> c \<noteq> [] \<and> length c \<le> max_message_chars"
  by (auto simp: validate_message_content_def Let_def)

lemma validate_tool_call_write_iff:
  "validate_tool_call_write i = Inr () \<longleftrightarrow>
     bounded_text 200 (rt_tool_call_id i) \<and> bounded_text 200 (rt_tool_name i) \<and>
     bounded_text 512 (rt_arguments_hash i) \<and> bounded_text 512 (rt_idempotency_key_hash i) \<and>
     (\<forall>r. rt_result_ref i = Some r \<longrightarrow> bounded_text 500 (or_object_id r)) \<and>
     (\<forall>c. rt_currency i = Some c \<longrightarrow> valid_currency c) \<and>
     (\<forall>n. rt_cost_minor i = Some n \<longrightarrow> 0 \<le> sint n)"
  by (auto simp: val_defs bounded_text_def rbind_eq_Inr split: option.splits)

lemma validate_tool_call_begin_iff:
  "validate_tool_call_begin i = Inr () \<longleftrightarrow>
     validate_tool_call_write i = Inr () \<and> rt_outcome i = OutIntent \<and> rt_attempt_count i = 0 \<and>
     rt_result_ref i = None \<and> rt_cost_minor i = None \<and> rt_currency i = None"
  by (auto simp: validate_tool_call_begin_def rbind_eq_Inr)

lemma validate_checkpoint_write_iff:
  "validate_checkpoint_write i = Inr () \<longleftrightarrow>
     bounded_text 200 (sc_checkpoint_scope i) \<and> bounded_text 200 (sc_step_key i) \<and>
     bounded_text 512 (sc_input_hash i) \<and>
     (\<forall>r. sc_result_ref i = Some r \<longrightarrow> bounded_text 500 (or_object_id r))"
  by (auto simp: val_defs bounded_text_def rbind_eq_Inr split: option.splits)

end
