(* ===== verification/Agent_Repository.thy ===== *)
theory Agent_Repository
  imports Agent_Validate
begin

text \<open>
  The conversation and run operations of \<open>MemoryAgentRepository\<close> (\<open>agent/mod.rs\<close>). Every
  method takes the repository's write lock for its whole body, so one call is one atomic
  step on \<open>agent_state\<close>. The methods return their \<open>Result\<close> and the state they leave;
  \<open>d\<close> supplies the UUIDs and clock readings the body draws.
\<close>

definition visible :: "conversation \<Rightarrow> tenant_scope \<Rightarrow> bool" where
  "visible c scope \<longleftrightarrow> scope_contains scope (conversation_scope c)"

definition visible_run :: "agent_state \<Rightarrow> tenant_scope \<Rightarrow> run_id \<Rightarrow> agent_run result" where
  "visible_run st scope r =
     ok_or (case hm_get (ag_runs st) r of
              None \<Rightarrow> None
            | Some run \<Rightarrow> if scope_contains scope (run_scope run) then Some run else None)
       (not_found (lit ''run not found''))"

definition visible_conversation ::
  "agent_state \<Rightarrow> tenant_scope \<Rightarrow> conversation_id \<Rightarrow> conversation option" where
  "visible_conversation st scope c = (case hm_get (ag_conversations st) c of
       None \<Rightarrow> None
     | Some conv \<Rightarrow> if visible conv scope then Some conv else None)"

section \<open>Events\<close>

definition emit :: "conversation_event_id \<Rightarrow> instant \<Rightarrow> conversation \<Rightarrow> str \<Rightarrow> turn_id option \<Rightarrow>
    run_id option \<Rightarrow> event_payload \<Rightarrow> agent_state \<Rightarrow> agent_state" where
  "emit event_id now conv event_type turn run payload st =
     (let (sq, counters) = hm_bump (cv_id conv) (ag_next_event_sequence st);
          event = \<lparr>ce_id = event_id, ce_conversation_id = cv_id conv,
            ce_operator_id = cv_operator_id conv, ce_tenant_id = cv_tenant_id conv,
            ce_project_id = cv_project_id conv, ce_sequence = sq, ce_event_type = event_type,
            ce_turn_id = turn, ce_run_id = run, ce_payload = payload, ce_occurred_at = now\<rparr>;
          log = (case hm_get (ag_events st) (cv_id conv) of None \<Rightarrow> [] | Some es \<Rightarrow> es)
      in st\<lparr>ag_next_event_sequence := counters,
            ag_events := hm_insert (cv_id conv) (log @ [event]) (ag_events st),
            ag_live := ag_live st @ [event]\<rparr>)"

section \<open>Reads\<close>

definition list_conversations :: "agent_state \<Rightarrow> tenant_scope \<Rightarrow> conversation list result" where
  "list_conversations st scope =
     Inr (sort_key (\<lambda>c. (- cv_updated_at c, cv_id c))
       (filter (\<lambda>c. visible c scope) (hm_values (ag_conversations st))))"

definition get_conversation ::
  "agent_state \<Rightarrow> tenant_scope \<Rightarrow> conversation_id \<Rightarrow> conversation_detail option result" where
  "get_conversation st scope c = (case visible_conversation st scope c of
       None \<Rightarrow> Inr None
     | Some conv \<Rightarrow> Inr (Some \<lparr>cd_conversation = conv,
         cd_messages = sort_key ms_sequence
           (filter (\<lambda>m. ms_conversation_id m = c) (hm_values (ag_messages st))),
         cd_turns = sort_key tn_created_at
           (filter (\<lambda>t. tn_conversation_id t = c) (hm_values (ag_turns st))),
         cd_runs = sort_key rn_created_at
           (filter (\<lambda>r. rn_conversation_id r = c) (hm_values (ag_runs st)))\<rparr>))"

definition run_status_of :: "agent_state \<Rightarrow> tenant_scope \<Rightarrow> run_id \<Rightarrow> run_status option result" where
  "run_status_of st scope r = Inr (case hm_get (ag_runs st) r of
       None \<Rightarrow> None
     | Some run \<Rightarrow> if scope_contains scope (run_scope run) then Some (rn_status run) else None)"

definition replay_events ::
  "agent_state \<Rightarrow> tenant_scope \<Rightarrow> conversation_id \<Rightarrow> u64 option \<Rightarrow> conversation_event list result" where
  "replay_events st scope c since =
     rbind (ok_or (visible_conversation st scope c) (not_found (lit ''conversation not found'')))
       (\<lambda>conv. let floor_seq = (case since of None \<Rightarrow> 0 | Some n \<Rightarrow> n) in
          Inr (filter (\<lambda>e. ce_sequence e > floor_seq)
            (case hm_get (ag_events st) (cv_id conv) of None \<Rightarrow> [] | Some es \<Rightarrow> es)))"

section \<open>Creating a conversation\<close>

definition create_conversation ::
  "draws \<Rightarrow> tenant_scope \<Rightarrow> user_id option \<Rightarrow> create_conversation_input \<Rightarrow> agent_state \<Rightarrow>
     conversation result \<times> agent_state" where
  "create_conversation d scope created_by input st =
     try_in st (ok_or (ts_project_id scope) (invalid_request (lit ''project selector is required'')))
     (\<lambda>project.
       let title = (case ci_title input of None \<Rightarrow> None
             | Some t \<Rightarrow> if trim t = [] then None else Some (trim t)) in
       if (case title of None \<Rightarrow> False | Some t \<Rightarrow> length t > 200)
       then (Inl (invalid_request (lit ''conversation title must be at most 200 characters'')), st)
       else
         let conv = \<lparr>cv_id = fresh_ident d 0, cv_operator_id = ts_operator_id scope,
               cv_tenant_id = ts_tenant_id scope, cv_project_id = project,
               cv_created_by = created_by, cv_title = title, cv_status = ConvActive,
               cv_revision = 1, cv_created_at = now_at d 0, cv_updated_at = now_at d 0\<rparr>;
             st1 = st\<lparr>ag_conversations := hm_insert (cv_id conv) conv (ag_conversations st)\<rparr>;
             st2 = emit (fresh_ident d 1) (now_at d 1) conv (lit ''conversation.created'') None None
                     (PConversation (cv_id conv)) st1
         in (Inr conv, st2))"

section \<open>Submitting a message\<close>

definition is_active_turn :: "turn \<Rightarrow> bool" where
  "is_active_turn t \<longleftrightarrow> tn_status t = TurnQueued \<or> tn_status t = TurnRunning"

definition conversation_turns :: "agent_state \<Rightarrow> conversation_id \<Rightarrow> turn list" where
  "conversation_turns st c = filter (\<lambda>t. tn_conversation_id t = c) (hm_values (ag_turns st))"

definition events_url :: "(uuid \<Rightarrow> str) \<Rightarrow> conversation_id \<Rightarrow> str" where
  "events_url show_uuid c =
     lit ''/api/v1/agent/conversations/'' @ show_uuid (as_uuid c) @ lit ''/events''"

definition append_user_message :: "draws \<Rightarrow> conversation \<Rightarrow> str \<Rightarrow> append_message_input \<Rightarrow> u64 \<Rightarrow> message" where
  "append_user_message d conv content input sq =
     \<lparr>ms_id = fresh_ident d 2, ms_conversation_id = cv_id conv,
      ms_operator_id = cv_operator_id conv, ms_tenant_id = cv_tenant_id conv,
      ms_project_id = cv_project_id conv, ms_turn_id = Some (fresh_ident d 0),
      ms_role = RoleUser, ms_content = content, ms_attachments = am_attachments input,
      ms_metadata = am_metadata input, ms_sequence = sq, ms_created_at = now_at d 0\<rparr>"

definition append_turn :: "draws \<Rightarrow> conversation \<Rightarrow> message \<Rightarrow> turn_id option \<Rightarrow> turn" where
  "append_turn d conv msg previous =
     \<lparr>tn_id = fresh_ident d 0, tn_conversation_id = cv_id conv, tn_root_message_id = ms_id msg,
      tn_previous_turn_id = previous, tn_run_id = Some (fresh_ident d 1),
      tn_status = TurnQueued, tn_cancel_version = 0, tn_created_at = now_at d 0,
      tn_updated_at = now_at d 0\<rparr>"

definition append_run :: "draws \<Rightarrow> conversation \<Rightarrow> runtime_capability \<Rightarrow> agent_run" where
  "append_run d conv capability =
     \<lparr>rn_id = fresh_ident d 1, rn_conversation_id = cv_id conv, rn_turn_id = fresh_ident d 0,
      rn_operator_id = cv_operator_id conv, rn_tenant_id = cv_tenant_id conv,
      rn_project_id = cv_project_id conv, rn_status = RunQueued, rn_capability = capability,
      rn_error = None, rn_cancel_version = 0, rn_created_at = now_at d 0,
      rn_updated_at = now_at d 0\<rparr>"

text \<open>The refusal branch: the runtime is not available, so the accepted run fails at once.\<close>

definition refuse_submission ::
  "draws \<Rightarrow> conversation \<Rightarrow> runtime_capability \<Rightarrow> turn \<Rightarrow> agent_run \<Rightarrow> agent_state \<Rightarrow>
     turn \<times> agent_run \<times> agent_state" where
  "refuse_submission d conv capability turn run st =
     (let error = capability_missing (case rc_reason capability of
              None \<Rightarrow> lit ''agent runtime is unavailable'' | Some r \<Rightarrow> r);
          turn' = turn\<lparr>tn_status := TurnFailed, tn_updated_at := now_at d 3\<rparr>;
          run' = run\<lparr>rn_status := RunFailed, rn_error := Some error, rn_updated_at := now_at d 3\<rparr>;
          st1 = st\<lparr>ag_turns := hm_insert (tn_id turn') turn' (ag_turns st),
                   ag_runs := hm_insert (rn_id run') run' (ag_runs st)\<rparr>
      in (turn', run', emit (fresh_ident d 5) (now_at d 4) conv (lit ''run.failed'')
            (Some (tn_id turn')) (Some (rn_id run')) (PRunError (rn_id run') (rn_status run') error) st1))"

text \<open>The body of \<open>append_message\<close> once every check has passed.\<close>

definition accept_submission ::
  "(uuid \<Rightarrow> str) \<Rightarrow> draws \<Rightarrow> conversation \<Rightarrow> str \<Rightarrow> append_message_input \<Rightarrow> str \<times> conversation_id \<Rightarrow>
     str \<Rightarrow> runtime_capability \<Rightarrow> agent_state \<Rightarrow> submit_acceptance \<times> agent_state" where
  "accept_submission show_uuid d conv0 content input idem_key request_hash capability st =
     (let previous = map_option tn_id
            (max_by_key tn_created_at (conversation_turns st (cv_id conv0)));
          (sq, counters) = hm_bump (cv_id conv0) (ag_next_message_sequence st);
          conv = conv0\<lparr>cv_revision := cv_revision conv0 + 1, cv_updated_at := now_at d 0\<rparr>;
          msg = append_user_message d conv content input sq;
          turn = append_turn d conv msg previous;
          run = append_run d conv capability;
          st1 = st\<lparr>ag_next_message_sequence := counters,
                   ag_conversations := hm_insert (cv_id conv) conv (ag_conversations st),
                   ag_messages := hm_insert (ms_id msg) msg (ag_messages st),
                   ag_turns := hm_insert (tn_id turn) turn (ag_turns st),
                   ag_runs := hm_insert (rn_id run) run (ag_runs st)\<rparr>;
          st2 = emit (fresh_ident d 3) (now_at d 1) conv (lit ''message.created'')
                  (Some (tn_id turn)) (Some (rn_id run)) (PMessage msg) st1;
          st3 = emit (fresh_ident d 4) (now_at d 2) conv (lit ''turn.accepted'')
                  (Some (tn_id turn)) (Some (rn_id run)) (PTurnRun (tn_id turn) (rn_id run)) st2;
          (turn', run', st4) =
            (if is_available capability then (turn, run, st3)
             else refuse_submission d conv capability turn run st3);
          acceptance = \<lparr>sa_conversation = conv, sa_message = msg, sa_turn = turn', sa_run = run',
            sa_events_url = events_url show_uuid (cv_id conv)\<rparr>
      in (acceptance, st4\<lparr>ag_idempotent_submissions :=
            hm_insert idem_key (request_hash, acceptance) (ag_idempotent_submissions st4)\<rparr>))"

definition append_message ::
  "(uuid \<Rightarrow> str) \<Rightarrow> draws \<Rightarrow> tenant_scope \<Rightarrow> conversation_id \<Rightarrow> append_message_input \<Rightarrow> str \<Rightarrow> str \<Rightarrow>
     runtime_capability \<Rightarrow> agent_state \<Rightarrow> submit_acceptance result \<times> agent_state" where
  "append_message show_uuid d scope c input key_hash request_hash capability st =
     try_in st (validate_append_message input) (\<lambda>content.
     try_in st (ok_or (visible_conversation st scope c) (not_found (lit ''conversation not found'')))
       (\<lambda>conv.
       case hm_get (ag_idempotent_submissions st) (key_hash, c) of
         Some (existing_hash, existing) \<Rightarrow>
           if existing_hash \<noteq> request_hash
           then (Inl (conflict
             (lit ''Idempotency-Key was already used with a different message request'')), st)
           else (Inr existing, st)
       | None \<Rightarrow>
           if cv_status conv \<noteq> ConvActive
           then (Inl (conflict (lit ''conversation is archived'')), st)
           else if max_by_key tn_created_at (filter is_active_turn (conversation_turns st c)) \<noteq> None
           then (Inl (conflict (lit ''conversation already has an active turn'')), st)
           else (let (acceptance, st') = accept_submission show_uuid d conv content input
                       (key_hash, c) request_hash capability st
                 in (Inr acceptance, st'))))"

section \<open>Run transitions\<close>

definition is_terminal_run :: "run_status \<Rightarrow> bool" where
  "is_terminal_run s \<longleftrightarrow> s = RunSucceeded \<or> s = RunFailed \<or> s = RunCancelled"

definition cancel_turn ::
  "draws \<Rightarrow> tenant_scope \<Rightarrow> turn_id \<Rightarrow> agent_state \<Rightarrow> agent_run result \<times> agent_state" where
  "cancel_turn d scope t st =
     try_in st (ok_or (hm_get (ag_turns st) t) (not_found (lit ''turn not found''))) (\<lambda>turn.
     try_in st (ok_or (tn_run_id turn) (not_found (lit ''run not found''))) (\<lambda>r.
     try_in st (ok_or (hm_get (ag_runs st) r) (not_found (lit ''run not found''))) (\<lambda>run.
     if \<not> scope_contains scope (run_scope run)
     then (Inl (not_found (lit ''turn not found'')), st)
     else if is_terminal_run (rn_status run) then (Inr run, st)
     else
     try_in st (ok_or (hm_get (ag_conversations st) (tn_conversation_id turn))
                  (not_found (lit ''conversation not found''))) (\<lambda>conv.
       let turn' = turn\<lparr>tn_status := TurnCancelled, tn_cancel_version := tn_cancel_version turn + 1,
                        tn_updated_at := now_at d 0\<rparr>;
           run' = run\<lparr>rn_status := RunCancelled, rn_cancel_version := tn_cancel_version turn',
                      rn_updated_at := now_at d 0\<rparr>;
           st1 = st\<lparr>ag_turns := hm_insert (tn_id turn') turn' (ag_turns st),
                    ag_runs := hm_insert (rn_id run') run' (ag_runs st)\<rparr>
       in (Inr run', emit (fresh_ident d 0) (now_at d 1) conv (lit ''run.cancelled'')
             (Some (tn_id turn')) (Some (rn_id run'))
             (PRunCancelled (rn_id run') (rn_cancel_version run')) st1)))))"

definition begin_run ::
  "draws \<Rightarrow> tenant_scope \<Rightarrow> run_id \<Rightarrow> agent_state \<Rightarrow> agent_run option result \<times> agent_state" where
  "begin_run d scope r st = (case hm_get (ag_runs st) r of
       None \<Rightarrow> (Inr None, st)
     | Some run \<Rightarrow>
         if \<not> scope_contains scope (run_scope run) then (Inr None, st)
         else if rn_status run \<noteq> RunQueued then (Inr None, st)
         else
         try_in st (ok_or (hm_get (ag_conversations st) (rn_conversation_id run))
                      (not_found (lit ''conversation not found''))) (\<lambda>conv.
           let run' = run\<lparr>rn_status := RunRunning, rn_updated_at := now_at d 0\<rparr>;
               turns = (case hm_get (ag_turns st) (rn_turn_id run') of
                   Some turn \<Rightarrow>
                     if tn_status turn = TurnQueued
                     then hm_insert (rn_turn_id run')
                            (turn\<lparr>tn_status := TurnRunning, tn_updated_at := now_at d 0\<rparr>) (ag_turns st)
                     else ag_turns st
                 | None \<Rightarrow> ag_turns st);
               st1 = st\<lparr>ag_runs := hm_insert (rn_id run') run' (ag_runs st), ag_turns := turns\<rparr>
           in (Inr (Some run'), emit (fresh_ident d 0) (now_at d 1) conv (lit ''run.running'')
                 (Some (rn_turn_id run')) (Some (rn_id run'))
                 (PRunStatus (rn_id run') (rn_status run')) st1)))"

definition assistant_message ::
  "draws \<Rightarrow> conversation \<Rightarrow> agent_run \<Rightarrow> str \<Rightarrow> json \<Rightarrow> u64 \<Rightarrow> message" where
  "assistant_message d conv run content metadata sq =
     \<lparr>ms_id = fresh_ident d 0, ms_conversation_id = cv_id conv,
      ms_operator_id = cv_operator_id conv, ms_tenant_id = cv_tenant_id conv,
      ms_project_id = cv_project_id conv, ms_turn_id = Some (rn_turn_id run),
      ms_role = RoleAssistant, ms_content = content, ms_attachments = [],
      ms_metadata = metadata, ms_sequence = sq, ms_created_at = now_at d 0\<rparr>"

text \<open>The outcome of a completion: an answer that cannot be stored is a failure.\<close>

fun completion_outcome :: "run_completion \<Rightarrow> (str \<times> json) result" where
  "completion_outcome (CompletionSucceeded content metadata) =
     rbind (validate_message_content content) (\<lambda>c. Inr (c, metadata))"
| "completion_outcome (CompletionFailed error) = Inl error"

definition finish_run ::
  "draws \<Rightarrow> tenant_scope \<Rightarrow> run_id \<Rightarrow> run_completion \<Rightarrow> agent_state \<Rightarrow>
     run_transition option result \<times> agent_state" where
  "finish_run d scope r completion st = (case hm_get (ag_runs st) r of
       None \<Rightarrow> (Inr None, st)
     | Some run \<Rightarrow>
         if \<not> scope_contains scope (run_scope run) then (Inr None, st)
         else if rn_status run \<noteq> RunRunning then (Inr None, st)
         else
         try_in st (ok_or (hm_get (ag_conversations st) (rn_conversation_id run))
                      (not_found (lit ''conversation not found''))) (\<lambda>conv.
         try_in st (ok_or (hm_get (ag_turns st) (rn_turn_id run)) (not_found (lit ''turn not found'')))
           (\<lambda>turn.
           let conv' = conv\<lparr>cv_revision := cv_revision conv + 1, cv_updated_at := now_at d 0\<rparr> in
           case completion_outcome completion of
             Inr (content, metadata) \<Rightarrow>
               let (sq, counters) = hm_bump (cv_id conv) (ag_next_message_sequence st);
                   msg = assistant_message d conv run content metadata sq;
                   run' = run\<lparr>rn_status := RunSucceeded, rn_error := None,
                              rn_updated_at := now_at d 0\<rparr>;
                   turn' = turn\<lparr>tn_status := TurnSucceeded, tn_updated_at := now_at d 0\<rparr>;
                   st1 = st\<lparr>ag_next_message_sequence := counters,
                            ag_runs := hm_insert (rn_id run') run' (ag_runs st),
                            ag_turns := hm_insert (tn_id turn') turn' (ag_turns st),
                            ag_conversations := hm_insert (cv_id conv') conv' (ag_conversations st),
                            ag_messages := hm_insert (ms_id msg) msg (ag_messages st)\<rparr>;
                   st2 = emit (fresh_ident d 1) (now_at d 1) conv' (lit ''message.created'')
                           (Some (tn_id turn')) (Some (rn_id run')) (PMessage msg) st1;
                   st3 = emit (fresh_ident d 2) (now_at d 2) conv' (lit ''run.succeeded'')
                           (Some (tn_id turn')) (Some (rn_id run'))
                           (PRunStatus (rn_id run') (rn_status run')) st2
               in (Inr (Some \<lparr>tr_run = run', tr_turn = turn', tr_message = Some msg\<rparr>), st3)
           | Inl error \<Rightarrow>
               let run' = run\<lparr>rn_status := RunFailed, rn_error := Some error,
                              rn_updated_at := now_at d 0\<rparr>;
                   turn' = turn\<lparr>tn_status := TurnFailed, tn_updated_at := now_at d 0\<rparr>;
                   st1 = st\<lparr>ag_runs := hm_insert (rn_id run') run' (ag_runs st),
                            ag_turns := hm_insert (tn_id turn') turn' (ag_turns st),
                            ag_conversations := hm_insert (cv_id conv') conv' (ag_conversations st)\<rparr>;
                   st2 = emit (fresh_ident d 0) (now_at d 1) conv' (lit ''run.failed'')
                           (Some (tn_id turn')) (Some (rn_id run'))
                           (PRunError (rn_id run') (rn_status run') error) st1
               in (Inr (Some \<lparr>tr_run = run', tr_turn = turn', tr_message = None\<rparr>), st2))))"

section \<open>Restart reconciliation\<close>

definition abandoned_error :: app_error where
  "abandoned_error = app_error_new DependencyUnavailable
     (lit ''run was abandoned when the single-process executor restarted'')"

text \<open>
  One iteration of the loop of \<open>reconcile_running_runs\<close>. \<open>u\<close> and \<open>n\<close> count the UUIDs and
  clock readings drawn so far; the result says whether the run was reconciled.
\<close>

definition reconcile_one ::
  "draws \<Rightarrow> run_id \<Rightarrow> nat \<times> nat \<times> u64 \<times> agent_state \<Rightarrow> nat \<times> nat \<times> u64 \<times> agent_state" where
  "reconcile_one d r acc = (case acc of (u, n, reconciled, st) \<Rightarrow>
     case hm_get (ag_runs st) r of None \<Rightarrow> acc | Some run \<Rightarrow>
     case hm_get (ag_conversations st) (rn_conversation_id run) of None \<Rightarrow> acc | Some conv \<Rightarrow>
       let now = now_at d n;
           run' = run\<lparr>rn_status := RunFailed, rn_error := Some abandoned_error,
                      rn_updated_at := now\<rparr> in
       case hm_get (ag_turns st) (rn_turn_id run') of
         None \<Rightarrow> (u, n + 1, reconciled, st)
       | Some turn \<Rightarrow>
           let turns = (if is_active_turn turn
                 then hm_insert (tn_id turn) (turn\<lparr>tn_status := TurnFailed, tn_updated_at := now\<rparr>)
                        (ag_turns st)
                 else ag_turns st);
               conv' = conv\<lparr>cv_revision := cv_revision conv + 1, cv_updated_at := now\<rparr>;
               st1 = st\<lparr>ag_turns := turns,
                        ag_runs := hm_insert (rn_id run') run' (ag_runs st),
                        ag_conversations := hm_insert (cv_id conv') conv' (ag_conversations st)\<rparr>;
               st2 = emit (fresh_ident d u) (now_at d (n + 1)) conv' (lit ''run.failed'')
                       (Some (rn_turn_id run')) (Some (rn_id run'))
                       (PRunAbandoned (rn_id run') (rn_status run') abandoned_error
                          (lit ''process_restart'')) st1
           in (u + 1, n + 2, reconciled + 1, st2))"

definition reconcile_running_runs :: "draws \<Rightarrow> agent_state \<Rightarrow> u64 result \<times> agent_state" where
  "reconcile_running_runs d st =
     (let run_ids = map rn_id (filter (\<lambda>r. rn_status r = RunRunning) (hm_values (ag_runs st)));
          (u, n, reconciled, st') = fold (reconcile_one d) run_ids (0, 0, 0, st)
      in (Inr reconciled, st'))"

lemmas [op_defs] = visible_run_def create_conversation_def append_message_def cancel_turn_def
  begin_run_def finish_run_def

section \<open>The runtime that is not configured\<close>

definition runtime_not_configured :: str where
  "runtime_not_configured = lit ''embedded JavaScript runtime is not configured''"

definition missing_runtime_capability :: runtime_capability where
  "missing_runtime_capability = capability_missing_rc runtime_not_configured"

definition missing_run_turn :: "tenant_scope \<Rightarrow> turn_input \<Rightarrow> (str \<times> json) result" where
  "missing_run_turn scope input = Inl (capability_missing runtime_not_configured)"

end
