(* ===== verification/Agent_Ledger.thy ===== *)
theory Agent_Ledger
  imports Agent_Repository
begin

text \<open>
  Checkpoints and the tool-call ledger of \<open>MemoryAgentRepository\<close> (\<open>agent/mod.rs\<close>): the
  lifecycle \<open>Intent \<rightarrow> Attempted \<rightarrow> Succeeded | Failed | Unknown\<close> of one tool call, where only
  the step to \<open>Attempted\<close> authorizes the external invocation.
\<close>

section \<open>Checkpoints\<close>

definition new_checkpoint ::
  "draws \<Rightarrow> agent_run \<Rightarrow> store_checkpoint_input \<Rightarrow> agent_checkpoint" where
  "new_checkpoint d run i =
     \<lparr>cp_id = fresh_ident d 0, cp_run_id = rn_id run, cp_conversation_id = rn_conversation_id run,
      cp_operator_id = rn_operator_id run, cp_tenant_id = rn_tenant_id run,
      cp_project_id = rn_project_id run, cp_checkpoint_scope = sc_checkpoint_scope i,
      cp_step_key = sc_step_key i, cp_input_hash = sc_input_hash i,
      cp_result_ref = sc_result_ref i, cp_version = 1, cp_state = sc_state i,
      cp_created_at = now_at d 0, cp_updated_at = now_at d 0\<rparr>"

definition store_checkpoint ::
  "draws \<Rightarrow> tenant_scope \<Rightarrow> run_id \<Rightarrow> store_checkpoint_input \<Rightarrow> agent_state \<Rightarrow>
     agent_checkpoint result \<times> agent_state" where
  "store_checkpoint d scope r i st =
     try_in st (validate_checkpoint_write i) (\<lambda>_.
     try_in st (visible_run st scope r) (\<lambda>run.
       let key = (rn_id run, sc_checkpoint_scope i, sc_step_key i) in
       try_in st
         (case hm_get (ag_checkpoints st) key of
            Some existing \<Rightarrow>
              if cp_input_hash existing = sc_input_hash i
              then Inr (existing\<lparr>cp_result_ref := sc_result_ref i, cp_state := sc_state i,
                     cp_version := cp_version existing + 1, cp_updated_at := now_at d 0\<rparr>)
              else Inl (conflict (lit ''checkpoint was already stored for a different input''))
          | None \<Rightarrow> Inr (new_checkpoint d run i))
         (\<lambda>stored. (Inr stored, st\<lparr>ag_checkpoints := hm_insert key stored (ag_checkpoints st)\<rparr>))))"

definition load_checkpoint ::
  "agent_state \<Rightarrow> tenant_scope \<Rightarrow> run_id \<Rightarrow> str \<Rightarrow> str \<Rightarrow> agent_checkpoint option result" where
  "load_checkpoint st scope r checkpoint_scope step_key =
     rbind (visible_run st scope r) (\<lambda>_.
       Inr (hm_get (ag_checkpoints st) (r, checkpoint_scope, step_key)))"

section \<open>Tool calls\<close>

definition new_ledger_entry :: "draws \<Rightarrow> agent_run \<Rightarrow> record_tool_call \<Rightarrow> tool_call_ledger_entry" where
  "new_ledger_entry d run i =
     \<lparr>tl_id = fresh_ident d 0, tl_run_id = rn_id run, tl_turn_id = rn_turn_id run,
      tl_conversation_id = rn_conversation_id run, tl_operator_id = rn_operator_id run,
      tl_tenant_id = rn_tenant_id run, tl_project_id = rn_project_id run,
      tl_tool_call_id = rt_tool_call_id i, tl_tool_name = rt_tool_name i,
      tl_arguments_hash = rt_arguments_hash i,
      tl_idempotency_key_hash = rt_idempotency_key_hash i, tl_permission = rt_permission i,
      tl_budget = rt_budget i, tl_intent = rt_intent i, tl_attempt_count = rt_attempt_count i,
      tl_result_ref = rt_result_ref i, tl_outcome = rt_outcome i,
      tl_cost_minor = rt_cost_minor i, tl_currency = rt_currency i,
      tl_created_at = now_at d 0, tl_updated_at = now_at d 0\<rparr>"

definition append_tool_call ::
  "draws \<Rightarrow> tenant_scope \<Rightarrow> record_tool_call \<Rightarrow> agent_state \<Rightarrow>
     tool_call_ledger_entry result \<times> agent_state" where
  "append_tool_call d scope i st =
     try_in st (validate_tool_call_write i) (\<lambda>_.
     try_in st (visible_run st scope (rt_run_id i)) (\<lambda>run.
       let key = (rn_id run, rt_tool_call_id i) in
       case hm_get (ag_tool_calls st) key of
         Some existing \<Rightarrow>
           if tl_arguments_hash existing \<noteq> rt_arguments_hash i \<or>
              tl_idempotency_key_hash existing \<noteq> rt_idempotency_key_hash i
           then (Inl (conflict
                  (lit ''tool call was already recorded with different arguments'')), st)
           else (Inr existing, st)
       | None \<Rightarrow>
           let entry = new_ledger_entry d run i
           in (Inr entry, st\<lparr>ag_tool_calls := hm_insert key entry (ag_tool_calls st)\<rparr>)))"

definition intent_conflicts :: "record_tool_call \<Rightarrow> tool_call_ledger_entry \<Rightarrow> bool" where
  "intent_conflicts i existing \<longleftrightarrow>
     \<not> identity_matches (identity_from_record i) existing \<or>
     tl_permission existing \<noteq> rt_permission i \<or> tl_budget existing \<noteq> rt_budget i \<or>
     tl_intent existing \<noteq> rt_intent i \<or> tl_attempt_count existing > 1 \<or>
     tl_result_ref existing \<noteq> None \<or> tl_cost_minor existing \<noteq> None \<or>
     tl_currency existing \<noteq> None"

definition begin_tool_call ::
  "draws \<Rightarrow> tenant_scope \<Rightarrow> record_tool_call \<Rightarrow> agent_state \<Rightarrow>
     tool_call_ledger_entry result \<times> agent_state" where
  "begin_tool_call d scope i st =
     try_in st (validate_tool_call_begin i) (\<lambda>_.
     try_in st (visible_run st scope (rt_run_id i)) (\<lambda>run.
       let key = (rn_id run, rt_tool_call_id i) in
       case hm_get (ag_tool_calls st) key of
         Some existing \<Rightarrow>
           if intent_conflicts i existing
           then (Inl (conflict (lit ''tool call intent conflicts with its ledger'')), st)
           else (Inr existing, st)
       | None \<Rightarrow>
           if rn_status run \<noteq> RunRunning
           then (Inl (conflict (lit ''run is not running'')), st)
           else
             let entry = (new_ledger_entry d run i)\<lparr>tl_attempt_count := 0, tl_result_ref := None,
                   tl_outcome := OutIntent, tl_cost_minor := None, tl_currency := None\<rparr>
             in (Inr entry, st\<lparr>ag_tool_calls := hm_insert key entry (ag_tool_calls st)\<rparr>)))"

definition attempt_tool_call ::
  "draws \<Rightarrow> tenant_scope \<Rightarrow> tool_call_identity \<Rightarrow> agent_state \<Rightarrow> bool result \<times> agent_state" where
  "attempt_tool_call d scope identity st =
     try_in st (validate_tool_call_identity identity) (\<lambda>_.
     try_in st (visible_run st scope (ti_run_id identity)) (\<lambda>run.
       let key = (rn_id run, ti_tool_call_id identity) in
       try_in st (ok_or (hm_get (ag_tool_calls st) key) (not_found (lit ''tool call not found'')))
         (\<lambda>entry.
         if \<not> identity_matches identity entry
         then (Inl (conflict (lit ''tool call identity conflicts with its ledger'')), st)
         else if tl_outcome entry \<noteq> OutIntent then (Inr False, st)
         else if tl_attempt_count entry \<noteq> 0
         then (Inl (conflict (lit ''tool call attempt state is inconsistent'')), st)
         else try_in st (validate_tool_call_authorized entry) (\<lambda>_.
           if rn_status run \<noteq> RunRunning
           then (Inl (conflict (lit ''run is not running'')), st)
           else (Inr True, st\<lparr>ag_tool_calls := hm_insert key
                  (entry\<lparr>tl_outcome := OutAttempted, tl_attempt_count := 1,
                         tl_updated_at := now_at d 0\<rparr>) (ag_tool_calls st)\<rparr>)))))"

definition finish_tool_call ::
  "draws \<Rightarrow> tenant_scope \<Rightarrow> tool_call_identity \<Rightarrow> tool_call_outcome \<Rightarrow> agent_state \<Rightarrow>
     tool_call_ledger_entry result \<times> agent_state" where
  "finish_tool_call d scope identity out st =
     try_in st (validate_tool_call_identity identity) (\<lambda>_.
     try_in st (validate_tool_call_finish out) (\<lambda>_.
     try_in st (visible_run st scope (ti_run_id identity)) (\<lambda>run.
       let key = (rn_id run, ti_tool_call_id identity) in
       try_in st (ok_or (hm_get (ag_tool_calls st) key) (not_found (lit ''tool call not found'')))
         (\<lambda>entry.
         if \<not> identity_matches identity entry
         then (Inl (conflict (lit ''tool call identity conflicts with its ledger'')), st)
         else if tl_outcome entry = out \<and> tl_attempt_count entry = 1 then (Inr entry, st)
         else if tl_outcome entry \<noteq> OutAttempted \<or> tl_attempt_count entry \<noteq> 1
         then (Inl (conflict (lit ''tool call cannot change its recorded outcome'')), st)
         else
           let entry' = entry\<lparr>tl_outcome := out, tl_updated_at := now_at d 0\<rparr>
           in (Inr entry', st\<lparr>ag_tool_calls := hm_insert key entry' (ag_tool_calls st)\<rparr>)))))"

definition list_tool_calls ::
  "agent_state \<Rightarrow> tenant_scope \<Rightarrow> run_id \<Rightarrow> tool_call_ledger_entry list result" where
  "list_tool_calls st scope r =
     rbind (visible_run st scope r) (\<lambda>_.
       Inr (sort_key (\<lambda>e. (tl_created_at e, tl_id e))
         (filter (\<lambda>e. tl_run_id e = r) (hm_values (ag_tool_calls st)))))"

lemmas [op_defs] = store_checkpoint_def append_tool_call_def begin_tool_call_def
  attempt_tool_call_def finish_tool_call_def

section \<open>Lifecycle facts\<close>

text \<open>The run a method works on carries the identifier it was asked for, in a keyed map.\<close>

lemma visible_run_Inr:
  "visible_run st scope r = Inr run \<longleftrightarrow>
     hm_get (ag_runs st) r = Some run \<and> scope_contains scope (run_scope run)"
  by (auto simp: visible_run_def split: option.splits if_splits)

text \<open>Progress of a ledger entry: the order in which outcomes may follow each other.\<close>

fun outcome_rank :: "tool_call_outcome \<Rightarrow> nat" where
  "outcome_rank OutIntent = 0"
| "outcome_rank OutAttempted = 1"
| "outcome_rank _ = 2"

definition same_call :: "tool_call_ledger_entry \<Rightarrow> tool_call_ledger_entry \<Rightarrow> bool" where
  "same_call e e' \<longleftrightarrow>
     e' = e\<lparr>tl_outcome := tl_outcome e', tl_attempt_count := tl_attempt_count e',
            tl_updated_at := tl_updated_at e'\<rparr>"

definition ledger_le :: "tool_call_ledger_entry \<Rightarrow> tool_call_ledger_entry \<Rightarrow> bool" where
  "ledger_le e e' \<longleftrightarrow> same_call e e' \<and>
     (e' = e \<or> outcome_rank (tl_outcome e) < outcome_rank (tl_outcome e'))"

lemma same_call_refl [simp]: "same_call e e"
  by (simp add: same_call_def)

lemma same_call_update [simp]:
  "same_call e (e\<lparr>tl_outcome := out, tl_updated_at := t\<rparr>)"
  "same_call e (e\<lparr>tl_outcome := out, tl_attempt_count := n, tl_updated_at := t\<rparr>)"
  by (simp_all add: same_call_def)

lemma same_call_trans:
  assumes "same_call a b" and "same_call b c"
  shows "same_call a c"
proof -
  from assms have b: "b = a\<lparr>tl_outcome := tl_outcome b, tl_attempt_count := tl_attempt_count b,
      tl_updated_at := tl_updated_at b\<rparr>"
    and c: "c = b\<lparr>tl_outcome := tl_outcome c, tl_attempt_count := tl_attempt_count c,
      tl_updated_at := tl_updated_at c\<rparr>"
    by (auto simp: same_call_def)
  show ?thesis
    unfolding same_call_def by (subst c, subst b) simp
qed

lemma ledger_le_refl [simp]: "ledger_le e e"
  by (simp add: ledger_le_def)

lemma ledger_le_trans: "ledger_le a b \<Longrightarrow> ledger_le b c \<Longrightarrow> ledger_le a c"
  by (auto simp: ledger_le_def intro: same_call_trans)

end
