(* ===== verification/Agent_Invariant.thy ===== *)
theory Agent_Invariant
  imports Agent_Ledger
begin

text \<open>
  Well-formedness of the repository state: the maps are keyed by the identifiers their records
  carry, runs and turns are paired and agree on their status, a conversation has at most one
  active turn, and a turn has an answer exactly when it succeeded. One lemma per kind of
  change the operations make.
\<close>

fun turn_status_of :: "run_status \<Rightarrow> turn_status" where
  "turn_status_of RunQueued = TurnQueued"
| "turn_status_of RunRunning = TurnRunning"
| "turn_status_of RunSucceeded = TurnSucceeded"
| "turn_status_of RunFailed = TurnFailed"
| "turn_status_of RunCancelled = TurnCancelled"

definition run_ok :: "(conversation_id, conversation) hash_map \<Rightarrow> (turn_id, turn) hash_map \<Rightarrow>
    agent_run \<Rightarrow> bool" where
  "run_ok C T run \<longleftrightarrow> (\<exists>turn conv.
     hm_get T (rn_turn_id run) = Some turn \<and> hm_get C (rn_conversation_id run) = Some conv \<and>
     tn_run_id turn = Some (rn_id run) \<and> tn_conversation_id turn = rn_conversation_id run \<and>
     tn_status turn = turn_status_of (rn_status run) \<and>
     tn_cancel_version turn = rn_cancel_version run \<and>
     conversation_scope conv = run_scope run \<and>
     (rn_error run \<noteq> None \<longleftrightarrow> rn_status run = RunFailed))"

definition turn_ok :: "(message_id, message) hash_map \<Rightarrow> (run_id, agent_run) hash_map \<Rightarrow>
    turn \<Rightarrow> bool" where
  "turn_ok M R turn \<longleftrightarrow>
     (\<exists>r run. tn_run_id turn = Some r \<and> hm_get R r = Some run \<and> rn_turn_id run = tn_id turn) \<and>
     (\<exists>msg. hm_get M (tn_root_message_id turn) = Some msg \<and> ms_role msg = RoleUser \<and>
            ms_turn_id msg = Some (tn_id turn) \<and> ms_conversation_id msg = tn_conversation_id turn)"

definition message_ok :: "(turn_id, turn) hash_map \<Rightarrow> message \<Rightarrow> bool" where
  "message_ok T msg \<longleftrightarrow> (\<exists>t turn. ms_turn_id msg = Some t \<and>
     hm_get T t = Some turn \<and> tn_conversation_id turn = ms_conversation_id msg \<and>
     (ms_role msg = RoleUser \<or> ms_role msg = RoleAssistant))"

definition answer_of :: "turn_id \<Rightarrow> message \<Rightarrow> bool" where
  "answer_of t msg \<longleftrightarrow> ms_role msg = RoleAssistant \<and> ms_turn_id msg = Some t"

definition maps_ok :: "(conversation_id, conversation) hash_map \<Rightarrow> (message_id, message) hash_map \<Rightarrow>
    (turn_id, turn) hash_map \<Rightarrow> (run_id, agent_run) hash_map \<Rightarrow> bool" where
  "maps_ok C M T R \<longleftrightarrow> hm_wf C \<and> hm_wf M \<and> hm_wf T \<and> hm_wf R \<and>
     hm_keyed cv_id C \<and> hm_keyed ms_id M \<and> hm_keyed tn_id T \<and> hm_keyed rn_id R"

definition single_active :: "(turn_id, turn) hash_map \<Rightarrow> bool" where
  "single_active T \<longleftrightarrow> (\<forall>t1 t2 a b. hm_get T t1 = Some a \<longrightarrow> hm_get T t2 = Some b \<longrightarrow>
     is_active_turn a \<longrightarrow> is_active_turn b \<longrightarrow> tn_conversation_id a = tn_conversation_id b \<longrightarrow> t1 = t2)"

definition answers_ok :: "(message_id, message) hash_map \<Rightarrow> (turn_id, turn) hash_map \<Rightarrow> bool" where
  "answers_ok M T \<longleftrightarrow>
     (\<forall>t turn. hm_get T t = Some turn \<longrightarrow>
        (tn_status turn = TurnSucceeded \<longleftrightarrow> (\<exists>m msg. hm_get M m = Some msg \<and> answer_of t msg))) \<and>
     (\<forall>t m1 m2 a b. hm_get M m1 = Some a \<longrightarrow> hm_get M m2 = Some b \<longrightarrow> answer_of t a \<longrightarrow>
        answer_of t b \<longrightarrow> m1 = m2)"

definition core_ok :: "(conversation_id, conversation) hash_map \<Rightarrow> (message_id, message) hash_map \<Rightarrow>
    (turn_id, turn) hash_map \<Rightarrow> (run_id, agent_run) hash_map \<Rightarrow> bool" where
  "core_ok C M T R \<longleftrightarrow> maps_ok C M T R \<and>
     (\<forall>r run. hm_get R r = Some run \<longrightarrow> run_ok C T run) \<and>
     (\<forall>t turn. hm_get T t = Some turn \<longrightarrow> turn_ok M R turn) \<and>
     (\<forall>m msg. hm_get M m = Some msg \<longrightarrow> message_ok T msg) \<and>
     single_active T \<and> answers_ok M T"

definition core_inv :: "agent_state \<Rightarrow> bool" where
  "core_inv st \<longleftrightarrow> core_ok (ag_conversations st) (ag_messages st) (ag_turns st) (ag_runs st)"

lemma core_okD:
  assumes "core_ok C M T R"
  shows "maps_ok C M T R" "single_active T" "answers_ok M T"
    "hm_get R r = Some run \<Longrightarrow> run_ok C T run"
    "hm_get T t = Some turn \<Longrightarrow> turn_ok M R turn"
    "hm_get M m = Some msg \<Longrightarrow> message_ok T msg"
    "hm_get C c = Some conv \<Longrightarrow> cv_id conv = c"
    "hm_get M m = Some msg \<Longrightarrow> ms_id msg = m"
    "hm_get T t = Some turn \<Longrightarrow> tn_id turn = t"
    "hm_get R r = Some run \<Longrightarrow> rn_id run = r"
  using assms by (auto simp: core_ok_def maps_ok_def dest: hmk.keyed_lookup)

lemma core_ok_empty: "core_ok [] [] [] []"
  by (simp add: core_ok_def maps_ok_def single_active_def answers_ok_def hmk.keyed_empty)

text \<open>Replacing a conversation by one of the same identity and scope.\<close>

lemma core_ok_touch:
  assumes ok: "core_ok C M T R" and c: "hm_get C c = Some conv"
    and same: "cv_id conv' = c" "conversation_scope conv' = conversation_scope conv"
  shows "core_ok (hm_insert c conv' C) M T R"
proof -
  have "maps_ok (hm_insert c conv' C) M T R"
    using core_okD(1) [OF ok] same by (simp add: maps_ok_def hmk.keyed_insert)
  moreover have "run_ok (hm_insert c conv' C) T run" if "hm_get R r = Some run" for r run
    using core_okD(4) [OF ok that] c same by (auto simp: run_ok_def)
  ultimately show ?thesis
    using ok by (auto simp: core_ok_def)
qed

text \<open>A new conversation.\<close>

lemma core_ok_new_conversation:
  assumes ok: "core_ok C M T R" and new: "hm_get C (cv_id conv) = None"
  shows "core_ok (hm_insert (cv_id conv) conv C) M T R"
proof -
  have "maps_ok (hm_insert (cv_id conv) conv C) M T R"
    using core_okD(1) [OF ok] by (simp add: maps_ok_def hmk.keyed_insert)
  moreover have "run_ok (hm_insert (cv_id conv) conv C) T run" if "hm_get R r = Some run" for r run
    using core_okD(4) [OF ok that] new by (auto simp: run_ok_def)
  ultimately show ?thesis
    using ok by (auto simp: core_ok_def)
qed

text \<open>The two fields of a run and its turn that a transition may not touch, and the status
  agreement it must establish.\<close>

definition paired_update :: "agent_run \<Rightarrow> agent_run \<Rightarrow> turn \<Rightarrow> turn \<Rightarrow> bool" where
  "paired_update run run' turn turn' \<longleftrightarrow>
     rn_id run' = rn_id run \<and> rn_turn_id run' = rn_turn_id run \<and>
     rn_conversation_id run' = rn_conversation_id run \<and> run_scope run' = run_scope run \<and>
     tn_id turn' = tn_id turn \<and> tn_run_id turn' = tn_run_id turn \<and>
     tn_conversation_id turn' = tn_conversation_id turn \<and>
     tn_root_message_id turn' = tn_root_message_id turn \<and>
     tn_status turn' = turn_status_of (rn_status run') \<and>
     tn_cancel_version turn' = rn_cancel_version run' \<and>
     (rn_error run' \<noteq> None \<longleftrightarrow> rn_status run' = RunFailed) \<and>
     (is_active_turn turn' \<longrightarrow> is_active_turn turn)"

lemma paired_maps:
  assumes ok: "core_ok C M T R" and r: "hm_get R r = Some run" and t: "hm_get T (rn_turn_id run) = Some turn"
    and upd: "paired_update run run' turn turn'"
  defines "T' \<equiv> hm_insert (rn_turn_id run) turn' T" and "R' \<equiv> hm_insert r run' R"
  shows "maps_ok C M T' R'" and "\<And>x z. hm_get R' x = Some z \<Longrightarrow> run_ok C T' z"
    and "\<And>x z. hm_get T' x = Some z \<Longrightarrow> turn_ok M R' z" and "single_active T'"
    and "\<And>m msg. hm_get M m = Some msg \<Longrightarrow> message_ok T' msg"
proof -
  note ids = core_okD(9) [OF ok t] core_okD(10) [OF ok r]
  note ro = core_okD(4) [OF ok r, unfolded run_ok_def]
  show "maps_ok C M T' R'"
    using core_okD(1) [OF ok] upd ids
    by (simp add: maps_ok_def T'_def R'_def paired_update_def hmk.keyed_insert)
  show "run_ok C T' z" if z: "hm_get R' x = Some z" for x z
  proof (cases "x = r")
    case True
    with z ro t upd ids show ?thesis by (auto simp: R'_def T'_def run_ok_def paired_update_def)
  next
    case False
    with z have zR: "hm_get R x = Some z" by (simp add: R'_def)
    have "rn_turn_id z \<noteq> rn_turn_id run"
      using core_okD(4) [OF ok zR] ro t False ids core_okD(10) [OF ok zR]
      by (auto simp: run_ok_def)
    with core_okD(4) [OF ok zR] show ?thesis by (auto simp: run_ok_def T'_def)
  qed
  show "turn_ok M R' z" if z: "hm_get T' x = Some z" for x z
  proof (cases "x = rn_turn_id run")
    case True
    with z core_okD(5) [OF ok t] upd ids ro t show ?thesis
      by (auto simp: R'_def T'_def turn_ok_def paired_update_def)
  next
    case False
    with z have zT: "hm_get T x = Some z" by (simp add: T'_def)
    from core_okD(5) [OF ok zT] False core_okD(9) [OF ok zT] r ids show ?thesis
      by (auto simp: R'_def turn_ok_def)
  qed
  show "single_active T'"
    using core_okD(2) [OF ok] t upd
    unfolding single_active_def T'_def paired_update_def
    by (simp split: if_splits) (metis option.inject)
  show "message_ok T' msg" if "hm_get M m = Some msg" for m msg
    using core_okD(6) [OF ok that] t upd ids by (auto simp: message_ok_def T'_def paired_update_def split: if_splits)
qed

text \<open>A transition of a run and its turn that is no success.\<close>

lemma core_ok_pair:
  assumes ok: "core_ok C M T R" and r: "hm_get R r = Some run" and t: "hm_get T (rn_turn_id run) = Some turn"
    and upd: "paired_update run run' turn turn'"
    and ns: "rn_status run \<noteq> RunSucceeded" "rn_status run' \<noteq> RunSucceeded"
  shows "core_ok C M (hm_insert (rn_turn_id run) turn' T) (hm_insert r run' R)"
proof -
  from core_okD(4) [OF ok r] t ns(1) have old: "tn_status turn \<noteq> TurnSucceeded"
    by (cases "rn_status run") (auto simp: run_ok_def)
  from upd ns(2) have new: "tn_status turn' \<noteq> TurnSucceeded"
    by (cases "rn_status run'") (auto simp: paired_update_def)
  have "answers_ok M (hm_insert (rn_turn_id run) turn' T)"
    using core_okD(3) [OF ok] t old new by (auto simp: answers_ok_def)
  with paired_maps [OF ok r t upd] show ?thesis
    by (simp add: core_ok_def)
qed

text \<open>A success: the transition stores the answer with it.\<close>

lemma core_ok_succeed:
  assumes ok: "core_ok C M T R" and r: "hm_get R r = Some run" and t: "hm_get T (rn_turn_id run) = Some turn"
    and upd: "paired_update run run' turn turn'"
    and ns: "rn_status run \<noteq> RunSucceeded" "rn_status run' = RunSucceeded"
    and msg: "hm_get M (ms_id msg) = None" "answer_of (rn_turn_id run) msg"
      "ms_conversation_id msg = rn_conversation_id run"
  shows "core_ok C (hm_insert (ms_id msg) msg M) (hm_insert (rn_turn_id run) turn' T)
           (hm_insert r run' R)" (is "core_ok C ?M ?T ?R")
proof -
  note pm = paired_maps [OF ok r t upd]
  from core_okD(4) [OF ok r] t ns(1) have old: "tn_status turn \<noteq> TurnSucceeded"
    by (cases "rn_status run") (auto simp: run_ok_def)
  from upd ns(2) have new: "tn_status turn' = TurnSucceeded"
    by (auto simp: paired_update_def)
  from core_okD(3) [OF ok] t old have none: "\<And>m a. hm_get M m = Some a \<Longrightarrow> \<not> answer_of (rn_turn_id run) a"
    by (auto simp: answers_ok_def)
  have a1: "maps_ok C ?M ?T ?R"
    using pm(1) by (simp add: maps_ok_def hmk.keyed_insert)
  have a2: "turn_ok ?M ?R z" if "hm_get ?T x = Some z" for x z
    using pm(3) [OF that] msg(1) by (auto simp: turn_ok_def)
  have conv: "tn_conversation_id turn' = rn_conversation_id run" and tid: "tn_id turn' = rn_turn_id run"
    using core_okD(4) [OF ok r] t upd core_okD(9) [OF ok t] by (auto simp: run_ok_def paired_update_def)
  have a3: "message_ok ?T z" if "hm_get ?M x = Some z" for x z
  proof (cases "x = ms_id msg")
    case True
    with that msg conv show ?thesis by (auto simp: message_ok_def answer_of_def)
  next
    case False
    with that have "hm_get M x = Some z" by simp
    then show ?thesis by (rule pm(5))
  qed
  have uniq: "t' = rn_turn_id run" if "answer_of t' msg" for t'
    using that msg(2) by (simp add: answer_of_def)
  have a4: "answers_ok ?M ?T"
    unfolding answers_ok_def
  proof (intro conjI allI impI)
    fix x z
    assume z: "hm_get ?T x = Some z"
    show "tn_status z = TurnSucceeded \<longleftrightarrow> (\<exists>m a. hm_get ?M m = Some a \<and> answer_of x a)"
    proof (cases "x = rn_turn_id run")
      case True
      with z new msg show ?thesis by auto
    next
      case False
      with z have zT: "hm_get T x = Some z" by simp
      have "(\<exists>m a. hm_get ?M m = Some a \<and> answer_of x a) \<longleftrightarrow> (\<exists>m a. hm_get M m = Some a \<and> answer_of x a)"
        using False uniq by (subst hm_ex_insert [OF msg(1)]) blast
      with core_okD(3) [OF ok] zT show ?thesis by (simp add: answers_ok_def)
    qed
  next
    fix t' m1 m2 a b
    assume "hm_get ?M m1 = Some a" "hm_get ?M m2 = Some b" "answer_of t' a" "answer_of t' b"
    then show "m1 = m2"
      using core_okD(3) [OF ok] uniq none
      by (auto simp: answers_ok_def split: if_splits)
  qed
  show ?thesis
    using pm a1 a2 a3 a4 by (simp add: core_ok_def)
qed


text \<open>An accepted submission: a user message, a turn and a run that refer to each other, in a
  conversation without an active turn.\<close>

lemma core_ok_submit:
  assumes ok: "core_ok C M T R"
    and c: "hm_get C (rn_conversation_id run) = Some conv" "run_scope run = conversation_scope conv"
    and fresh: "hm_get M (ms_id msg) = None" "hm_get T (tn_id turn) = None" "hm_get R (rn_id run) = None"
    and refs: "rn_turn_id run = tn_id turn" "tn_run_id turn = Some (rn_id run)"
      "tn_root_message_id turn = ms_id msg" "ms_turn_id msg = Some (tn_id turn)"
      "tn_conversation_id turn = rn_conversation_id run"
      "ms_conversation_id msg = rn_conversation_id run" "ms_role msg = RoleUser"
    and status: "rn_status run = RunQueued" "tn_status turn = TurnQueued" "rn_error run = None"
      "tn_cancel_version turn = rn_cancel_version run"
    and idle: "\<And>t z. hm_get T t = Some z \<Longrightarrow> tn_conversation_id z = rn_conversation_id run \<Longrightarrow>
      \<not> is_active_turn z"
  shows "core_ok C (hm_insert (ms_id msg) msg M) (hm_insert (tn_id turn) turn T)
           (hm_insert (rn_id run) run R)" (is "core_ok C ?M ?T ?R")
proof -
  note D = core_okD [OF ok]
  have b1: "maps_ok C ?M ?T ?R"
    using D(1) by (simp add: maps_ok_def hmk.keyed_insert)
  have b2: "run_ok C ?T z" if z: "hm_get ?R x = Some z" for x z
  proof (cases "x = rn_id run")
    case True
    with z c refs status show ?thesis by (auto simp: run_ok_def)
  next
    case False
    with z have "hm_get R x = Some z" by simp
    from D(4) [OF this] fresh(2) show ?thesis by (auto simp: run_ok_def)
  qed
  have b3: "turn_ok ?M ?R z" if z: "hm_get ?T x = Some z" for x z
  proof (cases "x = tn_id turn")
    case True
    with z refs show ?thesis by (auto simp: turn_ok_def)
  next
    case False
    with z have "hm_get T x = Some z" by simp
    from D(5) [OF this] fresh show ?thesis by (auto simp: turn_ok_def)
  qed
  have b4: "message_ok ?T z" if z: "hm_get ?M x = Some z" for x z
  proof (cases "x = ms_id msg")
    case True
    with z refs show ?thesis by (auto simp: message_ok_def)
  next
    case False
    with z have "hm_get M x = Some z" by simp
    from D(6) [OF this] fresh(2) show ?thesis by (fastforce simp: message_ok_def)
  qed
  have b5: "single_active ?T"
    using D(2) idle refs unfolding single_active_def by (auto split: if_splits)
  have no: "\<not> answer_of t msg" for t
    using refs by (simp add: answer_of_def)
  have unused: "ms_turn_id z \<noteq> Some (tn_id turn)" if "hm_get M x = Some z" for x z
    using D(6) [OF that] fresh(2) by (auto simp: message_ok_def)
  have b6: "answers_ok ?M ?T"
    unfolding answers_ok_def
  proof (intro conjI allI impI)
    fix x z
    assume z: "hm_get ?T x = Some z"
    have eq: "(\<exists>m a. hm_get ?M m = Some a \<and> answer_of x a) \<longleftrightarrow> (\<exists>m a. hm_get M m = Some a \<and> answer_of x a)"
      using no by (subst hm_ex_insert [OF fresh(1)]) blast
    show "tn_status z = TurnSucceeded \<longleftrightarrow> (\<exists>m a. hm_get ?M m = Some a \<and> answer_of x a)"
    proof (cases "x = tn_id turn")
      case True
      with z status unused show ?thesis unfolding eq by (auto simp: answer_of_def)
    next
      case False
      with z have "hm_get T x = Some z" by simp
      with D(3) show ?thesis unfolding eq by (simp add: answers_ok_def)
    qed
  next
    fix t m1 m2 a b
    assume "hm_get ?M m1 = Some a" "hm_get ?M m2 = Some b" "answer_of t a" "answer_of t b"
    then show "m1 = m2"
      using D(3) no by (auto simp: answers_ok_def split: if_splits)
  qed
  show ?thesis
    using b1 b2 b3 b4 b5 b6 by (simp add: core_ok_def)
qed

section \<open>The event log\<close>

definition event_log :: "agent_state \<Rightarrow> conversation_id \<Rightarrow> conversation_event list" where
  "event_log st c = (case hm_get (ag_events st) c of None \<Rightarrow> [] | Some es \<Rightarrow> es)"

text \<open>
  Every event of a conversation's log belongs to it and the log is numbered 1, 2, \<dots> (modulo
  the 64 bits of the counter); what was sent live is, conversation by conversation, the log.
\<close>

definition log_inv :: "agent_state \<Rightarrow> bool" where
  "log_inv st \<longleftrightarrow> (\<forall>c.
     map ce_sequence (event_log st c) = map of_nat [1..<Suc (length (event_log st c))] \<and>
     (\<forall>e\<in>set (event_log st c). ce_conversation_id e = c) \<and>
     hm_get (ag_next_event_sequence st) c =
       (if event_log st c = [] then None else Some (of_nat (length (event_log st c)))) \<and>
     filter (\<lambda>e. ce_conversation_id e = c) (ag_live st) = event_log st c)"

lemma emit_frame [simp]:
  "ag_conversations (emit e now cv ty t r p st) = ag_conversations st"
  "ag_messages (emit e now cv ty t r p st) = ag_messages st"
  "ag_turns (emit e now cv ty t r p st) = ag_turns st"
  "ag_runs (emit e now cv ty t r p st) = ag_runs st"
  "ag_next_message_sequence (emit e now cv ty t r p st) = ag_next_message_sequence st"
  "ag_idempotent_submissions (emit e now cv ty t r p st) = ag_idempotent_submissions st"
  "ag_checkpoints (emit e now cv ty t r p st) = ag_checkpoints st"
  "ag_tool_calls (emit e now cv ty t r p st) = ag_tool_calls st"
  by (simp_all add: emit_def Let_def split: prod.split)

lemma event_log_cong [simp]:
  "event_log (st\<lparr>ag_conversations := x1\<rparr>) = event_log st"
  "event_log (st\<lparr>ag_messages := x2\<rparr>) = event_log st"
  "event_log (st\<lparr>ag_turns := x3\<rparr>) = event_log st"
  "event_log (st\<lparr>ag_runs := x4\<rparr>) = event_log st"
  "event_log (st\<lparr>ag_next_message_sequence := x5\<rparr>) = event_log st"
  "event_log (st\<lparr>ag_idempotent_submissions := x6\<rparr>) = event_log st"
  "event_log (st\<lparr>ag_checkpoints := x7\<rparr>) = event_log st"
  "event_log (st\<lparr>ag_tool_calls := x8\<rparr>) = event_log st"
  by (simp_all add: event_log_def fun_eq_iff)

lemma log_inv_cong [simp]:
  "log_inv (st\<lparr>ag_conversations := x1\<rparr>) = log_inv st"
  "log_inv (st\<lparr>ag_messages := x2\<rparr>) = log_inv st"
  "log_inv (st\<lparr>ag_turns := x3\<rparr>) = log_inv st"
  "log_inv (st\<lparr>ag_runs := x4\<rparr>) = log_inv st"
  "log_inv (st\<lparr>ag_next_message_sequence := x5\<rparr>) = log_inv st"
  "log_inv (st\<lparr>ag_idempotent_submissions := x6\<rparr>) = log_inv st"
  "log_inv (st\<lparr>ag_checkpoints := x7\<rparr>) = log_inv st"
  "log_inv (st\<lparr>ag_tool_calls := x8\<rparr>) = log_inv st"
  by (simp_all add: log_inv_def)

definition next_event :: "conversation_event_id \<Rightarrow> instant \<Rightarrow> conversation \<Rightarrow> str \<Rightarrow> turn_id option \<Rightarrow>
    run_id option \<Rightarrow> event_payload \<Rightarrow> agent_state \<Rightarrow> conversation_event" where
  "next_event e now cv ty t r p st =
     \<lparr>ce_id = e, ce_conversation_id = cv_id cv, ce_operator_id = cv_operator_id cv,
      ce_tenant_id = cv_tenant_id cv, ce_project_id = cv_project_id cv,
      ce_sequence = fst (hm_bump (cv_id cv) (ag_next_event_sequence st)), ce_event_type = ty,
      ce_turn_id = t, ce_run_id = r, ce_payload = p, ce_occurred_at = now\<rparr>"

lemma event_log_emit:
  "event_log (emit e now cv ty t r p st) c =
     event_log st c @ (if c = cv_id cv then [next_event e now cv ty t r p st] else [])"
  "ag_live (emit e now cv ty t r p st) = ag_live st @ [next_event e now cv ty t r p st]"
  by (simp_all add: emit_def Let_def event_log_def next_event_def split: prod.split option.split)

lemma log_inv_emit [simp]:
  assumes "log_inv st"
  shows "log_inv (emit e now cv ty t r p st)"
proof -
  let ?ev = "next_event e now cv ty t r p st"
  note inv = assms [unfolded log_inv_def, rule_format, of "cv_id cv"]
  let ?n = "length (event_log st (cv_id cv))"
  from inv have sq: "ce_sequence ?ev = of_nat (Suc ?n)"
    by (auto simp: next_event_def hm_bump_def Let_def split: if_splits option.splits)
  have conv: "ce_conversation_id ?ev = cv_id cv"
    by (simp add: next_event_def)
  have counter: "hm_get (ag_next_event_sequence (emit e now cv ty t r p st)) c =
      (if c = cv_id cv then Some (ce_sequence ?ev) else hm_get (ag_next_event_sequence st) c)" for c
    by (simp add: emit_def Let_def next_event_def hm_bump_def split: prod.split)
  show ?thesis
    unfolding log_inv_def
  proof
    fix c
    show "map ce_sequence (event_log (emit e now cv ty t r p st) c) =
            map of_nat [1..<Suc (length (event_log (emit e now cv ty t r p st) c))] \<and>
          (\<forall>x\<in>set (event_log (emit e now cv ty t r p st) c). ce_conversation_id x = c) \<and>
          hm_get (ag_next_event_sequence (emit e now cv ty t r p st)) c =
            (if event_log (emit e now cv ty t r p st) c = [] then None
             else Some (of_nat (length (event_log (emit e now cv ty t r p st) c)))) \<and>
          filter (\<lambda>x. ce_conversation_id x = c) (ag_live (emit e now cv ty t r p st)) =
            event_log (emit e now cv ty t r p st) c"
      using assms [unfolded log_inv_def, rule_format, of c] sq conv
      by (auto simp: event_log_emit counter)
  qed
qed

lemma log_inv_empty: "log_inv agent_state_default"
  by (simp add: log_inv_def agent_state_default_def event_log_def)

end
