(* ===== verification/Machines.thy ===== *)
theory Machines
  imports Prelude
begin

text \<open>
  Contracts that several components share, stated once over a state type, an operation type
  and a guard. \<open>exec s e\<close> is the state after the operation \<open>e\<close>; \<open>ok s e\<close> is what the
  environment guarantees when \<open>e\<close> runs in \<open>s\<close> (in this program: a freshly drawn UUID is not
  in use yet). Operations of one repository run under its lock, so a concurrent history is a
  sequence of operations.
\<close>

fun run_ops :: "('s \<Rightarrow> 'e \<Rightarrow> 's) \<Rightarrow> 's \<Rightarrow> 'e list \<Rightarrow> 's" where
  "run_ops exec s [] = s"
| "run_ops exec s (e # es) = run_ops exec (exec s e) es"

fun ok_ops :: "('s \<Rightarrow> 'e \<Rightarrow> 's) \<Rightarrow> ('s \<Rightarrow> 'e \<Rightarrow> bool) \<Rightarrow> 's \<Rightarrow> 'e list \<Rightarrow> bool" where
  "ok_ops exec ok s [] \<longleftrightarrow> True"
| "ok_ops exec ok s (e # es) \<longleftrightarrow> ok s e \<and> ok_ops exec ok (exec s e) es"

text \<open>How many operations of a history satisfy \<open>p\<close> in the state they run in.\<close>

fun count_grants :: "('s \<Rightarrow> 'e \<Rightarrow> 's) \<Rightarrow> ('s \<Rightarrow> 'e \<Rightarrow> bool) \<Rightarrow> 's \<Rightarrow> 'e list \<Rightarrow> nat" where
  "count_grants exec p s [] = 0"
| "count_grants exec p s (e # es) = (if p s e then 1 else 0) + count_grants exec p (exec s e) es"

lemma run_ops_append: "run_ops exec s (xs @ ys) = run_ops exec (run_ops exec s xs) ys"
  by (induction xs arbitrary: s) auto

lemma ok_ops_append: "ok_ops exec ok s (xs @ ys) \<longleftrightarrow> ok_ops exec ok s xs \<and> ok_ops exec ok (run_ops exec s xs) ys"
  by (induction xs arbitrary: s) auto

section \<open>Invariants\<close>

locale invariant_machine =
  fixes exec :: "'s \<Rightarrow> 'e \<Rightarrow> 's"
    and ok :: "'s \<Rightarrow> 'e \<Rightarrow> bool"
    and inv :: "'s \<Rightarrow> bool"
  assumes inv_exec: "inv s \<Longrightarrow> ok s e \<Longrightarrow> inv (exec s e)"
begin

lemma inv_run: "inv s \<Longrightarrow> ok_ops exec ok s es \<Longrightarrow> inv (run_ops exec s es)"
  by (induction es arbitrary: s) (auto intro: inv_exec)

end

section \<open>One-shot permissions\<close>

text \<open>
  A permission that an operation hands out and that may be handed out once: a grant is made
  only while the permission is unspent, it spends it, and nothing restores it. The invariant
  is what the component's own well-formedness contributes.
\<close>

locale one_shot = invariant_machine exec ok inv
  for exec :: "'s \<Rightarrow> 'e \<Rightarrow> 's"
    and ok :: "'s \<Rightarrow> 'e \<Rightarrow> bool"
    and inv :: "'s \<Rightarrow> bool" +
  fixes grants :: "'s \<Rightarrow> 'e \<Rightarrow> bool"
    and spent :: "'s \<Rightarrow> bool"
  assumes grant_unspent: "inv s \<Longrightarrow> grants s e \<Longrightarrow> \<not> spent s"
    and grant_spends: "inv s \<Longrightarrow> ok s e \<Longrightarrow> grants s e \<Longrightarrow> spent (exec s e)"
    and spent_stable: "inv s \<Longrightarrow> ok s e \<Longrightarrow> spent s \<Longrightarrow> spent (exec s e)"
begin

lemma spent_no_grants: "inv s \<Longrightarrow> spent s \<Longrightarrow> ok_ops exec ok s es \<Longrightarrow> count_grants exec grants s es = 0"
proof (induction es arbitrary: s)
  case (Cons e es)
  then have "\<not> grants s e" and "spent (exec s e)" and "inv (exec s e)"
    by (auto dest: grant_unspent intro: spent_stable inv_exec)
  with Cons show ?case by simp
qed simp

lemma at_most_one_grant: "inv s \<Longrightarrow> ok_ops exec ok s es \<Longrightarrow> count_grants exec grants s es \<le> 1"
proof (induction es arbitrary: s)
  case (Cons e es)
  then have inv': "inv (exec s e)" and ok': "ok_ops exec ok (exec s e) es"
    by (auto intro: inv_exec)
  show ?case
  proof (cases "grants s e")
    case True
    with Cons.prems have "spent (exec s e)"
      by (auto intro: grant_spends)
    with inv' ok' True show ?thesis by (simp add: spent_no_grants)
  next
    case False
    with Cons.IH inv' ok' show ?thesis by simp
  qed
qed simp

lemma spent_run: "inv s \<Longrightarrow> spent s \<Longrightarrow> ok_ops exec ok s es \<Longrightarrow> spent (run_ops exec s es)"
  by (induction es arbitrary: s) (auto intro: spent_stable inv_exec)

end

section \<open>Optimistic versions\<close>

text \<open>
  Compare-and-set stores: a write names the version it was computed from and fails when the
  stored version is another one; a write that succeeds and changes the value moves the
  version on. \<open>commit x v e\<close> is the value after a successful write against version \<open>v\<close>.
\<close>

locale versioned =
  fixes version :: "'x \<Rightarrow> 'v"
    and commit :: "'x \<Rightarrow> 'v \<Rightarrow> 'e \<Rightarrow> 'x option"
  assumes commit_version: "commit x v e = Some y \<Longrightarrow> v = version x"
    and commit_moves: "commit x v e = Some y \<Longrightarrow> y \<noteq> x \<Longrightarrow> version y \<noteq> version x"
begin

lemma stale_write_fails: "v \<noteq> version x \<Longrightarrow> commit x v e = None"
  by (metis not_None_eq commit_version)

text \<open>No lost update: of two writers that read the same version, the second fails once the
  first has changed the value.\<close>

lemma second_writer_fails:
  assumes "commit x v e = Some y" and "y \<noteq> x"
  shows "commit y v e' = None"
  using assms by (metis stale_write_fails commit_moves commit_version)

end

end
