(* ===== verification/Agent_Machine.thy ===== *)
theory Agent_Machine
  imports Agent_Invariant Machines
begin

text \<open>
  The repository as a machine: \<open>agent_op\<close> lists the state-changing methods of
  \<open>AgentRepository\<close> with their arguments, \<open>agent_exec\<close> runs one on a state. \<open>agent_fresh\<close>
  is what UUID version 4 guarantees in practice: an identifier drawn for a new conversation,
  message, turn or run is not in use.
\<close>

datatype agent_op =
    OpCreate draws tenant_scope "user_id option" create_conversation_input
  | OpAppend draws tenant_scope conversation_id append_message_input str str runtime_capability
  | OpCancel draws tenant_scope turn_id
  | OpBegin draws tenant_scope run_id
  | OpFinish draws tenant_scope run_id run_completion
  | OpReconcile draws
  | OpCheckpoint draws tenant_scope run_id store_checkpoint_input
  | OpAppendTool draws tenant_scope record_tool_call
  | OpBeginTool draws tenant_scope record_tool_call
  | OpAttemptTool draws tenant_scope tool_call_identity
  | OpFinishTool draws tenant_scope tool_call_identity tool_call_outcome

fun agent_exec :: "(uuid \<Rightarrow> str) \<Rightarrow> agent_state \<Rightarrow> agent_op \<Rightarrow> agent_state" where
  "agent_exec show_uuid st (OpCreate d s u i) = snd (create_conversation d s u i st)"
| "agent_exec show_uuid st (OpAppend d s c i k h cap) = snd (append_message show_uuid d s c i k h cap st)"
| "agent_exec show_uuid st (OpCancel d s t) = snd (cancel_turn d s t st)"
| "agent_exec show_uuid st (OpBegin d s r) = snd (begin_run d s r st)"
| "agent_exec show_uuid st (OpFinish d s r c) = snd (finish_run d s r c st)"
| "agent_exec show_uuid st (OpReconcile d) = snd (reconcile_running_runs d st)"
| "agent_exec show_uuid st (OpCheckpoint d s r i) = snd (store_checkpoint d s r i st)"
| "agent_exec show_uuid st (OpAppendTool d s i) = snd (append_tool_call d s i st)"
| "agent_exec show_uuid st (OpBeginTool d s i) = snd (begin_tool_call d s i st)"
| "agent_exec show_uuid st (OpAttemptTool d s i) = snd (attempt_tool_call d s i st)"
| "agent_exec show_uuid st (OpFinishTool d s i out) = snd (finish_tool_call d s i out st)"

fun agent_fresh :: "agent_state \<Rightarrow> agent_op \<Rightarrow> bool" where
  "agent_fresh st (OpCreate d s u i) \<longleftrightarrow> hm_get (ag_conversations st) (fresh_ident d 0) = None"
| "agent_fresh st (OpAppend d s c i k h cap) \<longleftrightarrow>
     hm_get (ag_turns st) (fresh_ident d 0) = None \<and> hm_get (ag_runs st) (fresh_ident d 1) = None \<and>
     hm_get (ag_messages st) (fresh_ident d 2) = None"
| "agent_fresh st (OpFinish d s r c) \<longleftrightarrow> hm_get (ag_messages st) (fresh_ident d 0) = None"
| "agent_fresh st _ \<longleftrightarrow> True"

section \<open>What each operation does\<close>

text \<open>
  For each operation, the guard under which it changes the state, its result and new state
  there, and that it leaves the state alone otherwise.
\<close>

definition append_guard :: "agent_state \<Rightarrow> tenant_scope \<Rightarrow> conversation_id \<Rightarrow> append_message_input \<Rightarrow>
    str \<Rightarrow> str \<Rightarrow> conversation \<Rightarrow> bool" where
  "append_guard st s c i k content conv \<longleftrightarrow>
     validate_append_message i = Inr content \<and> visible_conversation st s c = Some conv \<and>
     hm_get (ag_idempotent_submissions st) (k, c) = None \<and> cv_status conv = ConvActive \<and>
     filter is_active_turn (conversation_turns st c) = []"

lemma append_message_step:
  "append_guard st s c i k content conv \<Longrightarrow>
     append_message show_uuid d s c i k h cap st =
       (Inr (fst (accept_submission show_uuid d conv content i (k, c) h cap st)),
        snd (accept_submission show_uuid d conv content i (k, c) h cap st))"
  by (simp add: append_message_def append_guard_def split: prod.split)

lemma append_message_skip:
  "\<nexists>content conv. append_guard st s c i k content conv \<Longrightarrow>
     snd (append_message show_uuid d s c i k h cap st) = st"
  by (auto simp: append_message_def append_guard_def split: result_splits option.split)

definition cancel_guard :: "agent_state \<Rightarrow> tenant_scope \<Rightarrow> turn_id \<Rightarrow> turn \<Rightarrow> agent_run \<Rightarrow>
    conversation \<Rightarrow> bool" where
  "cancel_guard st s t turn run conv \<longleftrightarrow>
     hm_get (ag_turns st) t = Some turn \<and>
     (\<exists>r. tn_run_id turn = Some r \<and> hm_get (ag_runs st) r = Some run) \<and>
     scope_contains s (run_scope run) \<and> \<not> is_terminal_run (rn_status run) \<and>
     hm_get (ag_conversations st) (tn_conversation_id turn) = Some conv"

lemma cancel_turn_step:
  fixes d :: draws
  assumes "cancel_guard st s t turn run conv"
  defines "turn' \<equiv> turn\<lparr>tn_status := TurnCancelled, tn_cancel_version := tn_cancel_version turn + 1,
      tn_updated_at := now_at d 0\<rparr>"
  defines "run' \<equiv> run\<lparr>rn_status := RunCancelled, rn_cancel_version := tn_cancel_version turn + 1,
      rn_updated_at := now_at d 0\<rparr>"
  shows "cancel_turn d s t st = (Inr run',
     emit (fresh_ident d 0) (now_at d 1) conv (lit ''run.cancelled'') (Some (tn_id turn))
       (Some (rn_id run)) (PRunCancelled (rn_id run) (tn_cancel_version turn + 1))
       (st\<lparr>ag_turns := hm_insert (tn_id turn) turn' (ag_turns st),
           ag_runs := hm_insert (rn_id run) run' (ag_runs st)\<rparr>))"
  using assms(1) by (auto simp: cancel_turn_def cancel_guard_def turn'_def run'_def Let_def)

lemma cancel_turn_skip:
  "\<nexists>turn run conv. cancel_guard st s t turn run conv \<Longrightarrow> snd (cancel_turn d s t st) = st"
  by (auto simp: cancel_turn_def cancel_guard_def Let_def split: result_splits option.split)

definition claim_guard :: "agent_state \<Rightarrow> tenant_scope \<Rightarrow> run_id \<Rightarrow> run_status \<Rightarrow> agent_run \<Rightarrow>
    conversation \<Rightarrow> bool" where
  "claim_guard st s r status run conv \<longleftrightarrow>
     hm_get (ag_runs st) r = Some run \<and> scope_contains s (run_scope run) \<and>
     rn_status run = status \<and> hm_get (ag_conversations st) (rn_conversation_id run) = Some conv"

lemma begin_run_step:
  assumes "claim_guard st s r RunQueued run conv"
  shows "begin_run d s r st =
    (Inr (Some (run\<lparr>rn_status := RunRunning, rn_updated_at := now_at d 0\<rparr>)),
     emit (fresh_ident d 0) (now_at d 1) conv (lit ''run.running'') (Some (rn_turn_id run))
       (Some (rn_id run)) (PRunStatus (rn_id run) RunRunning)
       (st\<lparr>ag_runs := hm_insert (rn_id run) (run\<lparr>rn_status := RunRunning,
             rn_updated_at := now_at d 0\<rparr>) (ag_runs st),
           ag_turns := (case hm_get (ag_turns st) (rn_turn_id run) of
               Some turn \<Rightarrow> if tn_status turn = TurnQueued
                 then hm_insert (rn_turn_id run) (turn\<lparr>tn_status := TurnRunning,
                        tn_updated_at := now_at d 0\<rparr>) (ag_turns st)
                 else ag_turns st
             | None \<Rightarrow> ag_turns st)\<rparr>))"
  using assms by (simp add: begin_run_def claim_guard_def Let_def split: option.split)

lemma begin_run_skip:
  "\<nexists>run conv. claim_guard st s r RunQueued run conv \<Longrightarrow> snd (begin_run d s r st) = st"
  by (auto simp: begin_run_def claim_guard_def Let_def split: result_splits option.split)

lemma begin_run_grants:
  "fst (begin_run d s r st) = Inr (Some run') \<Longrightarrow> \<exists>run conv. claim_guard st s r RunQueued run conv"
  by (auto simp: begin_run_def claim_guard_def Let_def split: result_splits option.splits if_splits)

definition finish_guard :: "agent_state \<Rightarrow> tenant_scope \<Rightarrow> run_id \<Rightarrow> agent_run \<Rightarrow> turn \<Rightarrow>
    conversation \<Rightarrow> bool" where
  "finish_guard st s r run turn conv \<longleftrightarrow>
     claim_guard st s r RunRunning run conv \<and> hm_get (ag_turns st) (rn_turn_id run) = Some turn"

lemma finish_run_success:
  fixes d :: draws
  assumes "finish_guard st s r run turn conv" and "completion_outcome completion = Inr (content, metadata)"
  defines "conv' \<equiv> conv\<lparr>cv_revision := cv_revision conv + 1, cv_updated_at := now_at d 0\<rparr>"
    and "msg \<equiv> assistant_message d conv run content metadata
           (fst (hm_bump (cv_id conv) (ag_next_message_sequence st)))"
    and "run' \<equiv> run\<lparr>rn_status := RunSucceeded, rn_error := None, rn_updated_at := now_at d 0\<rparr>"
    and "turn' \<equiv> turn\<lparr>tn_status := TurnSucceeded, tn_updated_at := now_at d 0\<rparr>"
  defines "st1 \<equiv> st\<lparr>ag_next_message_sequence := snd (hm_bump (cv_id conv) (ag_next_message_sequence st)),
      ag_runs := hm_insert (rn_id run) run' (ag_runs st),
      ag_turns := hm_insert (tn_id turn) turn' (ag_turns st),
      ag_conversations := hm_insert (cv_id conv) conv' (ag_conversations st),
      ag_messages := hm_insert (ms_id msg) msg (ag_messages st)\<rparr>"
  shows "finish_run d s r completion st =
    (Inr (Some \<lparr>tr_run = run', tr_turn = turn', tr_message = Some msg\<rparr>),
     emit (fresh_ident d 2) (now_at d 2) conv' (lit ''run.succeeded'') (Some (tn_id turn))
       (Some (rn_id run)) (PRunStatus (rn_id run) RunSucceeded)
       (emit (fresh_ident d 1) (now_at d 1) conv' (lit ''message.created'') (Some (tn_id turn))
          (Some (rn_id run)) (PMessage msg) st1))"
  using assms(1,2)
  by (simp add: finish_run_def claim_guard_def finish_guard_def st1_def conv'_def msg_def run'_def
      turn'_def Let_def split: prod.split)

lemma finish_run_failure:
  fixes d :: draws
  assumes "finish_guard st s r run turn conv" and "completion_outcome completion = Inl error"
  defines "conv' \<equiv> conv\<lparr>cv_revision := cv_revision conv + 1, cv_updated_at := now_at d 0\<rparr>"
    and "run' \<equiv> run\<lparr>rn_status := RunFailed, rn_error := Some error, rn_updated_at := now_at d 0\<rparr>"
    and "turn' \<equiv> turn\<lparr>tn_status := TurnFailed, tn_updated_at := now_at d 0\<rparr>"
  shows "finish_run d s r completion st =
    (Inr (Some \<lparr>tr_run = run', tr_turn = turn', tr_message = None\<rparr>),
     emit (fresh_ident d 0) (now_at d 1) conv' (lit ''run.failed'') (Some (tn_id turn))
       (Some (rn_id run)) (PRunError (rn_id run) RunFailed error)
       (st\<lparr>ag_runs := hm_insert (rn_id run) run' (ag_runs st),
           ag_turns := hm_insert (tn_id turn) turn' (ag_turns st),
           ag_conversations := hm_insert (cv_id conv) conv' (ag_conversations st)\<rparr>))"
  using assms(1,2)
  by (simp add: finish_run_def claim_guard_def finish_guard_def conv'_def run'_def turn'_def Let_def)

lemma finish_run_skip:
  "\<nexists>run turn conv. finish_guard st s r run turn conv \<Longrightarrow> snd (finish_run d s r completion st) = st"
  by (auto simp: finish_run_def claim_guard_def finish_guard_def
      split: result_splits option.split)


section \<open>Well-formedness is preserved\<close>

text \<open>What the invariant says of a turn and its run that both exist.\<close>

lemma paired_lookup:
  assumes "core_inv st" and "hm_get (ag_runs st) r = Some run"
  shows "rn_id run = r"
    and "hm_get (ag_turns st) (rn_turn_id run) = Some turn \<Longrightarrow> tn_id turn = rn_turn_id run"
    and "hm_get (ag_turns st) (rn_turn_id run) = Some turn \<Longrightarrow> tn_run_id turn = Some r"
    and "hm_get (ag_turns st) (rn_turn_id run) = Some turn \<Longrightarrow>
           tn_status turn = turn_status_of (rn_status run)"
    and "hm_get (ag_turns st) (rn_turn_id run) = Some turn \<Longrightarrow>
           tn_conversation_id turn = rn_conversation_id run"
    and "hm_get (ag_turns st) (rn_turn_id run) = Some turn \<Longrightarrow>
           tn_cancel_version turn = rn_cancel_version run"
    and "\<exists>turn. hm_get (ag_turns st) (rn_turn_id run) = Some turn"
    and "\<exists>conv. hm_get (ag_conversations st) (rn_conversation_id run) = Some conv \<and>
           conversation_scope conv = run_scope run"
    and "rn_error run \<noteq> None \<longleftrightarrow> rn_status run = RunFailed"
  using core_okD(4,10) [OF assms(1) [unfolded core_inv_def] assms(2)]
    core_okD(9) [OF assms(1) [unfolded core_inv_def]]
  by (auto simp: run_ok_def)

lemma turn_run_lookup:
  assumes "core_inv st" and "hm_get (ag_turns st) t = Some turn" and "tn_run_id turn = Some r"
    and "hm_get (ag_runs st) r = Some run"
  shows "rn_turn_id run = t" and "tn_id turn = t"
  using core_okD(5,9) [OF assms(1) [unfolded core_inv_def] assms(2)] assms(3,4)
  by (auto simp: turn_ok_def)

lemma conversation_lookup:
  assumes "core_inv st" and "hm_get (ag_conversations st) c = Some conv"
  shows "cv_id conv = c"
  using core_okD(7) [OF assms(1) [unfolded core_inv_def] assms(2)] .

lemma core_inv_create:
  assumes "core_inv st" and "hm_get (ag_conversations st) (fresh_ident d 0) = None"
  shows "core_inv (snd (create_conversation d s u i st))"
proof -
  have "core_ok (hm_insert (fresh_ident d 0) conv (ag_conversations st)) (ag_messages st) (ag_turns st)
      (ag_runs st)" if "cv_id conv = fresh_ident d 0" for conv
    using core_ok_new_conversation [OF assms(1) [unfolded core_inv_def], of conv] that assms(2) by simp
  with assms(1) show ?thesis
    by (auto simp: create_conversation_def Let_def core_inv_def split: result_splits option.split)
qed

lemma core_inv_cancel:
  assumes inv: "core_inv st"
  shows "core_inv (snd (cancel_turn d s t st))"
proof (cases "\<exists>turn run conv. cancel_guard st s t turn run conv")
  case True
  then obtain turn run conv r where g: "cancel_guard st s t turn run conv"
    and t: "hm_get (ag_turns st) t = Some turn" and r: "tn_run_id turn = Some r"
      "hm_get (ag_runs st) r = Some run" and nt: "\<not> is_terminal_run (rn_status run)"
    by (auto simp: cancel_guard_def)
  note tr = turn_run_lookup [OF inv t r] and p = paired_lookup [OF inv r(2)]
  from nt have st: "rn_status run = RunQueued \<or> rn_status run = RunRunning"
    by (cases "rn_status run") (auto simp: is_terminal_run_def)
  have "core_ok (ag_conversations st) (ag_messages st)
     (hm_insert (rn_turn_id run) (turn\<lparr>tn_status := TurnCancelled,
        tn_cancel_version := tn_cancel_version turn + 1, tn_updated_at := now_at d 0\<rparr>) (ag_turns st))
     (hm_insert r (run\<lparr>rn_status := RunCancelled, rn_cancel_version := tn_cancel_version turn + 1,
        rn_updated_at := now_at d 0\<rparr>) (ag_runs st))"
    using t tr p(9) st inv
    by (intro core_ok_pair [where run = run and turn = turn])
       (auto simp: core_inv_def paired_update_def is_active_turn_def run_scope_def r)
  with tr p(1) show ?thesis
    by (simp add: cancel_turn_step [OF g] core_inv_def)
qed (use inv in \<open>simp add: cancel_turn_skip\<close>)

lemma core_inv_begin:
  assumes inv: "core_inv st"
  shows "core_inv (snd (begin_run d s r st))"
proof (cases "\<exists>run conv. claim_guard st s r RunQueued run conv")
  case True
  then obtain run conv where g: "claim_guard st s r RunQueued run conv"
    and r: "hm_get (ag_runs st) r = Some run" and st: "rn_status run = RunQueued"
    by (auto simp: claim_guard_def)
  note p = paired_lookup [OF inv r]
  from p(7) obtain turn where t: "hm_get (ag_turns st) (rn_turn_id run) = Some turn" by blast
  have "core_ok (ag_conversations st) (ag_messages st)
     (hm_insert (rn_turn_id run) (turn\<lparr>tn_status := TurnRunning, tn_updated_at := now_at d 0\<rparr>)
        (ag_turns st))
     (hm_insert r (run\<lparr>rn_status := RunRunning, rn_updated_at := now_at d 0\<rparr>) (ag_runs st))"
    using t p(4,6) [OF t] p(9) st inv
    by (intro core_ok_pair [where run = run and turn = turn])
       (auto simp: core_inv_def paired_update_def is_active_turn_def run_scope_def r)
  with t st p(1) p(4) [OF t] show ?thesis
    by (simp add: begin_run_step [OF g] core_inv_def)
qed (use inv in \<open>simp add: begin_run_skip\<close>)

lemma core_inv_finish:
  assumes inv: "core_inv st" and fresh: "hm_get (ag_messages st) (fresh_ident d 0) = None"
  shows "core_inv (snd (finish_run d s r completion st))"
proof (cases "\<exists>run turn conv. finish_guard st s r run turn conv")
  case True
  then obtain run turn conv where g: "finish_guard st s r run turn conv"
    and r: "hm_get (ag_runs st) r = Some run" and st: "rn_status run = RunRunning"
    and c: "hm_get (ag_conversations st) (rn_conversation_id run) = Some conv"
    and t: "hm_get (ag_turns st) (rn_turn_id run) = Some turn"
    by (auto simp: finish_guard_def claim_guard_def)
  note p = paired_lookup [OF inv r] and cid = conversation_lookup [OF inv c]
  let ?conv = "conv\<lparr>cv_revision := cv_revision conv + 1, cv_updated_at := now_at d 0\<rparr>"
  have touch: "core_ok (hm_insert (rn_conversation_id run) ?conv (ag_conversations st)) M T R"
    if "core_ok (ag_conversations st) M T R" for M T R
    using that c cid by (intro core_ok_touch [where conv = conv]) (auto simp: conversation_scope_def)
  show ?thesis
  proof (cases "completion_outcome completion")
    case (Inl error)
    have "core_ok (ag_conversations st) (ag_messages st)
       (hm_insert (rn_turn_id run) (turn\<lparr>tn_status := TurnFailed, tn_updated_at := now_at d 0\<rparr>)
          (ag_turns st))
       (hm_insert r (run\<lparr>rn_status := RunFailed, rn_error := Some error,
          rn_updated_at := now_at d 0\<rparr>) (ag_runs st))"
      using t p(4,6) [OF t] st inv
      by (intro core_ok_pair [where run = run and turn = turn])
         (auto simp: core_inv_def paired_update_def is_active_turn_def run_scope_def r)
    from touch [OF this] p(1,2) t cid show ?thesis
      by (simp add: finish_run_failure [OF g Inl] core_inv_def)
  next
    case (Inr out)
    obtain content metadata where out: "completion_outcome completion = Inr (content, metadata)"
      using Inr by (cases out) auto
    define msg where "msg = assistant_message d conv run content metadata
        (fst (hm_bump (cv_id conv) (ag_next_message_sequence st)))"
    have "core_ok (ag_conversations st) (hm_insert (ms_id msg) msg (ag_messages st))
       (hm_insert (rn_turn_id run) (turn\<lparr>tn_status := TurnSucceeded, tn_updated_at := now_at d 0\<rparr>)
          (ag_turns st))
       (hm_insert r (run\<lparr>rn_status := RunSucceeded, rn_error := None,
          rn_updated_at := now_at d 0\<rparr>) (ag_runs st))"
      using t p(4,6) [OF t] st inv fresh cid
      by (intro core_ok_succeed [where run = run and turn = turn])
         (auto simp: core_inv_def paired_update_def is_active_turn_def run_scope_def r msg_def
            assistant_message_def answer_of_def)
    from touch [OF this] p(1,2) t cid show ?thesis
      by (simp add: finish_run_success [OF g out] core_inv_def msg_def)
  qed
qed (use inv in \<open>simp add: finish_run_skip\<close>)


text \<open>The fields an accepted submission leaves, written over the records it builds.\<close>

definition submit_conversation :: "draws \<Rightarrow> conversation \<Rightarrow> conversation" where
  "submit_conversation d conv = conv\<lparr>cv_revision := cv_revision conv + 1, cv_updated_at := now_at d 0\<rparr>"

definition submit_message :: "draws \<Rightarrow> conversation \<Rightarrow> str \<Rightarrow> append_message_input \<Rightarrow> agent_state \<Rightarrow> message" where
  "submit_message d conv content i st = append_user_message d (submit_conversation d conv) content i
     (fst (hm_bump (cv_id conv) (ag_next_message_sequence st)))"

definition submit_turn :: "draws \<Rightarrow> conversation \<Rightarrow> str \<Rightarrow> append_message_input \<Rightarrow> agent_state \<Rightarrow> turn" where
  "submit_turn d conv content i st = append_turn d (submit_conversation d conv)
     (submit_message d conv content i st)
     (map_option tn_id (max_by_key tn_created_at (conversation_turns st (cv_id conv))))"

definition submit_run :: "draws \<Rightarrow> conversation \<Rightarrow> runtime_capability \<Rightarrow> agent_run" where
  "submit_run d conv cap = append_run d (submit_conversation d conv) cap"

definition refusal :: "runtime_capability \<Rightarrow> app_error" where
  "refusal cap = capability_missing (case rc_reason cap of
     None \<Rightarrow> lit ''agent runtime is unavailable'' | Some r \<Rightarrow> r)"

definition submit_final_turn :: "draws \<Rightarrow> runtime_capability \<Rightarrow> turn \<Rightarrow> turn" where
  "submit_final_turn d cap t = (if is_available cap then t
     else t\<lparr>tn_status := TurnFailed, tn_updated_at := now_at d 3\<rparr>)"

definition submit_final_run :: "draws \<Rightarrow> runtime_capability \<Rightarrow> agent_run \<Rightarrow> agent_run" where
  "submit_final_run d cap r = (if is_available cap then r
     else r\<lparr>rn_status := RunFailed, rn_error := Some (refusal cap), rn_updated_at := now_at d 3\<rparr>)"

lemmas submit_defs = submit_conversation_def submit_message_def submit_turn_def submit_run_def
  submit_final_turn_def submit_final_run_def append_user_message_def append_turn_def append_run_def
  refusal_def

lemma hm_insert_same [simp]: "hm_insert k v (hm_insert k w m) = hm_insert k v m"
  unfolding hm_insert_def by (induction m) auto

lemma accept_fields:
  fixes show_uuid d conv content i key h cap st
  defines "acc \<equiv> accept_submission show_uuid d conv content i key h cap st"
    and "cv' \<equiv> submit_conversation d conv" and "msg \<equiv> submit_message d conv content i st"
    and "trn \<equiv> submit_final_turn d cap (submit_turn d conv content i st)"
    and "rn \<equiv> submit_final_run d cap (submit_run d conv cap)"
  shows "fst acc = \<lparr>sa_conversation = cv', sa_message = msg, sa_turn = trn, sa_run = rn,
      sa_events_url = events_url show_uuid (cv_id conv)\<rparr>"
    and "ag_conversations (snd acc) = hm_insert (cv_id conv) cv' (ag_conversations st)"
    and "ag_messages (snd acc) = hm_insert (fresh_ident d 2) msg (ag_messages st)"
    and "ag_turns (snd acc) = hm_insert (fresh_ident d 0) trn (ag_turns st)"
    and "ag_runs (snd acc) = hm_insert (fresh_ident d 1) rn (ag_runs st)"
    and "ag_idempotent_submissions (snd acc) = hm_insert key (h, fst acc) (ag_idempotent_submissions st)"
    and "ag_checkpoints (snd acc) = ag_checkpoints st" and "ag_tool_calls (snd acc) = ag_tool_calls st"
  unfolding assms
  by (cases "is_available cap"; simp add: accept_submission_def refuse_submission_def submit_defs
      Let_def case_prod_beta)+

lemma accept_final_pair:
  "core_ok C M (hm_insert t trn T) (hm_insert r rn R) \<Longrightarrow> rn_turn_id rn = t \<Longrightarrow> rn_status rn = RunQueued \<Longrightarrow>
   core_ok C M (hm_insert t (submit_final_turn d cap trn) T) (hm_insert r (submit_final_run d cap rn) R)"
proof (cases "is_available cap")
  case False
  assume ok: "core_ok C M (hm_insert t trn T) (hm_insert r rn R)"
    and q: "rn_turn_id rn = t" "rn_status rn = RunQueued"
  have r: "hm_get (hm_insert r rn R) r = Some rn" by simp
  from core_okD(4) [OF ok r] q have old: "tn_status trn = TurnQueued"
      "tn_cancel_version trn = rn_cancel_version rn" "rn_error rn = None"
    by (auto simp: run_ok_def)
  have "core_ok C M (hm_insert t (submit_final_turn d cap trn) (hm_insert t trn T))
     (hm_insert r (submit_final_run d cap rn) (hm_insert r rn R))"
    using ok q old False
    by (rule_tac core_ok_pair [where run = rn and turn = trn, unfolded q(1)])
       (auto simp: submit_final_turn_def submit_final_run_def paired_update_def run_scope_def
          is_active_turn_def)
  then show ?thesis by simp
qed (simp add: submit_final_turn_def submit_final_run_def)

lemma core_inv_append:
  assumes inv: "core_inv st" and fresh: "agent_fresh st (OpAppend d s c i k h cap)"
  shows "core_inv (snd (append_message show_uuid d s c i k h cap st))"
proof (cases "\<exists>content conv. append_guard st s c i k content conv")
  case True
  then obtain content conv where g: "append_guard st s c i k content conv" by blast
  then have c: "hm_get (ag_conversations st) c = Some conv"
    by (auto simp: append_guard_def visible_conversation_def split: option.splits if_splits)
  note cid = conversation_lookup [OF inv c]
  let ?msg = "submit_message d conv content i st" and ?trn = "submit_turn d conv content i st"
    and ?rn = "submit_run d conv cap"
  have wf: "hm_wf (ag_turns st)"
    using core_okD(1) [OF inv [unfolded core_inv_def]] by (simp add: maps_ok_def)
  have idle: "\<not> is_active_turn z" if "hm_get (ag_turns st) t = Some z" "tn_conversation_id z = c" for t z
    using g that hm.lookup_in_vals [OF wf that(1)]
    by (auto simp: append_guard_def conversation_turns_def filter_empty_conv)
  have "core_ok (ag_conversations st) (hm_insert (ms_id ?msg) ?msg (ag_messages st))
      (hm_insert (tn_id ?trn) ?trn (ag_turns st)) (hm_insert (rn_id ?rn) ?rn (ag_runs st))"
    using inv fresh c cid idle
    by (intro core_ok_submit [where conv = conv])
       (auto simp: core_inv_def submit_defs conversation_scope_def run_scope_def)
  then have "core_ok (ag_conversations st) (hm_insert (fresh_ident d 2) ?msg (ag_messages st))
      (hm_insert (fresh_ident d 0) ?trn (ag_turns st)) (hm_insert (fresh_ident d 1) ?rn (ag_runs st))"
    by (simp add: submit_defs)
  from accept_final_pair [OF this]
  have "core_ok (ag_conversations st) (hm_insert (fresh_ident d 2) ?msg (ag_messages st))
      (hm_insert (fresh_ident d 0) (submit_final_turn d cap ?trn) (ag_turns st))
      (hm_insert (fresh_ident d 1) (submit_final_run d cap ?rn) (ag_runs st))"
    by (simp add: submit_defs)
  from core_ok_touch [OF this c, of "submit_conversation d conv"] show ?thesis
    by (simp add: append_message_step [OF g] core_inv_def accept_fields cid submit_conversation_def
        conversation_scope_def)
qed (use inv in \<open>simp add: append_message_skip\<close>)

text \<open>One iteration of the restart loop, on a run that is \<open>Running\<close>.\<close>

definition reconciled_state :: "draws \<Rightarrow> nat \<Rightarrow> nat \<Rightarrow> run_id \<Rightarrow> agent_run \<Rightarrow> turn \<Rightarrow> conversation \<Rightarrow>
    agent_state \<Rightarrow> agent_state" where
  "reconciled_state d u n r run turn conv st =
       emit (fresh_ident d u) (now_at d (n + 1))
         (conv\<lparr>cv_revision := cv_revision conv + 1, cv_updated_at := now_at d n\<rparr>)
         (lit ''run.failed'') (Some (rn_turn_id run)) (Some r)
         (PRunAbandoned r RunFailed abandoned_error (lit ''process_restart''))
         (st\<lparr>ag_turns := hm_insert (rn_turn_id run)
               (turn\<lparr>tn_status := TurnFailed, tn_updated_at := now_at d n\<rparr>) (ag_turns st),
             ag_runs := hm_insert r (run\<lparr>rn_status := RunFailed, rn_error := Some abandoned_error,
               rn_updated_at := now_at d n\<rparr>) (ag_runs st),
             ag_conversations := hm_insert (rn_conversation_id run)
               (conv\<lparr>cv_revision := cv_revision conv + 1, cv_updated_at := now_at d n\<rparr>)
               (ag_conversations st)\<rparr>)"

lemma reconcile_one_step:
  assumes inv: "core_inv st" and r: "hm_get (ag_runs st) r = Some run"
    and running: "rn_status run = RunRunning"
  obtains turn conv where "hm_get (ag_turns st) (rn_turn_id run) = Some turn"
    "hm_get (ag_conversations st) (rn_conversation_id run) = Some conv" "tn_status turn = TurnRunning"
    "reconcile_one d r (u, n, k, st) = (u + 1, n + 2, k + 1,
       reconciled_state d u n r run turn conv st)"
proof -
  note p = paired_lookup [OF inv r]
  obtain turn conv where t: "hm_get (ag_turns st) (rn_turn_id run) = Some turn"
    and c: "hm_get (ag_conversations st) (rn_conversation_id run) = Some conv"
    using p(7,8) by blast
  have "tn_status turn = TurnRunning"
    using p(4) [OF t] running by simp
  then show thesis
    using that [OF t c] p(1,2) t r conversation_lookup [OF inv c] c
    by (simp add: reconcile_one_def reconciled_state_def is_active_turn_def Let_def)
qed

lemma core_inv_reconcile_one:
  assumes inv: "core_inv st" and r: "hm_get (ag_runs st) r = Some run"
    and running: "rn_status run = RunRunning"
  shows "core_inv (snd (snd (snd (reconcile_one d r (u, n, k, st)))))"
proof -
  obtain turn conv where t: "hm_get (ag_turns st) (rn_turn_id run) = Some turn"
    and c: "hm_get (ag_conversations st) (rn_conversation_id run) = Some conv"
    and eq: "reconcile_one d r (u, n, k, st) = (u + 1, n + 2, k + 1,
       reconciled_state d u n r run turn conv st)"
    using reconcile_one_step [OF inv r running] by metis
  note p = paired_lookup [OF inv r]
  have pair: "core_ok (ag_conversations st) (ag_messages st)
     (hm_insert (rn_turn_id run) (turn\<lparr>tn_status := TurnFailed, tn_updated_at := now_at d n\<rparr>) (ag_turns st))
     (hm_insert r (run\<lparr>rn_status := RunFailed, rn_error := Some abandoned_error,
        rn_updated_at := now_at d n\<rparr>) (ag_runs st))"
    using t p(4,6) [OF t] running inv
    by (rule_tac core_ok_pair [where run = run and turn = turn])
       (auto simp: core_inv_def paired_update_def is_active_turn_def run_scope_def r)
  show ?thesis
    using core_ok_touch [OF pair c] conversation_lookup [OF inv c]
    by (simp add: eq reconciled_state_def core_inv_def conversation_scope_def)
qed

text \<open>
  The loop visits each running run once: a visit changes no other run, so the runs still to
  come are still running when their turn comes.
\<close>

lemma reconcile_one_other:
  assumes inv: "core_inv st" and r: "hm_get (ag_runs st) r = Some run"
    and running: "rn_status run = RunRunning" and x: "x \<noteq> r"
  shows "hm_get (ag_runs (snd (snd (snd (reconcile_one d r (u, n, k, st)))))) x = hm_get (ag_runs st) x"
proof -
  obtain turn conv where "reconcile_one d r (u, n, k, st) =
      (u + 1, n + 2, k + 1, reconciled_state d u n r run turn conv st)"
    using reconcile_one_step [OF inv r running] by metis
  with x show ?thesis by (simp add: reconciled_state_def)
qed

lemma reconcile_loop_induct [consumes 4]:
  assumes inv: "core_inv st" and dist: "distinct rs"
    and running: "\<And>r. r \<in> set rs \<Longrightarrow> \<exists>run. hm_get (ag_runs st) r = Some run \<and> rn_status run = RunRunning"
    and base: "P st"
    and step: "\<And>s r run u n k. core_inv s \<Longrightarrow> hm_get (ag_runs s) r = Some run \<Longrightarrow>
      rn_status run = RunRunning \<Longrightarrow> P s \<Longrightarrow> P (snd (snd (snd (reconcile_one d r (u, n, k, s)))))"
  shows "core_inv (snd (snd (snd (fold (reconcile_one d) rs (u, n, k, st))))) \<and>
    P (snd (snd (snd (fold (reconcile_one d) rs (u, n, k, st)))))"
  using inv dist running base
proof (induction rs arbitrary: st u n k)
  case (Cons r rs)
  obtain run where r: "hm_get (ag_runs st) r = Some run" "rn_status run = RunRunning"
    using Cons.prems(3) [of r] by auto
  obtain u' n' k' st' where acc: "reconcile_one d r (u, n, k, st) = (u', n', k', st')"
    by (metis prod_cases4)
  have "core_inv st'" and "P st'"
    using core_inv_reconcile_one [OF Cons.prems(1) r, of d u n k]
      step [OF Cons.prems(1) r Cons.prems(4), of u n k] acc by auto
  moreover have "\<exists>run. hm_get (ag_runs st') x = Some run \<and> rn_status run = RunRunning"
    if "x \<in> set rs" for x
  proof -
    from that Cons.prems(2) have "x \<noteq> r" by auto
    then show ?thesis
      using reconcile_one_other [OF Cons.prems(1) r, of x d u n k] acc Cons.prems(3) [of x] that by simp
  qed
  ultimately show ?case
    using Cons.IH [of st'] Cons.prems(2) acc by simp
qed simp

definition running_ids :: "agent_state \<Rightarrow> run_id list" where
  "running_ids st = map rn_id (filter (\<lambda>r. rn_status r = RunRunning) (hm_values (ag_runs st)))"

lemma core_inv_maps:
  assumes "core_inv st"
  shows "hm_wf (ag_conversations st)" "hm_wf (ag_messages st)" "hm_wf (ag_turns st)" "hm_wf (ag_runs st)"
  using core_okD(1) [OF assms [unfolded core_inv_def]] by (auto simp: maps_ok_def)

lemma running_ids:
  assumes "core_inv st"
  shows "distinct (running_ids st)"
    and "r \<in> set (running_ids st) \<longleftrightarrow> (\<exists>run. hm_get (ag_runs st) r = Some run \<and> rn_status run = RunRunning)"
proof -
  have keyed: "\<And>k v. (k, v) \<in> set (ag_runs st) \<Longrightarrow> rn_id v = k"
    using paired_lookup(1) [OF assms] core_inv_maps(4) [OF assms]
    by (simp add: hm_wf_def hm_get_def)
  then have "map rn_id (hm_values (ag_runs st)) = map fst (ag_runs st)"
    by (auto simp: hm_values_def)
  then have "distinct (map rn_id (hm_values (ag_runs st)))"
    using core_inv_maps(4) [OF assms] by (simp add: hm_wf_def)
  then show "distinct (running_ids st)"
    by (simp add: running_ids_def distinct_map_filter)
  show "r \<in> set (running_ids st) \<longleftrightarrow> (\<exists>run. hm_get (ag_runs st) r = Some run \<and> rn_status run = RunRunning)"
    using hm.vals_iff [OF core_inv_maps(4) [OF assms]] paired_lookup(1) [OF assms]
    by (auto simp: running_ids_def)
qed

lemma reconcile_as_fold:
  "snd (reconcile_running_runs d st) = snd (snd (snd (fold (reconcile_one d) (running_ids st) (0, 0, 0, st))))"
  "fst (reconcile_running_runs d st) = Inr (fst (snd (snd (fold (reconcile_one d) (running_ids st) (0, 0, 0, st)))))"
  by (simp_all add: reconcile_running_runs_def running_ids_def split: prod.split)

lemma core_inv_reconcile:
  assumes "core_inv st"
  shows "core_inv (snd (reconcile_running_runs d st))"
  unfolding reconcile_as_fold
  using reconcile_loop_induct [OF assms running_ids(1) [OF assms], where P = "\<lambda>_. True"]
    running_ids(2) [OF assms] by blast

lemma core_inv_ledger:
  "core_inv (snd (store_checkpoint d s r i st)) = core_inv st"
  "core_inv (snd (append_tool_call d s j st)) = core_inv st"
  "core_inv (snd (begin_tool_call d s j st)) = core_inv st"
  "core_inv (snd (attempt_tool_call d s ident st)) = core_inv st"
  "core_inv (snd (finish_tool_call d s ident out st)) = core_inv st"
  by (simp_all add: op_defs core_inv_def Let_def split: result_splits option.split)

lemma core_inv_exec: "core_inv st \<Longrightarrow> agent_fresh st e \<Longrightarrow> core_inv (agent_exec show_uuid st e)"
  by (cases e) (simp_all add: core_inv_create core_inv_append core_inv_cancel core_inv_begin
      core_inv_finish core_inv_reconcile core_inv_ledger)

interpretation agent_core: invariant_machine "agent_exec show_uuid" agent_fresh core_inv
  for show_uuid
  by unfold_locales (rule core_inv_exec)

end
