(* ===== verification/Agent_Evolution.thy ===== *)
theory Agent_Evolution
  imports Agent_Machine "HOL-Library.Sublist"
begin

text \<open>
  How the repository may evolve: a preorder on states that every operation follows. Event
  logs and the live stream only grow at the end, stored messages and idempotent submissions
  never change, runs and tool calls only move forward, and checkpoints keep their input.
\<close>

fun run_rank :: "run_status \<Rightarrow> nat" where
  "run_rank RunQueued = 0"
| "run_rank RunRunning = 1"
| "run_rank _ = 2"

definition run_le :: "agent_run \<Rightarrow> agent_run \<Rightarrow> bool" where
  "run_le run run' \<longleftrightarrow>
     rn_id run' = rn_id run \<and> rn_turn_id run' = rn_turn_id run \<and>
     rn_conversation_id run' = rn_conversation_id run \<and> run_scope run' = run_scope run \<and>
     rn_capability run' = rn_capability run \<and> rn_created_at run' = rn_created_at run \<and>
     (run' = run \<or> run_rank (rn_status run) < run_rank (rn_status run'))"

lemma run_le_refl [simp]: "run_le run run"
  by (simp add: run_le_def)

lemma run_le_trans: "run_le a b \<Longrightarrow> run_le b c \<Longrightarrow> run_le a c"
  by (auto simp: run_le_def)

lemma run_le_terminal: "run_le run run' \<Longrightarrow> is_terminal_run (rn_status run) \<Longrightarrow> run' = run"
  by (cases "rn_status run"; cases "rn_status run'") (auto simp: run_le_def is_terminal_run_def)

definition checkpoint_le :: "agent_checkpoint \<Rightarrow> agent_checkpoint \<Rightarrow> bool" where
  "checkpoint_le a b \<longleftrightarrow> cp_id b = cp_id a \<and> cp_run_id b = cp_run_id a \<and>
     cp_checkpoint_scope b = cp_checkpoint_scope a \<and> cp_step_key b = cp_step_key a \<and>
     cp_input_hash b = cp_input_hash a \<and> checkpoint_scope_of b = checkpoint_scope_of a"

definition conversation_le :: "conversation \<Rightarrow> conversation \<Rightarrow> bool" where
  "conversation_le a b \<longleftrightarrow> b = a\<lparr>cv_revision := cv_revision b, cv_updated_at := cv_updated_at b\<rparr>"

lemma conversation_le_refl [simp]: "conversation_le a a"
  by (simp add: conversation_le_def)

lemma conversation_le_update [simp]: "conversation_le a (a\<lparr>cv_revision := n, cv_updated_at := t\<rparr>)"
  by (simp add: conversation_le_def)

lemma conversation_le_trans:
  assumes "conversation_le a b" and "conversation_le b c"
  shows "conversation_le a c"
proof -
  from assms have b: "b = a\<lparr>cv_revision := cv_revision b, cv_updated_at := cv_updated_at b\<rparr>"
    and c: "c = b\<lparr>cv_revision := cv_revision c, cv_updated_at := cv_updated_at c\<rparr>"
    by (simp_all add: conversation_le_def)
  show ?thesis
    unfolding conversation_le_def by (subst c, subst b) simp
qed

lemma conversation_le_same:
  assumes "conversation_le a b"
  shows "cv_id b = cv_id a" and "conversation_scope b = conversation_scope a" and "cv_status b = cv_status a"
proof -
  from assms have b: "b = a\<lparr>cv_revision := cv_revision b, cv_updated_at := cv_updated_at b\<rparr>"
    by (simp add: conversation_le_def)
  show "cv_id b = cv_id a" "conversation_scope b = conversation_scope a" "cv_status b = cv_status a"
    by (subst b, simp add: conversation_scope_def)+
qed

definition agent_le :: "agent_state \<Rightarrow> agent_state \<Rightarrow> bool" where
  "agent_le st st' \<longleftrightarrow>
     (\<forall>c. prefix (event_log st c) (event_log st' c)) \<and> prefix (ag_live st) (ag_live st') \<and>
     grows (=) (ag_idempotent_submissions st) (ag_idempotent_submissions st') \<and>
     grows (=) (ag_messages st) (ag_messages st') \<and> grows run_le (ag_runs st) (ag_runs st') \<and>
     grows ledger_le (ag_tool_calls st) (ag_tool_calls st') \<and>
     grows checkpoint_le (ag_checkpoints st) (ag_checkpoints st') \<and>
     grows conversation_le (ag_conversations st) (ag_conversations st')"

lemma agent_le_refl [simp]: "agent_le st st"
  by (simp add: agent_le_def grows_refl checkpoint_le_def)

lemma agent_leD:
  assumes "agent_le st st'"
  shows "prefix (event_log st c) (event_log st' c)" and "prefix (ag_live st) (ag_live st')"
    and "grows (=) (ag_idempotent_submissions st) (ag_idempotent_submissions st')"
    and "grows (=) (ag_messages st) (ag_messages st')" and "grows run_le (ag_runs st) (ag_runs st')"
    and "grows ledger_le (ag_tool_calls st) (ag_tool_calls st')"
    and "grows checkpoint_le (ag_checkpoints st) (ag_checkpoints st')"
    and "grows conversation_le (ag_conversations st) (ag_conversations st')"
  using assms by (simp_all add: agent_le_def)

lemma checkpoint_le_trans: "checkpoint_le x y \<Longrightarrow> checkpoint_le y z \<Longrightarrow> checkpoint_le x z"
  by (simp add: checkpoint_le_def)

lemma agent_le_trans:
  assumes "agent_le a b" and "agent_le b c"
  shows "agent_le a c"
  unfolding agent_le_def
proof (intro conjI allI)
  note ab = agent_leD [OF assms(1)] and bc = agent_leD [OF assms(2)]
  show "prefix (event_log a x) (event_log c x)" for x
    by (rule prefix_order.trans [OF ab(1) bc(1)])
  show "prefix (ag_live a) (ag_live c)"
    by (rule prefix_order.trans [OF ab(2) bc(2)])
  show "grows (=) (ag_idempotent_submissions a) (ag_idempotent_submissions c)"
    by (rule grows_trans [OF HOL.trans ab(3) bc(3)])
  show "grows (=) (ag_messages a) (ag_messages c)"
    by (rule grows_trans [OF HOL.trans ab(4) bc(4)])
  show "grows run_le (ag_runs a) (ag_runs c)"
    by (rule grows_trans [OF run_le_trans ab(5) bc(5)])
  show "grows ledger_le (ag_tool_calls a) (ag_tool_calls c)"
    by (rule grows_trans [OF ledger_le_trans ab(6) bc(6)])
  show "grows checkpoint_le (ag_checkpoints a) (ag_checkpoints c)"
    by (rule grows_trans [OF checkpoint_le_trans ab(7) bc(7)])
  show "grows conversation_le (ag_conversations a) (ag_conversations c)"
    by (rule grows_trans [OF conversation_le_trans ab(8) bc(8)])
qed

lemma agent_le_emit: "agent_le st st1 \<Longrightarrow> agent_le st (emit e now cv ty t r p st1)"
  by (auto simp: agent_le_def event_log_emit intro: prefix_order.trans)

text \<open>Steps that leave the log alone.\<close>

lemma agent_leI:
  assumes "event_log st' = event_log st" and "ag_live st' = ag_live st"
    and "grows (=) (ag_idempotent_submissions st) (ag_idempotent_submissions st')"
    and "grows (=) (ag_messages st) (ag_messages st')" and "grows run_le (ag_runs st) (ag_runs st')"
    and "grows ledger_le (ag_tool_calls st) (ag_tool_calls st')"
    and "grows checkpoint_le (ag_checkpoints st) (ag_checkpoints st')"
    and "grows conversation_le (ag_conversations st) (ag_conversations st')"
  shows "agent_le st st'"
  using assms by (simp add: agent_le_def)

lemma grows_same [simp]:
  "grows (=) m m" "grows run_le R R" "grows ledger_le L L" "grows checkpoint_le K K"
  "grows conversation_le C C"
  by (simp_all add: grows_refl checkpoint_le_def)

lemma le_create:
  "hm_get (ag_conversations st) (fresh_ident d 0) = None \<Longrightarrow>
     agent_le st (snd (create_conversation d s u i st))"
  by (auto simp: create_conversation_def Let_def split: result_splits option.split
      intro!: agent_le_emit agent_leI grows_insert)

lemma le_cancel:
  assumes inv: "core_inv st"
  shows "agent_le st (snd (cancel_turn d s t st))"
proof (cases "\<exists>turn run conv. cancel_guard st s t turn run conv")
  case True
  then obtain turn run conv r where g: "cancel_guard st s t turn run conv"
    and r: "hm_get (ag_runs st) r = Some run" and nt: "\<not> is_terminal_run (rn_status run)"
    by (auto simp: cancel_guard_def)
  from nt have "run_rank (rn_status run) < 2"
    by (cases "rn_status run") (auto simp: is_terminal_run_def)
  with r paired_lookup(1) [OF inv r] show ?thesis
    by (auto simp: cancel_turn_step [OF g] run_le_def run_scope_def
        intro!: agent_le_emit agent_leI grows_insert)
qed (simp add: cancel_turn_skip)

lemma le_begin:
  assumes inv: "core_inv st"
  shows "agent_le st (snd (begin_run d s r st))"
proof (cases "\<exists>run conv. claim_guard st s r RunQueued run conv")
  case True
  then obtain run conv where g: "claim_guard st s r RunQueued run conv"
    and r: "hm_get (ag_runs st) r = Some run" "rn_status run = RunQueued"
    by (auto simp: claim_guard_def)
  with paired_lookup(1) [OF inv r(1)] show ?thesis
    by (auto simp: begin_run_step [OF g] run_le_def run_scope_def
        intro!: agent_le_emit agent_leI grows_insert)
qed (simp add: begin_run_skip)

lemma le_finish:
  assumes inv: "core_inv st" and fresh: "hm_get (ag_messages st) (fresh_ident d 0) = None"
  shows "agent_le st (snd (finish_run d s r completion st))"
proof (cases "\<exists>run turn conv. finish_guard st s r run turn conv")
  case True
  then obtain run turn conv where g: "finish_guard st s r run turn conv"
    and r: "hm_get (ag_runs st) r = Some run" "rn_status run = RunRunning"
    and c: "hm_get (ag_conversations st) (rn_conversation_id run) = Some conv"
    by (auto simp: finish_guard_def claim_guard_def)
  note id = paired_lookup(1) [OF inv r(1)] conversation_lookup [OF inv c] c
  show ?thesis
  proof (cases "completion_outcome completion")
    case (Inl error)
    with r id show ?thesis
      by (auto simp: finish_run_failure [OF g Inl] run_le_def run_scope_def
          intro!: agent_le_emit agent_leI grows_insert)
  next
    case (Inr out)
    then obtain content metadata where "completion_outcome completion = Inr (content, metadata)"
      by (cases out) auto
    from finish_run_success [OF g this] r id fresh show ?thesis
      by (auto simp: run_le_def run_scope_def assistant_message_def
          intro!: agent_le_emit agent_leI grows_insert)
  qed
qed (simp add: finish_run_skip)

lemma le_append:
  assumes inv: "core_inv st" and fresh: "agent_fresh st (OpAppend d s c i k h cap)"
  shows "agent_le st (snd (append_message show_uuid d s c i k h cap st))"
proof (cases "\<exists>content conv. append_guard st s c i k content conv")
  case True
  then obtain content conv where g: "append_guard st s c i k content conv" by blast
  then have sub: "hm_get (ag_idempotent_submissions st) (k, c) = None"
    and c: "hm_get (ag_conversations st) c = Some conv"
    by (auto simp: append_guard_def visible_conversation_def split: option.splits if_splits)
  let ?acc = "accept_submission show_uuid d conv content i (k, c) h cap st"
  have log: "(\<forall>x. prefix (event_log st x) (event_log (snd ?acc) x)) \<and> prefix (ag_live st) (ag_live (snd ?acc))"
    by (auto simp: accept_submission_def refuse_submission_def Let_def event_log_emit
        split: prod.split)
  have "agent_le st (snd ?acc)"
    unfolding agent_le_def
    using log fresh sub c conversation_lookup [OF inv c]
    by (auto simp: accept_fields submit_conversation_def intro!: grows_insert)
  then show ?thesis by (simp add: append_message_step [OF g])
qed (simp add: append_message_skip)

lemma le_reconcile:
  assumes inv: "core_inv st"
  shows "agent_le st (snd (reconcile_running_runs d st))"
proof -
  have step: "agent_le st (snd (snd (snd (reconcile_one d r (u, n, k, s)))))"
    if s: "core_inv s" and r: "hm_get (ag_runs s) r = Some run" and q: "rn_status run = RunRunning"
      and le: "agent_le st s" for s r run u n k
  proof -
    obtain turn conv where c: "hm_get (ag_conversations s) (rn_conversation_id run) = Some conv"
      and eq: "reconcile_one d r (u, n, k, s) =
        (u + 1, n + 2, k + 1, reconciled_state d u n r run turn conv s)"
      using reconcile_one_step [OF s r q] by metis
    have "agent_le s (snd (snd (snd (reconcile_one d r (u, n, k, s)))))"
      unfolding eq using r q c
      by (auto simp: reconciled_state_def run_le_def run_scope_def
          intro!: agent_le_emit agent_leI grows_insert)
    with le show ?thesis by (rule agent_le_trans)
  qed
  show ?thesis
    unfolding reconcile_as_fold
    using reconcile_loop_induct [OF inv running_ids(1) [OF inv], where P = "agent_le st"]
      running_ids(2) [OF inv] step by (metis agent_le_refl)
qed

lemma ledger_le_step:
  "outcome_rank (tl_outcome e) < outcome_rank out \<Longrightarrow> ledger_le e (e\<lparr>tl_outcome := out, tl_updated_at := t\<rparr>)"
  "outcome_rank (tl_outcome e) < outcome_rank out \<Longrightarrow>
     ledger_le e (e\<lparr>tl_outcome := out, tl_attempt_count := n, tl_updated_at := t\<rparr>)"
  by (simp_all add: ledger_le_def)

lemma le_checkpoint: "agent_le st (snd (store_checkpoint d s r i st))"
  by (auto simp: store_checkpoint_def Let_def checkpoint_le_def checkpoint_scope_of_def
      split: result_splits option.splits intro!: agent_leI grows_insert)

lemma le_append_tool: "agent_le st (snd (append_tool_call d s i st))"
  by (auto simp: append_tool_call_def Let_def split: result_splits option.split
      intro!: agent_leI grows_insert)

lemma le_begin_tool: "agent_le st (snd (begin_tool_call d s i st))"
  by (auto simp: begin_tool_call_def Let_def split: result_splits option.split
      intro!: agent_leI grows_insert)

lemma le_attempt_tool: "agent_le st (snd (attempt_tool_call d s i st))"
  by (auto simp: attempt_tool_call_def Let_def split: result_splits option.split
      intro!: agent_leI grows_insert ledger_le_step)

lemma le_finish_tool: "agent_le st (snd (finish_tool_call d s i out st))"
  by (auto simp: finish_tool_call_def validate_tool_call_finish_def Let_def
      split: result_splits option.split intro!: agent_leI grows_insert ledger_le_step)

lemma agent_le_exec: "core_inv st \<Longrightarrow> agent_fresh st e \<Longrightarrow> agent_le st (agent_exec show_uuid st e)"
  by (cases e) (simp_all add: le_create le_append le_cancel le_begin le_finish le_reconcile
      le_checkpoint le_append_tool le_begin_tool le_attempt_tool le_finish_tool)

lemma agent_le_run:
  "core_inv st \<Longrightarrow> ok_ops (agent_exec show_uuid) agent_fresh st es \<Longrightarrow>
     agent_le st (run_ops (agent_exec show_uuid) st es)"
proof (induction es arbitrary: st)
  case (Cons e es)
  then have "agent_le st (agent_exec show_uuid st e)"
    and "agent_le (agent_exec show_uuid st e) (run_ops (agent_exec show_uuid) (agent_exec show_uuid st e) es)"
    by (auto intro: agent_le_exec core_inv_exec)
  then show ?case by (auto intro: agent_le_trans)
qed simp

end
