(* ===== verification/Agent_Properties.thy ===== *)
theory Agent_Properties
  imports Agent_Evolution
begin

text \<open>
  What the agent repository guarantees over arbitrary histories of its operations: the
  permissions it hands out once, the verdicts and records that never change, the event log a
  client can resume from, the isolation of tenants, and the atomicity of failures.
\<close>

section \<open>The log invariant\<close>

lemma log_inv_create: "log_inv st \<Longrightarrow> log_inv (snd (create_conversation d s u i st))"
  by (simp add: create_conversation_def Let_def split: result_splits option.split)

lemma log_inv_append: "log_inv st \<Longrightarrow> log_inv (snd (append_message show_uuid d s c i k h cap st))"
proof (cases "\<exists>content conv. append_guard st s c i k content conv")
  case True
  assume inv: "log_inv st"
  from True obtain content conv where g: "append_guard st s c i k content conv" by blast
  have "log_inv (snd (accept_submission show_uuid d conv content i (k, c) h cap st))"
    using inv by (cases "is_available cap")
      (simp_all add: accept_submission_def refuse_submission_def Let_def case_prod_beta)
  then show ?thesis by (simp add: append_message_step [OF g])
qed (simp add: append_message_skip)

lemma log_inv_cancel: "log_inv st \<Longrightarrow> log_inv (snd (cancel_turn d s t st))"
  by (simp add: cancel_turn_def Let_def split: result_splits option.split)

lemma log_inv_begin: "log_inv st \<Longrightarrow> log_inv (snd (begin_run d s r st))"
  by (simp add: begin_run_def Let_def split: result_splits option.split)

lemma log_inv_finish: "log_inv st \<Longrightarrow> log_inv (snd (finish_run d s r completion st))"
  by (simp add: finish_run_def Let_def case_prod_beta split: result_splits option.split sum.split)

lemma log_inv_reconcile_one:
  "log_inv (snd (snd (snd acc))) \<Longrightarrow> log_inv (snd (snd (snd (reconcile_one d r acc))))"
  by (cases acc) (simp add: reconcile_one_def Let_def split: option.split)

lemma log_inv_reconcile: "log_inv st \<Longrightarrow> log_inv (snd (reconcile_running_runs d st))"
proof -
  have "log_inv (snd (snd (snd acc))) \<Longrightarrow> log_inv (snd (snd (snd (fold (reconcile_one d) rs acc))))" for rs acc
    by (induction rs arbitrary: acc) (simp_all only: fold.simps comp_apply id_apply log_inv_reconcile_one)
  then show "log_inv st \<Longrightarrow> log_inv (snd (reconcile_running_runs d st))"
    unfolding reconcile_as_fold by simp
qed

lemma log_inv_ledger:
  "log_inv (snd (store_checkpoint d s r i st)) = log_inv st"
  "log_inv (snd (append_tool_call d s j st)) = log_inv st"
  "log_inv (snd (begin_tool_call d s j st)) = log_inv st"
  "log_inv (snd (attempt_tool_call d s ident st)) = log_inv st"
  "log_inv (snd (finish_tool_call d s ident out st)) = log_inv st"
  by (simp_all add: op_defs Let_def split: result_splits option.split)

lemma log_inv_exec: "log_inv st \<Longrightarrow> log_inv (agent_exec show_uuid st e)"
  by (cases e) (simp_all add: log_inv_create log_inv_append log_inv_cancel log_inv_begin
      log_inv_finish log_inv_reconcile log_inv_ledger)

interpretation agent_log: invariant_machine "agent_exec show_uuid" agent_fresh log_inv
  for show_uuid
  by unfold_locales (rule log_inv_exec)

definition agent_reachable :: "(uuid \<Rightarrow> str) \<Rightarrow> agent_state \<Rightarrow> bool" where
  "agent_reachable show_uuid st \<longleftrightarrow>
     (\<exists>es. ok_ops (agent_exec show_uuid) agent_fresh agent_state_default es \<and>
           st = run_ops (agent_exec show_uuid) agent_state_default es)"

lemma reachable_core_inv: "agent_reachable show_uuid st \<Longrightarrow> core_inv st"
  unfolding agent_reachable_def
  using agent_core.inv_run [of agent_state_default]
  by (auto simp: core_inv_def agent_state_default_def core_ok_empty)

lemma reachable_log_inv: "agent_reachable show_uuid st \<Longrightarrow> log_inv st"
  unfolding agent_reachable_def using agent_log.inv_run [OF log_inv_empty] by blast

section \<open>Permissions handed out once\<close>

fun begins :: "run_id \<Rightarrow> agent_state \<Rightarrow> agent_op \<Rightarrow> bool" where
  "begins r st (OpBegin d s r') \<longleftrightarrow>
     r' = r \<and> (case fst (begin_run d s r' st) of Inr (Some _) \<Rightarrow> True | _ \<Rightarrow> False)"
| "begins r st _ \<longleftrightarrow> False"

definition run_claimed :: "run_id \<Rightarrow> agent_state \<Rightarrow> bool" where
  "run_claimed r st \<longleftrightarrow> (\<exists>run. hm_get (ag_runs st) r = Some run \<and> rn_status run \<noteq> RunQueued)"

lemma run_claimed_le: "agent_le st st' \<Longrightarrow> run_claimed r st \<Longrightarrow> run_claimed r st'"
  by (fastforce simp: run_claimed_def agent_le_def grows_def run_le_def elim: run_rank.elims)

lemma begins_guard:
  assumes "begins r st e"
  obtains d s run conv where "e = OpBegin d s r" "claim_guard st s r RunQueued run conv"
  using assms by (cases e) (auto dest: begin_run_grants split: sum.splits option.splits)

interpretation begin_once: one_shot "agent_exec show_uuid" agent_fresh core_inv "begins r" "run_claimed r"
  for show_uuid r
proof unfold_locales
  fix st e
  assume inv: "core_inv st" and b: "begins r st e"
  from b obtain d s run conv where e: "e = OpBegin d s r" and g: "claim_guard st s r RunQueued run conv"
    by (rule begins_guard)
  from g show "\<not> run_claimed r st"
    by (auto simp: run_claimed_def claim_guard_def)
  from g have "rn_id run = r"
    using paired_lookup(1) [OF inv] by (auto simp: claim_guard_def)
  then show "run_claimed r (agent_exec show_uuid st e)"
    by (simp add: e begin_run_step [OF g] run_claimed_def)
next
  fix st e
  assume "core_inv st" and "agent_fresh st e" and "run_claimed r st"
  then show "run_claimed r (agent_exec show_uuid st e)"
    by (auto intro: run_claimed_le agent_le_exec)
qed

fun attempts :: "run_id \<times> str \<Rightarrow> agent_state \<Rightarrow> agent_op \<Rightarrow> bool" where
  "attempts k st (OpAttemptTool d s i) \<longleftrightarrow>
     (ti_run_id i, ti_tool_call_id i) = k \<and> fst (attempt_tool_call d s i st) = Inr True"
| "attempts k st _ \<longleftrightarrow> False"

definition call_spent :: "run_id \<times> str \<Rightarrow> agent_state \<Rightarrow> bool" where
  "call_spent k st \<longleftrightarrow> (\<exists>e. hm_get (ag_tool_calls st) k = Some e \<and> tl_outcome e \<noteq> OutIntent)"

lemma outcome_rank_0: "outcome_rank out = 0 \<longleftrightarrow> out = OutIntent"
  by (cases out) simp_all

lemma run_rank_0: "run_rank status = 0 \<longleftrightarrow> status = RunQueued"
  by (cases status) simp_all

lemma call_spent_le:
  assumes "agent_le st st'" and "call_spent k st"
  shows "call_spent k st'"
proof -
  from assms obtain e e' where "hm_get (ag_tool_calls st') k = Some e'" "ledger_le e e'"
      "tl_outcome e \<noteq> OutIntent"
    unfolding call_spent_def using agent_leD(6) [OF assms(1)] unfolding grows_def by blast
  then show ?thesis
    by (auto simp: call_spent_def ledger_le_def outcome_rank_0 [symmetric])
qed

text \<open>What a granted attempt presupposes, and what it records.\<close>

definition attempt_guard :: "agent_state \<Rightarrow> tenant_scope \<Rightarrow> tool_call_identity \<Rightarrow> agent_run \<Rightarrow>
    tool_call_ledger_entry \<Rightarrow> bool" where
  "attempt_guard st s i run entry \<longleftrightarrow>
     validate_tool_call_identity i = Inr () \<and> visible_run st s (ti_run_id i) = Inr run \<and>
     hm_get (ag_tool_calls st) (rn_id run, ti_tool_call_id i) = Some entry \<and>
     identity_matches i entry \<and> tl_outcome entry = OutIntent \<and> tl_attempt_count entry = 0 \<and>
     tl_permission entry = Allowed \<and> tl_budget entry = Allowed \<and> rn_status run = RunRunning"

lemma attempt_step:
  "attempt_guard st s i run entry \<Longrightarrow> attempt_tool_call d s i st =
     (Inr True, st\<lparr>ag_tool_calls := hm_insert (rn_id run, ti_tool_call_id i)
       (entry\<lparr>tl_outcome := OutAttempted, tl_attempt_count := 1, tl_updated_at := now_at d 0\<rparr>)
       (ag_tool_calls st)\<rparr>)"
  by (simp add: attempt_guard_def attempt_tool_call_def validate_tool_call_authorized_def)

lemma attempt_skip:
  "\<nexists>run entry. attempt_guard st s i run entry \<Longrightarrow>
     fst (attempt_tool_call d s i st) \<noteq> Inr True \<and> snd (attempt_tool_call d s i st) = st"
  by (auto simp: attempt_guard_def attempt_tool_call_def validate_tool_call_authorized_def Let_def
      split: try_in_split)

lemma attempts_guard:
  assumes "attempts k st e"
  obtains d s i run entry where "e = OpAttemptTool d s i" "k = (ti_run_id i, ti_tool_call_id i)"
    "attempt_guard st s i run entry"
  using assms attempt_skip by (cases e) (auto, metis)

interpretation attempt_once: one_shot "agent_exec show_uuid" agent_fresh core_inv "attempts k" "call_spent k"
  for show_uuid k
proof unfold_locales
  fix st e
  assume inv: "core_inv st" and a: "attempts k st e"
  from a obtain d s i run entry where e: "e = OpAttemptTool d s i" and k: "k = (ti_run_id i, ti_tool_call_id i)"
    and g: "attempt_guard st s i run entry"
    by (rule attempts_guard)
  then have r: "visible_run st s (ti_run_id i) = Inr run"
    by (simp add: attempt_guard_def)
  from r have "rn_id run = ti_run_id i"
    using paired_lookup(1) [OF inv] by (auto simp: visible_run_Inr)
  with g show "\<not> call_spent k st" and "call_spent k (agent_exec show_uuid st e)"
    by (simp_all add: call_spent_def e k attempt_step [OF g]) (simp_all add: attempt_guard_def)
next
  fix st e
  assume "core_inv st" and "agent_fresh st e" and "call_spent k st"
  then show "call_spent k (agent_exec show_uuid st e)"
    by (auto intro: call_spent_le agent_le_exec)
qed

end
