(* ===== verification/Agent_Example.thy ===== *)
theory Agent_Example
  imports Agent_Properties "HOL-Library.Code_Target_Nat"
begin

text \<open>
  A concrete history of the agent repository, on which the properties of the other agent
  theories are exercised: one conversation, one message, one run with a tool call, and its
  answer.
\<close>

definition ex_scope :: tenant_scope where
  "ex_scope = \<lparr>ts_operator_id = Ident 1, ts_tenant_id = Ident 2, ts_project_id = Some (Ident 3)\<rparr>"

definition ex_other_scope :: tenant_scope where
  "ex_other_scope = \<lparr>ts_operator_id = Ident 1, ts_tenant_id = Ident 9, ts_project_id = None\<rparr>"

definition ex_draws :: "int \<Rightarrow> draws" where
  "ex_draws n = \<lparr>uuid_at = (\<lambda>i. of_int (n + int i)), now_at = (\<lambda>i. n + int i)\<rparr>"

definition ex_show :: "uuid \<Rightarrow> str" where
  "ex_show u = lit ''u''"

definition ex_capability :: runtime_capability where
  "ex_capability = capability_available_rc (lit ''deno_core'') None"

definition ex_message :: append_message_input where
  "ex_message = \<lparr>am_content = lit '' hi '', am_attachments = [], am_metadata = JNull\<rparr>"

definition ex_tool :: record_tool_call where
  "ex_tool = \<lparr>rt_run_id = Ident 201, rt_tool_call_id = lit ''call'', rt_tool_name = lit ''tool'',
     rt_arguments_hash = lit ''a'', rt_idempotency_key_hash = lit ''k'', rt_permission = Allowed,
     rt_budget = Allowed, rt_intent = JNull, rt_attempt_count = 0, rt_result_ref = None,
     rt_outcome = OutIntent, rt_cost_minor = None, rt_currency = None\<rparr>"

definition ex_create :: agent_op where
  "ex_create = OpCreate (ex_draws 100) ex_scope None \<lparr>ci_title = None\<rparr>"

definition ex_append :: agent_op where
  "ex_append = OpAppend (ex_draws 200) ex_scope (Ident 100) ex_message (lit ''key'') (lit ''hash'') ex_capability"

definition ex_begin :: agent_op where
  "ex_begin = OpBegin (ex_draws 300) ex_scope (Ident 201)"

definition ex_begin_tool :: agent_op where
  "ex_begin_tool = OpBeginTool (ex_draws 400) ex_scope ex_tool"

definition ex_attempt_tool :: agent_op where
  "ex_attempt_tool = OpAttemptTool (ex_draws 500) ex_scope (identity_from_record ex_tool)"

definition ex_finish :: agent_op where
  "ex_finish = OpFinish (ex_draws 600) ex_scope (Ident 201) (CompletionSucceeded (lit ''ok'') JNull)"

definition ex_history :: "agent_op list" where
  "ex_history = [ex_create, ex_append, ex_begin, ex_begin, ex_begin_tool, ex_attempt_tool,
     ex_attempt_tool, ex_finish]"

definition ex_state :: "nat \<Rightarrow> agent_state" where
  "ex_state n = run_ops (agent_exec ex_show) agent_state_default (take n ex_history)"

lemma ex_history_ok: "ok_ops (agent_exec ex_show) agent_fresh agent_state_default ex_history"
  by code_simp

lemma ex_state_reachable: "agent_reachable ex_show (ex_state n)"
proof -
  have "ok_ops (agent_exec ex_show) agent_fresh agent_state_default (take n ex_history @ drop n ex_history)"
    using ex_history_ok by simp
  then show ?thesis
    unfolding agent_reachable_def ex_state_def ok_ops_append by blast
qed

text \<open>States along it.\<close>

lemma ex_tail_ok: "ok_ops (agent_exec ex_show) agent_fresh (ex_state n) (drop n ex_history)"
  using ex_history_ok ok_ops_append [of "agent_exec ex_show" agent_fresh agent_state_default
      "take n ex_history" "drop n ex_history"]
  by (simp add: ex_state_def)

definition ex_run :: agent_run where
  "ex_run = the (hm_get (ag_runs (ex_state 8)) (Ident 201))"

definition ex_turn :: turn where
  "ex_turn = the (hm_get (ag_turns (ex_state 3)) (Ident 200))"

text \<open>What the witnesses read from these states, evaluated together.\<close>

lemma ex_state_facts:
  "let s1 = ex_state 1; s3 = ex_state 3; s8 = ex_state 8; begun = visible_conversation s1 ex_scope (Ident 100);
     turn = hm_get (ag_turns s3) (Ident 200); running = hm_get (ag_runs s3) (Ident 201);
     run = hm_get (ag_runs s8) (Ident 201) in
   agent_fresh s1 ex_append \<and> \<not> Option.is_none begun \<and> cv_status (the begun) = ConvActive \<and>
   Option.is_none (hm_get (ag_idempotent_submissions s1) (lit ''key'', Ident 100)) \<and>
   filter is_active_turn (conversation_turns s1 (Ident 100)) = [] \<and>
   \<not> Option.is_none (visible_conversation (ex_state 2) ex_scope (Ident 100)) \<and>
   \<not> Option.is_none turn \<and> is_active_turn (the turn) \<and> tn_id (the turn) = Ident 200 \<and>
   \<not> Option.is_none running \<and> scope_contains ex_scope (run_scope (the running)) \<and>
   rn_status (the running) = RunRunning \<and>
   \<not> Option.is_none (hm_get (ag_tool_calls (ex_state 5)) (Ident 201, lit ''call'')) \<and>
   \<not> Option.is_none run \<and> rn_status (the run) = RunSucceeded \<and> rn_turn_id (the run) = Ident 200 \<and>
   length (event_log s8 (Ident 100)) < 2 ^ 64"
  by code_simp

lemma ex_valid_message: "validate_append_message ex_message = Inr (lit ''hi'')"
  by code_simp

lemma the_someI: "\<not> Option.is_none m \<Longrightarrow> m = Some (the m)"
  by (cases m) simp_all

lemma ex_run: "hm_get (ag_runs (ex_state 8)) (Ident 201) = Some ex_run"
  unfolding ex_run_def by (rule the_someI) (use ex_state_facts in \<open>simp add: Let_def\<close>)

lemma ex_run_fields: "rn_status ex_run = RunSucceeded" "rn_turn_id ex_run = Ident 200"
  using ex_state_facts by (simp_all add: ex_run_def Let_def)

lemma ex_turn: "hm_get (ag_turns (ex_state 3)) (Ident 200) = Some ex_turn"
  unfolding ex_turn_def by (rule the_someI) (use ex_state_facts in \<open>simp add: Let_def\<close>)

lemma ex_turn_fields: "is_active_turn ex_turn" "tn_id ex_turn = Ident 200"
  using ex_state_facts by (simp_all add: ex_turn_def Let_def)

lemma ex_log_length: "length (event_log (ex_state 8) (Ident 100)) < 2 ^ 64"
  using ex_state_facts by (simp add: Let_def)

end
