(* ===== verification/Agent_Theorems.thy ===== *)
theory Agent_Theorems
  imports Agent_Example
begin

text \<open>
  The properties of the agent repository, over every history of its operations, each with a
  witness on the concrete history of \<open>Agent_Example\<close>.
\<close>

section \<open>Exclusive permissions\<close>

text \<open>C1: a queued run is handed to one worker: over any history of the repository, the calls
  of \<open>begin_run\<close> for a run that return it are at most one.\<close>

theorem run_begins_at_most_once:
  assumes "agent_reachable show_uuid st" and "ok_ops (agent_exec show_uuid) agent_fresh st es"
  shows "count_grants (agent_exec show_uuid) (begins r) st es \<le> 1"
  by (rule begin_once.at_most_one_grant [OF reachable_core_inv [OF assms(1)] assms(2)])

text \<open>Two calls of each, the second of which is refused.\<close>

lemma ex_twice_ok:
  "ok_ops (agent_exec ex_show) agent_fresh (ex_state 2) [ex_begin, ex_begin]"
  "ok_ops (agent_exec ex_show) agent_fresh (ex_state 5) [ex_attempt_tool, ex_attempt_tool]"
  using ex_tail_ok [of 2] ex_tail_ok [of 5] by (simp_all add: ex_history_def)

lemma ex_begin_counts_at:
  "count_grants (agent_exec ex_show) (begins (Ident 201)) (ex_state 2) [ex_begin, ex_begin] = 1 \<and>
   count_grants (agent_exec ex_show) (attempts (Ident 201, lit ''call'')) (ex_state 5) [ex_attempt_tool, ex_attempt_tool] = 1"
  by code_simp

theorem run_begins_at_most_once_witness:
  "count_grants (agent_exec ex_show) (begins (Ident 201)) (ex_state 2) [ex_begin, ex_begin] \<le> 1 \<and>
   count_grants (agent_exec ex_show) (begins (Ident 201)) (ex_state 2) [ex_begin, ex_begin] = 1"
  using run_begins_at_most_once [OF ex_state_reachable ex_twice_ok(1)] ex_begin_counts_at by simp

text \<open>C4: the external invocation of a tool call is authorized at most once, whatever
  interleaving of \<open>begin_tool_call\<close>, \<open>attempt_tool_call\<close>, \<open>finish_tool_call\<close> and the other
  operations the repository sees.\<close>

theorem tool_call_authorized_at_most_once:
  assumes "agent_reachable show_uuid st" and "ok_ops (agent_exec show_uuid) agent_fresh st es"
  shows "count_grants (agent_exec show_uuid) (attempts k) st es \<le> 1"
  by (rule attempt_once.at_most_one_grant [OF reachable_core_inv [OF assms(1)] assms(2)])

theorem tool_call_authorized_at_most_once_witness:
  "count_grants (agent_exec ex_show) (attempts (Ident 201, lit ''call'')) (ex_state 5) [ex_attempt_tool, ex_attempt_tool] \<le> 1 \<and>
   count_grants (agent_exec ex_show) (attempts (Ident 201, lit ''call'')) (ex_state 5) [ex_attempt_tool, ex_attempt_tool] = 1"
  using tool_call_authorized_at_most_once [OF ex_state_reachable ex_twice_ok(2)] ex_begin_counts_at by simp

section \<open>Runs, turns and answers\<close>

text \<open>C13: in every reachable state a run and its turn refer to each other and agree on their
  status, a run carries an error exactly when it failed, and its turn has exactly one
  assistant message when it succeeded and none otherwise.\<close>

theorem runs_turns_and_answers_agree:
  assumes "agent_reachable show_uuid st" and "hm_get (ag_runs st) r = Some run"
  shows "\<exists>turn. hm_get (ag_turns st) (rn_turn_id run) = Some turn \<and> tn_run_id turn = Some r \<and>
     tn_status turn = turn_status_of (rn_status run) \<and>
     (rn_error run \<noteq> None \<longleftrightarrow> rn_status run = RunFailed) \<and>
     card {m. \<exists>msg. hm_get (ag_messages st) m = Some msg \<and> answer_of (rn_turn_id run) msg} =
       (if rn_status run = RunSucceeded then 1 else 0)"
proof -
  note inv = reachable_core_inv [OF assms(1)]
  note p = paired_lookup [OF inv assms(2)]
  from p(7) obtain turn where t: "hm_get (ag_turns st) (rn_turn_id run) = Some turn" by blast
  define A where "A = {m. \<exists>msg. hm_get (ag_messages st) m = Some msg \<and> answer_of (rn_turn_id run) msg}"
  have ans: "answers_ok (ag_messages st) (ag_turns st)"
    using core_okD(3) [OF inv [unfolded core_inv_def]] .
  then have uniq: "m1 = m2" if "m1 \<in> A" "m2 \<in> A" for m1 m2
    using that unfolding A_def answers_ok_def mem_Collect_eq by blast
  have "tn_status turn = TurnSucceeded \<longleftrightarrow> A \<noteq> {}"
    using ans t by (auto simp: answers_ok_def A_def)
  moreover have "tn_status turn = TurnSucceeded \<longleftrightarrow> rn_status run = RunSucceeded"
    using p(4) [OF t] by (cases "rn_status run") simp_all
  ultimately have ne: "rn_status run = RunSucceeded \<longleftrightarrow> A \<noteq> {}" by simp
  have "card A = (if rn_status run = RunSucceeded then 1 else 0)"
  proof (cases "rn_status run = RunSucceeded")
    case True
    with ne obtain m where "m \<in> A" by blast
    with uniq have "A = {m}" by blast
    with True show ?thesis by simp
  next
    case False
    with ne have "A = {}" by blast
    with False show ?thesis by simp
  qed
  with t p(3,4) [OF t] p(9) show ?thesis unfolding A_def by (intro exI [of _ turn] conjI)
qed

theorem runs_turns_and_answers_agree_witness:
  "\<exists>turn. hm_get (ag_turns (ex_state 8)) (Ident 200) = Some turn \<and>
     tn_status turn = TurnSucceeded \<and>
     card {m. \<exists>msg. hm_get (ag_messages (ex_state 8)) m = Some msg \<and> answer_of (Ident 200) msg} = 1"
  using runs_turns_and_answers_agree [OF ex_state_reachable ex_run] ex_run_fields by auto

text \<open>a conversation never has two active turns.\<close>

theorem one_active_turn_per_conversation:
  assumes "agent_reachable show_uuid st"
    and "hm_get (ag_turns st) t1 = Some a" and "hm_get (ag_turns st) t2 = Some b"
    and "is_active_turn a" and "is_active_turn b" and "tn_conversation_id a = tn_conversation_id b"
  shows "t1 = t2"
  using core_okD(2) [OF reachable_core_inv [OF assms(1), unfolded core_inv_def]] assms(2-)
  unfolding single_active_def by blast

theorem one_active_turn_per_conversation_witness:
  "hm_get (ag_turns (ex_state 3)) (tn_id ex_turn) = Some ex_turn \<and> is_active_turn ex_turn \<and>
   Ident 200 = tn_id ex_turn"
proof -
  have "hm_get (ag_turns (ex_state 3)) (tn_id ex_turn) = Some ex_turn"
    using ex_turn ex_turn_fields by simp
  with one_active_turn_per_conversation [OF ex_state_reachable ex_turn this ex_turn_fields(1)
      ex_turn_fields(1) refl] ex_turn_fields
  show ?thesis by simp
qed

text \<open>the record of a run that has reached a terminal status never changes again.\<close>

theorem terminal_run_is_final:
  assumes "agent_reachable show_uuid st" and "ok_ops (agent_exec show_uuid) agent_fresh st es"
    and "hm_get (ag_runs st) r = Some run" and "is_terminal_run (rn_status run)"
  shows "hm_get (ag_runs (run_ops (agent_exec show_uuid) st es)) r = Some run"
  using agent_leD(5) [OF agent_le_run [OF reachable_core_inv [OF assms(1)] assms(2)]] assms(3,4)
  by (auto simp: grows_def dest: run_le_terminal)

theorem terminal_run_is_final_witness:
  "hm_get (ag_runs (run_ops (agent_exec ex_show) (ex_state 8) [ex_begin])) (Ident 201) = Some ex_run"
proof -
  have "ok_ops (agent_exec ex_show) agent_fresh (ex_state 8) [ex_begin]"
    by (simp add: ex_begin_def)
  then show ?thesis
    by (rule terminal_run_is_final [OF ex_state_reachable _ ex_run])
       (simp add: ex_run_fields is_terminal_run_def)
qed

end
