(* ===== verification/Agent_Isolation.thy ===== *)
theory Agent_Isolation
  imports Agent_Evolution Agent_Properties
begin

text \<open>
  Frame lemmas: what an operation called with one tenant scope leaves alone, and that an
  operation that reports an error leaves everything alone.
\<close>

section \<open>Tenant isolation\<close>

fun agent_op_scope :: "agent_op \<Rightarrow> tenant_scope option" where
  "agent_op_scope (OpCreate d s u i) = Some s"
| "agent_op_scope (OpAppend d s c i k h cap) = Some s"
| "agent_op_scope (OpCancel d s t) = Some s"
| "agent_op_scope (OpBegin d s r) = Some s"
| "agent_op_scope (OpFinish d s r c) = Some s"
| "agent_op_scope (OpReconcile d) = None"
| "agent_op_scope (OpCheckpoint d s r i) = Some s"
| "agent_op_scope (OpAppendTool d s i) = Some s"
| "agent_op_scope (OpBeginTool d s i) = Some s"
| "agent_op_scope (OpAttemptTool d s i) = Some s"
| "agent_op_scope (OpFinishTool d s i out) = Some s"

text \<open>Everything that hangs on a conversation, and everything that hangs on a run.\<close>

definition same_conversation :: "agent_state \<Rightarrow> agent_state \<Rightarrow> conversation_id \<Rightarrow> bool" where
  "same_conversation st st' c \<longleftrightarrow>
     hm_get (ag_conversations st') c = hm_get (ag_conversations st) c \<and> event_log st' c = event_log st c"

definition same_run :: "agent_state \<Rightarrow> agent_state \<Rightarrow> run_id \<Rightarrow> turn_id \<Rightarrow> bool" where
  "same_run st st' r t \<longleftrightarrow>
     hm_get (ag_runs st') r = hm_get (ag_runs st) r \<and> hm_get (ag_turns st') t = hm_get (ag_turns st) t \<and>
     (\<forall>k. hm_get (ag_tool_calls st') (r, k) = hm_get (ag_tool_calls st) (r, k)) \<and>
     (\<forall>k. hm_get (ag_checkpoints st') (r, k) = hm_get (ag_checkpoints st) (r, k))"

definition isolated :: "tenant_scope \<Rightarrow> agent_state \<Rightarrow> agent_state \<Rightarrow> bool" where
  "isolated s st st' \<longleftrightarrow>
     (\<forall>c conv. hm_get (ag_conversations st) c = Some conv \<longrightarrow>
        \<not> scope_contains s (conversation_scope conv) \<longrightarrow> same_conversation st st' c) \<and>
     (\<forall>r run. hm_get (ag_runs st) r = Some run \<longrightarrow> \<not> scope_contains s (run_scope run) \<longrightarrow>
        same_run st st' r (rn_turn_id run))"

lemma isolated_refl [simp]: "isolated s st st"
  by (simp add: isolated_def same_conversation_def same_run_def)

lemma runs_own_turns:
  assumes inv: "core_inv st" and "hm_get (ag_runs st) r = Some run" and "hm_get (ag_runs st) r' = Some run'"
    and "r \<noteq> r'"
  shows "rn_turn_id run \<noteq> rn_turn_id run'"
proof
  assume same: "rn_turn_id run = rn_turn_id run'"
  obtain turn where t: "hm_get (ag_turns st) (rn_turn_id run) = Some turn"
    using paired_lookup(7) [OF inv assms(2)] by blast
  with paired_lookup(3) [OF inv assms(2) t] paired_lookup(3) [OF inv assms(3)] same assms(4)
  show False by simp
qed

lemma isolated_create:
  assumes "hm_get (ag_conversations st) (fresh_ident d 0) = None"
  shows "isolated s st (snd (create_conversation d s u i st))"
  using assms
  by (auto simp: create_conversation_def Let_def isolated_def same_conversation_def same_run_def
      event_log_emit split: result_splits option.split)

lemma isolated_transition:
  assumes inv: "core_inv st" and r: "hm_get (ag_runs st) r = Some run" "scope_contains s (run_scope run)"
    and c: "hm_get (ag_conversations st) (rn_conversation_id run) = Some conv"
    and conv: "\<And>c. c \<noteq> rn_conversation_id run \<Longrightarrow> same_conversation st st' c"
    and runs: "\<And>r' t. r' \<noteq> r \<Longrightarrow> t \<noteq> rn_turn_id run \<Longrightarrow> same_run st st' r' t"
  shows "isolated s st st'"
  unfolding isolated_def
proof (intro conjI allI impI)
  fix c' conv'
  assume a: "hm_get (ag_conversations st) c' = Some conv'" "\<not> scope_contains s (conversation_scope conv')"
  have "conversation_scope conv = run_scope run"
    using paired_lookup(8) [OF inv r(1)] c by simp
  with a r c show "same_conversation st st' c'" by (auto intro: conv)
next
  fix r' run'
  assume a: "hm_get (ag_runs st) r' = Some run'" "\<not> scope_contains s (run_scope run')"
  with r have "r' \<noteq> r" by auto
  with runs_own_turns [OF inv a(1) r(1)] show "same_run st st' r' (rn_turn_id run')"
    by (auto intro: runs)
qed

lemma isolated_cancel:
  assumes inv: "core_inv st"
  shows "isolated s st (snd (cancel_turn d s t st))"
proof (cases "\<exists>turn run conv. cancel_guard st s t turn run conv")
  case True
  then obtain turn run conv r where g: "cancel_guard st s t turn run conv"
    and t: "hm_get (ag_turns st) t = Some turn" "tn_run_id turn = Some r"
    and r: "hm_get (ag_runs st) r = Some run" "scope_contains s (run_scope run)"
    and c: "hm_get (ag_conversations st) (tn_conversation_id turn) = Some conv"
    by (auto simp: cancel_guard_def)
  note tr = turn_run_lookup [OF inv t r(1)] and p = paired_lookup [OF inv r(1)]
  have cv: "tn_conversation_id turn = rn_conversation_id run" using p(5) t tr by simp
  show ?thesis
    using p(1) tr cv c conversation_lookup [OF inv c]
    by (intro isolated_transition [OF inv r])
       (auto simp: cancel_turn_step [OF g] same_conversation_def same_run_def event_log_emit)
qed (simp add: cancel_turn_skip)

lemma isolated_begin:
  assumes inv: "core_inv st"
  shows "isolated s st (snd (begin_run d s r st))"
proof (cases "\<exists>run conv. claim_guard st s r RunQueued run conv")
  case True
  then obtain run conv where g: "claim_guard st s r RunQueued run conv"
    and r: "hm_get (ag_runs st) r = Some run" "scope_contains s (run_scope run)"
    and c: "hm_get (ag_conversations st) (rn_conversation_id run) = Some conv"
    by (auto simp: claim_guard_def)
  show ?thesis
    using paired_lookup(1) [OF inv r(1)] c conversation_lookup [OF inv c]
    by (intro isolated_transition [OF inv r])
       (auto simp: begin_run_step [OF g] same_conversation_def same_run_def event_log_emit
          split: option.split)
qed (simp add: begin_run_skip)

lemma isolated_finish:
  assumes inv: "core_inv st"
  shows "isolated s st (snd (finish_run d s r completion st))"
proof (cases "\<exists>run turn conv. finish_guard st s r run turn conv")
  case True
  then obtain run turn conv where g: "finish_guard st s r run turn conv"
    and r: "hm_get (ag_runs st) r = Some run" "scope_contains s (run_scope run)"
    and t: "hm_get (ag_turns st) (rn_turn_id run) = Some turn"
    and c: "hm_get (ag_conversations st) (rn_conversation_id run) = Some conv"
    by (auto simp: finish_guard_def claim_guard_def)
  note p = paired_lookup(1) [OF inv r(1)] paired_lookup(2) [OF inv r(1) t] conversation_lookup [OF inv c]
  show ?thesis
  proof (cases "completion_outcome completion")
    case (Inl error)
    show ?thesis
      using p c by (intro isolated_transition [OF inv r])
        (auto simp: finish_run_failure [OF g Inl] same_conversation_def same_run_def event_log_emit)
  next
    case (Inr out)
    then obtain content metadata where "completion_outcome completion = Inr (content, metadata)"
      by (cases out) auto
    note eq = finish_run_success [OF g this]
    show ?thesis
      using p c by (intro isolated_transition [OF inv r])
        (auto simp: eq same_conversation_def same_run_def event_log_emit)
  qed
qed (simp add: finish_run_skip)

lemma isolated_append:
  assumes inv: "core_inv st" and fresh: "agent_fresh st (OpAppend d s c i k h cap)"
  shows "isolated s st (snd (append_message show_uuid d s c i k h cap st))"
proof (cases "\<exists>content conv. append_guard st s c i k content conv")
  case True
  then obtain content conv where g: "append_guard st s c i k content conv" by blast
  then have c: "hm_get (ag_conversations st) c = Some conv" and vis: "scope_contains s (conversation_scope conv)"
    by (auto simp: append_guard_def visible_conversation_def visible_def split: option.splits if_splits)
  let ?acc = "accept_submission show_uuid d conv content i (k, c) h cap st"
  have log: "event_log (snd ?acc) x = event_log st x" if "x \<noteq> cv_id conv" for x
    using that by (auto simp: accept_submission_def refuse_submission_def Let_def event_log_emit
        split: prod.split)
  have turn: "hm_get (ag_turns st) (rn_turn_id run) \<noteq> None" if "hm_get (ag_runs st) r = Some run" for r run
    using paired_lookup(7) [OF inv that] by auto
  have "isolated s st (snd ?acc)"
    unfolding isolated_def
  proof (intro conjI allI impI)
    fix x conv'
    assume "hm_get (ag_conversations st) x = Some conv'" "\<not> scope_contains s (conversation_scope conv')"
    with c vis have "x \<noteq> c" by auto
    then show "same_conversation st (snd ?acc) x"
      using conversation_lookup [OF inv c] log by (simp add: same_conversation_def accept_fields)
  next
    fix r run
    assume "hm_get (ag_runs st) r = Some run"
    with turn [OF this] fresh show "same_run st (snd ?acc) r (rn_turn_id run)"
      by (auto simp: same_run_def accept_fields)
  qed
  then show ?thesis by (simp add: append_message_step [OF g])
qed (simp add: append_message_skip)

lemma isolated_ledger:
  assumes inv: "core_inv st"
  shows "isolated s st (snd (store_checkpoint d s r i st))"
    and "isolated s st (snd (append_tool_call d s j st))"
    and "isolated s st (snd (begin_tool_call d s j st))"
    and "isolated s st (snd (attempt_tool_call d s ident st))"
    and "isolated s st (snd (finish_tool_call d s ident out st))"
proof -
  have upd: "isolated s st (st\<lparr>ag_tool_calls := hm_insert (rn_id run, k) v (ag_tool_calls st)\<rparr>)"
    and "isolated s st (st\<lparr>ag_checkpoints := hm_insert (rn_id run, k') w (ag_checkpoints st)\<rparr>)"
    if "visible_run st s q = Inr run" for q run k k' v w
    using that paired_lookup(1) [OF inv, of q run]
    by (auto simp: isolated_def same_conversation_def same_run_def visible_run_Inr)
  note upd = this
  show "isolated s st (snd (store_checkpoint d s r i st))"
    using upd(2) by (auto simp: store_checkpoint_def Let_def split: try_in_split)
  show "isolated s st (snd (append_tool_call d s j st))"
    using upd(1) by (auto simp: append_tool_call_def Let_def split: try_in_split option.split)
  show "isolated s st (snd (begin_tool_call d s j st))"
    using upd(1) by (auto simp: begin_tool_call_def Let_def split: try_in_split option.split)
  show "isolated s st (snd (attempt_tool_call d s ident st))"
    using upd(1) by (auto simp: attempt_tool_call_def Let_def split: try_in_split option.split)
  show "isolated s st (snd (finish_tool_call d s ident out st))"
    using upd(1) by (auto simp: finish_tool_call_def Let_def split: try_in_split option.split)
qed

lemma isolated_exec:
  assumes "core_inv st" and "agent_fresh st e" and "agent_op_scope e = Some s"
  shows "isolated s st (agent_exec show_uuid st e)"
  using assms by (cases e) (simp_all add: isolated_create isolated_append isolated_cancel isolated_begin
      isolated_finish isolated_ledger)

section \<open>Failures\<close>

text \<open>The error an operation reports, if it reports one.\<close>

definition err_of :: "'a result \<Rightarrow> app_error option" where
  "err_of res = (case res of Inl e \<Rightarrow> Some e | Inr _ \<Rightarrow> None)"

lemma err_of_simps [simp]: "err_of (Inl e) = Some e" "err_of (Inr x) = None"
  by (simp_all add: err_of_def)

fun agent_op_error :: "(uuid \<Rightarrow> str) \<Rightarrow> agent_state \<Rightarrow> agent_op \<Rightarrow> app_error option" where
  "agent_op_error show_uuid st (OpCreate d s u i) = err_of (fst (create_conversation d s u i st))"
| "agent_op_error show_uuid st (OpAppend d s c i k h cap) =
     err_of (fst (append_message show_uuid d s c i k h cap st))"
| "agent_op_error show_uuid st (OpCancel d s t) = err_of (fst (cancel_turn d s t st))"
| "agent_op_error show_uuid st (OpBegin d s r) = err_of (fst (begin_run d s r st))"
| "agent_op_error show_uuid st (OpFinish d s r c) = err_of (fst (finish_run d s r c st))"
| "agent_op_error show_uuid st (OpReconcile d) = err_of (fst (reconcile_running_runs d st))"
| "agent_op_error show_uuid st (OpCheckpoint d s r i) = err_of (fst (store_checkpoint d s r i st))"
| "agent_op_error show_uuid st (OpAppendTool d s i) = err_of (fst (append_tool_call d s i st))"
| "agent_op_error show_uuid st (OpBeginTool d s i) = err_of (fst (begin_tool_call d s i st))"
| "agent_op_error show_uuid st (OpAttemptTool d s i) = err_of (fst (attempt_tool_call d s i st))"
| "agent_op_error show_uuid st (OpFinishTool d s i out) = err_of (fst (finish_tool_call d s i out st))"

lemma err_keeps_ops:
  "err_keeps st (create_conversation d s u ci st)"
  "err_keeps st (append_message show_uuid d s c mi k h cap st)"
  "err_keeps st (cancel_turn d s t st)"
  "err_keeps st (begin_run d s r st)"
  "err_keeps st (finish_run d s r completion st)"
  "err_keeps st (reconcile_running_runs d st)"
  "err_keeps st (store_checkpoint d s r i st)"
  "err_keeps st (append_tool_call d s j st)"
  "err_keeps st (begin_tool_call d s j st)"
  "err_keeps st (attempt_tool_call d s ident st)"
  "err_keeps st (finish_tool_call d s ident out st)"
  by (auto simp: op_defs reconcile_running_runs_def Let_def case_prod_beta
      intro!: err_keeps_try_in split: option.split sum.split)

lemma agent_error_frame: "agent_op_error show_uuid st e \<noteq> None \<Longrightarrow> agent_exec show_uuid st e = st"
  using err_keeps_ops by (cases e) (auto simp: err_of_def err_keeps_def split: sum.splits)

end
