(* ===== verification/Agent_Contracts.thy ===== *)
theory Agent_Contracts
  imports Agent_Isolation Agent_Example
begin

text \<open>
  The contracts of the single operations of the agent repository, in the context of the
  histories around them: idempotent submission, the resumable event log, cancellation,
  completion, restart, tenant isolation and atomic failure.
\<close>

section \<open>Idempotent submission\<close>

lemma append_stores_submission:
  assumes "append_message show_uuid d s c i k h cap st = (Inr acc, st1)"
  shows "hm_get (ag_idempotent_submissions st1) (k, c) = Some (h, acc) \<and> hm_contains (ag_conversations st1) c"
proof (cases "\<exists>content conv. append_guard st s c i k content conv")
  case True
  then obtain content conv where g: "append_guard st s c i k content conv" by blast
  then have "hm_get (ag_conversations st) c = Some conv"
    by (auto simp: append_guard_def visible_conversation_def split: option.splits if_splits)
  then show ?thesis
    using assms by (auto simp: append_message_step [OF g] accept_fields hm_contains_def)
next
  case False
  then have "st1 = st" using assms append_message_skip by (metis snd_conv)
  with assms False show ?thesis
    by (auto simp: append_message_def append_guard_def visible_conversation_def hm_contains_def Let_def
        split: result_splits option.splits if_splits prod.splits)
qed

lemma append_visible:
  "append_message show_uuid d s c i k h cap st = (Inr acc, st1) \<Longrightarrow>
     \<exists>conv. hm_get (ag_conversations st) c = Some conv \<and> visible conv s"
  by (auto simp: append_message_def visible_conversation_def split: result_splits option.splits if_splits)

text \<open>C18: a message submission is idempotent across any later history: sending it again under
  the same key returns the recorded acceptance and changes nothing, and using the key for a
  different request is a conflict that changes nothing.\<close>

theorem submission_is_idempotent:
  assumes st: "agent_reachable show_uuid st" and fresh: "agent_fresh st (OpAppend d s c i k h cap)"
    and accepted: "append_message show_uuid d s c i k h cap st = (Inr acc, st1)"
    and later: "ok_ops (agent_exec show_uuid) agent_fresh st1 es" "st2 = run_ops (agent_exec show_uuid) st1 es"
    and valid: "validate_append_message i' = Inr content"
  shows "append_message show_uuid d' s c i' k h' cap' st2 =
    (if h' = h then Inr acc
     else Inl (conflict (lit ''Idempotency-Key was already used with a different message request'')), st2)"
proof -
  note inv = reachable_core_inv [OF st]
  have st1: "st1 = agent_exec show_uuid st (OpAppend d s c i k h cap)" using accepted by simp
  have "core_inv st1" unfolding st1 using core_inv_exec [OF inv fresh] .
  then have le12: "agent_le st1 st2" and le: "agent_le st st2"
    using later agent_le_run agent_le_trans [OF agent_le_exec [OF inv fresh, of show_uuid]]
    by (auto simp: st1)
  have "hm_get (ag_idempotent_submissions st2) (k, c) = Some (h, acc)"
    using append_stores_submission [OF accepted] agent_leD(3) [OF le12] by (simp add: grows_def)
  moreover obtain conv where "hm_get (ag_conversations st) c = Some conv" "visible conv s"
    using append_visible [OF accepted] by blast
  then have "\<exists>conv. visible_conversation st2 s c = Some conv"
    using agent_leD(8) [OF le] unfolding grows_def visible_conversation_def visible_def
    by (fastforce dest: conversation_le_same(2))
  ultimately show ?thesis
    using valid by (auto simp: append_message_def)
qed

theorem submission_is_idempotent_witness:
  "\<exists>acc. fst (append_message ex_show (ex_draws 900) ex_scope (Ident 100) ex_message (lit ''key'')
     (lit ''hash'') ex_capability (ex_state 8)) = Inr acc"
proof -
  let ?app = "append_message ex_show (ex_draws 200) ex_scope (Ident 100) ex_message (lit ''key'')
     (lit ''hash'') ex_capability (ex_state 1)"
  have fresh: "agent_fresh (ex_state 1) ex_append"
    using ex_state_facts by (simp add: Let_def)
  have "\<not> Option.is_none (case fst ?app of Inl e \<Rightarrow> None | Inr x \<Rightarrow> Some x)"
    by code_simp
  then obtain acc where "fst ?app = Inr acc" by (cases "fst ?app") simp_all
  moreover have "ex_state 2 = agent_exec ex_show (ex_state 1) ex_append"
    by (simp add: ex_state_def ex_history_def numeral_2_eq_2)
  ultimately have acc: "?app = (Inr acc, ex_state 2)"
    by (simp add: ex_append_def prod_eq_iff)
  have ok': "ok_ops (agent_exec ex_show) agent_fresh (ex_state 2) (drop 2 ex_history)"
    by (rule ex_tail_ok)
  have eq: "ex_state 8 = run_ops (agent_exec ex_show) (ex_state 2) (drop 2 ex_history)"
    by (simp add: ex_state_def ex_history_def numeral_2_eq_2)
  from submission_is_idempotent [OF ex_state_reachable fresh [unfolded ex_append_def] acc ok' eq ex_valid_message]
  show ?thesis by simp
qed

section \<open>The event log\<close>

lemma log_sequences:
  assumes "log_inv st" and "length (event_log st c) < 2 ^ 64" and "n \<le> length (event_log st c)"
  shows "filter (\<lambda>e. ce_sequence e > of_nat n) (event_log st c) = drop n (event_log st c)"
proof -
  let ?l = "event_log st c"
  have eq: "map ce_sequence ?l = map of_nat [1..<Suc (length ?l)]"
    using assms(1) by (simp add: log_inv_def del: upt_Suc)
  have nth: "ce_sequence (?l ! j) = of_nat (Suc j)" if "j < length ?l" for j
    using arg_cong [OF eq, of "\<lambda>xs. xs ! j"] that by (simp del: upt_Suc)
  have gt: "(of_nat n :: u64) < of_nat (Suc j) \<longleftrightarrow> n \<le> j" if "j < length ?l" for j
    using assms(2,3) that by (simp add: word_less_nat_alt unat_of_nat take_bit_nat_eq_self less_Suc_eq_le del: of_nat_Suc)
  have gt': "ce_sequence (?l ! j) > of_nat n \<longleftrightarrow> n \<le> j" if "j < length ?l" for j
    using nth [OF that] gt [OF that] by simp
  have "filter (\<lambda>e. ce_sequence e > of_nat n) (take n ?l) = []"
    using gt' by (auto simp: filter_empty_conv in_set_conv_nth)
  moreover have "filter (\<lambda>e. ce_sequence e > of_nat n) (drop n ?l) = drop n ?l"
    using gt' assms(3) by (auto simp: filter_id_conv in_set_conv_nth)
  ultimately show ?thesis
    by (metis append_Nil append_take_drop_id filter_append)
qed

text \<open>C20: a client that has seen a conversation's log resumes without loss or repetition:
  replaying after the last sequence number it saw returns exactly the events recorded since,
  in order.\<close>

theorem replay_resumes_after_cursor:
  assumes st: "agent_reachable show_uuid st" and conv: "visible_conversation st s c = Some conv"
    and later: "ok_ops (agent_exec show_uuid) agent_fresh st es" "st' = run_ops (agent_exec show_uuid) st es"
    and bound: "length (event_log st' c) < 2 ^ 64"
  shows "\<exists>missed. replay_events st' s c (Some (of_nat (length (event_log st c)))) = Inr missed \<and>
    event_log st' c = event_log st c @ missed"
proof -
  note inv = reachable_core_inv [OF st]
  have le: "agent_le st st'" using agent_le_run [OF inv later(1)] later(2) by simp
  then obtain missed where pre: "event_log st' c = event_log st c @ missed"
    using agent_leD(1) [OF le] by (auto simp: prefix_def)
  have "log_inv st'"
    using agent_log.inv_run [OF reachable_log_inv [OF st] later(1)] later(2) by simp
  from log_sequences [OF this bound, of "length (event_log st c)"] pre
  have flt: "filter (\<lambda>e. ce_sequence e > of_nat (length (event_log st c))) (event_log st' c) = missed"
    by simp
  have inv': "core_inv st'" using agent_core.inv_run [OF inv later(1)] later(2) by simp
  from conv have c: "hm_get (ag_conversations st) c = Some conv" "visible conv s"
    by (auto simp: visible_conversation_def split: option.splits if_splits)
  then obtain conv' where c': "hm_get (ag_conversations st') c = Some conv'" "conversation_le conv conv'"
    using agent_leD(8) [OF le] unfolding grows_def by blast
  with c have "visible_conversation st' s c = Some conv'"
    by (simp add: visible_conversation_def visible_def conversation_le_same)
  with pre flt conversation_lookup [OF inv' c'(1)] show ?thesis
    by (auto simp: replay_events_def event_log_def rbind_def ok_or_def)
qed

definition ex_conversation :: conversation where
  "ex_conversation = the (visible_conversation (ex_state 2) ex_scope (Ident 100))"

lemma ex_conversation: "visible_conversation (ex_state 2) ex_scope (Ident 100) = Some ex_conversation"
  unfolding ex_conversation_def by (rule the_someI) (use ex_state_facts in \<open>simp add: Let_def\<close>)

theorem replay_resumes_after_cursor_witness:
  "\<exists>missed. replay_events (ex_state 8) ex_scope (Ident 100) (Some (of_nat (length (event_log (ex_state 2) (Ident 100))))) =
     Inr missed \<and> event_log (ex_state 8) (Ident 100) = event_log (ex_state 2) (Ident 100) @ missed"
proof (rule replay_resumes_after_cursor [OF ex_state_reachable ex_conversation ex_tail_ok])
  show "ex_state 8 = run_ops (agent_exec ex_show) (ex_state 2) (drop 2 ex_history)"
    by (simp add: ex_state_def ex_history_def numeral_2_eq_2)
  show "length (event_log (ex_state 8) (Ident 100)) < 2 ^ 64"
    by (rule ex_log_length)
qed

text \<open>C26: the live stream of the broadcast channel and the stored logs are the same history:
  conversation by conversation, what was sent is what is stored, numbered from 1.\<close>

theorem live_stream_is_the_log:
  assumes "agent_reachable show_uuid st"
  shows "filter (\<lambda>e. ce_conversation_id e = c) (ag_live st) = event_log st c \<and>
    map ce_sequence (event_log st c) = map of_nat [1..<Suc (length (event_log st c))]"
  using reachable_log_inv [OF assms] by (auto simp: log_inv_def simp del: upt_Suc)

theorem live_stream_is_the_log_witness:
  "filter (\<lambda>e. ce_conversation_id e = Ident 100) (ag_live (ex_state 8)) = event_log (ex_state 8) (Ident 100)"
  by (rule conjunct1 [OF live_stream_is_the_log [OF ex_state_reachable]])

end
