(* ===== verification/Agent_Outcomes.thy ===== *)
theory Agent_Outcomes
  imports Agent_Isolation Agent_Example
begin

text \<open>
  How a run ends: cancellation, completion, refusal, and restart; and what no operation may
  do: touch another tenant's data, or leave a partial write behind an error.
\<close>

section \<open>Cancellation\<close>

text \<open>C19: cancellation wins over a late worker: once \<open>cancel_turn\<close> has returned, no later
  \<open>finish_run\<close> or \<open>begin_run\<close> of that run reports success or changes anything.\<close>

theorem cancel_beats_finish:
  assumes st: "agent_reachable show_uuid st" and cancel: "cancel_turn d s t st = (Inr run, st1)"
    and later: "ok_ops (agent_exec show_uuid) agent_fresh st1 es" "st2 = run_ops (agent_exec show_uuid) st1 es"
  shows "finish_run d' s' (rn_id run) completion st2 = (Inr None, st2) \<and>
    begin_run d' s' (rn_id run) st2 = (Inr None, st2)"
proof -
  note inv = reachable_core_inv [OF st]
  have st1: "st1 = agent_exec show_uuid st (OpCancel d s t)" using cancel by simp
  have inv1: "core_inv st1" unfolding st1 by (rule core_inv_exec [OF inv]) simp
  have "hm_get (ag_runs st1) (rn_id run) = Some run \<and> is_terminal_run (rn_status run)"
  proof (cases "\<exists>turn run conv. cancel_guard st s t turn run conv")
    case True
    then obtain turn run0 conv where g: "cancel_guard st s t turn run0 conv" by blast
    then show ?thesis
      using cancel by (auto simp: cancel_turn_step [OF g] is_terminal_run_def)
  next
    case False
    then have eq: "st1 = st" using cancel cancel_turn_skip by (metis snd_conv)
    then obtain r where "hm_get (ag_runs st) r = Some run" "is_terminal_run (rn_status run)"
      using cancel False
      by (auto simp: cancel_turn_def cancel_guard_def Let_def split: result_splits option.splits if_splits)
    with paired_lookup(1) [OF inv] eq show ?thesis by auto
  qed
  then have "hm_get (ag_runs st2) (rn_id run) = Some run" "is_terminal_run (rn_status run)"
    using agent_leD(5) [OF agent_le_run [OF inv1 later(1)]] later(2)
    by (auto simp: grows_def dest: run_le_terminal)
  then show ?thesis
    by (auto simp: finish_run_def begin_run_def is_terminal_run_def)
qed

definition ex_cancelled :: "agent_run result \<times> agent_state" where
  "ex_cancelled = cancel_turn (ex_draws 700) ex_scope (Ident 200) (ex_state 3)"

definition inr_opt :: "'a result \<Rightarrow> 'a option" where
  "inr_opt res = (case res of Inl e \<Rightarrow> None | Inr x \<Rightarrow> Some x)"

lemma inr_opt_someI: "\<not> Option.is_none (inr_opt (fst res)) \<Longrightarrow> res = (Inr (the (inr_opt (fst res))), snd res)"
  by (cases res; cases "fst res") (auto simp: inr_opt_def)

lemma ex_cancelled: "let run = inr_opt (fst ex_cancelled) in
    \<not> Option.is_none run \<and> rn_id (the run) = Ident 201 \<and> rn_status (the run) = RunCancelled"
  by code_simp

lemmas ex_cancelled_facts = ex_cancelled [unfolded Let_def, THEN conjunct1]
  ex_cancelled [unfolded Let_def, THEN conjunct2, THEN conjunct1]

theorem cancel_beats_finish_witness:
  "finish_run (ex_draws 800) ex_scope (Ident 201) (CompletionSucceeded [] JNull) (snd ex_cancelled) =
     (Inr None, snd ex_cancelled)"
  using cancel_beats_finish [OF ex_state_reachable [of 3]
      inr_opt_someI [OF ex_cancelled_facts(1), unfolded ex_cancelled_def], of "[]"]
    ex_cancelled_facts(2) [unfolded ex_cancelled_def]
  by (simp add: ex_cancelled_def)

section \<open>Completion\<close>

text \<open>finishing a running run records everything together: a storable answer becomes the
  stored assistant message of the turn with the run and turn succeeded; a failure, or an
  answer that cannot be stored, becomes a failed run carrying that typed error, a failed turn,
  and no message.\<close>

theorem finish_run_records_together:
  assumes st: "agent_reachable show_uuid st" and r: "hm_get (ag_runs st) r = Some run"
    and scope: "scope_contains s (run_scope run)" and running: "rn_status run = RunRunning"
  shows "\<exists>tr st'. finish_run d s r completion st = (Inr (Some tr), st') \<and>
    hm_get (ag_runs st') r = Some (tr_run tr) \<and> hm_get (ag_turns st') (rn_turn_id run) = Some (tr_turn tr) \<and>
    (case completion_outcome completion of
       Inr (content, metadata) \<Rightarrow> rn_status (tr_run tr) = RunSucceeded \<and> tn_status (tr_turn tr) = TurnSucceeded \<and>
         (\<exists>msg. tr_message tr = Some msg \<and> hm_get (ag_messages st') (ms_id msg) = Some msg \<and>
            ms_content msg = content \<and> answer_of (rn_turn_id run) msg)
     | Inl e \<Rightarrow> rn_status (tr_run tr) = RunFailed \<and> tn_status (tr_turn tr) = TurnFailed \<and>
         rn_error (tr_run tr) = Some e \<and> tr_message tr = None \<and> ag_messages st' = ag_messages st)"
proof -
  note inv = reachable_core_inv [OF st]
  note p = paired_lookup [OF inv r]
  obtain turn conv where t: "hm_get (ag_turns st) (rn_turn_id run) = Some turn"
    and c: "hm_get (ag_conversations st) (rn_conversation_id run) = Some conv"
    using p(7,8) by blast
  have g: "finish_guard st s r run turn conv"
    using r scope running t c by (simp add: finish_guard_def claim_guard_def)
  show ?thesis
  proof (cases "completion_outcome completion")
    case (Inl e)
    then show ?thesis using p(1) p(2) [OF t] by (simp add: finish_run_failure [OF g Inl])
  next
    case (Inr out)
    then obtain content metadata where out: "completion_outcome completion = Inr (content, metadata)"
      by (cases out) auto
    show ?thesis
      using p(1) p(2) [OF t]
      by (simp add: out finish_run_success [OF g out] assistant_message_def answer_of_def)
  qed
qed

definition ex_running :: agent_run where
  "ex_running = the (hm_get (ag_runs (ex_state 3)) (Ident 201))"

lemma ex_running: "hm_get (ag_runs (ex_state 3)) (Ident 201) = Some ex_running"
  unfolding ex_running_def by (rule the_someI) (use ex_state_facts in \<open>simp add: Let_def\<close>)

lemma ex_running_fields: "scope_contains ex_scope (run_scope ex_running)" "rn_status ex_running = RunRunning"
  using ex_state_facts by (simp_all add: ex_running_def Let_def)

theorem finish_run_records_together_witness:
  "\<exists>tr st'. finish_run (ex_draws 800) ex_scope (Ident 201) (CompletionFailed (conflict [])) (ex_state 3) =
     (Inr (Some tr), st') \<and> rn_status (tr_run tr) = RunFailed \<and> rn_error (tr_run tr) = Some (conflict [])"
  using finish_run_records_together [OF ex_state_reachable ex_running ex_running_fields,
      of "ex_draws 800" "CompletionFailed (conflict [])"] by auto

text \<open>when the runtime is unavailable a submission is still accepted and recorded, with
  its run failed at once as \<open>capability_missing\<close>; the conversation stays free for the next
  message.\<close>

theorem unavailable_runtime_fails_the_run:
  assumes st: "agent_reachable show_uuid st" and fresh: "agent_fresh st (OpAppend d s c i k h cap)"
    and guard: "append_guard st s c i k content conv" and cap: "\<not> is_available cap"
  shows "\<exists>acc st'. append_message show_uuid d s c i k h cap st = (Inr acc, st') \<and>
    hm_get (ag_messages st') (ms_id (sa_message acc)) = Some (sa_message acc) \<and>
    hm_get (ag_runs st') (rn_id (sa_run acc)) = Some (sa_run acc) \<and>
    rn_status (sa_run acc) = RunFailed \<and>
    (\<exists>e. rn_error (sa_run acc) = Some e \<and> err_code e = CapabilityMissing) \<and>
    filter is_active_turn (conversation_turns st' c) = []"
proof -
  let ?acc = "accept_submission show_uuid d conv content i (k, c) h cap st"
  note inv = reachable_core_inv [OF st]
  have eq: "append_message show_uuid d s c i k h cap st = (Inr (fst ?acc), snd ?acc)"
    by (rule append_message_step [OF guard])
  have inv': "core_inv (snd ?acc)"
    using core_inv_append [OF inv fresh, of show_uuid] eq by simp
  have "filter is_active_turn (conversation_turns (snd ?acc) c) = []"
  proof -
    have "\<not> is_active_turn z" if z: "z \<in> set (hm_values (ag_turns (snd ?acc)))" "tn_conversation_id z = c" for z
    proof -
      from z(1) have "z = submit_final_turn d cap (submit_turn d conv content i st) \<or>
          z \<in> set (hm_values (ag_turns st))"
        unfolding accept_fields by (rule hm.vals_insertD [OF core_inv_maps(3) [OF inv]])
      then show ?thesis
        using guard z(2) cap
        by (auto simp: append_guard_def conversation_turns_def filter_empty_conv submit_final_turn_def
            is_active_turn_def)
    qed
    then show ?thesis by (auto simp: conversation_turns_def filter_empty_conv)
  qed
  with eq cap show ?thesis
    by (auto simp: accept_fields submit_final_run_def submit_run_def append_run_def submit_message_def
        append_user_message_def refusal_def)
qed

lemma ex_guard: "append_guard (ex_state 1) ex_scope (Ident 100) ex_message (lit ''key'') (lit ''hi'')
    (the (visible_conversation (ex_state 1) ex_scope (Ident 100)))"
proof -
  have "visible_conversation (ex_state 1) ex_scope (Ident 100) =
      Some (the (visible_conversation (ex_state 1) ex_scope (Ident 100)))"
    by (rule the_someI) (use ex_state_facts in \<open>simp add: Let_def\<close>)
  moreover have "hm_get (ag_idempotent_submissions (ex_state 1)) (lit ''key'', Ident 100) = None"
    using ex_state_facts by (simp add: Let_def Option.is_none_def)
  moreover have "cv_status (the (visible_conversation (ex_state 1) ex_scope (Ident 100))) = ConvActive"
    "filter is_active_turn (conversation_turns (ex_state 1) (Ident 100)) = []"
    using ex_state_facts by (simp_all add: Let_def)
  ultimately show ?thesis using ex_valid_message by (simp add: append_guard_def)
qed

theorem unavailable_runtime_fails_the_run_witness:
  "\<exists>acc st'. append_message ex_show (ex_draws 200) ex_scope (Ident 100) ex_message (lit ''key'') (lit ''hash'')
     missing_runtime_capability (ex_state 1) = (Inr acc, st') \<and> rn_status (sa_run acc) = RunFailed"
proof -
  have "agent_fresh (ex_state 1) (OpAppend (ex_draws 200) ex_scope (Ident 100) ex_message (lit ''key'')
      (lit ''hash'') missing_runtime_capability)"
    using ex_state_facts by (simp add: Let_def ex_append_def)
  moreover have "\<not> is_available missing_runtime_capability" by code_simp
  ultimately show ?thesis
    using unavailable_runtime_fails_the_run [OF ex_state_reachable _ ex_guard] by blast
qed

end
