(* ===== verification/Agent_Safety.thy ===== *)
theory Agent_Safety
  imports Agent_Isolation Agent_Example
begin

text \<open>
  What no operation of the agent repository may do: leave a run running across a restart,
  touch another tenant's data, leave a partial write behind an error, rewrite history or
  invoke a denied tool; and the order of the conversation list.
\<close>

section \<open>Restart\<close>

definition running :: "agent_state \<Rightarrow> run_id set" where
  "running st = {r. \<exists>run. hm_get (ag_runs st) r = Some run \<and> rn_status run = RunRunning}"

lemma running_eq: "core_inv st \<Longrightarrow> running st = set (running_ids st)"
  by (auto simp: running_def running_ids(2))

lemma reconcile_one_run:
  assumes inv: "core_inv st" and r: "hm_get (ag_runs st) r = Some run" and "rn_status run = RunRunning"
  shows "hm_get (ag_runs (snd (snd (snd (reconcile_one d r (u, n, k, st)))))) r =
      Some (run\<lparr>rn_status := RunFailed, rn_error := Some abandoned_error, rn_updated_at := now_at d n\<rparr>)"
    and "fst (snd (snd (reconcile_one d r (u, n, k, st)))) = k + 1"
proof -
  obtain turn conv where eq: "reconcile_one d r (u, n, k, st) =
      (u + 1, n + 2, k + 1, reconciled_state d u n r run turn conv st)"
    using reconcile_one_step [OF assms] by metis
  show "hm_get (ag_runs (snd (snd (snd (reconcile_one d r (u, n, k, st)))))) r =
      Some (run\<lparr>rn_status := RunFailed, rn_error := Some abandoned_error, rn_updated_at := now_at d n\<rparr>)"
    unfolding eq by (simp add: reconciled_state_def)
  show "fst (snd (snd (reconcile_one d r (u, n, k, st)))) = k + 1"
    by (simp add: eq)
qed

lemma reconcile_fold:
  assumes "core_inv st" and "distinct rs" and "set rs \<subseteq> running st"
  shows "(\<forall>r. hm_get (ag_runs st) r \<noteq> None \<longrightarrow> r \<notin> set rs \<longrightarrow>
      hm_get (ag_runs (snd (snd (snd (fold (reconcile_one d) rs (u, n, k, st)))))) r = hm_get (ag_runs st) r) \<and>
    (\<forall>r\<in>set rs. \<exists>run. hm_get (ag_runs (snd (snd (snd (fold (reconcile_one d) rs (u, n, k, st)))))) r = Some run \<and>
      rn_status run = RunFailed \<and> rn_error run = Some abandoned_error) \<and>
    fst (snd (snd (fold (reconcile_one d) rs (u, n, k, st)))) = k + of_nat (length rs) \<and>
    (\<forall>r. hm_get (ag_runs st) r = None \<longrightarrow>
      hm_get (ag_runs (snd (snd (snd (fold (reconcile_one d) rs (u, n, k, st)))))) r = None)"
  using assms
proof (induction rs arbitrary: st u n k)
  case (Cons r rs)
  then obtain run where r: "hm_get (ag_runs st) r = Some run" "rn_status run = RunRunning"
    by (auto simp: running_def)
  obtain u' n' k' st' where acc: "reconcile_one d r (u, n, k, st) = (u', n', k', st')"
    by (metis prod_cases4)
  note one = reconcile_one_run [OF Cons.prems(1) r, of d u n k, unfolded acc, simplified]
  note oth = reconcile_one_other [OF Cons.prems(1) r, of _ d u n k, unfolded acc, simplified]
  have "core_inv st'" using core_inv_reconcile_one [OF Cons.prems(1) r, of d u n k] acc by simp
  moreover have "set rs \<subseteq> running st'"
    using Cons.prems(2,3) oth by (fastforce simp: running_def)
  ultimately have IH: "(\<forall>x. hm_get (ag_runs st') x \<noteq> None \<longrightarrow> x \<notin> set rs \<longrightarrow>
        hm_get (ag_runs (snd (snd (snd (fold (reconcile_one d) rs (u', n', k', st')))))) x = hm_get (ag_runs st') x) \<and>
      (\<forall>x\<in>set rs. \<exists>run. hm_get (ag_runs (snd (snd (snd (fold (reconcile_one d) rs (u', n', k', st')))))) x = Some run \<and>
        rn_status run = RunFailed \<and> rn_error run = Some abandoned_error) \<and>
      fst (snd (snd (fold (reconcile_one d) rs (u', n', k', st')))) = k' + of_nat (length rs) \<and>
      (\<forall>x. hm_get (ag_runs st') x = None \<longrightarrow>
        hm_get (ag_runs (snd (snd (snd (fold (reconcile_one d) rs (u', n', k', st')))))) x = None)"
    using Cons.prems(2) by (intro Cons.IH) auto
  have fold: "fold (reconcile_one d) (r # rs) (u, n, k, st) = fold (reconcile_one d) rs (u', n', k', st')"
    by (simp add: acc)
  show ?case
    unfolding fold
  proof (intro conjI allI impI ballI)
    fix x
    assume "hm_get (ag_runs st) x \<noteq> None" "x \<notin> set (r # rs)"
    with IH oth [of x] show "hm_get (ag_runs (snd (snd (snd (fold (reconcile_one d) rs (u', n', k', st')))))) x =
        hm_get (ag_runs st) x" by auto
  next
    fix x
    assume "x \<in> set (r # rs)"
    with IH one(1) Cons.prems(2) show "\<exists>run. hm_get (ag_runs (snd (snd (snd (fold (reconcile_one d) rs (u', n', k', st')))))) x =
        Some run \<and> rn_status run = RunFailed \<and> rn_error run = Some abandoned_error" by auto
  next
    show "fst (snd (snd (fold (reconcile_one d) rs (u', n', k', st')))) = k + of_nat (length (r # rs))"
      using IH one(2) by simp
  next
    fix x
    assume "hm_get (ag_runs st) x = None"
    moreover from this r have "x \<noteq> r" by auto
    ultimately show "hm_get (ag_runs (snd (snd (snd (fold (reconcile_one d) rs (u', n', k', st')))))) x = None"
      using IH oth [of x] by simp
  qed
qed simp

text \<open>C22: a restart leaves no run running: \<open>reconcile_running_runs\<close> reports the number of
  runs it found running (below \<open>2^64\<close>), each of them is failed as abandoned, every other run
  is as it was, and a second call finds nothing to do.\<close>

theorem restart_fails_every_running_run:
  fixes d :: draws
  assumes st: "agent_reachable show_uuid st"
  defines "st' \<equiv> snd (reconcile_running_runs d st)"
  shows "fst (reconcile_running_runs d st) = Inr (of_nat (card (running st))) \<and> running st' = {} \<and>
    (\<forall>r\<in>running st. \<exists>run. hm_get (ag_runs st') r = Some run \<and> rn_status run = RunFailed \<and>
       rn_error run = Some abandoned_error) \<and>
    (\<forall>r. r \<notin> running st \<longrightarrow> hm_get (ag_runs st') r = hm_get (ag_runs st) r) \<and>
    reconcile_running_runs d' st' = (Inr 0, st')"
proof -
  note inv = reachable_core_inv [OF st]
  note ids = running_ids(1) [OF inv] running_eq [OF inv]
  note F = reconcile_fold [OF inv ids(1) equalityD2 [OF ids(2)], of d 0 0 0]
  have st': "st' = snd (snd (snd (fold (reconcile_one d) (running_ids st) (0, 0, 0, st))))"
    unfolding st'_def by (rule reconcile_as_fold)
  have failed: "\<exists>run. hm_get (ag_runs st') r = Some run \<and> rn_status run = RunFailed \<and>
       rn_error run = Some abandoned_error" if "r \<in> running st" for r
    using F that ids(2) by (simp add: st')
  have other: "hm_get (ag_runs st') r = hm_get (ag_runs st) r" if "r \<notin> running st" for r
    using F that ids(2) by (cases "hm_get (ag_runs st) r") (auto simp: st')
  have none: "running st' = {}"
  proof -
    have "r \<notin> running st'" for r
      using failed [of r] other [of r] by (cases "r \<in> running st") (auto simp: running_def)
    then show ?thesis by blast
  qed
  have count: "fst (reconcile_running_runs d st) = Inr (of_nat (card (running st)))"
    using F distinct_card [OF ids(1)] ids(2) by (simp add: reconcile_as_fold)
  have "core_inv st'" unfolding st'_def by (rule core_inv_reconcile [OF inv])
  then have "running_ids st' = []"
    using none running_eq by fastforce
  then have "reconcile_running_runs d' st' = (Inr 0, st')"
    by (simp add: prod_eq_iff reconcile_as_fold)
  with count none failed other show ?thesis by blast
qed

theorem restart_fails_every_running_run_witness:
  "fst (reconcile_running_runs (ex_draws 700) (ex_state 3)) = Inr (of_nat (card (running (ex_state 3)))) \<and>
   running (snd (reconcile_running_runs (ex_draws 700) (ex_state 3))) = {}"
  using restart_fails_every_running_run [OF ex_state_reachable, where d = "ex_draws 700" and d' = "ex_draws 700"] by blast

section \<open>Isolation and atomicity\<close>

text \<open>C21: an operation called for one tenant scope leaves the conversations, event logs, runs,
  turns, checkpoints and tool calls outside that scope as they are.\<close>

theorem operations_are_tenant_isolated:
  assumes "agent_reachable show_uuid st" and "agent_fresh st e" and "agent_op_scope e = Some s"
  shows "isolated s st (agent_exec show_uuid st e)"
  by (rule isolated_exec [OF reachable_core_inv [OF assms(1)] assms(2,3)])

theorem operations_are_tenant_isolated_witness:
  "isolated ex_other_scope (ex_state 3)
     (agent_exec ex_show (ex_state 3) (OpCancel (ex_draws 700) ex_other_scope (Ident 200)))"
  by (rule operations_are_tenant_isolated [OF ex_state_reachable]) simp_all

text \<open>C25: an operation that reports an error has changed nothing.\<close>

theorem failed_operations_change_nothing:
  assumes "agent_op_error show_uuid st e = Some err"
  shows "agent_exec show_uuid st e = st"
  using assms agent_error_frame [of show_uuid st e] by simp

theorem failed_operations_change_nothing_witness:
  "agent_exec ex_show (ex_state 3) (OpCancel (ex_draws 700) ex_other_scope (Ident 200)) = ex_state 3"
proof -
  have "\<not> Option.is_none (agent_op_error ex_show (ex_state 3) (OpCancel (ex_draws 700) ex_other_scope (Ident 200)))"
    by code_simp
  from failed_operations_change_nothing [OF the_someI [OF this]] show ?thesis .
qed

section \<open>The tool-call ledger\<close>

text \<open>a recorded tool call is kept for ever: its identity, permission, budget and intent
  never change, and its outcome only moves forward from intent through attempted to a final
  outcome.\<close>

theorem ledger_entries_only_advance:
  assumes "agent_reachable show_uuid st" and "ok_ops (agent_exec show_uuid) agent_fresh st es"
    and "hm_get (ag_tool_calls st) k = Some e"
  shows "\<exists>e'. hm_get (ag_tool_calls (run_ops (agent_exec show_uuid) st es)) k = Some e' \<and> same_call e e' \<and>
    (e' = e \<or> outcome_rank (tl_outcome e) < outcome_rank (tl_outcome e'))"
  using agent_leD(6) [OF agent_le_run [OF reachable_core_inv [OF assms(1)] assms(2)]] assms(3)
  unfolding grows_def ledger_le_def by blast

definition ex_entry :: tool_call_ledger_entry where
  "ex_entry = the (hm_get (ag_tool_calls (ex_state 5)) (Ident 201, lit ''call''))"

lemma ex_entry: "hm_get (ag_tool_calls (ex_state 5)) (Ident 201, lit ''call'') = Some ex_entry"
  unfolding ex_entry_def by (rule the_someI) (use ex_state_facts in \<open>simp add: Let_def\<close>)

theorem ledger_entries_only_advance_witness:
  "\<exists>e'. hm_get (ag_tool_calls (run_ops (agent_exec ex_show) (ex_state 5) (drop 5 ex_history)))
     (Ident 201, lit ''call'') = Some e' \<and> same_call ex_entry e'"
  using ledger_entries_only_advance [OF ex_state_reachable ex_tail_ok ex_entry] by blast

lemma same_call_fields:
  assumes "same_call e e'"
  shows "tl_permission e' = tl_permission e \<and> tl_budget e' = tl_budget e"
proof -
  from assms have e': "e' = e\<lparr>tl_outcome := tl_outcome e', tl_attempt_count := tl_attempt_count e',
      tl_updated_at := tl_updated_at e'\<rparr>"
    by (simp add: same_call_def)
  show ?thesis by (subst e', subst (2) e') simp
qed

text \<open>a tool call recorded with a denied permission or a denied budget is never authorized,
  whatever happens afterwards.\<close>

theorem denied_tool_call_never_authorized:
  assumes st: "agent_reachable show_uuid st" and "ok_ops (agent_exec show_uuid) agent_fresh st es"
    and "hm_get (ag_tool_calls st) k = Some e" and "tl_permission e = Denied \<or> tl_budget e = Denied"
  shows "count_grants (agent_exec show_uuid) (attempts k) st es = 0"
  using reachable_core_inv [OF st] assms(2-)
proof (induction es arbitrary: st e)
  case (Cons op es)
  have "\<not> attempts k st op"
  proof
    assume "attempts k st op"
    then obtain d s i run entry where k: "k = (ti_run_id i, ti_tool_call_id i)"
      and g: "attempt_guard st s i run entry"
      by (rule attempts_guard)
    then have "rn_id run = ti_run_id i"
      using paired_lookup(1) [OF Cons.prems(1)] by (auto simp: attempt_guard_def visible_run_Inr)
    with g k Cons.prems(3,4) show False by (auto simp: attempt_guard_def)
  qed
  moreover have le: "agent_le st (agent_exec show_uuid st op)" and inv: "core_inv (agent_exec show_uuid st op)"
    using Cons.prems(1,2) by (auto intro: agent_le_exec core_inv_exec)
  from Cons.prems(3) obtain e' where e': "hm_get (ag_tool_calls (agent_exec show_uuid st op)) k = Some e'"
    and "same_call e e'"
    using agent_leD(6) [OF le] unfolding grows_def ledger_le_def by blast
  then have "tl_permission e' = tl_permission e \<and> tl_budget e' = tl_budget e"
    by (rule_tac same_call_fields)
  ultimately show ?case
    using Cons.IH [OF inv _ e'] Cons.prems(2,4) by simp
qed simp

definition ex_denied_tool :: agent_op where
  "ex_denied_tool = OpBeginTool (ex_draws 400) ex_scope (ex_tool\<lparr>rt_permission := Denied\<rparr>)"

definition ex_denied_state :: agent_state where
  "ex_denied_state = agent_exec ex_show (ex_state 3) ex_denied_tool"

definition ex_denied_entry :: tool_call_ledger_entry where
  "ex_denied_entry = the (hm_get (ag_tool_calls ex_denied_state) (Ident 201, lit ''call''))"

lemma ex_denied_facts: "let m = hm_get (ag_tool_calls ex_denied_state) (Ident 201, lit ''call'') in
    \<not> Option.is_none m \<and> tl_permission (the m) = Denied"
  by code_simp

lemma ex_denied_entry: "hm_get (ag_tool_calls ex_denied_state) (Ident 201, lit ''call'') = Some ex_denied_entry"
  unfolding ex_denied_entry_def by (rule the_someI) (use ex_denied_facts in \<open>simp add: Let_def\<close>)

lemma agent_reachable_exec:
  assumes "agent_reachable show_uuid st" and "agent_fresh st e"
  shows "agent_reachable show_uuid (agent_exec show_uuid st e)"
proof -
  from assms(1) obtain es where es: "ok_ops (agent_exec show_uuid) agent_fresh agent_state_default es"
    "st = run_ops (agent_exec show_uuid) agent_state_default es"
    unfolding agent_reachable_def by blast
  with assms(2) show ?thesis
    unfolding agent_reachable_def by (intro exI [of _ "es @ [e]"]) (simp add: ok_ops_append run_ops_append)
qed

theorem denied_tool_call_never_authorized_witness:
  "count_grants (agent_exec ex_show) (attempts (Ident 201, lit ''call'')) ex_denied_state
     [ex_attempt_tool, ex_attempt_tool] = 0"
proof (rule denied_tool_call_never_authorized [OF _ _ ex_denied_entry])
  show "agent_reachable ex_show ex_denied_state"
    unfolding ex_denied_state_def
    by (rule agent_reachable_exec [OF ex_state_reachable]) (simp add: ex_denied_tool_def)
  show "ok_ops (agent_exec ex_show) agent_fresh ex_denied_state [ex_attempt_tool, ex_attempt_tool]"
    by (simp add: ex_attempt_tool_def)
  have "tl_permission ex_denied_entry = Denied"
    using ex_denied_facts by (simp add: ex_denied_entry_def Let_def)
  then show "tl_permission ex_denied_entry = Denied \<or> tl_budget ex_denied_entry = Denied" ..
qed

section \<open>The conversation list\<close>

text \<open>\<open>list_conversations\<close> returns every conversation visible to the scope once, newest
  update first and by identifier among equals, whatever the iteration order of the hash map
  that holds them.\<close>

theorem conversation_list_is_canonical:
  assumes st: "agent_reachable show_uuid st" and order: "mset C = mset (ag_conversations st)"
  shows "\<exists>cs. list_conversations (st\<lparr>ag_conversations := C\<rparr>) s = Inr cs \<and> list_conversations st s = Inr cs \<and>
    distinct cs \<and> set cs = {conv. hm_get (ag_conversations st) (cv_id conv) = Some conv \<and> visible conv s} \<and>
    sorted_wrt (\<lambda>a b. cv_updated_at b < cv_updated_at a \<or>
      cv_updated_at a = cv_updated_at b \<and> cv_id a < cv_id b) cs"
proof -
  note inv = reachable_core_inv [OF st]
  let ?vis = "\<lambda>c. visible c s" and ?key = "\<lambda>c. (- cv_updated_at c, cv_id c)"
  let ?xs = "filter ?vis (hm_values (ag_conversations st))"
  have keys: "map cv_id (hm_values (ag_conversations st)) = map fst (ag_conversations st)"
    using conversation_lookup [OF inv] core_inv_maps(1) [OF inv]
    by (auto simp: hm_values_def hm_wf_def hm_get_def)
  have ids: "distinct (map cv_id (hm_values (ag_conversations st)))"
    unfolding keys using core_inv_maps(1) [OF inv] by (simp add: hm_wf_def)
  then have dist: "distinct ?xs" and inj: "inj_on cv_id (set ?xs)"
    by (auto simp: distinct_map intro: inj_on_subset)
  have inj': "inj_on ?key (set ?xs)"
    using inj by (auto simp: inj_on_def)
  have "mset (filter ?vis (hm_values C)) = mset ?xs"
    using order by (simp add: hm_values_def)
  from sort_key_perm [OF this [symmetric] inj']
  have perm: "sort_key ?key (filter ?vis (hm_values C)) = sort_key ?key ?xs" by simp
  have "sorted_wrt (<) (map ?key (sort_key ?key ?xs))"
    unfolding strict_sorted_iff using dist inj' by (simp add: distinct_map)
  then have "sorted_wrt (\<lambda>a b. ?key a < ?key b) (sort_key ?key ?xs)"
    by (simp add: sorted_wrt_map)
  then have "sorted_wrt (\<lambda>a b. cv_updated_at b < cv_updated_at a \<or>
      cv_updated_at a = cv_updated_at b \<and> cv_id a < cv_id b) (sort_key ?key ?xs)"
    by (rule sorted_wrt_mono_rel [rotated]) (auto simp: less_prod_def)
  moreover have "set ?xs = {conv. hm_get (ag_conversations st) (cv_id conv) = Some conv \<and> visible conv s}"
    using conversation_lookup [OF inv] hm.vals_iff [OF core_inv_maps(1) [OF inv]] by auto
  ultimately show ?thesis
    using perm dist by (auto simp: list_conversations_def)
qed

theorem conversation_list_is_canonical_witness:
  "\<exists>cs. list_conversations (ex_state 8) ex_scope = Inr cs \<and>
     set cs = {conv. hm_get (ag_conversations (ex_state 8)) (cv_id conv) = Some conv \<and> visible conv ex_scope}"
  using conversation_list_is_canonical [OF ex_state_reachable refl] by blast

end
