(* ===== verification/Agent_History.thy ===== *)
theory Agent_History
  imports Agent_Repository
begin

text \<open>
  What a worker is given to run: \<open>ConversationDetail::turn_input\<close> and the bounded history of
  \<open>completed_history\<close> (\<open>agent/mod.rs\<close>). The length of the serialized history, UUID parsing
  and UUID display belong to other crates and are parameters.
\<close>

definition max_history_turns :: nat where "max_history_turns = 20"
definition max_history_bytes :: nat where "max_history_bytes = 128 * 1024"

type_synonym message_pair = "message \<times> message"

section \<open>Which turns count\<close>

definition unique_message :: "conversation_detail \<Rightarrow> message \<Rightarrow> bool" where
  "unique_message cd m \<longleftrightarrow> length (filter (\<lambda>other. ms_id other = ms_id m) (cd_messages cd)) = 1"

definition foreign_message :: "conversation_detail \<Rightarrow> message \<Rightarrow> bool" where
  "foreign_message cd m \<longleftrightarrow>
     ms_conversation_id m \<noteq> cv_id (cd_conversation cd) \<or>
     message_scope m \<noteq> conversation_scope (cd_conversation cd) \<or> \<not> unique_message cd m"

text \<open>One iteration of the loop over the turns: the pair it pushes, or none when it continues.\<close>

definition completed_pair :: "conversation_detail \<Rightarrow> turn_id \<Rightarrow> u64 \<Rightarrow> turn \<Rightarrow> message_pair option" where
  "completed_pair cd current_turn_id before_sequence turn =
     (let scope = conversation_scope (cd_conversation cd); conv = cv_id (cd_conversation cd) in
      if tn_id turn = current_turn_id \<or> tn_conversation_id turn \<noteq> conv \<or>
         tn_status turn \<noteq> TurnSucceeded \<or>
         length (filter (\<lambda>other. tn_id other = tn_id turn) (cd_turns cd)) \<noteq> 1
      then None
      else case filter (\<lambda>run. Some (rn_id run) = tn_run_id turn) (cd_runs cd) of
        [] \<Rightarrow> None
      | run # more_runs \<Rightarrow>
        if more_runs \<noteq> [] \<or> rn_turn_id run \<noteq> tn_id turn \<or> rn_conversation_id run \<noteq> conv \<or>
           run_scope run \<noteq> scope \<or> rn_status run \<noteq> RunSucceeded
        then None
        else case filter (\<lambda>m. ms_id m = tn_root_message_id turn) (cd_messages cd) of
          [] \<Rightarrow> None
        | root # more_roots \<Rightarrow>
          (case filter (\<lambda>m. ms_turn_id m = Some (tn_id turn) \<and> ms_role m = RoleAssistant) (cd_messages cd) of
            [] \<Rightarrow> None
          | answer # more_answers \<Rightarrow>
            if more_roots \<noteq> [] \<or> more_answers \<noteq> [] \<or> ms_role root \<noteq> RoleUser \<or>
               ms_turn_id root \<noteq> Some (tn_id turn) \<or> ms_id answer = ms_id root \<or>
               ms_sequence root \<ge> ms_sequence answer \<or> ms_sequence answer \<ge> before_sequence \<or>
               trim (ms_content answer) = [] \<or> foreign_message cd root \<or> foreign_message cd answer
            then None
            else Some (root, answer)))"

text \<open>The stateful filter over the pairs, newest first: \<open>bound\<close> is \<open>next_root_sequence\<close>.\<close>

fun monotonic_pairs :: "u64 \<Rightarrow> message_pair list \<Rightarrow> message_pair list" where
  "monotonic_pairs bound [] = []"
| "monotonic_pairs bound (p # ps) =
     (if ms_sequence (snd p) < bound then p # monotonic_pairs (ms_sequence (fst p)) ps
      else monotonic_pairs (ms_sequence (fst p)) ps)"

definition eligible_pairs :: "conversation_detail \<Rightarrow> turn_id \<Rightarrow> u64 \<Rightarrow> message_pair list" where
  "eligible_pairs cd current_turn_id before_sequence =
     rev (monotonic_pairs before_sequence (rev
       (sort_key (\<lambda>p. (ms_sequence (fst p), ms_id (fst p)))
         (List.map_filter (completed_pair cd current_turn_id before_sequence) (cd_turns cd)))))"

section \<open>How a pair is shown\<close>

definition measurement_plans :: "(str \<Rightarrow> uuid option) \<Rightarrow> json \<Rightarrow> uuid list" where
  "measurement_plans parse_uuid metadata =
     (let entries = (case jget metadata (lit ''measurement_plans'') of
              None \<Rightarrow> [] | Some v \<Rightarrow> (case as_array v of None \<Rightarrow> [] | Some es \<Rightarrow> es));
          ids = List.map_filter (\<lambda>entry. case jget entry (lit ''plan_id'') of
              None \<Rightarrow> None | Some v \<Rightarrow> as_str v) entries
      in sort (remdups (filter (\<lambda>u. \<not> is_nil u) (List.map_filter parse_uuid ids))))"

definition history_content :: "(str \<Rightarrow> uuid option) \<Rightarrow> (uuid \<Rightarrow> str) \<Rightarrow> message \<Rightarrow> str" where
  "history_content parse_uuid show_uuid m =
     (if ms_role m \<noteq> RoleAssistant then ms_content m
      else let plans = measurement_plans parse_uuid (ms_metadata m) in
        if plans = [] then ms_content m
        else ms_content m @ [10, 10] @ lit ''[Application measurement resources]'' @
          concat (map (\<lambda>u. [10] @ lit ''measurement_plan: '' @ show_uuid u) plans))"

definition history_message ::
  "(str \<Rightarrow> uuid option) \<Rightarrow> (uuid \<Rightarrow> str) \<Rightarrow> message \<Rightarrow> message \<Rightarrow> turn_history_message" where
  "history_message parse_uuid show_uuid root m =
     \<lparr>th_message_id = ms_id m, th_role = ms_role m,
      th_content = history_content parse_uuid show_uuid m,
      th_root_message_id = ms_id root, th_sequence = ms_sequence m\<rparr>"

definition history_entry ::
  "(str \<Rightarrow> uuid option) \<Rightarrow> (uuid \<Rightarrow> str) \<Rightarrow> message_pair \<Rightarrow> turn_history_message list" where
  "history_entry parse_uuid show_uuid p =
     [history_message parse_uuid show_uuid (fst p) (fst p),
      history_message parse_uuid show_uuid (fst p) (snd p)]"

section \<open>The bounded suffix\<close>

text \<open>\<open>json_len\<close> is the length of the history's JSON, or none when it does not serialize.\<close>

definition oversized :: "(turn_history_message list \<Rightarrow> nat option) \<Rightarrow> turn_history_message list \<Rightarrow> bool" where
  "oversized json_len h = (case json_len h of None \<Rightarrow> True | Some n \<Rightarrow> n > max_history_bytes)"

fun fill_history :: "(turn_history_message list \<Rightarrow> nat option) \<Rightarrow> (message_pair \<Rightarrow> turn_history_message list) \<Rightarrow>
    message_pair list \<Rightarrow> turn_history_message list \<Rightarrow> turn_history_message list" where
  "fill_history json_len show_pair [] history = history"
| "fill_history json_len show_pair (p # ps) history =
     (let longer = show_pair p @ history in
      if oversized json_len longer then drop 2 longer
      else fill_history json_len show_pair ps longer)"

definition completed_history ::
  "(turn_history_message list \<Rightarrow> nat option) \<Rightarrow> (message_pair \<Rightarrow> turn_history_message list) \<Rightarrow>
     conversation_detail \<Rightarrow> turn_id \<Rightarrow> u64 \<Rightarrow> turn_history_message list \<times> nat" where
  "completed_history json_len show_pair cd current_turn_id before_sequence =
     (let pairs = eligible_pairs cd current_turn_id before_sequence;
          history = fill_history json_len show_pair (take max_history_turns (rev pairs)) []
      in (history, length pairs - length history div 2))"

definition turn_input_of ::
  "(turn_history_message list \<Rightarrow> nat option) \<Rightarrow> (message_pair \<Rightarrow> turn_history_message list) \<Rightarrow>
     conversation_detail \<Rightarrow> run_id \<Rightarrow> turn_input result" where
  "turn_input_of json_len show_pair cd r =
     (let conv = cd_conversation cd in
      rbind (ok_or (find (\<lambda>run. rn_id run = r \<and> rn_conversation_id run = cv_id conv \<and>
                           run_scope run = conversation_scope conv) (cd_runs cd))
              (not_found (lit ''run not found in conversation''))) (\<lambda>run.
      rbind (ok_or (find (\<lambda>turn. tn_id turn = rn_turn_id run \<and> tn_run_id turn = Some (rn_id run) \<and>
                           tn_conversation_id turn = cv_id conv) (cd_turns cd))
              (not_found (lit ''run turn not found''))) (\<lambda>turn.
      rbind (ok_or (find (\<lambda>m. ms_id m = tn_root_message_id turn \<and> ms_conversation_id m = cv_id conv \<and>
                           ms_turn_id m = Some (tn_id turn) \<and> ms_role m = RoleUser \<and>
                           message_scope m = conversation_scope conv) (cd_messages cd))
              (not_found (lit ''run input message not found''))) (\<lambda>m.
      let (history, omitted) = completed_history json_len show_pair cd (tn_id turn) (ms_sequence m)
      in Inr \<lparr>tu_conversation_id = cv_id conv, tu_message_id = ms_id m, tu_turn_id = tn_id turn,
              tu_run_id = rn_id run, tu_prompt = ms_content m, tu_attachments = ms_attachments m,
              tu_history = history, tu_history_omitted_turns = omitted\<rparr>))))"

definition load_turn_input ::
  "(turn_history_message list \<Rightarrow> nat option) \<Rightarrow> (message_pair \<Rightarrow> turn_history_message list) \<Rightarrow>
     agent_state \<Rightarrow> tenant_scope \<Rightarrow> conversation_id \<Rightarrow> run_id \<Rightarrow> turn_input result" where
  "load_turn_input json_len show_pair st scope c r =
     rbind (get_conversation st scope c) (\<lambda>found.
     rbind (ok_or found (not_found (lit ''run conversation not found''))) (\<lambda>cd.
       turn_input_of json_len show_pair cd r))"

section \<open>The suffix that is kept\<close>

lemma length_history_entry [simp]: "length (history_entry parse_uuid show_uuid p) = 2"
  by (simp add: history_entry_def)

text \<open>How many pairs are kept is the point where the loop stops.\<close>

lemma fill_history_prefix:
  assumes len: "\<And>p. length (show_pair p) = 2"
  shows "\<exists>k \<le> length ps. fill_history json_len show_pair ps h = concat (map show_pair (rev (take k ps))) @ h \<and>
    (k > 0 \<longrightarrow> \<not> oversized json_len (fill_history json_len show_pair ps h)) \<and>
    (k < length ps \<longrightarrow> oversized json_len (show_pair (ps ! k) @ fill_history json_len show_pair ps h))"
proof (induction ps arbitrary: h)
  case (Cons p ps)
  show ?case
  proof (cases "oversized json_len (show_pair p @ h)")
    case True
    then show ?thesis using len by (intro exI [of _ 0]) simp
  next
    case False
    obtain k where "k \<le> length ps"
        "fill_history json_len show_pair ps (show_pair p @ h) =
           concat (map show_pair (rev (take k ps))) @ show_pair p @ h"
        "k > 0 \<longrightarrow> \<not> oversized json_len (fill_history json_len show_pair ps (show_pair p @ h))"
        "k < length ps \<longrightarrow> oversized json_len (show_pair (ps ! k) @
           fill_history json_len show_pair ps (show_pair p @ h))"
      using Cons.IH [of "show_pair p @ h"] by blast
    with False show ?thesis
      by (intro exI [of _ "Suc k"]) (cases "k = 0"; simp add: Let_def)
  qed
qed simp

text \<open>The filter keeps pairs whose sequence numbers descend below the bound.\<close>

definition pair_before :: "message_pair \<Rightarrow> message_pair \<Rightarrow> bool" where
  "pair_before newer older \<longleftrightarrow> ms_sequence (snd older) < ms_sequence (fst newer)"

lemma monotonic_pairs_below:
  assumes "sorted_wrt (\<lambda>a b. ms_sequence (fst b) \<le> ms_sequence (fst a)) ps"
    and "\<And>p. p \<in> set ps \<Longrightarrow> ms_sequence (fst p) < ms_sequence (snd p)"
  shows "(\<forall>p\<in>set (monotonic_pairs bound ps). ms_sequence (snd p) < bound \<or>
            (\<exists>q\<in>set ps. ms_sequence (snd p) < ms_sequence (fst q))) \<and>
    set (monotonic_pairs bound ps) \<subseteq> set ps \<and> sorted_wrt pair_before (monotonic_pairs bound ps)"
  using assms
proof (induction ps arbitrary: bound)
  case (Cons p ps)
  have IH: "(\<forall>q\<in>set (monotonic_pairs (ms_sequence (fst p)) ps). ms_sequence (snd q) < ms_sequence (fst p) \<or>
            (\<exists>x\<in>set ps. ms_sequence (snd q) < ms_sequence (fst x))) \<and>
    set (monotonic_pairs (ms_sequence (fst p)) ps) \<subseteq> set ps \<and>
    sorted_wrt pair_before (monotonic_pairs (ms_sequence (fst p)) ps)"
    using Cons.prems by (intro Cons.IH) auto
  have "pair_before p q" if "q \<in> set (monotonic_pairs (ms_sequence (fst p)) ps)" for q
    using IH that Cons.prems(1) unfolding pair_before_def by fastforce
  with IH show ?case by auto
qed simp

lemma filter_ConsD: "filter P xs = y # ys \<Longrightarrow> P y"
  by (metis filter_eq_Cons_iff)

lemma completed_pair_ordered:
  "completed_pair cd t n turn = Some p \<Longrightarrow> ms_sequence (fst p) < ms_sequence (snd p) \<and>
     ms_sequence (snd p) < n \<and> ms_role (fst p) = RoleUser \<and> ms_role (snd p) = RoleAssistant"
  by (auto simp: completed_pair_def Let_def dest: filter_ConsD split: if_splits list.splits)

lemma eligible_pairs_ordered:
  "sorted_wrt (\<lambda>a b. ms_sequence (snd a) < ms_sequence (fst b)) (eligible_pairs cd t n)"
  "p \<in> set (eligible_pairs cd t n) \<Longrightarrow> ms_sequence (fst p) < ms_sequence (snd p) \<and>
     ms_sequence (snd p) < n \<and> ms_role (fst p) = RoleUser \<and> ms_role (snd p) = RoleAssistant"
proof -
  let ?key = "\<lambda>p. (ms_sequence (fst p), ms_id (fst p))"
  let ?raw = "List.map_filter (completed_pair cd t n) (cd_turns cd)"
  have raw: "ms_sequence (fst p) < ms_sequence (snd p) \<and> ms_sequence (snd p) < n \<and>
      ms_role (fst p) = RoleUser \<and> ms_role (snd p) = RoleAssistant" if "p \<in> set ?raw" for p
    using that completed_pair_ordered by (force simp: List.map_filter_def)
  have "sorted_wrt (\<lambda>a b. ?key a \<le> ?key b) (sort_key ?key ?raw)"
    using sorted_sort_key [of ?key ?raw] by (simp add: sorted_wrt_map)
  then have "sorted_wrt (\<lambda>a b. ms_sequence (fst a) \<le> ms_sequence (fst b)) (sort_key ?key ?raw)"
    by (rule sorted_wrt_mono_rel [rotated]) (auto simp: less_eq_prod_def)
  then have desc: "sorted_wrt (\<lambda>a b. ms_sequence (fst b) \<le> ms_sequence (fst a)) (rev (sort_key ?key ?raw))"
    by (simp add: sorted_wrt_rev)
  note mono = monotonic_pairs_below [OF desc, of n]
  show "sorted_wrt (\<lambda>a b. ms_sequence (snd a) < ms_sequence (fst b)) (eligible_pairs cd t n)"
    using mono raw by (simp add: eligible_pairs_def sorted_wrt_rev pair_before_def [abs_def])
  have sub: "set (eligible_pairs cd t n) \<subseteq> set ?raw"
    using mono raw by (simp add: eligible_pairs_def)
  show "p \<in> set (eligible_pairs cd t n) \<Longrightarrow> ms_sequence (fst p) < ms_sequence (snd p) \<and>
     ms_sequence (snd p) < n \<and> ms_role (fst p) = RoleUser \<and> ms_role (snd p) = RoleAssistant"
    using sub raw by blast
qed

lemma completed_history_suffix:
  fixes cd t n
  assumes len: "\<And>p. length (show_pair p) = 2"
    and res: "completed_history json_len show_pair cd t n = (history, omitted)"
  defines "pairs \<equiv> eligible_pairs cd t n"
  shows "omitted \<le> length pairs" and "length pairs - omitted \<le> max_history_turns"
    and "history = concat (map show_pair (drop omitted pairs))"
    and "history \<noteq> [] \<Longrightarrow> \<not> oversized json_len history"
    and "omitted > 0 \<Longrightarrow> length pairs - omitted = max_history_turns \<or>
      oversized json_len (concat (map show_pair (drop (omitted - 1) pairs)))"
proof -
  let ?ps = "take max_history_turns (rev pairs)"
  obtain k where k: "k \<le> length ?ps"
      "fill_history json_len show_pair ?ps [] = concat (map show_pair (rev (take k ?ps)))"
      "k > 0 \<longrightarrow> \<not> oversized json_len (fill_history json_len show_pair ?ps [])"
      "k < length ?ps \<longrightarrow> oversized json_len (show_pair (?ps ! k) @ fill_history json_len show_pair ?ps [])"
    using fill_history_prefix [of show_pair ?ps json_len "[]", OF len] unfolding append_Nil2 by blast
  have hist: "history = concat (map show_pair (rev (take k ?ps)))"
    using res k(2) by (auto simp: completed_history_def pairs_def Let_def)
  have lens: "length (concat (map show_pair xs)) = 2 * length xs" for xs
    by (induction xs) (simp_all add: len)
  have om: "omitted = length pairs - k"
    using res hist lens [of "rev (take k ?ps)"] k(1)
    by (auto simp: completed_history_def pairs_def Let_def min_def)
  have kb: "k \<le> length pairs" "k \<le> max_history_turns" using k(1) by auto
  have suf: "rev (take k ?ps) = drop omitted pairs"
    using kb om by (simp add: rev_take min_def)
  show "omitted \<le> length pairs" "length pairs - omitted \<le> max_history_turns"
    using om kb by auto
  show "history = concat (map show_pair (drop omitted pairs))"
    using hist suf by simp
  show "\<not> oversized json_len history" if "history \<noteq> []"
    using that hist k(2,3) by (cases "k = 0") auto
  show "length pairs - omitted = max_history_turns \<or>
      oversized json_len (concat (map show_pair (drop (omitted - 1) pairs)))" if pos: "omitted > 0"
  proof (cases "k < length ?ps")
    case True
    then have "?ps ! k = pairs ! (omitted - 1)"
      using om kb by (simp add: rev_nth)
    moreover have "drop (omitted - 1) pairs = pairs ! (omitted - 1) # drop omitted pairs"
      using pos om kb by (metis Cons_nth_drop_Suc Suc_pred' diff_le_self le_imp_less_Suc Suc_le_lessD)
    ultimately show ?thesis
      using k(2,4) True suf by simp
  next
    case False
    with k(1) om pos kb show ?thesis by auto
  qed
qed

end
