(* ===== verification/Agent_Inputs.thy ===== *)
theory Agent_Inputs
  imports Agent_History Agent_Example
begin

text \<open>
  The properties of the input a worker receives for a run, with witnesses on a second message
  in the concrete conversation of \<open>Agent_Example\<close>.
\<close>

lemma turn_input_Inr:
  assumes "turn_input_of json_len show_pair cd r = Inr input"
  obtains m where "m \<in> set (cd_messages cd)" "ms_id m = tu_message_id input" "ms_role m = RoleUser"
    "ms_content m = tu_prompt input"
    "completed_history json_len show_pair cd (tu_turn_id input) (ms_sequence m) =
       (tu_history input, tu_history_omitted_turns input)"
  using assms
  by (auto simp: turn_input_of_def rbind_def ok_or_def Let_def
      dest!: find_SomeD split: sum.splits option.splits prod.splits)

lemma history_message_sel [simp]:
  "th_sequence (history_message pu su root m) = ms_sequence m"
  "th_role (history_message pu su root m) = ms_role m"
  by (simp_all add: history_message_def)

lemma sequences_of_pairs:
  assumes "sorted_wrt (\<lambda>a b. ms_sequence (snd a) < ms_sequence (fst b)) ps"
    and "\<And>p. p \<in> set ps \<Longrightarrow> ms_sequence (fst p) < ms_sequence (snd p)"
  shows "sorted_wrt (<) (map th_sequence (concat (map (history_entry pu su) ps)))"
  using assms
proof (induction ps)
  case (Cons p ps)
  let ?rest = "concat (map (history_entry pu su) ps)"
  have snd: "ms_sequence (snd p) < th_sequence h" if "h \<in> set ?rest" for h
    using that Cons.prems by (fastforce simp: history_entry_def)
  moreover have fst: "ms_sequence (fst p) < ms_sequence (snd p)" using Cons.prems(2) by simp
  ultimately have "ms_sequence (fst p) < th_sequence h" if "h \<in> set ?rest" for h
    using that by (meson order_less_trans)
  moreover have "map th_sequence (history_entry pu su p @ ?rest) =
      ms_sequence (fst p) # ms_sequence (snd p) # map th_sequence ?rest"
    by (simp add: history_entry_def)
  moreover have "sorted_wrt (<) (map th_sequence ?rest)"
    using Cons by simp
  ultimately show ?case
    using snd fst by (simp del: set_concat map_concat)
qed simp

text \<open>C23: the input of a worker is the stored user message of the turn with a bounded,
  well-formed history: at most 20 turns, at most 128 KiB of JSON when it is not empty, user and
  assistant messages alternating, in strictly increasing sequence order and all before the
  message being answered.\<close>

theorem turn_history_is_bounded:
  assumes "turn_input_of json_len (history_entry pu su) cd r = Inr input"
  shows "length (tu_history input) \<le> 2 * 20 \<and>
    (tu_history input = [] \<or> (\<exists>n. json_len (tu_history input) = Some n \<and> n \<le> 131072)) \<and>
    sorted_wrt (<) (map th_sequence (tu_history input)) \<and>
    map th_role (tu_history input) =
      concat (replicate (length (tu_history input) div 2) [RoleUser, RoleAssistant]) \<and>
    (\<exists>m. m \<in> set (cd_messages cd) \<and> ms_id m = tu_message_id input \<and> ms_role m = RoleUser \<and>
       ms_content m = tu_prompt input \<and> (\<forall>h\<in>set (tu_history input). th_sequence h < ms_sequence m))"
proof -
  obtain m where cd: "m \<in> set (cd_messages cd)" "ms_id m = tu_message_id input" "ms_role m = RoleUser"
      "ms_content m = tu_prompt input"
    and h: "completed_history json_len (history_entry pu su) cd (tu_turn_id input) (ms_sequence m) =
       (tu_history input, tu_history_omitted_turns input)"
    by (rule turn_input_Inr [OF assms])
  let ?all = "eligible_pairs cd (tu_turn_id input) (ms_sequence m)"
  let ?ps = "drop (tu_history_omitted_turns input) ?all"
  note S = completed_history_suffix [OF length_history_entry h]
  note hist = S(3) and ord = eligible_pairs_ordered [where cd = cd and t = "tu_turn_id input" and n = "ms_sequence m"]
  have ps: "ms_sequence (fst p) < ms_sequence (snd p) \<and> ms_sequence (snd p) < ms_sequence m \<and>
      ms_role (fst p) = RoleUser \<and> ms_role (snd p) = RoleAssistant" if "p \<in> set ?ps" for p
    using ord(2) in_set_dropD [OF that] by blast
  have len: "length (tu_history input) = 2 * length ?ps"
    unfolding hist by (induction ?ps) (simp_all add: length_concat o_def sum_list_triv)
  have roles: "map th_role (concat (map (history_entry pu su) qs)) = concat (replicate (length qs) [RoleUser, RoleAssistant])"
    if "\<And>p. p \<in> set qs \<Longrightarrow> ms_role (fst p) = RoleUser \<and> ms_role (snd p) = RoleAssistant" for qs
    using that by (induction qs) (simp_all add: history_entry_def)
  have before: "th_sequence x < ms_sequence m" if "x \<in> set (tu_history input)" for x
    using that ps unfolding hist by (fastforce simp: history_entry_def)
  have "sorted_wrt (<) (map th_sequence (tu_history input))"
    unfolding hist using ps by (intro sequences_of_pairs sorted_wrt_drop ord(1)) blast
  moreover have "map th_role (tu_history input) =
      concat (replicate (length (tu_history input) div 2) [RoleUser, RoleAssistant])"
    using roles [of ?ps] ps len hist by simp
  moreover have "length (tu_history input) \<le> 2 * 20"
    using len S(2) by (simp add: max_history_turns_def)
  moreover have "tu_history input = [] \<or> (\<exists>n. json_len (tu_history input) = Some n \<and> n \<le> 131072)"
    using S(4) by (cases "tu_history input = []"; cases "json_len (tu_history input)")
      (simp_all add: oversized_def max_history_bytes_def)
  ultimately show ?thesis using cd before by blast
qed

definition ex_pair :: "message_pair \<Rightarrow> turn_history_message list" where
  "ex_pair = history_entry (\<lambda>_. None) ex_show"

definition ex_len :: "turn_history_message list \<Rightarrow> nat option" where
  "ex_len h = Some (100 * length h)"

text \<open>A conversation with one answered turn and a second message waiting.\<close>

definition ex_msg :: "uuid \<Rightarrow> uuid \<Rightarrow> message_role \<Rightarrow> u64 \<Rightarrow> message" where
  "ex_msg m t role sq = \<lparr>ms_id = Ident m, ms_conversation_id = Ident 100, ms_operator_id = Ident 1,
     ms_tenant_id = Ident 2, ms_project_id = Ident 3, ms_turn_id = Some (Ident t), ms_role = role,
     ms_content = lit ''ok'', ms_attachments = [], ms_metadata = JNull, ms_sequence = sq,
     ms_created_at = 0\<rparr>"

definition ex_detail :: conversation_detail where
  "ex_detail = \<lparr>cd_conversation = \<lparr>cv_id = Ident 100, cv_operator_id = Ident 1, cv_tenant_id = Ident 2,
       cv_project_id = Ident 3, cv_created_by = None, cv_title = None, cv_status = ConvActive,
       cv_revision = 1, cv_created_at = 0, cv_updated_at = 0\<rparr>,
     cd_messages = [ex_msg 10 20 RoleUser 1, ex_msg 11 20 RoleAssistant 2, ex_msg 12 21 RoleUser 3],
     cd_turns = [\<lparr>tn_id = Ident 20, tn_conversation_id = Ident 100, tn_root_message_id = Ident 10,
         tn_previous_turn_id = None, tn_run_id = Some (Ident 30), tn_status = TurnSucceeded,
         tn_cancel_version = 0, tn_created_at = 0, tn_updated_at = 0\<rparr>,
       \<lparr>tn_id = Ident 21, tn_conversation_id = Ident 100, tn_root_message_id = Ident 12,
         tn_previous_turn_id = Some (Ident 20), tn_run_id = Some (Ident 31), tn_status = TurnRunning,
         tn_cancel_version = 0, tn_created_at = 0, tn_updated_at = 0\<rparr>],
     cd_runs = [\<lparr>rn_id = Ident 30, rn_conversation_id = Ident 100, rn_turn_id = Ident 20,
         rn_operator_id = Ident 1, rn_tenant_id = Ident 2, rn_project_id = Ident 3,
         rn_status = RunSucceeded, rn_capability = ex_capability, rn_error = None,
         rn_cancel_version = 0, rn_created_at = 0, rn_updated_at = 0\<rparr>,
       \<lparr>rn_id = Ident 31, rn_conversation_id = Ident 100, rn_turn_id = Ident 21,
         rn_operator_id = Ident 1, rn_tenant_id = Ident 2, rn_project_id = Ident 3,
         rn_status = RunRunning, rn_capability = ex_capability, rn_error = None,
         rn_cancel_version = 0, rn_created_at = 0, rn_updated_at = 0\<rparr>]\<rparr>"

definition ex_input :: turn_input where
  "ex_input = (let (history, omitted) = completed_history ex_len ex_pair ex_detail (Ident 21) 3 in
     \<lparr>tu_conversation_id = Ident 100, tu_message_id = Ident 12, tu_turn_id = Ident 21,
      tu_run_id = Ident 31, tu_prompt = lit ''ok'', tu_attachments = [], tu_history = history,
      tu_history_omitted_turns = omitted\<rparr>)"

lemma ex_input: "turn_input_of ex_len ex_pair ex_detail (Ident 31) = Inr ex_input"
proof -
  have "ms_id (ex_msg m t role sq) = Ident m" "ms_turn_id (ex_msg m t role sq) = Some (Ident t)"
    "ms_conversation_id (ex_msg m t role sq) = Ident 100" "ms_role (ex_msg m t role sq) = role"
    "message_scope (ex_msg m t role sq) = tenant_scope_new (Ident 1) (Ident 2) (Some (Ident 3))"
    "ms_sequence (ex_msg m t role sq) = sq" "ms_content (ex_msg m t role sq) = lit ''ok''"
    "ms_attachments (ex_msg m t role sq) = []" for m t role sq
    by (simp_all add: ex_msg_def message_scope_def)
  note msg = this
  have "cv_id (cd_conversation ex_detail) = Ident 100"
    "conversation_scope (cd_conversation ex_detail) = tenant_scope_new (Ident 1) (Ident 2) (Some (Ident 3))"
    by (simp_all add: ex_detail_def conversation_scope_def)
  then show ?thesis
    unfolding turn_input_of_def ex_input_def Let_def case_prod_beta
    by (simp add: ex_detail_def [THEN arg_cong, of cd_runs] ex_detail_def [THEN arg_cong, of cd_turns]
        ex_detail_def [THEN arg_cong, of cd_messages] msg run_scope_def rbind_def ok_or_def)
qed

theorem turn_history_is_bounded_witness:
  "length (tu_history ex_input) \<le> 2 * 20 \<and> length (tu_history ex_input) = 2 \<and>
   sorted_wrt (<) (map th_sequence (tu_history ex_input))"
proof -
  have "length (tu_history ex_input) = 2" by code_simp
  with turn_history_is_bounded [OF ex_input [unfolded ex_pair_def]] show ?thesis by blast
qed

text \<open>C24: the history is the newest completed turns without a gap: it is exactly the eligible
  pairs after the omitted ones, the number of omitted turns is reported, and a turn is omitted
  only when 20 turns are kept or adding it would exceed the byte budget.\<close>

theorem turn_history_is_the_newest_suffix:
  assumes "turn_input_of json_len (history_entry pu su) cd r = Inr input"
  shows "\<exists>m. m \<in> set (cd_messages cd) \<and> ms_id m = tu_message_id input \<and>
    (let pairs = eligible_pairs cd (tu_turn_id input) (ms_sequence m); omitted = tu_history_omitted_turns input in
     tu_history input = concat (map (history_entry pu su) (drop omitted pairs)) \<and> omitted \<le> length pairs \<and>
     (omitted = 0 \<or> length pairs - omitted = 20 \<or>
        oversized json_len (concat (map (history_entry pu su) (drop (omitted - 1) pairs)))))"
proof -
  obtain m where cd: "m \<in> set (cd_messages cd)" "ms_id m = tu_message_id input"
    and h: "completed_history json_len (history_entry pu su) cd (tu_turn_id input) (ms_sequence m) =
       (tu_history input, tu_history_omitted_turns input)"
    by (rule turn_input_Inr [OF assms])
  show ?thesis
    using cd completed_history_suffix [OF length_history_entry h]
    by (intro exI [of _ m]) (auto simp: Let_def max_history_turns_def)
qed

theorem turn_history_is_the_newest_suffix_witness:
  "\<exists>m. m \<in> set (cd_messages ex_detail) \<and>
     tu_history ex_input = concat (map (history_entry (\<lambda>_. None) ex_show)
       (drop (tu_history_omitted_turns ex_input) (eligible_pairs ex_detail (tu_turn_id ex_input) (ms_sequence m))))"
  using turn_history_is_the_newest_suffix [OF ex_input [unfolded ex_pair_def]] unfolding Let_def by blast

end
