(* ===== verification/Account_Networks.thy ===== *)
theory Account_Networks
  imports Platform Hash_Maps Machines
begin

text \<open>
  \<open>crates/domain/src/accounts/account_networks.rs\<close>: immutable network bindings of channel
  accounts, with a versioned head per account that names the active binding and, while a
  browser holds the account, the binding that will replace it.
\<close>

text \<open>\<open>ChannelSecret\<close> (\<open>accounts/channels.rs\<close>): the encrypted bytes.\<close>

type_synonym channel_secret = "8 word list"

record account_network_scope =
  ns_operator_id :: operator_id
  ns_account_id :: uuid
  ns_tenant_id :: "tenant_id option"
  ns_project_id :: "project_id option"

definition validate_network_scope :: "account_network_scope \<Rightarrow> unit result" where
  "validate_network_scope s =
     (if is_nil (ns_account_id s) \<or> (ns_tenant_id s \<noteq> None) \<noteq> (ns_project_id s \<noteq> None)
      then Inl (invalid_request (lit ''invalid account network scope''))
      else Inr ())"

datatype account_network_source =
    Direct
  | Standalone
  | LegacySnapshot
  | ProjectDefault "instant option"
  | PoolRevision uuid uuid uuid

record account_network_binding =
  nb_binding_id :: uuid
  nb_scope :: account_network_scope
  nb_source :: account_network_source
  nb_effective_network :: channel_secret
  nb_created_at :: instant

record account_network_bindings =
  nh_version :: i64
  nh_active :: account_network_binding
  nh_pending :: "account_network_binding option"
  nh_busy :: bool

record browser_network_selection =
  sel_scope :: account_network_scope
  sel_historical_binding_id :: "uuid option"

record legacy_network_bootstrap =
  lb_binding :: account_network_binding
  lb_operation_id :: "uuid option"

definition validate_network_binding :: "account_network_scope \<Rightarrow> account_network_binding \<Rightarrow> unit result" where
  "validate_network_binding scope b =
     rbind (validate_network_scope scope) (\<lambda>_.
     if nb_scope b \<noteq> scope \<or> is_nil (nb_binding_id b) \<or> nb_effective_network b = []
     then Inl (invalid_request (lit ''invalid account network binding''))
     else Inr ())"

section \<open>The in-memory store\<close>

record memory_account_networks =
  mn_heads :: "(uuid \<times> uuid, account_network_bindings) hash_map"
  mn_bindings :: "(uuid, account_network_binding) hash_map"

definition network_key :: "account_network_scope \<Rightarrow> uuid \<times> uuid" where
  "network_key s = (as_uuid (ns_operator_id s), ns_account_id s)"

text \<open>The checks of \<open>set\<close> before it computes the new head.\<close>

definition network_set_checks :: "account_network_scope \<Rightarrow> i64 option \<Rightarrow> account_network_binding \<Rightarrow>
    legacy_network_bootstrap option \<Rightarrow> uuid option \<Rightarrow> memory_account_networks \<Rightarrow> unit result" where
  "network_set_checks scope expected binding legacy active_op m =
     rbind (validate_network_binding scope binding) (\<lambda>_.
       let current = hm_get (mn_heads m) (network_key scope) in
       if map_option nh_version current \<noteq> expected \<or>
          (case current of None \<Rightarrow> False | Some h \<Rightarrow> nb_scope (nh_active h) \<noteq> scope)
       then Inl (conflict (lit ''account network version changed''))
       else if hm_contains (mn_bindings m) (nb_binding_id binding)
       then Inl (conflict (lit ''network binding already exists''))
       else case legacy of None \<Rightarrow> Inr ()
         | Some l \<Rightarrow> rbind (validate_network_binding scope (lb_binding l)) (\<lambda>_.
             if nb_source (lb_binding l) \<noteq> LegacySnapshot \<or> lb_operation_id l \<noteq> active_op
             then Inl (conflict (lit ''legacy network owner changed''))
             else Inr ()))"

definition network_new_head :: "account_network_binding \<Rightarrow> legacy_network_bootstrap option \<Rightarrow> bool \<Rightarrow>
    account_network_bindings option \<Rightarrow> memory_account_networks \<Rightarrow> account_network_bindings result" where
  "network_new_head binding legacy busy current m = (case current of
       Some head \<Rightarrow>
         rbind (ok_or (checked_succ_i64 (nh_version head)) (conflict (lit ''network version exhausted'')))
           (\<lambda>v. Inr \<lparr>nh_version = v, nh_active = (if busy then nh_active head else binding),
                     nh_pending = (if busy then Some binding else None), nh_busy = busy\<rparr>)
     | None \<Rightarrow>
         if busy then
           rbind (ok_or legacy (conflict (lit ''busy legacy network requires initialization''))) (\<lambda>l.
             if hm_contains (mn_bindings m) (nb_binding_id (lb_binding l)) \<or>
                nb_binding_id (lb_binding l) = nb_binding_id binding
             then Inl (conflict (lit ''legacy binding already exists''))
             else Inr \<lparr>nh_version = 1, nh_active = lb_binding l, nh_pending = Some binding, nh_busy = busy\<rparr>)
         else Inr \<lparr>nh_version = 1, nh_active = binding, nh_pending = None, nh_busy = busy\<rparr>)"

definition record_bindings :: "account_network_binding \<Rightarrow> legacy_network_bootstrap option \<Rightarrow>
    (uuid, account_network_binding) hash_map \<Rightarrow> (uuid, account_network_binding) hash_map" where
  "record_bindings binding legacy bs =
     (let b1 = hm_insert (nb_binding_id binding) binding bs in
      case legacy of None \<Rightarrow> b1 | Some l \<Rightarrow> hm_insert (nb_binding_id (lb_binding l)) (lb_binding l) b1)"

definition network_set :: "account_network_scope \<Rightarrow> i64 option \<Rightarrow> account_network_binding \<Rightarrow>
    legacy_network_bootstrap option \<Rightarrow> uuid option \<Rightarrow> memory_account_networks \<Rightarrow>
    account_network_bindings result \<times> memory_account_networks" where
  "network_set scope expected binding legacy active_op m =
     try_in m (network_set_checks scope expected binding legacy active_op m) (\<lambda>_.
       let key = network_key scope; current = hm_get (mn_heads m) key; busy = (active_op \<noteq> None);
           initialize_legacy = (current = None \<and> busy) in
       try_in m (network_new_head binding legacy busy current m) (\<lambda>head.
         (Inr head, m\<lparr>mn_bindings := record_bindings binding (if initialize_legacy then legacy else None) (mn_bindings m),
                      mn_heads := hm_insert key head (mn_heads m)\<rparr>)))"

section \<open>What the store keeps\<close>

text \<open>
  Every binding a head names is recorded under its identifier and belongs to the account of
  the head; the bindings recorded are never replaced.
\<close>

definition binding_recorded :: "memory_account_networks \<Rightarrow> uuid \<times> uuid \<Rightarrow> account_network_binding \<Rightarrow> bool" where
  "binding_recorded m k b \<longleftrightarrow> hm_get (mn_bindings m) (nb_binding_id b) = Some b \<and> network_key (nb_scope b) = k"

definition networks_ok :: "memory_account_networks \<Rightarrow> bool" where
  "networks_ok m \<longleftrightarrow> (\<forall>k h. hm_get (mn_heads m) k = Some h \<longrightarrow>
     binding_recorded m k (nh_active h) \<and>
     (case nh_pending h of None \<Rightarrow> True
      | Some b \<Rightarrow> binding_recorded m k b \<and> nb_scope b = nb_scope (nh_active h)))"

definition bindings_kept :: "memory_account_networks \<Rightarrow> memory_account_networks \<Rightarrow> bool" where
  "bindings_kept m m' \<longleftrightarrow> (\<forall>i b. hm_get (mn_bindings m) i = Some b \<longrightarrow> hm_get (mn_bindings m') i = Some b)"

lemma network_checks_Inr:
  assumes "network_set_checks scope expected binding legacy active_op m = Inr u"
  shows "nb_scope binding = scope" and "hm_get (mn_bindings m) (nb_binding_id binding) = None"
    and "map_option nh_version (hm_get (mn_heads m) (network_key scope)) = expected"
    and "\<And>h. hm_get (mn_heads m) (network_key scope) = Some h \<Longrightarrow> nb_scope (nh_active h) = scope"
    and "\<And>l. legacy = Some l \<Longrightarrow> nb_scope (lb_binding l) = scope"
    and "nb_effective_network binding \<noteq> []"
  using assms
  by (auto simp: network_set_checks_def validate_network_binding_def hm_contains_def rbind_eq_Inr Let_def
      split: if_splits option.splits)

lemma network_set_step:
  assumes "network_set scope expected binding legacy active_op m = (Inr head, m')"
  shows "network_set_checks scope expected binding legacy active_op m = Inr ()"
    and "network_new_head binding legacy (active_op \<noteq> None) (hm_get (mn_heads m) (network_key scope)) m = Inr head"
    and "m' = m\<lparr>mn_bindings := record_bindings binding
           (if hm_get (mn_heads m) (network_key scope) = None \<and> active_op \<noteq> None then legacy else None) (mn_bindings m),
         mn_heads := hm_insert (network_key scope) head (mn_heads m)\<rparr>"
  using assms by (auto simp: network_set_def Let_def split: result_splits)

lemma network_set_error: "fst (network_set scope expected binding legacy active_op m) = Inl e \<Longrightarrow>
    snd (network_set scope expected binding legacy active_op m) = m"
  by (auto simp: network_set_def Let_def split: result_splits)

lemma network_set_keeps:
  assumes "network_set scope expected binding legacy active_op m = (Inr head, m')"
  shows "bindings_kept m m'"
  using network_set_step [OF assms] network_checks_Inr(2) [OF network_set_step(1) [OF assms]]
  by (auto simp: bindings_kept_def record_bindings_def network_new_head_def hm_contains_def rbind_eq_Inr Let_def
      split: option.splits if_splits)

lemma network_set_head:
  assumes ok: "networks_ok m" and set: "network_set scope expected binding legacy active_op m = (Inr head, m')"
  shows "binding_recorded m' (network_key scope) (nh_active head) \<and> nb_scope (nh_active head) = scope \<and>
    (nh_pending head = (if active_op = None then None else Some binding)) \<and>
    (active_op = None \<longrightarrow> nh_active head = binding) \<and>
    binding_recorded m' (network_key scope) binding \<and> nb_scope binding = scope"
proof -
  note S = network_set_step [OF set] and C = network_checks_Inr [OF network_set_step(1) [OF set]]
  show ?thesis
  proof (cases "hm_get (mn_heads m) (network_key scope)")
    case None
    with S(2,3) C(1,2,5) show ?thesis
      by (auto simp: binding_recorded_def record_bindings_def network_new_head_def rbind_eq_Inr Let_def
          split: if_splits)
  next
    case (Some h)
    then have "binding_recorded m (network_key scope) (nh_active h)"
      using ok unfolding networks_ok_def by blast
    with Some S(2,3) C(1,2) C(4) [OF Some] show ?thesis
      by (auto simp: binding_recorded_def record_bindings_def network_new_head_def rbind_eq_Inr Let_def)
  qed
qed

lemma binding_recorded_mono: "bindings_kept m m' \<Longrightarrow> binding_recorded m k b \<Longrightarrow> binding_recorded m' k b"
  by (auto simp: bindings_kept_def binding_recorded_def)

lemma networks_ok_set:
  assumes ok: "networks_ok m" and set: "network_set scope expected binding legacy active_op m = (Inr head, m')"
  shows "networks_ok m'"
  unfolding networks_ok_def
proof (intro allI impI)
  fix k h
  assume h: "hm_get (mn_heads m') k = Some h"
  show "binding_recorded m' k (nh_active h) \<and> (case nh_pending h of None \<Rightarrow> True
      | Some b \<Rightarrow> binding_recorded m' k b \<and> nb_scope b = nb_scope (nh_active h))"
  proof (cases "k = network_key scope")
    case True
    with h have "h = head" using network_set_step(3) [OF set] by simp
    with network_set_head [OF ok set] True show ?thesis by auto
  next
    case False
    with h have "hm_get (mn_heads m) k = Some h" using network_set_step(3) [OF set] by simp
    with ok have "binding_recorded m k (nh_active h) \<and> (case nh_pending h of None \<Rightarrow> True
      | Some b \<Rightarrow> binding_recorded m k b \<and> nb_scope b = nb_scope (nh_active h))"
      unfolding networks_ok_def by blast
    then show ?thesis
      using binding_recorded_mono [OF network_set_keeps [OF set]] by (auto split: option.splits)
  qed
qed

section \<open>Versions\<close>

text \<open>
  The head of one account as a versioned store: the version a writer names is the one it
  read, none when it saw no head.
\<close>

definition head_version :: "account_network_scope \<Rightarrow> memory_account_networks \<Rightarrow> i64 option" where
  "head_version scope m = map_option nh_version (hm_get (mn_heads m) (network_key scope))"

definition head_commit :: "account_network_scope \<Rightarrow> memory_account_networks \<Rightarrow> i64 option \<Rightarrow>
    account_network_binding \<times> legacy_network_bootstrap option \<times> uuid option \<Rightarrow> memory_account_networks option" where
  "head_commit scope m expected e = (case e of (binding, legacy, active_op) \<Rightarrow>
     (case network_set scope expected binding legacy active_op m of
        (Inl err, _) \<Rightarrow> None | (Inr head, m') \<Rightarrow> Some m'))"

lemma head_commit_Some:
  assumes "head_commit scope m expected e = Some m'"
  shows "expected = head_version scope m" and "head_version scope m' \<noteq> head_version scope m"
proof -
  obtain binding legacy active_op head where set: "network_set scope expected binding legacy active_op m = (Inr head, m')"
    using assms by (auto simp: head_commit_def split: prod.splits sum.splits)
  note S = network_set_step [OF set]
  show "expected = head_version scope m"
    using network_checks_Inr(3) [OF S(1)] by (simp add: head_version_def)
  show "head_version scope m' \<noteq> head_version scope m"
    using S(2,3) checked_succ_i64_ne
    by (cases "hm_get (mn_heads m) (network_key scope)")
       (auto simp: head_version_def network_new_head_def rbind_eq_Inr)
qed

interpretation network_head: versioned "head_version scope" "head_commit scope"
  for scope
  by unfold_locales (use head_commit_Some in auto)

end
