(* ===== verification/Browser_Operations.thy ===== *)
theory Browser_Operations
  imports Account_Networks
begin

text \<open>
  \<open>crates/domain/src/accounts/browser_operations.rs\<close>: ownership of a browser and of the
  account it logs in to, as the state machine
  \<open>Prepared \<rightarrow> StartRequested \<rightarrow> Closing \<rightarrow> Disposed\<close>.
\<close>

datatype channel_owner_kind = OwnerCustomer | OwnerOperatorPool

record verified_login_reconnect =
  vr_source_account_id :: uuid
  vr_reservation_id :: uuid
  vr_network_binding_id :: uuid

record verified_login_storage =
  vl_reconnect :: "verified_login_reconnect option"
  vl_account_id :: uuid
  vl_secret_scope :: tenant_scope
  vl_owner_kind :: channel_owner_kind
  vl_platform :: str
  vl_expected_platform_account_id :: "str option"
  vl_expected_session :: "channel_secret option"
  vl_platform_account_id :: str
  vl_display_name :: str
  vl_avatar_url :: "str option"
  vl_session :: channel_secret

record browser_operation_scope =
  bs_operator_id :: operator_id
  bs_tenant_id :: "tenant_id option"
  bs_project_id :: "project_id option"
  bs_owner_id :: uuid

datatype browser_purpose = Login | Discovery | MeasureBrowser | PublishBrowser | Withdraw | Lookup | Cleanup
  | CompletionRecovery

datatype browser_state = Prepared | StartRequested | Closing | Disposed

record browser_begin =
  bb_network_selection :: "browser_network_selection option"
  bb_operation_id :: uuid
  bb_session_id :: uuid
  bb_account_id :: uuid
  bb_purpose :: browser_purpose
  bb_runner_generation :: uuid
  bb_effective_network :: channel_secret
  bb_reservation_id :: "uuid option"
  bb_expires_at :: instant

record browser_operation =
  bo_login_verified_at :: "instant option"
  bo_login_verified_account_id :: "uuid option"
  bo_network_binding_id :: "uuid option"
  bo_network_scope :: "account_network_scope option"
  bo_operation_id :: uuid
  bo_session_id :: uuid
  bo_account_id :: uuid
  bo_scope :: browser_operation_scope
  bo_purpose :: browser_purpose
  bo_runner_generation :: uuid
  bo_effective_network :: channel_secret
  bo_reservation_id :: uuid
  bo_state :: browser_state
  bo_version :: i64
  bo_expires_at :: instant
  bo_created_at :: instant
  bo_updated_at :: instant
  bo_next_check_at :: instant
  bo_released_unstarted :: bool

definition owns_account :: "browser_operation \<Rightarrow> uuid \<Rightarrow> bool" where
  "owns_account op a \<longleftrightarrow> bo_account_id op = a \<or> bo_login_verified_account_id op = Some a"

definition pin_network :: "browser_network_selection \<Rightarrow> account_network_binding \<Rightarrow> browser_operation \<Rightarrow>
    unit result \<times> browser_operation" where
  "pin_network selection binding op =
     try_in op (validate_network_scope (sel_scope selection)) (\<lambda>_.
     if nb_scope binding \<noteq> sel_scope selection \<or>
        ns_operator_id (nb_scope binding) \<noteq> bs_operator_id (bo_scope op) \<or>
        ns_account_id (nb_scope binding) \<noteq> bo_account_id op \<or>
        ns_tenant_id (nb_scope binding) \<noteq> None \<and>
          (ns_tenant_id (nb_scope binding) \<noteq> bs_tenant_id (bo_scope op) \<or>
           ns_project_id (nb_scope binding) \<noteq> bs_project_id (bo_scope op)) \<or>
        (case sel_historical_binding_id selection of None \<Rightarrow> False | Some i \<Rightarrow> i \<noteq> nb_binding_id binding)
     then (Inl (forbidden (lit ''browser network ownership differs'')), op)
     else (Inr (), op\<lparr>bo_network_scope := Some (nb_scope binding),
                      bo_network_binding_id := Some (nb_binding_id binding),
                      bo_effective_network := nb_effective_network binding\<rparr>))"

definition replay_network :: "browser_network_selection option \<Rightarrow> browser_operation \<Rightarrow> browser_operation \<Rightarrow>
    unit result \<times> browser_operation" where
  "replay_network selection existing op =
     (case (selection, bo_network_scope existing, bo_network_binding_id existing) of
        (Some s, Some scope, Some i) \<Rightarrow>
          if sel_scope s = scope \<and>
             (case sel_historical_binding_id s of None \<Rightarrow> True | Some pin \<Rightarrow> pin = i)
          then (Inr (), op\<lparr>bo_network_scope := Some scope, bo_network_binding_id := Some i,
                           bo_effective_network := bo_effective_network existing\<rparr>)
          else (Inl (conflict (lit ''browser network request differs'')), op)
      | (None, None, None) \<Rightarrow> (Inr (), op)
      | _ \<Rightarrow> (Inl (conflict (lit ''browser network request differs'')), op))"

definition validate_login_commit :: "browser_operation \<Rightarrow> browser_operation_scope \<Rightarrow> verified_login_storage \<Rightarrow>
    unit result" where
  "validate_login_commit op scope storage =
     (if bo_scope op \<noteq> scope \<or>
         bo_account_id op \<noteq> (case vl_reconnect storage of
             None \<Rightarrow> vl_account_id storage | Some r \<Rightarrow> vr_source_account_id r) \<or>
         bo_purpose op \<noteq> Login \<or> bo_state op \<noteq> StartRequested \<or>
         bs_operator_id scope \<noteq> ts_operator_id (vl_secret_scope storage) \<or>
         (case vl_expected_platform_account_id storage of
             None \<Rightarrow> False | Some i \<Rightarrow> i \<noteq> vl_platform_account_id storage) \<or>
         trim (vl_platform_account_id storage) = [] \<or> vl_session storage = []
      then Inl (conflict (lit ''login no longer owns browser operation''))
      else if vl_reconnect storage \<noteq> None \<and>
         (vl_owner_kind storage \<noteq> OwnerCustomer \<or> bo_account_id op = vl_account_id storage \<or>
          vl_expected_platform_account_id storage \<noteq> Some (vl_platform_account_id storage))
      then Inl (conflict (lit ''login reconnect destination differs''))
      else case vl_owner_kind storage of
        OwnerCustomer \<Rightarrow>
          if bs_tenant_id scope = Some (ts_tenant_id (vl_secret_scope storage)) \<and>
             bs_project_id scope \<noteq> None \<and> bs_project_id scope = ts_project_id (vl_secret_scope storage)
          then Inr () else Inl (forbidden (lit ''login storage scope differs''))
      | OwnerOperatorPool \<Rightarrow>
          if bs_tenant_id scope = None \<and> bs_project_id scope = None
          then Inr () else Inl (forbidden (lit ''login storage scope differs'')))"

definition browser_prepare :: "browser_operation_scope \<Rightarrow> browser_begin \<Rightarrow> instant \<Rightarrow>
    browser_operation result" where
  "browser_prepare scope input at =
     (if is_nil (bb_operation_id input) \<or> is_nil (bb_session_id input) \<or> is_nil (bb_account_id input) \<or>
         is_nil (bb_runner_generation input) \<or> is_nil (bs_owner_id scope) \<or>
         (bs_project_id scope \<noteq> None \<and> bs_tenant_id scope = None) \<or> bb_effective_network input = []
      then Inl (invalid_request (lit ''invalid browser ownership''))
      else Inr \<lparr>bo_login_verified_at = None, bo_login_verified_account_id = None,
        bo_network_binding_id = None, bo_network_scope = None,
        bo_operation_id = bb_operation_id input, bo_session_id = bb_session_id input,
        bo_account_id = bb_account_id input, bo_scope = scope, bo_purpose = bb_purpose input,
        bo_runner_generation = bb_runner_generation input,
        bo_effective_network = bb_effective_network input,
        bo_reservation_id = (case bb_reservation_id input of None \<Rightarrow> bb_operation_id input | Some r \<Rightarrow> r),
        bo_state = Prepared, bo_version = 1, bo_expires_at = bb_expires_at input, bo_created_at = at,
        bo_updated_at = at, bo_next_check_at = bb_expires_at input, bo_released_unstarted = False\<rparr>)"

definition matches_begin :: "browser_operation \<Rightarrow> browser_operation \<Rightarrow> bool" where
  "matches_begin op other \<longleftrightarrow>
     bo_network_binding_id op = bo_network_binding_id other \<and>
     bo_network_scope op = bo_network_scope other \<and> bo_operation_id op = bo_operation_id other \<and>
     bo_session_id op = bo_session_id other \<and> bo_account_id op = bo_account_id other \<and>
     bo_scope op = bo_scope other \<and> bo_purpose op = bo_purpose other \<and>
     bo_runner_generation op = bo_runner_generation other \<and>
     bo_reservation_id op = bo_reservation_id other \<and>
     timestamp_micros (bo_expires_at op) = timestamp_micros (bo_expires_at other) \<and>
     bo_effective_network op = bo_effective_network other"

section \<open>Transitions\<close>

datatype browser_action =
    Start
  | Close
  | ReleaseUnstarted
  | ConfirmDisposed uuid uuid
  | Defer instant

text \<open>The state the \<open>match\<close> of \<open>transition\<close> computes for the actions other than \<open>Defer\<close>, with
  the operation as its arms leave it.\<close>

definition browser_next :: "browser_action \<Rightarrow> instant \<Rightarrow> browser_operation \<Rightarrow>
    browser_state result \<times> browser_operation" where
  "browser_next action at op = (case action of
       Start \<Rightarrow> (case bo_state op of
           Prepared \<Rightarrow> if at < bo_expires_at op then (Inr StartRequested, op)
             else (Inl (conflict (lit ''browser cannot start'')), op)
         | StartRequested \<Rightarrow> (Inr StartRequested, op)
         | _ \<Rightarrow> (Inl (conflict (lit ''browser cannot start'')), op))
     | Close \<Rightarrow> (case bo_state op of
           Disposed \<Rightarrow> (Inr Disposed, op)
         | Closing \<Rightarrow> (Inr Closing, op)
         | _ \<Rightarrow> (Inr Closing, op\<lparr>bo_next_check_at := at\<rparr>))
     | ReleaseUnstarted \<Rightarrow> (case bo_state op of
           Prepared \<Rightarrow> (Inr Disposed, op\<lparr>bo_released_unstarted := True\<rparr>)
         | Disposed \<Rightarrow> if bo_released_unstarted op then (Inr Disposed, op)
             else (Inl (conflict (lit ''browser start may have occurred'')), op)
         | _ \<Rightarrow> (Inl (conflict (lit ''browser start may have occurred'')), op))
     | ConfirmDisposed session runner \<Rightarrow>
         if bo_session_id op \<noteq> session \<or> bo_runner_generation op \<noteq> runner
         then (Inl (conflict (lit ''browser disposal identity mismatch'')), op)
         else (Inr Disposed, op)
     | Defer next_check_at \<Rightarrow> (Inr (bo_state op), op))"

definition browser_transition :: "browser_operation_scope \<Rightarrow> browser_action \<Rightarrow> instant \<Rightarrow> browser_operation \<Rightarrow>
    unit result \<times> browser_operation" where
  "browser_transition scope action at op =
     (if bo_scope op \<noteq> scope then (Inl (forbidden (lit ''browser ownership scope mismatch'')), op)
      else case action of
        Defer next_check_at \<Rightarrow>
          if bo_state op = Disposed \<or> next_check_at \<le> at
          then (Inl (conflict (lit ''invalid browser reconciliation schedule'')), op)
          else (Inr (), op\<lparr>bo_next_check_at := next_check_at, bo_version := bo_version op + 1,
                           bo_updated_at := at\<rparr>)
      | _ \<Rightarrow> (case browser_next action at op of
            (Inl e, op') \<Rightarrow> (Inl e, op')
          | (Inr next, op') \<Rightarrow>
              if bo_state op' \<noteq> next
              then (Inr (), op'\<lparr>bo_state := next, bo_version := bo_version op' + 1, bo_updated_at := at\<rparr>)
              else (Inr (), op')))"

lemmas [op_defs] = pin_network_def replay_network_def browser_next_def browser_transition_def

section \<open>Facts about transitions\<close>

fun browser_rank :: "browser_state \<Rightarrow> nat" where
  "browser_rank Prepared = 0"
| "browser_rank StartRequested = 1"
| "browser_rank Closing = 2"
| "browser_rank Disposed = 3"

text \<open>A transition changes only the state, the version, the schedule and the release mark; it
  moves the state forward and never touches an operation of another scope.\<close>

definition ownership :: "browser_operation \<Rightarrow> browser_operation" where
  "ownership op = op\<lparr>bo_state := Prepared, bo_version := 0, bo_updated_at := 0, bo_next_check_at := 0,
     bo_released_unstarted := False\<rparr>"

definition same_ownership :: "browser_operation \<Rightarrow> browser_operation \<Rightarrow> bool" where
  "same_ownership op op' \<longleftrightarrow> ownership op = ownership op'"

lemma ownership_upd [simp]:
  "ownership (op\<lparr>bo_state := x\<rparr>) = ownership op" "ownership (op\<lparr>bo_version := v\<rparr>) = ownership op"
  "ownership (op\<lparr>bo_updated_at := t\<rparr>) = ownership op" "ownership (op\<lparr>bo_next_check_at := t\<rparr>) = ownership op"
  "ownership (op\<lparr>bo_released_unstarted := r\<rparr>) = ownership op"
  by (simp_all add: ownership_def)

lemma ownership_sel:
  "bo_operation_id (ownership op) = bo_operation_id op" "bo_session_id (ownership op) = bo_session_id op"
  "bo_account_id (ownership op) = bo_account_id op" "bo_scope (ownership op) = bo_scope op"
  "bo_login_verified_account_id (ownership op) = bo_login_verified_account_id op"
  "bo_reservation_id (ownership op) = bo_reservation_id op" "bo_purpose (ownership op) = bo_purpose op"
  "bo_login_verified_at (ownership op) = bo_login_verified_at op"
  "bo_expires_at (ownership op) = bo_expires_at op"
  by (simp_all add: ownership_def)

lemma same_ownership_refl [simp]: "same_ownership op op"
  by (simp add: same_ownership_def)

lemma same_ownership_fields:
  assumes "same_ownership op op'"
  shows "bo_operation_id op' = bo_operation_id op" "bo_session_id op' = bo_session_id op"
    "bo_account_id op' = bo_account_id op" "bo_scope op' = bo_scope op"
    "bo_login_verified_account_id op' = bo_login_verified_account_id op"
    "bo_reservation_id op' = bo_reservation_id op" "bo_purpose op' = bo_purpose op"
    "bo_login_verified_at op' = bo_login_verified_at op" "bo_expires_at op' = bo_expires_at op"
proof -
  note E = arg_cong [OF assms [unfolded same_ownership_def]]
  show "bo_operation_id op' = bo_operation_id op" using E [of bo_operation_id] by (simp add: ownership_sel)
  show "bo_session_id op' = bo_session_id op" using E [of bo_session_id] by (simp add: ownership_sel)
  show "bo_account_id op' = bo_account_id op" using E [of bo_account_id] by (simp add: ownership_sel)
  show "bo_scope op' = bo_scope op" using E [of bo_scope] by (simp add: ownership_sel)
  show "bo_login_verified_account_id op' = bo_login_verified_account_id op" using E [of bo_login_verified_account_id] by (simp add: ownership_sel)
  show "bo_reservation_id op' = bo_reservation_id op" using E [of bo_reservation_id] by (simp add: ownership_sel)
  show "bo_purpose op' = bo_purpose op" using E [of bo_purpose] by (simp add: ownership_sel)
  show "bo_login_verified_at op' = bo_login_verified_at op" using E [of bo_login_verified_at] by (simp add: ownership_sel)
  show "bo_expires_at op' = bo_expires_at op" using E [of bo_expires_at] by (simp add: ownership_sel)
qed

lemma browser_next_same: "ownership (snd (browser_next action at op)) = ownership op"
  by (cases action) (simp_all add: browser_next_def split: browser_state.split)

lemma browser_transition_same: "same_ownership op (snd (browser_transition scope action at op))"
proof -
  obtain r op' where n: "browser_next action at op = (r, op')" by (cases "browser_next action at op")
  then have "ownership op' = ownership op" using browser_next_same [of action at op] by simp
  then show ?thesis
    using n unfolding same_ownership_def
    by (cases action; cases r) (simp_all add: browser_transition_def)
qed

lemma browser_transition_rank:
  "browser_rank (bo_state op) \<le> browser_rank (bo_state (snd (browser_transition scope action at op)))"
  by (cases action; cases "bo_state op") (simp_all add: browser_transition_def browser_next_def)

lemma browser_transition_error: "err_keeps op (browser_transition scope action at op)"
  by (cases action; cases "bo_state op") (simp_all add: browser_transition_def browser_next_def)

text \<open>The release mark says that the browser never started: it is set on the way from
  \<open>Prepared\<close> to \<open>Disposed\<close> and nowhere else.\<close>

definition released_ok :: "browser_operation \<Rightarrow> bool" where
  "released_ok op \<longleftrightarrow> (bo_released_unstarted op \<longrightarrow> bo_state op = Disposed)"

lemma released_ok_transition: "released_ok op \<Longrightarrow> released_ok (snd (browser_transition scope action at op))"
  by (cases action; cases "bo_state op")
     (simp_all add: released_ok_def browser_transition_def browser_next_def)

lemma transition_to_start:
  assumes "browser_transition scope action at op = (Inr u, op')" and "bo_state op \<noteq> StartRequested"
    and "bo_state op' = StartRequested"
  shows "action = Start" and "bo_state op = Prepared" and "at < bo_expires_at op" and "bo_scope op = scope"
  using assms by (cases action; cases "bo_state op";
      auto simp: browser_transition_def browser_next_def split: if_splits)+

lemma transition_to_disposed:
  assumes "browser_transition scope action at op = (Inr u, op')" and "bo_state op \<noteq> Disposed"
    and "bo_state op' = Disposed"
  shows "bo_scope op = scope" and "(action = ReleaseUnstarted \<and> bo_state op = Prepared \<and> bo_released_unstarted op') \<or>
     action = ConfirmDisposed (bo_session_id op) (bo_runner_generation op)"
  using assms by (cases action; cases "bo_state op";
      auto simp: browser_transition_def browser_next_def split: if_splits)+

end
