(* ===== verification/Login_Queue.thy ===== *)
theory Login_Queue
  imports Browser_Operations
begin

text \<open>
  \<open>crates/domain/src/accounts/operator_login_queue.rs\<close>: the ordered queue in which an
  operator logs in to imported accounts one at a time. Only one item is current; it leaves
  that state through its own disposed browser operation, and every change moves the version.
\<close>

record login_queue_scope =
  qs_operator_id :: operator_id
  qs_creator_user_id :: uuid

datatype login_queue_status = QueueRunning | QueuePaused | QueueCompleted
datatype login_item_status = ItemPending | ItemCurrent | ItemSucceeded | ItemSkipped

record login_queue_selection =
  sl_row_key :: str
  sl_account_id :: uuid

record login_queue_item =
  li_position :: u32
  li_row_key :: str
  li_account_id :: uuid
  li_status :: login_item_status
  li_attempt :: u32
  li_operation_id :: "uuid option"
  li_owner_session_id :: "uuid option"
  li_error_code :: "str option"

record login_queue =
  lq_queue_id :: uuid
  lq_scope :: login_queue_scope
  lq_import_key :: str
  lq_status :: login_queue_status
  lq_version :: i64
  lq_items :: "login_queue_item list"
  lq_created_at :: instant
  lq_updated_at :: instant

datatype login_queue_action = Pause | Resume | ReconcileCurrent | RetryCurrent | SkipCurrent

definition login_queue_errors :: "str list" where
  "login_queue_errors = [lit ''login_not_completed'', lit ''login_failed'', lit ''identity_mismatch'',
     lit ''network_unavailable'', lit ''account_disabled'', lit ''start_failed'',
     lit ''runner_unavailable'', lit ''session_recovery_required'', lit ''disposal_unconfirmed'',
     lit ''browser_unavailable'']"

definition validate_login_queue_error :: "str \<Rightarrow> unit result" where
  "validate_login_queue_error code =
     (if code \<in> set login_queue_errors then Inr ()
      else Inl (invalid_request (lit ''invalid login queue error code'')))"

section \<open>Creation\<close>

text \<open>The loop over the selections; the two hash sets hold the rows and accounts seen so far.
  The insertions into them are evaluated only when the checks before them pass.\<close>

fun validate_selections :: "str list \<Rightarrow> uuid list \<Rightarrow> login_queue_selection list \<Rightarrow> unit result" where
  "validate_selections rows accounts [] = Inr ()"
| "validate_selections rows accounts (row # rest) =
     (if trim (sl_row_key row) = [] \<or> byte_len (sl_row_key row) > 200 \<or>
         list_ex is_control (sl_row_key row) \<or> is_nil (sl_account_id row) \<or>
         sl_row_key row \<in> set rows \<or> sl_account_id row \<in> set accounts
      then Inl (invalid_request (lit ''invalid or duplicate login queue item''))
      else validate_selections (sl_row_key row # rows) (sl_account_id row # accounts) rest)"

definition new_queue_item :: "nat \<Rightarrow> login_queue_selection \<Rightarrow> login_queue_item" where
  "new_queue_item position row =
     \<lparr>li_position = of_nat position, li_row_key = sl_row_key row, li_account_id = sl_account_id row,
      li_status = ItemPending, li_attempt = 0, li_operation_id = None, li_owner_session_id = None,
      li_error_code = None\<rparr>"

definition login_queue_new :: "login_queue_scope \<Rightarrow> uuid \<Rightarrow> str \<Rightarrow> login_queue_selection list \<Rightarrow> instant \<Rightarrow>
    login_queue result" where
  "login_queue_new scope queue_id import_key selections at =
     (if is_nil queue_id \<or> is_nil (qs_creator_user_id scope) \<or> is_nil (as_uuid (qs_operator_id scope)) \<or>
         trim import_key = [] \<or> byte_len import_key > 200 \<or> list_ex is_control import_key \<or>
         selections = [] \<or> length selections > 200
      then Inl (invalid_request (lit ''invalid login queue selection''))
      else rbind (validate_selections [] [] selections) (\<lambda>_.
        Inr \<lparr>lq_queue_id = queue_id, lq_scope = scope, lq_import_key = import_key,
             lq_status = QueueRunning, lq_version = 1,
             lq_items = map (\<lambda>(i, row). new_queue_item i row) (zip [0..<length selections] selections),
             lq_created_at = at, lq_updated_at = at\<rparr>))"

definition is_current :: "login_queue_item \<Rightarrow> bool" where
  "is_current i \<longleftrightarrow> li_status i = ItemCurrent"

definition is_pending :: "login_queue_item \<Rightarrow> bool" where
  "is_pending i \<longleftrightarrow> li_status i = ItemPending"

definition is_settled :: "login_queue_item \<Rightarrow> bool" where
  "is_settled i \<longleftrightarrow> li_status i = ItemSucceeded \<or> li_status i = ItemSkipped"

definition queue_current :: "login_queue \<Rightarrow> login_queue_item option" where
  "queue_current q = find is_current (lq_items q)"

definition matches_creation :: "login_queue \<Rightarrow> login_queue \<Rightarrow> bool" where
  "matches_creation q candidate \<longleftrightarrow>
     lq_scope q = lq_scope candidate \<and> lq_import_key q = lq_import_key candidate \<and>
     length (lq_items q) = length (lq_items candidate) \<and>
     list_all (\<lambda>(a, b). li_position a = li_position b \<and> li_row_key a = li_row_key b \<and>
        li_account_id a = li_account_id b) (zip (lq_items q) (lq_items candidate))"

definition check_version :: "login_queue \<Rightarrow> i64 \<Rightarrow> unit result" where
  "check_version q expected =
     (if lq_version q \<noteq> expected then Inl (conflict (lit ''login queue version differs'')) else Inr ())"

definition queue_changed :: "instant \<Rightarrow> login_queue \<Rightarrow> login_queue" where
  "queue_changed at q = q\<lparr>lq_version := lq_version q + 1, lq_updated_at := at\<rparr>"

definition finish_if_empty :: "login_queue \<Rightarrow> login_queue" where
  "finish_if_empty q = (if list_all is_settled (lq_items q) then q\<lparr>lq_status := QueueCompleted\<rparr> else q)"

definition validate_current_operation :: "login_queue \<Rightarrow> browser_operation option \<Rightarrow> unit result" where
  "validate_current_operation q operation = (case (queue_current q, operation) of
       (None, None) \<Rightarrow> Inr ()
     | (Some item, Some op) \<Rightarrow>
         if li_operation_id item = Some (bo_operation_id op) \<and>
            li_owner_session_id item = Some (bs_owner_id (bo_scope op)) \<and>
            li_account_id item = bo_account_id op \<and>
            bs_operator_id (bo_scope op) = qs_operator_id (lq_scope q) \<and>
            bs_tenant_id (bo_scope op) = None \<and> bs_project_id (bo_scope op) = None \<and>
            bo_purpose op = Login
         then Inr () else Inl (conflict (lit ''login queue operation differs''))
     | _ \<Rightarrow> Inl (conflict (lit ''login queue operation differs'')))"

section \<open>Actions\<close>

definition clear_item :: "login_queue_item \<Rightarrow> login_queue_item" where
  "clear_item i = i\<lparr>li_operation_id := None, li_owner_session_id := None, li_error_code := None\<rparr>"

definition is_disposed :: "browser_operation option \<Rightarrow> bool" where
  "is_disposed operation \<longleftrightarrow> (case operation of None \<Rightarrow> False | Some op \<Rightarrow> bo_state op = Disposed)"

text \<open>The arm of \<open>RetryCurrent\<close> and \<open>SkipCurrent\<close>.\<close>

definition retry_or_skip :: "login_queue_action \<Rightarrow> browser_operation option \<Rightarrow> login_queue \<Rightarrow>
    unit result \<times> login_queue" where
  "retry_or_skip action operation q =
     (if \<not> is_disposed operation
      then (Inl (conflict (lit ''login queue browser disposal required'')), q)
      else case queue_current q of
        None \<Rightarrow> (Inl (conflict (lit ''login queue has no current item'')), q)
      | Some item \<Rightarrow>
          if action = RetryCurrent then
            (let pending = (clear_item item)\<lparr>li_status := ItemPending\<rparr> in
             case checked_succ_u32 (li_attempt item) of
               None \<Rightarrow> (Inl (conflict (lit ''login queue attempts exhausted'')),
                  q\<lparr>lq_items := update_first is_current (\<lambda>_. pending) (lq_items q)\<rparr>)
             | Some n \<Rightarrow> (Inr (),
                  q\<lparr>lq_items := update_first is_current (\<lambda>_. pending\<lparr>li_attempt := n\<rparr>) (lq_items q),
                    lq_status := QueuePaused\<rparr>))
          else (Inr (), q\<lparr>lq_items := update_first is_current
                  (\<lambda>i. (clear_item i)\<lparr>li_status := ItemSkipped\<rparr>) (lq_items q)\<rparr>))"

text \<open>What the other actions do first: a disposed browser settles the current item when its
  login was verified, and otherwise pauses the queue.\<close>

definition reconcile_item :: "browser_operation option \<Rightarrow> login_queue \<Rightarrow> login_queue" where
  "reconcile_item operation q = (case operation of
       None \<Rightarrow> q
     | Some op \<Rightarrow>
         if bo_state op \<noteq> Disposed then q
         else if bo_login_verified_at op \<noteq> None
         then q\<lparr>lq_items := update_first is_current
                  (\<lambda>i. (clear_item i)\<lparr>li_status := ItemSucceeded\<rparr>) (lq_items q)\<rparr>
         else q\<lparr>lq_status := QueuePaused,
                lq_items := update_first is_current
                  (\<lambda>i. i\<lparr>li_error_code := Some (lit ''login_not_completed'')\<rparr>) (lq_items q)\<rparr>)"

definition pause_or_resume :: "login_queue_action \<Rightarrow> login_queue \<Rightarrow> unit result \<times> login_queue" where
  "pause_or_resume action q =
     (if action = Pause \<and> lq_status q \<noteq> QueueCompleted then (Inr (), q\<lparr>lq_status := QueuePaused\<rparr>)
      else if action = Resume \<and> lq_status q \<noteq> QueueCompleted then
        (if (case queue_current q of None \<Rightarrow> False
             | Some i \<Rightarrow> li_error_code i = Some (lit ''login_not_completed''))
         then (Inl (conflict (lit ''login queue requires retry or skip'')), q)
         else (Inr (), q\<lparr>lq_status := QueueRunning\<rparr>))
      else (Inr (), q))"

definition queue_action :: "login_queue_action \<Rightarrow> browser_operation option \<Rightarrow> login_queue \<Rightarrow>
    unit result \<times> login_queue" where
  "queue_action action operation q =
     (if action = RetryCurrent \<or> action = SkipCurrent then retry_or_skip action operation q
      else pause_or_resume action (reconcile_item operation q))"

definition queue_apply :: "i64 \<Rightarrow> login_queue_action \<Rightarrow> browser_operation option \<Rightarrow> instant \<Rightarrow> login_queue \<Rightarrow>
    unit result \<times> login_queue" where
  "queue_apply expected action operation at q =
     try_in q (check_version q expected) (\<lambda>_.
     try_in q (validate_current_operation q operation) (\<lambda>_.
       case queue_action action operation q of
         (Inl e, q1) \<Rightarrow> (Inl e, q1)
       | (Inr _, q1) \<Rightarrow>
           let q2 = finish_if_empty q1
           in (Inr (), if q2 \<noteq> q then queue_changed at q2 else q2)))"

definition queue_claim :: "i64 \<Rightarrow> uuid \<Rightarrow> browser_begin \<Rightarrow> instant \<Rightarrow> login_queue \<Rightarrow>
    unit result \<times> login_queue" where
  "queue_claim expected owner input at q =
     try_in q (check_version q expected) (\<lambda>_.
     if lq_status q \<noteq> QueueRunning \<or> queue_current q \<noteq> None \<or> is_nil owner \<or> bb_purpose input \<noteq> Login
     then (Inl (conflict (lit ''login queue cannot claim item'')), q)
     else try_in q (ok_or (find is_pending (lq_items q)) (conflict (lit ''login queue has no pending item'')))
       (\<lambda>item.
       if li_account_id item \<noteq> bb_account_id input
       then (Inl (conflict (lit ''login queue account differs'')), q)
       else if (case bb_network_selection input of None \<Rightarrow> True
           | Some s \<Rightarrow> ns_operator_id (sel_scope s) \<noteq> qs_operator_id (lq_scope q) \<or>
               ns_account_id (sel_scope s) \<noteq> li_account_id item \<or>
               ns_tenant_id (sel_scope s) \<noteq> None \<or> ns_project_id (sel_scope s) \<noteq> None)
       then (Inl (forbidden (lit ''login queue pool network scope differs'')), q)
       else (Inr (), queue_changed at (q\<lparr>lq_items := update_first is_pending
              (\<lambda>i. i\<lparr>li_status := ItemCurrent, li_operation_id := Some (bb_operation_id input),
                     li_owner_session_id := Some owner, li_error_code := None\<rparr>) (lq_items q)\<rparr>))))"

definition queue_pause_error :: "i64 \<Rightarrow> uuid option \<Rightarrow> str \<Rightarrow> instant \<Rightarrow> login_queue \<Rightarrow>
    unit result \<times> login_queue" where
  "queue_pause_error expected operation_id code at q =
     try_in q (check_version q expected) (\<lambda>_.
     try_in q (validate_login_queue_error code) (\<lambda>_.
     if lq_status q = QueueCompleted \<or>
        (case queue_current q of None \<Rightarrow> None | Some i \<Rightarrow> li_operation_id i) \<noteq> operation_id
     then (Inl (conflict (lit ''login queue failure no longer current'')), q)
     else
       let set_error = (\<lambda>i. i\<lparr>li_error_code := Some code\<rparr>);
           items = (if queue_current q \<noteq> None then update_first is_current set_error (lq_items q)
                    else update_first is_pending set_error (lq_items q))
       in (Inr (), queue_changed at (q\<lparr>lq_status := QueuePaused, lq_items := items\<rparr>))))"

end
