(* ===== verification/Login_Queue_Properties.thy ===== *)
theory Login_Queue_Properties
  imports Login_Queue
begin

text \<open>
  The queue over histories of its three operations: at most one current item, owned by one
  browser operation; progress that is never undone; success only on proof of a verified login;
  optimistic versions.
\<close>

section \<open>Lists with one element updated\<close>

lemma map_update_first: "(\<And>x. x \<in> set xs \<Longrightarrow> p x \<Longrightarrow> g (f x) = g x) \<Longrightarrow> map g (update_first p f xs) = map g xs"
  by (induction xs) auto

lemma list_all2_update_first:
  "(\<And>x. R x x) \<Longrightarrow> (\<And>x. x \<in> set xs \<Longrightarrow> p x \<Longrightarrow> R x (f x)) \<Longrightarrow> list_all2 R xs (update_first p f xs)"
  by (induction xs) (auto simp: list_all2_refl)

lemma ball_update_first:
  "(\<And>x. x \<in> set xs \<Longrightarrow> Q x) \<Longrightarrow> (\<And>x. x \<in> set xs \<Longrightarrow> p x \<Longrightarrow> Q (f x)) \<Longrightarrow> x \<in> set (update_first p f xs) \<Longrightarrow> Q x"
  by (induction xs) (auto split: if_splits)

lemma filter_update_first:
  "(\<And>x. p x \<Longrightarrow> \<not> q x \<Longrightarrow> \<not> q (f x)) \<Longrightarrow>
     length (filter q (update_first p f xs)) \<le> length (filter q xs)"
  by (induction xs) auto

lemma filter_update_first_none: "filter q xs = [] \<Longrightarrow> length (filter q (update_first p f xs)) \<le> 1"
  by (induction xs) (auto split: if_splits)

lemma update_first_not_all: "find p xs = Some x \<Longrightarrow> \<not> q (f x) \<Longrightarrow> \<not> list_all q (update_first p f xs)"
  by (induction xs) (auto split: if_splits)

lemma find_None_filter: "find p xs = None \<longleftrightarrow> filter p xs = []"
  by (auto simp: find_None_iff filter_empty_conv)

section \<open>Well-formed queues\<close>

definition item_key :: "login_queue_item \<Rightarrow> u32 \<times> str \<times> uuid" where
  "item_key i = (li_position i, li_row_key i, li_account_id i)"

definition item_ok :: "login_queue_item \<Rightarrow> bool" where
  "item_ok i \<longleftrightarrow> (is_current i \<longleftrightarrow> li_operation_id i \<noteq> None) \<and> (is_current i \<longleftrightarrow> li_owner_session_id i \<noteq> None)"

definition queue_ok :: "login_queue \<Rightarrow> bool" where
  "queue_ok q \<longleftrightarrow> (\<forall>i\<in>set (lq_items q). item_ok i) \<and> length (filter is_current (lq_items q)) \<le> 1 \<and>
     distinct (map li_row_key (lq_items q)) \<and> distinct (map li_account_id (lq_items q)) \<and>
     map li_position (lq_items q) = map of_nat [0..<length (lq_items q)] \<and>
     (lq_status q = QueueCompleted \<longleftrightarrow> list_all is_settled (lq_items q))"

lemma keys_of_items:
  assumes "map item_key xs = map item_key ys"
  shows "map li_row_key xs = map li_row_key ys" "map li_account_id xs = map li_account_id ys"
    "map li_position xs = map li_position ys" "length xs = length ys"
proof -
  note E = arg_cong [OF assms]
  show "map li_row_key xs = map li_row_key ys" using E [of "map (fst \<circ> snd)"] by (simp add: item_key_def comp_def)
  show "map li_account_id xs = map li_account_id ys" using E [of "map (snd \<circ> snd)"] by (simp add: item_key_def comp_def)
  show "map li_position xs = map li_position ys" using E [of "map fst"] by (simp add: item_key_def comp_def)
  show "length xs = length ys" using E [of length] by simp
qed

lemma validate_selections_Inr:
  "validate_selections rows accounts xs = Inr u \<Longrightarrow>
     distinct (map sl_row_key xs) \<and> distinct (map sl_account_id xs) \<and>
     set (map sl_row_key xs) \<inter> set rows = {} \<and> set (map sl_account_id xs) \<inter> set accounts = {}"
  by (induction rows accounts xs rule: validate_selections.induct) (auto split: if_splits)

lemma new_queue_ok:
  assumes "login_queue_new scope queue_id import_key selections at = Inr q"
  shows "queue_ok q" and "lq_version q = 1"
proof -
  from assms have q: "lq_items q = map (\<lambda>(i, row). new_queue_item i row) (zip [0..<length selections] selections)"
    "lq_status q = QueueRunning" "lq_version q = 1" and ne: "selections \<noteq> []"
    and v: "validate_selections [] [] selections = Inr ()"
    by (auto simp: login_queue_new_def rbind_eq_Inr split: if_splits)
  have items: "map g (lq_items q) = map (\<lambda>i. g (new_queue_item i (selections ! i))) [0..<length selections]" for g :: "login_queue_item \<Rightarrow> 'x"
    unfolding q by (intro nth_equalityI) auto
  have "map li_row_key (lq_items q) = map sl_row_key selections"
    and "map li_account_id (lq_items q) = map sl_account_id selections"
    and "map li_position (lq_items q) = map of_nat [0..<length (lq_items q)]"
    unfolding items by (auto simp: new_queue_item_def q intro!: nth_equalityI)
  moreover have "item_ok i" "\<not> is_current i" "\<not> is_settled i" if "i \<in> set (lq_items q)" for i
    using that by (auto simp: q item_ok_def is_current_def is_settled_def new_queue_item_def)
  moreover have "lq_items q \<noteq> []"
    using ne by (simp add: q)
  ultimately show "queue_ok q"
    using validate_selections_Inr [OF v] q(2)
    by (auto simp: queue_ok_def list_all_iff filter_empty_conv [THEN iffD2])
  show "lq_version q = 1" by (rule q(3))
qed

text \<open>What the queue operations do to the list of items, in one relation: keys stay, attempts
  do not decrease, settled items are final.\<close>

definition item_le :: "login_queue_item \<Rightarrow> login_queue_item \<Rightarrow> bool" where
  "item_le a b \<longleftrightarrow> item_key b = item_key a \<and> li_attempt a \<le> li_attempt b \<and> (is_settled a \<longrightarrow> b = a)"

lemma item_le_refl [simp]: "item_le a a"
  by (simp add: item_le_def)

lemma item_le_trans: "item_le a b \<Longrightarrow> item_le b c \<Longrightarrow> item_le a c"
  by (auto simp: item_le_def)

section \<open>Operations as one step function\<close>

datatype queue_op =
    QueueApply login_queue_action "browser_operation option" instant
  | QueueClaim uuid browser_begin instant
  | QueuePauseError "uuid option" str instant

fun queue_op_run :: "i64 \<Rightarrow> queue_op \<Rightarrow> login_queue \<Rightarrow> unit result \<times> login_queue" where
  "queue_op_run v (QueueApply action operation at) q = queue_apply v action operation at q"
| "queue_op_run v (QueueClaim owner input at) q = queue_claim v owner input at q"
| "queue_op_run v (QueuePauseError operation_id code at) q = queue_pause_error v operation_id code at q"

text \<open>The repository stores the queue an operation leaves only when it succeeds.\<close>

definition queue_commit :: "login_queue \<Rightarrow> i64 \<Rightarrow> queue_op \<Rightarrow> login_queue option" where
  "queue_commit q v e = (case queue_op_run v e q of (Inl err, _) \<Rightarrow> None | (Inr _, q') \<Rightarrow> Some q')"

definition queue_exec :: "login_queue \<Rightarrow> i64 \<times> queue_op \<Rightarrow> login_queue" where
  "queue_exec q e = (case queue_commit q (fst e) (snd e) of None \<Rightarrow> q | Some q' \<Rightarrow> q')"

definition items_step :: "login_queue \<Rightarrow> login_queue_item list \<Rightarrow> bool" where
  "items_step q xs \<longleftrightarrow> (\<forall>i\<in>set xs. item_ok i) \<and> length (filter is_current xs) \<le> 1 \<and>
     list_all2 item_le (lq_items q) xs"

lemma items_step_same: "queue_ok q \<Longrightarrow> items_step q (lq_items q)"
  by (simp add: items_step_def queue_ok_def list_all2_refl)

lemma items_step_current:
  assumes ok: "queue_ok q" and f: "\<And>i. i \<in> set (lq_items q) \<Longrightarrow> is_current i \<Longrightarrow> item_ok (f i) \<and> item_le i (f i)"
  shows "items_step q (update_first is_current f (lq_items q))"
proof -
  have "length (filter is_current (update_first is_current f (lq_items q))) \<le> length (filter is_current (lq_items q))"
    by (rule filter_update_first) simp
  moreover have "list_all2 item_le (lq_items q) (update_first is_current f (lq_items q))"
    using f by (intro list_all2_update_first) auto
  moreover have "item_ok i" if "i \<in> set (update_first is_current f (lq_items q))" for i
    by (rule ball_update_first [OF _ _ that]) (use ok f in \<open>auto simp: queue_ok_def\<close>)
  ultimately show ?thesis
    using ok by (auto simp: items_step_def queue_ok_def)
qed

lemma items_step_keys:
  assumes "items_step q xs"
  shows "map item_key xs = map item_key (lq_items q)"
  using assms unfolding items_step_def
  by (auto simp: list_all2_conv_all_nth item_le_def intro!: nth_equalityI)

text \<open>A queue with the items of a step and an honest status is well-formed again.\<close>

lemma queue_ok_step:
  assumes ok: "queue_ok q" and step: "items_step q (lq_items q')"
    and status: "lq_status q' = QueueCompleted \<longleftrightarrow> list_all is_settled (lq_items q')"
  shows "queue_ok q'"
  using keys_of_items [OF items_step_keys [OF step]] ok step status
  by (simp add: queue_ok_def items_step_def)

lemma current_none: "queue_current q = None \<longleftrightarrow> filter is_current (lq_items q) = []"
  by (simp add: queue_current_def find_None_filter)

lemma current_some: "queue_current q = Some i \<Longrightarrow> i \<in> set (lq_items q) \<and> is_current i"
  by (auto simp: queue_current_def find_Some_iff)

lemma current_unique:
  assumes "queue_ok q" and "queue_current q = Some item" and "i \<in> set (lq_items q)" and "is_current i"
  shows "i = item"
proof -
  let ?c = "filter is_current (lq_items q)"
  have "length ?c \<le> 1" and "item \<in> set ?c" and "i \<in> set ?c"
    using assms current_some by (auto simp: queue_ok_def)
  then show ?thesis by (cases ?c) auto
qed

lemma checked_succ_le: "checked_succ_u32 n = Some m \<Longrightarrow> n \<le> m"
  by (auto dest!: checked_succ_u32_Some simp: word_le_nat_alt)

lemma current_not_completed: "queue_ok q \<Longrightarrow> queue_current q = Some i \<Longrightarrow> lq_status q \<noteq> QueueCompleted"
  by (auto dest!: current_some simp: queue_ok_def list_all_iff is_current_def is_settled_def)

lemma retry_or_skip_step:
  assumes ok: "queue_ok q" and res: "retry_or_skip action operation q = (Inr u, q1)"
  shows "items_step q (lq_items q1) \<and> lq_status q1 \<noteq> QueueCompleted"
proof -
  from res obtain item where cur: "queue_current q = Some item"
    by (auto simp: retry_or_skip_def split: if_splits option.splits)
  have nc: "lq_status q \<noteq> QueueCompleted" by (rule current_not_completed [OF ok cur])
  show ?thesis
  proof (cases "action = RetryCurrent")
    case True
    with res cur obtain n where n: "checked_succ_u32 (li_attempt item) = Some n"
      and q1: "q1 = q\<lparr>lq_items := update_first is_current
           (\<lambda>_. (clear_item item)\<lparr>li_status := ItemPending, li_attempt := n\<rparr>) (lq_items q), lq_status := QueuePaused\<rparr>"
      by (auto simp: retry_or_skip_def Let_def split: if_splits option.splits)
    have "items_step q (update_first is_current
        (\<lambda>_. (clear_item item)\<lparr>li_status := ItemPending, li_attempt := n\<rparr>) (lq_items q))"
    proof (rule items_step_current [OF ok])
      fix i
      assume "i \<in> set (lq_items q)" and i: "is_current i"
      then have "i = item" by (rule current_unique [OF ok cur])
      with i checked_succ_le [OF n] show "item_ok ((clear_item item)\<lparr>li_status := ItemPending, li_attempt := n\<rparr>) \<and>
          item_le i ((clear_item item)\<lparr>li_status := ItemPending, li_attempt := n\<rparr>)"
        by (simp add: item_ok_def item_le_def clear_item_def is_current_def is_settled_def item_key_def)
    qed
    with q1 show ?thesis by simp
  next
    case False
    with res cur have q1: "q1 = q\<lparr>lq_items := update_first is_current
           (\<lambda>i. (clear_item i)\<lparr>li_status := ItemSkipped\<rparr>) (lq_items q)\<rparr>"
      by (auto simp: retry_or_skip_def split: if_splits)
    have "items_step q (update_first is_current (\<lambda>i. (clear_item i)\<lparr>li_status := ItemSkipped\<rparr>) (lq_items q))"
      by (rule items_step_current [OF ok])
         (auto simp: item_ok_def item_le_def clear_item_def is_current_def is_settled_def item_key_def)
    with q1 nc show ?thesis by simp
  qed
qed

lemma reconcile_step:
  assumes ok: "queue_ok q"
  shows "items_step q (lq_items (reconcile_item operation q))"
proof -
  have item: "item_ok i" if "i \<in> set (lq_items q)" for i
    using ok that by (simp add: queue_ok_def)
  have "items_step q (update_first is_current (\<lambda>i. (clear_item i)\<lparr>li_status := ItemSucceeded\<rparr>) (lq_items q))"
    by (rule items_step_current [OF ok], drule item)
       (simp add: item_ok_def item_le_def clear_item_def is_current_def is_settled_def item_key_def)
  moreover have "items_step q (update_first is_current (\<lambda>i. i\<lparr>li_error_code := Some c\<rparr>) (lq_items q))" for c
    by (rule items_step_current [OF ok], drule item)
       (simp add: item_ok_def item_le_def is_current_def is_settled_def item_key_def)
  ultimately
  show ?thesis
    by (simp add: reconcile_item_def items_step_same [OF ok] split: option.split)
qed

lemma queue_action_step:
  assumes ok: "queue_ok q" and valid: "validate_current_operation q operation = Inr ()"
    and res: "queue_action action operation q = (Inr u, q1)"
  shows "items_step q (lq_items q1)" and "lq_status q1 = QueueCompleted \<Longrightarrow> list_all is_settled (lq_items q1)"
proof -
  have pause: "lq_items q1 = lq_items (reconcile_item operation q) \<and>
      (lq_status q1 = QueueCompleted \<longrightarrow> lq_status (reconcile_item operation q) = QueueCompleted)"
    if "action \<noteq> RetryCurrent" "action \<noteq> SkipCurrent"
    using res that by (auto simp: queue_action_def pause_or_resume_def split: if_splits option.splits)
  show "items_step q (lq_items q1)"
    using retry_or_skip_step [OF ok, of action operation u q1] reconcile_step [OF ok, of operation] pause res
    by (auto simp: queue_action_def split: if_splits)
  show "list_all is_settled (lq_items q1)" if c: "lq_status q1 = QueueCompleted"
  proof (cases "action = RetryCurrent \<or> action = SkipCurrent")
    case True
    with retry_or_skip_step [OF ok, of action operation u q1] res c show ?thesis
      by (simp add: queue_action_def)
  next
    case False
    with pause c have rc: "lq_status (reconcile_item operation q) = QueueCompleted"
      and items: "lq_items q1 = lq_items (reconcile_item operation q)" by auto
    then have qc: "lq_status q = QueueCompleted"
      by (auto simp: reconcile_item_def split: option.splits if_splits)
    with ok have "queue_current q = None" using current_not_completed by (cases "queue_current q") auto
    with valid have "operation = None"
      by (auto simp: validate_current_operation_def split: option.splits)
    with items qc ok show ?thesis
      by (simp add: reconcile_item_def queue_ok_def)
  qed
qed

lemma finish_if_empty_fields [simp]:
  "lq_items (finish_if_empty q) = lq_items q" "lq_version (finish_if_empty q) = lq_version q"
  "lq_status (finish_if_empty q) = (if list_all is_settled (lq_items q) then QueueCompleted else lq_status q)"
  by (simp_all add: finish_if_empty_def)

lemma queue_changed_fields [simp]:
  "lq_items (queue_changed at q) = lq_items q" "lq_status (queue_changed at q) = lq_status q"
  "lq_version (queue_changed at q) = lq_version q + 1"
  by (simp_all add: queue_changed_def)

lemma queue_apply_step:
  assumes ok: "queue_ok q" and res: "queue_apply v action operation at q = (Inr u, q')"
  shows "items_step q (lq_items q')" and "queue_ok q'" and "v = lq_version q"
    and "q' \<noteq> q \<Longrightarrow> lq_version q' = lq_version q + 1"
proof -
  from res have v: "v = lq_version q" and valid: "validate_current_operation q operation = Inr ()"
    by (auto simp: queue_apply_def check_version_def split: result_splits if_splits)
  from res obtain q1 u1 where act: "queue_action action operation q = (Inr u1, q1)"
    and q': "q' = (if finish_if_empty q1 \<noteq> q then queue_changed at (finish_if_empty q1) else finish_if_empty q1)"
    by (auto simp: queue_apply_def Let_def split: result_splits if_splits prod.splits sum.splits)
  note S = queue_action_step [OF ok valid act]
  show items: "items_step q (lq_items q')" using S(1) q' by auto
  show "queue_ok q'"
    by (rule queue_ok_step [OF ok items]) (use S(2) q' in auto)
  show "v = lq_version q" by (rule v)
  have "lq_version q1 = lq_version q"
    using act by (auto simp: queue_action_def retry_or_skip_def pause_or_resume_def reconcile_item_def Let_def
        split: if_splits option.splits)
  then show "q' \<noteq> q \<Longrightarrow> lq_version q' = lq_version q + 1"
    using q' by (auto split: if_splits)
qed

lemma queue_claim_step:
  assumes ok: "queue_ok q" and res: "queue_claim v owner input at q = (Inr u, q')"
  shows "items_step q (lq_items q')" and "queue_ok q'" and "v = lq_version q" and "lq_version q' = lq_version q + 1"
proof -
  let ?f = "\<lambda>i. i\<lparr>li_status := ItemCurrent, li_operation_id := Some (bb_operation_id input),
      li_owner_session_id := Some owner, li_error_code := None\<rparr>"
  from res obtain item where v: "v = lq_version q" and running: "lq_status q = QueueRunning"
    and none: "queue_current q = None" and item: "find is_pending (lq_items q) = Some item"
    and q': "q' = queue_changed at (q\<lparr>lq_items := update_first is_pending ?f (lq_items q)\<rparr>)"
    by (auto simp: queue_claim_def check_version_def split: result_splits if_splits)
  let ?xs = "update_first is_pending ?f (lq_items q)"
  have "item_ok i" if "i \<in> set ?xs" for i
    by (rule ball_update_first [OF _ _ that]) (use ok in \<open>auto simp: queue_ok_def item_ok_def is_current_def\<close>)
  moreover have "list_all2 item_le (lq_items q) ?xs"
    by (rule list_all2_update_first) (auto simp: item_le_def item_key_def is_pending_def is_settled_def)
  ultimately show items: "items_step q (lq_items q')"
    using filter_update_first_none [of is_current "lq_items q" is_pending ?f] none q'
    by (simp add: items_step_def current_none)
  have "\<not> list_all is_settled ?xs"
    by (rule update_first_not_all [OF item]) (simp add: is_settled_def)
  then show "queue_ok q'"
    by (intro queue_ok_step [OF ok items]) (simp add: q' running)
  show "v = lq_version q" "lq_version q' = lq_version q + 1" using v q' by simp_all
qed

lemma settled_update_error:
  "list_all is_settled (update_first p (\<lambda>i. i\<lparr>li_error_code := c\<rparr>) xs) = list_all is_settled xs"
  by (induction xs) (auto simp: is_settled_def)

lemma queue_pause_step:
  assumes ok: "queue_ok q" and res: "queue_pause_error v operation_id code at q = (Inr u, q')"
  shows "items_step q (lq_items q')" and "queue_ok q'" and "v = lq_version q" and "lq_version q' = lq_version q + 1"
proof -
  let ?f = "\<lambda>i. i\<lparr>li_error_code := Some code\<rparr>"
  from res have v: "v = lq_version q" and nc: "lq_status q \<noteq> QueueCompleted"
    and q': "q' = queue_changed at (q\<lparr>lq_status := QueuePaused, lq_items :=
      (if queue_current q \<noteq> None then update_first is_current ?f (lq_items q)
       else update_first is_pending ?f (lq_items q))\<rparr>)"
    by (auto simp: queue_pause_error_def check_version_def Let_def split: result_splits if_splits)
  have upd: "items_step q (update_first p ?f (lq_items q))" if "\<And>i. p i \<Longrightarrow> \<not> is_settled i" for p
    unfolding items_step_def
  proof (intro conjI ballI)
    show "item_ok i" if "i \<in> set (update_first p ?f (lq_items q))" for i
      by (rule ball_update_first [OF _ _ that]) (use ok in \<open>auto simp: queue_ok_def item_ok_def is_current_def\<close>)
    show "length (filter is_current (update_first p ?f (lq_items q))) \<le> 1"
      using filter_update_first [of p is_current ?f "lq_items q"] ok
      by (auto simp: queue_ok_def is_current_def intro: le_trans)
    show "list_all2 item_le (lq_items q) (update_first p ?f (lq_items q))"
      using that by (intro list_all2_update_first) (auto simp: item_le_def item_key_def)
  qed
  show items: "items_step q (lq_items q')"
    using upd [of is_current] upd [of is_pending] q'
    by (auto simp: is_current_def is_pending_def is_settled_def)
  show "queue_ok q'"
    using nc ok by (intro queue_ok_step [OF ok items]) (simp add: q' settled_update_error queue_ok_def)
  show "v = lq_version q" "lq_version q' = lq_version q + 1" using v q' by simp_all
qed

lemma queue_op_step:
  assumes "queue_ok q" and "queue_op_run v e q = (Inr u, q')"
  shows "items_step q (lq_items q')" and "queue_ok q'"
  using assms by (cases e; auto dest: queue_apply_step queue_claim_step queue_pause_step)+

end
