(* ===== verification/Login_Queue_Theorems.thy ===== *)
theory Login_Queue_Theorems
  imports Login_Queue_Properties "HOL-Library.Code_Target_Nat"
begin

text \<open>The properties of the operator login queue, with a concrete queue of two accounts.\<close>

interpretation queue_machine: invariant_machine queue_exec "\<lambda>_ _. True" queue_ok
proof unfold_locales
  fix q :: login_queue and e
  assume ok: "queue_ok q"
  show "queue_ok (queue_exec q e)"
    using ok queue_op_step(2) [OF ok, of "fst e" "snd e"]
    by (auto simp: queue_exec_def queue_commit_def split: prod.splits sum.splits)
qed

lemma queue_op_version:
  assumes "queue_op_run v e q = (Inr u, q')"
  shows "v = lq_version q"
  using assms
  by (cases e) (auto simp: queue_apply_def queue_claim_def queue_pause_error_def check_version_def Let_def
      split: result_splits if_splits)

lemma queue_apply_moves:
  assumes "queue_apply v action operation at q = (Inr u, q')" and "q' \<noteq> q"
  shows "lq_version q' = lq_version q + 1"
proof -
  from assms(1) obtain q1 u1 where act: "queue_action action operation q = (Inr u1, q1)"
    and q': "q' = (if finish_if_empty q1 \<noteq> q then queue_changed at (finish_if_empty q1) else finish_if_empty q1)"
    by (auto simp: queue_apply_def Let_def split: result_splits if_splits prod.splits sum.splits)
  have "lq_version q1 = lq_version q"
    using act by (auto simp: queue_action_def retry_or_skip_def pause_or_resume_def reconcile_item_def Let_def
        split: if_splits option.splits)
  with q' assms(2) show ?thesis by (auto split: if_splits)
qed

lemma queue_op_moves:
  assumes "queue_op_run v e q = (Inr u, q')" and "q' \<noteq> q"
  shows "lq_version q' \<noteq> lq_version q"
proof (cases e)
  case (QueueApply action operation at)
  with assms queue_apply_moves show ?thesis by auto
qed (use assms(1) in \<open>auto simp: queue_claim_def queue_pause_error_def Let_def split: result_splits if_splits\<close>)

interpretation queue_versions: versioned lq_version queue_commit
  by unfold_locales (auto simp: queue_commit_def dest: queue_op_version queue_op_moves split: prod.splits sum.splits)

definition ex_queue :: login_queue where
  "ex_queue = (case login_queue_new \<lparr>qs_operator_id = Ident 1, qs_creator_user_id = 2\<rparr> 3 (lit ''import'')
       [\<lparr>sl_row_key = lit ''a'', sl_account_id = 10\<rparr>, \<lparr>sl_row_key = lit ''b'', sl_account_id = 11\<rparr>] 0 of
     Inr q \<Rightarrow> q | Inl e \<Rightarrow> undefined)"

definition ex_selection :: browser_network_selection where
  "ex_selection = \<lparr>sel_scope = \<lparr>ns_operator_id = Ident 1, ns_account_id = 10, ns_tenant_id = None,
     ns_project_id = None\<rparr>, sel_historical_binding_id = None\<rparr>"

definition ex_begin_login :: browser_begin where
  "ex_begin_login = \<lparr>bb_network_selection = Some ex_selection, bb_operation_id = 20, bb_session_id = 21,
     bb_account_id = 10, bb_purpose = Login, bb_runner_generation = 22, bb_effective_network = [1],
     bb_reservation_id = None, bb_expires_at = 1000\<rparr>"

definition ex_login_operation :: browser_operation where
  "ex_login_operation = \<lparr>bo_login_verified_at = Some 50, bo_login_verified_account_id = Some 10,
     bo_network_binding_id = None, bo_network_scope = None, bo_operation_id = 20, bo_session_id = 21,
     bo_account_id = 10, bo_scope = \<lparr>bs_operator_id = Ident 1, bs_tenant_id = None, bs_project_id = None,
     bs_owner_id = 5\<rparr>, bo_purpose = Login, bo_runner_generation = 22, bo_effective_network = [1],
     bo_reservation_id = 20, bo_state = Disposed, bo_version = 4, bo_expires_at = 1000, bo_created_at = 0,
     bo_updated_at = 60, bo_next_check_at = 1000, bo_released_unstarted = False\<rparr>"

definition ex_claim :: queue_op where
  "ex_claim = QueueClaim 5 ex_begin_login 1"

definition ex_reconcile :: queue_op where
  "ex_reconcile = QueueApply ReconcileCurrent (Some ex_login_operation) 70"

definition ex_claimed :: login_queue where
  "ex_claimed = snd (queue_op_run 1 ex_claim ex_queue)"

definition ex_reconciled :: login_queue where
  "ex_reconciled = snd (queue_op_run 2 ex_reconcile ex_claimed)"

lemma ex_queue_new: "\<exists>scope selections. login_queue_new scope 3 (lit ''import'') selections 0 = Inr ex_queue"
proof -
  let ?r = "login_queue_new \<lparr>qs_operator_id = Ident 1, qs_creator_user_id = 2\<rparr> 3 (lit ''import'')
       [\<lparr>sl_row_key = lit ''a'', sl_account_id = 10\<rparr>, \<lparr>sl_row_key = lit ''b'', sl_account_id = 11\<rparr>] 0"
  have "\<not> Option.is_none (case ?r of Inl e \<Rightarrow> None | Inr q \<Rightarrow> Some q)" by code_simp
  then have "?r = Inr ex_queue" by (auto simp: ex_queue_def split: sum.splits)
  then show ?thesis by blast
qed

lemma inr_unit: "(case fst r of Inl e \<Rightarrow> False | Inr u \<Rightarrow> True) \<Longrightarrow> r = (Inr (), snd r)"
  by (cases r) (auto split: sum.splits)

lemma ex_queue_facts:
  "let claimed = queue_op_run 1 ex_claim ex_queue; q = snd claimed; reconciled = queue_op_run 2 ex_reconcile q in
   (case fst claimed of Inl e \<Rightarrow> False | Inr u \<Rightarrow> True) \<and> (case fst reconciled of Inl e \<Rightarrow> False | Inr u \<Rightarrow> True) \<and>
   lq_version ex_queue = 1 \<and> lq_version q = 2 \<and> 0 < length (lq_items q) \<and>
   li_status (lq_items q ! 0) \<noteq> ItemSucceeded \<and> li_status (lq_items (snd reconciled) ! 0) = ItemSucceeded"
  by code_simp

lemma ex_claimed: "queue_op_run 1 ex_claim ex_queue = (Inr (), ex_claimed)"
  unfolding ex_claimed_def by (rule inr_unit) (use ex_queue_facts in \<open>simp add: Let_def\<close>)

lemma ex_reconciled: "queue_op_run 2 ex_reconcile ex_claimed = (Inr (), ex_reconciled)"
  unfolding ex_reconciled_def by (rule inr_unit) (use ex_queue_facts in \<open>simp add: ex_claimed_def Let_def\<close>)

lemma items_le_trans:
  "list_all2 item_le xs ys \<Longrightarrow> list_all2 item_le ys zs \<Longrightarrow> list_all2 item_le xs zs"
  by (rule list_all2_trans [of item_le item_le item_le]) (blast intro: item_le_trans)+

lemma queue_exec_items:
  assumes "queue_ok q"
  shows "list_all2 item_le (lq_items q) (lq_items (queue_exec q e))"
  using assms queue_op_step(1) [OF assms, of "fst e" "snd e"]
  by (auto simp: queue_exec_def queue_commit_def items_step_def list_all2_refl split: prod.splits sum.splits)

lemma queue_run_items:
  "queue_ok q \<Longrightarrow> list_all2 item_le (lq_items q) (lq_items (run_ops queue_exec q es))"
proof (induction es arbitrary: q)
  case (Cons e es)
  have "queue_ok (queue_exec q e)" by (rule queue_machine.inv_exec [OF Cons.prems]) simp
  from items_le_trans [OF queue_exec_items [OF Cons.prems] Cons.IH [OF this]] show ?case by simp
qed (simp add: list_all2_refl)

lemma queue_run_ok: "queue_ok q \<Longrightarrow> queue_ok (run_ops queue_exec q es)"
proof -
  have "ok_ops queue_exec (\<lambda>_ _. True) s xs" for s xs
    by (induction xs arbitrary: s) auto
  then show "queue_ok q \<Longrightarrow> ?thesis" by (rule queue_machine.inv_run [rotated])
qed

lemma update_first_nth:
  "i < length xs \<Longrightarrow> update_first p f xs ! i = xs ! i \<or> (p (xs ! i) \<and> update_first p f xs ! i = f (xs ! i))"
proof (induction xs arbitrary: i)
  case (Cons x xs)
  then show ?case by (cases i) auto
qed simp

text \<open>C27: from its creation on, and through every sequence of actions, claims and failure
  reports, a login queue has at most one current item, an item carries an operation and an
  owner exactly while it is current, rows and accounts are never duplicated or reordered, the
  queue is completed exactly when every item has succeeded or been skipped, attempts never
  decrease, and settled items never change.\<close>

theorem login_queue_stays_well_formed:
  assumes "login_queue_new scope queue_id import_key selections at = Inr q"
  shows "queue_ok (run_ops queue_exec q es) \<and>
    list_all2 item_le (lq_items (run_ops queue_exec q es)) (lq_items (run_ops queue_exec (run_ops queue_exec q es) es'))"
  using queue_run_ok [OF new_queue_ok(1) [OF assms]] queue_run_items by blast

theorem login_queue_stays_well_formed_witness:
  "queue_ok (run_ops queue_exec ex_queue [(1, ex_claim), (2, ex_reconcile)])"
  using ex_queue_new login_queue_stays_well_formed by blast

text \<open>C29: optimistic versions: once one writer has changed the queue, a second writer holding
  the version the first one read is refused with a conflict, whatever either wants to do.\<close>

theorem login_queue_loses_no_update:
  assumes "queue_op_run v e q = (Inr u, q')" and "q' \<noteq> q"
  shows "\<exists>err. fst (queue_op_run v e' q') = Inl err \<and> err_code err = Conflict"
proof -
  have "queue_commit q v e = Some q'" using assms(1) by (simp add: queue_commit_def)
  then have "lq_version q' \<noteq> v"
    using queue_versions.commit_moves assms(2) queue_versions.commit_version by blast
  then show ?thesis
    by (cases e') (simp_all add: queue_apply_def queue_claim_def queue_pause_error_def check_version_def)
qed

theorem login_queue_loses_no_update_witness:
  "\<exists>err. fst (queue_op_run 1 ex_reconcile ex_claimed) = Inl err \<and> err_code err = Conflict"
proof (rule login_queue_loses_no_update [OF ex_claimed])
  have "lq_version ex_claimed = 2" "lq_version ex_queue = 1"
    using ex_queue_facts by (simp_all add: ex_claimed_def Let_def)
  then show "ex_claimed \<noteq> ex_queue" by auto
qed

text \<open>Which operations and actions can turn an item into a succeeded one.\<close>

lemma claim_or_pause_not_success:
  assumes "queue_claim v owner input at q = (Inr u, q') \<or> queue_pause_error v operation_id code at q = (Inr u, q')"
    and i: "i < length (lq_items q)" and after: "li_status (lq_items q' ! i) = ItemSucceeded"
  shows "li_status (lq_items q ! i) = ItemSucceeded"
proof -
  note upd = update_first_nth [OF i]
  from assms(1) obtain p f where items: "lq_items q' = update_first p f (lq_items q)"
    and f: "\<And>x. li_status (f x) = ItemCurrent \<or> li_status (f x) = li_status x"
    by (auto simp: queue_claim_def queue_pause_error_def Let_def split: result_splits if_splits)
  show ?thesis using upd [of p f] f [of "lq_items q ! i"] after items by auto
qed

lemma action_success:
  assumes "queue_action action operation q = (Inr u, q')" and i: "i < length (lq_items q)"
    and before: "li_status (lq_items q ! i) \<noteq> ItemSucceeded" and after: "li_status (lq_items q' ! i) = ItemSucceeded"
  shows "is_current (lq_items q ! i) \<and> (\<exists>op. operation = Some op \<and> bo_state op = Disposed \<and> bo_login_verified_at op \<noteq> None)"
proof -
  note upd = update_first_nth [OF i]
  show ?thesis
  proof (cases "action = RetryCurrent \<or> action = SkipCurrent")
    case True
    with assms(1) obtain f where "lq_items q' = update_first is_current f (lq_items q)"
      and "\<And>x. li_status (f x) \<noteq> ItemSucceeded"
      by (auto simp: queue_action_def retry_or_skip_def Let_def split: if_splits option.splits)
    with upd [of is_current f] before after show ?thesis by auto
  next
    case False
    with assms(1) have items: "lq_items q' = lq_items (reconcile_item operation q)"
      by (auto simp: queue_action_def pause_or_resume_def split: if_splits option.splits)
    show ?thesis
      using items upd [of is_current "\<lambda>i. (clear_item i)\<lparr>li_status := ItemSucceeded\<rparr>"]
        upd [of is_current "\<lambda>i. i\<lparr>li_error_code := Some (lit ''login_not_completed'')\<rparr>"] before after
      by (auto simp: reconcile_item_def split: option.splits if_splits)
  qed
qed

text \<open>C28: an item succeeds only on proof: the transition to succeeded happens in an action
  that was given the disposed browser operation recorded for that item, by its identifier and
  owner, whose login had been verified.\<close>

theorem login_success_needs_verified_login:
  assumes ok: "queue_ok q" and res: "queue_op_run v e q = (Inr u, q')" and i: "i < length (lq_items q)"
    and before: "li_status (lq_items q ! i) \<noteq> ItemSucceeded" and after: "li_status (lq_items q' ! i) = ItemSucceeded"
  shows "\<exists>action op at. e = QueueApply action (Some op) at \<and> bo_state op = Disposed \<and>
    bo_login_verified_at op \<noteq> None \<and> bo_purpose op = Login \<and>
    li_operation_id (lq_items q ! i) = Some (bo_operation_id op) \<and>
    li_owner_session_id (lq_items q ! i) = Some (bs_owner_id (bo_scope op)) \<and>
    li_account_id (lq_items q ! i) = bo_account_id op"
proof (cases e)
  case (QueueApply action operation at)
  with res obtain q1 u1 where act: "queue_action action operation q = (Inr u1, q1)"
    and items: "lq_items q' = lq_items q1" and valid: "validate_current_operation q operation = Inr ()"
    by (auto simp: queue_apply_def Let_def split: result_splits if_splits prod.splits sum.splits)
  from action_success [OF act i before] after items obtain op
    where cur: "is_current (lq_items q ! i)" and op: "operation = Some op" "bo_state op = Disposed"
      "bo_login_verified_at op \<noteq> None" by auto
  from valid op obtain item where item: "queue_current q = Some item"
    by (auto simp: validate_current_operation_def split: option.splits)
  have "lq_items q ! i = item"
    by (rule current_unique [OF ok item]) (use i cur in simp_all)
  with item valid op QueueApply show ?thesis
    by (auto simp: validate_current_operation_def split: if_splits)
next
  case QueueClaim
  with res claim_or_pause_not_success [OF disjI1 i after] before show ?thesis by fastforce
next
  case QueuePauseError
  with res claim_or_pause_not_success [OF disjI2 i after] before show ?thesis by fastforce
qed

theorem login_success_needs_verified_login_witness:
  "\<exists>action op at. ex_reconcile = QueueApply action (Some op) at \<and> bo_state op = Disposed \<and>
    bo_login_verified_at op \<noteq> None \<and> bo_purpose op = Login \<and>
    li_operation_id (lq_items ex_claimed ! 0) = Some (bo_operation_id op) \<and>
    li_owner_session_id (lq_items ex_claimed ! 0) = Some (bs_owner_id (bo_scope op)) \<and>
    li_account_id (lq_items ex_claimed ! 0) = bo_account_id op"
proof (rule login_success_needs_verified_login [OF _ ex_reconciled])
  show "queue_ok ex_claimed"
    using queue_op_step(2) [OF _ ex_claimed] ex_queue_new new_queue_ok(1) by blast
  show "0 < length (lq_items ex_claimed)" "li_status (lq_items ex_claimed ! 0) \<noteq> ItemSucceeded"
    "li_status (lq_items ex_reconciled ! 0) = ItemSucceeded"
    using ex_queue_facts by (simp_all add: ex_claimed_def ex_reconciled_def Let_def)
qed

end
