(* ===== verification/Knowledge_Types.thy ===== *)
theory Knowledge_Types
  imports Platform
begin

text \<open>
  The evidence chunks of \<open>crates/domain/src/knowledge/mod.rs\<close>, which every parser of the
  knowledge module produces, and the outcome of code that may panic.

  A function that can reach a failing \<open>assert!\<close> or \<open>expect\<close> returns an \<open>'a outcome\<close>: \<open>None\<close> is
  the panic, \<open>Some r\<close> an ordinary return of the \<open>Result\<close> \<open>r\<close>.
\<close>

type_synonym i32 = "32 word"
type_synonym f32_bits = "32 word"

type_synonym 'a outcome = "'a result option"

definition obind :: "'a outcome \<Rightarrow> ('a \<Rightarrow> 'b outcome) \<Rightarrow> 'b outcome" where
  "obind m k = (case m of None \<Rightarrow> None | Some (Inl e) \<Rightarrow> Some (Inl e) | Some (Inr x) \<Rightarrow> k x)"

lemma obind_simps [simp]:
  "obind None k = None" "obind (Some (Inl e)) k = Some (Inl e)" "obind (Some (Inr x)) k = k x"
  by (simp_all add: obind_def)

lemma obind_eq_Inr: "obind m k = Some (Inr y) \<longleftrightarrow> (\<exists>x. m = Some (Inr x) \<and> k x = Some (Inr y))"
  by (auto simp: obind_def split: option.split sum.split)

lemma obind_eq_None: "obind m k = None \<longleftrightarrow> m = None \<or> (\<exists>x. m = Some (Inr x) \<and> k x = None)"
  by (auto simp: obind_def split: option.split sum.split)

definition returns :: "'a outcome \<Rightarrow> bool" where
  "returns m \<longleftrightarrow> m \<noteq> None"

lemma returns_simps [simp]: "returns (Some r)" "\<not> returns None"
  by (simp_all add: returns_def)

lemma returns_obind: "returns m \<Longrightarrow> (\<And>x. m = Some (Inr x) \<Longrightarrow> returns (k x)) \<Longrightarrow> returns (obind m k)"
  by (auto simp: returns_def obind_def split: option.split sum.split)

lemma obind_assoc: "obind (obind m f) g = obind m (\<lambda>x. obind (f x) g)"
  by (simp add: obind_def split: option.split sum.split)

datatype chunk_kind = ChunkParagraph | ChunkTable | ChunkImageDescription

datatype chunk_locator =
    LocText (lt_start_line: u32) (lt_end_line: u32) (lt_start_char: u32) (lt_end_char: u32)
  | LocWeb (lw_snapshot_object_id: uuid) (lw_original_url: str) (lw_selector: "str option")
      (lw_start_char: "u32 option") (lw_end_char: "u32 option")
  | LocPdf (lp_page: u32) (lp_bbox: "i32 list option") (lp_ocr: bool) (lp_start_char: "u32 option")
      (lp_end_char: "u32 option")
  | LocDocx (ld_heading_path: "str list") (ld_paragraph_index: u32) (ld_body_element_index: "u32 option")
      (ld_table_index: "u32 option") (ld_table_row: "u32 option") (ld_table_column: "u32 option")
      (ld_table_row_span: "u32 option") (ld_table_col_span: "u32 option") (ld_table_merged: "bool option")
      (ld_start_char: "u32 option") (ld_end_char: "u32 option")
  | LocXlsx (lx_sheet: str) (lx_range: str) (lx_header_range: "str option") (lx_cell_kind: "str option")
      (lx_display_value: "str option") (lx_formula: "str option") (lx_cached_kind: "str option")
      (lx_cached_value: "str option") (lx_merged_range: "str option") (lx_start_char: "u32 option")
      (lx_end_char: "u32 option")
  | LocCsv (lc_start_row: u32) (lc_end_row: u32) (lc_start_column: u32) (lc_end_column: u32)
      (lc_header_row: "u32 option") (lc_start_char: "u32 option") (lc_end_char: "u32 option")
  | LocManual

record chunk =
  ck_chunk_id :: uuid
  ck_operator_id :: operator_id
  ck_tenant_id :: tenant_id
  ck_project_id :: project_id
  ck_source_version_id :: uuid
  ck_ordinal :: i32
  ck_kind :: chunk_kind
  ck_text :: str
  ck_text_hash :: str
  ck_locator :: chunk_locator
  ck_product_ids :: "uuid list"
  ck_market :: "str option"
  ck_language :: "str option"
  ck_extraction_method :: str
  ck_confidence :: f32_bits

text \<open>The bit pattern of the \<open>f32\<close> literal \<open>1.0\<close>.\<close>

definition f32_one :: f32_bits where
  "f32_one = 0x3F800000"

text \<open>The UTF-8 encoding, byte by byte, as \<open>str::bytes\<close> yields it.\<close>

definition utf8_char :: "nat \<Rightarrow> nat list" where
  "utf8_char c =
     (if c < 128 then [c]
      else if c < 2048 then [192 + c div 64, 128 + c mod 64]
      else if c < 65536 then [224 + c div 4096, 128 + c div 64 mod 64, 128 + c mod 64]
      else [240 + c div 262144, 128 + c div 4096 mod 64, 128 + c div 64 mod 64, 128 + c mod 64])"

definition utf8_bytes :: "str \<Rightarrow> nat list" where
  "utf8_bytes s = concat (map utf8_char s)"

lemma length_utf8_char [simp]: "length (utf8_char c) = utf8_width c"
  by (simp add: utf8_char_def utf8_width_def)

lemma length_utf8_bytes [simp]: "length (utf8_bytes s) = byte_len s"
  by (simp add: utf8_bytes_def byte_len_def length_concat comp_def)

lemma utf8_bytes_append [simp]: "utf8_bytes (s @ t) = utf8_bytes s @ utf8_bytes t"
  by (simp add: utf8_bytes_def)

lemma byte_len_append [simp]: "byte_len (s @ t) = byte_len s + byte_len t"
  by (simp add: byte_len_def)

lemma byte_len_le: "byte_len s \<le> 4 * length s"
  by (induction s) (auto simp: byte_len_def utf8_width_def)

lemma byte_len_ge: "length s \<le> byte_len s"
  by (induction s) (auto simp: byte_len_def utf8_width_def)

end
