(* ===== verification/Csv_Ingestion.thy ===== *)
theory Csv_Ingestion
  imports Knowledge_Types
begin

text \<open>
  \<open>crates/domain/src/knowledge/knowledge_csv.rs\<close>: bounded ingestion of a CSV table. A lexical
  guard enforces strict quoting, the csv crate decodes the records, each data record becomes
  one chunk, and a record too long to be quoted is also cut into bounded evidence slices.

  Parameters: \<open>records\<close> is the iterator of the csv crate over the text, \<open>render\<close> the compact
  printer of \<open>serde_json\<close>, \<open>sha\<close> is \<open>sha256_hex\<close> of the text's bytes. Every chunk draws one
  UUID.
\<close>

definition max_columns :: nat where "max_columns = 256"
definition max_data_rows :: nat where "max_data_rows = 10000"
definition max_cell_bytes :: nat where "max_cell_bytes = 256 * 1024"
definition max_chunk_text_bytes :: nat where "max_chunk_text_bytes = 32 * 1024 * 1024"
definition max_slice_bytes :: nat where "max_slice_bytes = 32 * 1024 * 1024"
definition max_quote_chars :: nat where "max_quote_chars = 1600"
definition slice_method :: str where "slice_method = lit ''deterministic_csv_evidence_v1''"

section \<open>The lexical guard\<close>

datatype csv_state = CsvStart | CsvBare | CsvQuoted | CsvClosed

text \<open>The bytes of the quote, the comma, the carriage return and the line feed.\<close>

definition csv_quote :: nat where "csv_quote = 34"

definition csv_separator :: "nat \<Rightarrow> bool" where
  "csv_separator b \<longleftrightarrow> b = 44 \<or> b = 13 \<or> b = 10"

text \<open>The loop over the bytes with its three variables.\<close>

fun csv_scan :: "csv_state \<Rightarrow> nat \<Rightarrow> nat \<Rightarrow> nat list \<Rightarrow> csv_state result" where
  "csv_scan state columns cell_bytes [] = Inr state"
| "csv_scan state columns cell_bytes (b # bs) =
     (let next = (\<lambda>state columns cell_bytes.
        if cell_bytes + 1 > max_cell_bytes then Inl (invalid_request (lit ''CSV cell exceeds 256 KiB''))
        else csv_scan state columns (cell_bytes + 1) bs) in
      if state = CsvStart \<and> b = csv_quote then next CsvQuoted columns cell_bytes
      else if state = CsvBare \<and> b = csv_quote
      then Inl (invalid_request (lit ''CSV quote inside an unquoted field''))
      else if state = CsvQuoted \<and> b = csv_quote then next CsvClosed columns cell_bytes
      else if state = CsvQuoted then next CsvQuoted columns cell_bytes
      else if state = CsvClosed \<and> b = csv_quote then next CsvQuoted columns cell_bytes
      else if csv_separator b then
        (if b = 44 then
           (if columns + 1 > max_columns then Inl (invalid_request (lit ''CSV exceeds 256 columns''))
            else next CsvStart (columns + 1) 0)
         else next CsvStart 1 0)
      else if state = CsvClosed
      then Inl (invalid_request (lit ''CSV has text after a closing quote''))
      else next CsvBare columns cell_bytes)"

definition validate_csv :: "nat list \<Rightarrow> unit result" where
  "validate_csv text =
     rbind (csv_scan CsvStart 1 0 text) (\<lambda>state.
       if state = CsvQuoted then Inl (invalid_request (lit ''CSV has an unterminated quoted field''))
       else Inr ())"

section \<open>Chunks\<close>

definition checked_add_usize :: "nat \<Rightarrow> nat \<Rightarrow> nat option" where
  "checked_add_usize a b = (if a + b < 2 ^ 64 then Some (a + b) else None)"

definition csv_chunk ::
  "(str \<Rightarrow> str) \<Rightarrow> draws \<Rightarrow> tenant_scope \<Rightarrow> uuid \<Rightarrow> project_id \<Rightarrow> nat \<Rightarrow> str \<Rightarrow> chunk_locator \<Rightarrow> str \<Rightarrow> chunk" where
  "csv_chunk sha d scope version project n text locator extraction =
     \<lparr>ck_chunk_id = uuid_at d n, ck_operator_id = ts_operator_id scope,
      ck_tenant_id = ts_tenant_id scope, ck_project_id = project, ck_source_version_id = version,
      ck_ordinal = of_nat n, ck_kind = ChunkTable, ck_text = text, ck_text_hash = sha text,
      ck_locator = locator, ck_product_ids = [], ck_market = None, ck_language = None,
      ck_extraction_method = extraction, ck_confidence = f32_one\<rparr>"

definition append_chunk ::
  "(str \<Rightarrow> str) \<Rightarrow> draws \<Rightarrow> tenant_scope \<Rightarrow> uuid \<Rightarrow> str \<Rightarrow> chunk_locator \<Rightarrow> str \<Rightarrow> chunk list \<times> nat \<Rightarrow>
     (chunk list \<times> nat) outcome" where
  "append_chunk sha d scope version text locator extraction st = (case st of (chunks, slice_bytes) \<Rightarrow>
     obind (Some (if extraction = slice_method
         then ok_or (case checked_add_usize slice_bytes (byte_len text) of
                None \<Rightarrow> None | Some used \<Rightarrow> if used \<le> max_slice_bytes then Some used else None)
              (invalid_request (lit ''CSV generation slices exceed 32 MiB''))
         else Inr slice_bytes)) (\<lambda>used.
     case ts_project_id scope of
       None \<Rightarrow> None
     | Some project \<Rightarrow> Some (Inr
         (chunks @ [csv_chunk sha d scope version project (length chunks) text locator extraction], used))))"

definition csv_locator :: "u32 \<Rightarrow> u32 \<Rightarrow> u32 \<Rightarrow> (u32 \<times> u32) option \<Rightarrow> chunk_locator" where
  "csv_locator row first_column last_column span =
     LocCsv row row first_column last_column (Some 1) (map_option fst span) (map_option snd span)"

definition json_headers :: "str list \<Rightarrow> json" where
  "json_headers hs = JObj [(lit ''headers'', JArr (map JStr hs))]"

definition json_values :: "str list \<Rightarrow> json" where
  "json_values vs = JObj [(lit ''values'', JArr (map JStr vs))]"

definition json_row :: "str list \<Rightarrow> str list \<Rightarrow> json" where
  "json_row hs vs = JObj [(lit ''headers'', JArr (map JStr hs)), (lit ''values'', JArr (map JStr vs))]"

section \<open>Splitting an oversized cell\<close>

definition span_text :: "(json \<Rightarrow> str) \<Rightarrow> u32 \<Rightarrow> str option \<Rightarrow> str \<Rightarrow> str" where
  "span_text render row header fragment = (case header of
       Some h \<Rightarrow> render (json_row [h] [fragment])
     | None \<Rightarrow> if row = 1 then render (json_headers [fragment]) else render (json_values [fragment]))"

text \<open>The inner loop: the fragment is halved until its quote fits; \<open>None\<close> is the failed
  \<open>assert!\<close>.\<close>

function fit_fragment :: "(str \<Rightarrow> str) \<Rightarrow> str \<Rightarrow> nat \<Rightarrow> (nat \<times> str) option" where
  "fit_fragment quote remaining end_index =
     (let text = quote (take end_index remaining) in
      if length text \<le> max_quote_chars then Some (end_index, text)
      else if end_index div 2 = 0 then None
      else fit_fragment quote remaining (end_index div 2))"
  by auto
termination by (relation "measure (\<lambda>(_, _, n). n)") auto

declare fit_fragment.simps [simp del]

lemma fit_fragment_Some:
  "fit_fragment quote remaining n = Some (k, text) \<Longrightarrow> 0 < n \<Longrightarrow>
     0 < k \<and> k \<le> n \<and> text = quote (take k remaining) \<and> length text \<le> max_quote_chars"
proof (induction quote remaining n rule: fit_fragment.induct)
  case (1 quote remaining n)
  from 1(2) have step: "(let t = quote (take n remaining) in
      if length t \<le> max_quote_chars then Some (n, t)
      else if n div 2 = 0 then None else fit_fragment quote remaining (n div 2)) = Some (k, text)"
    by (subst (asm) fit_fragment.simps)
  show ?case
  proof (cases "length (quote (take n remaining)) \<le> max_quote_chars")
    case True
    with step 1(3) show ?thesis by auto
  next
    case False
    with step have "n div 2 \<noteq> 0" and "fit_fragment quote remaining (n div 2) = Some (k, text)"
      by (auto split: if_splits)
    with 1(1) [OF refl False] show ?thesis by fastforce
  qed
qed

lemma obind_cong [fundef_cong]:
  "m = m' \<Longrightarrow> (\<And>x. m' = Some (Inr x) \<Longrightarrow> k x = k' x) \<Longrightarrow> obind m k = obind m' k'"
  by (auto simp: obind_def split: option.split sum.split)

text \<open>The outer loop over the cell. \<open>remaining\<close> is the cell from \<open>byte_start\<close> on, so a fragment
  of its first characters is the slice up to \<open>indices[end_index]\<close>.\<close>

function cell_spans ::
  "(json \<Rightarrow> str) \<Rightarrow> (str \<Rightarrow> str) \<Rightarrow> draws \<Rightarrow> tenant_scope \<Rightarrow> uuid \<Rightarrow> u32 \<Rightarrow> u32 \<Rightarrow> str option \<Rightarrow>
     str \<Rightarrow> u32 \<Rightarrow> chunk list \<times> nat \<Rightarrow> (chunk list \<times> nat) outcome" where
  "cell_spans render sha d scope version row column header remaining char_start st =
     (if remaining = [] then Some (Inr st)
      else case fit_fragment (span_text render row header) remaining (min (length remaining) max_quote_chars) of
        None \<Rightarrow> None
      | Some (end_index, text) \<Rightarrow>
          let char_end = char_start + of_nat end_index in
          obind (append_chunk sha d scope version text
              (csv_locator row column column (Some (char_start, char_end))) slice_method st)
            (\<lambda>st'. cell_spans render sha d scope version row column header (drop end_index remaining) char_end st'))"
  by auto
termination
  by (relation "measure (\<lambda>(_, _, _, _, _, _, _, _, remaining, _, _). length remaining)")
    (auto dest!: fit_fragment_Some simp: max_quote_chars_def)

declare cell_spans.simps [simp del]

definition append_cell_spans ::
  "(json \<Rightarrow> str) \<Rightarrow> (str \<Rightarrow> str) \<Rightarrow> draws \<Rightarrow> tenant_scope \<Rightarrow> uuid \<Rightarrow> u32 \<times> u32 \<Rightarrow> str \<Rightarrow> str option \<Rightarrow>
     chunk list \<times> nat \<Rightarrow> (chunk list \<times> nat) outcome" where
  "append_cell_spans render sha d scope version location cell header st = (case location of (row, column) \<Rightarrow>
     obind (cell_spans render sha d scope version row column header cell 0 st) (\<lambda>st'.
       if cell = [] then
         append_chunk sha d scope version (if row = 1 then render (json_headers [[]]) else render (json_values [[]]))
           (csv_locator row column column (Some (0, 0))) slice_method st'
       else Some (Inr st')))"

section \<open>Generation slices of one record\<close>

definition flush_group ::
  "(json \<Rightarrow> str) \<Rightarrow> (str \<Rightarrow> str) \<Rightarrow> draws \<Rightarrow> tenant_scope \<Rightarrow> uuid \<Rightarrow> u32 \<Rightarrow> u32 \<Rightarrow> str list \<Rightarrow> str list \<Rightarrow>
     chunk list \<times> nat \<Rightarrow> (chunk list \<times> nat) outcome" where
  "flush_group render sha d scope version row first_column headers vals st =
     (if headers = [] then Some (Inr st)
      else append_chunk sha d scope version (render (json_row headers vals))
        (csv_locator row first_column (first_column + of_nat (length headers) - 1) None) slice_method st)"

definition quote_len :: "(json \<Rightarrow> str) \<Rightarrow> str list \<Rightarrow> str list \<Rightarrow> nat" where
  "quote_len render hs vs = length (render (json_row hs vs))"

definition short_header :: "(json \<Rightarrow> str) \<Rightarrow> str \<Rightarrow> str option" where
  "short_header render header =
     (if length header \<le> 128 \<and> quote_len render [header] [[0]] \<le> max_quote_chars then Some header else None)"

fun slices_loop ::
  "(json \<Rightarrow> str) \<Rightarrow> (str \<Rightarrow> str) \<Rightarrow> draws \<Rightarrow> tenant_scope \<Rightarrow> uuid \<Rightarrow> u32 \<Rightarrow> nat \<Rightarrow> (str \<times> str) list \<Rightarrow>
     u32 \<Rightarrow> str list \<Rightarrow> str list \<Rightarrow> chunk list \<times> nat \<Rightarrow> (chunk list \<times> nat) outcome" where
  "slices_loop render sha d scope version row index [] first_column gh gv st =
     flush_group render sha d scope version row first_column gh gv st"
| "slices_loop render sha d scope version row index ((header, val) # rest) first_column gh gv st =
     (if quote_len render (gh @ [header]) (gv @ [val]) \<le> max_quote_chars
      then slices_loop render sha d scope version row (index + 1) rest first_column (gh @ [header]) (gv @ [val]) st
      else obind (flush_group render sha d scope version row first_column gh gv st) (\<lambda>st1.
        let column = of_nat index + 1;
            short = short_header render header
        in if quote_len render [header] [val] \<le> max_quote_chars
           then slices_loop render sha d scope version row (index + 1) rest column [header] [val] st1
           else
             obind (if short = None
                 then append_cell_spans render sha d scope version (1, column) header None st1
                 else Some (Inr st1)) (\<lambda>st2.
             obind (append_cell_spans render sha d scope version (row, column) val short st2) (\<lambda>st3.
               slices_loop render sha d scope version row (index + 1) rest (column + 1) [] [] st3))))"

definition append_generation_slices ::
  "(json \<Rightarrow> str) \<Rightarrow> (str \<Rightarrow> str) \<Rightarrow> draws \<Rightarrow> tenant_scope \<Rightarrow> uuid \<Rightarrow> u32 \<Rightarrow> str list \<Rightarrow> str list \<Rightarrow>
     chunk list \<times> nat \<Rightarrow> (chunk list \<times> nat) outcome" where
  "append_generation_slices render sha d scope version row headers vals st =
     slices_loop render sha d scope version row 0 (zip headers vals) 1 [] [] st"

section \<open>The import\<close>

definition csv_rows_method :: str where "csv_rows_method = lit ''deterministic_csv_v1''"

text \<open>The loop over the data records; \<open>text_bytes\<close> counts the bytes of the whole rows.\<close>

fun csv_rows ::
  "(json \<Rightarrow> str) \<Rightarrow> (str \<Rightarrow> str) \<Rightarrow> draws \<Rightarrow> tenant_scope \<Rightarrow> uuid \<Rightarrow> str list \<Rightarrow> nat \<Rightarrow>
     (unit + str list) list \<Rightarrow> nat \<Rightarrow> chunk list \<times> nat \<Rightarrow> (chunk list \<times> nat) outcome" where
  "csv_rows render sha d scope version headers data_rows [] text_bytes st = Some (Inr st)"
| "csv_rows render sha d scope version headers data_rows (Inl e # records) text_bytes st =
     Some (Inl (invalid_request (lit ''CSV records must match the header width'')))"
| "csv_rows render sha d scope version headers data_rows (Inr vals # records) text_bytes st =
     (if data_rows \<ge> max_data_rows
      then Some (Inl (invalid_request (lit ''CSV exceeds 10000 data records'')))
      else
        let text = render (json_row headers vals); used = text_bytes + byte_len text; row = of_nat data_rows + 2 in
        if used > max_chunk_text_bytes
        then Some (Inl (invalid_request (lit ''CSV chunk text exceeds 32 MiB'')))
        else
          obind (append_chunk sha d scope version text (csv_locator row 1 (of_nat (length headers)) None)
              csv_rows_method st) (\<lambda>st1.
          obind (if length text > max_quote_chars
              then append_generation_slices render sha d scope version row headers vals st1
              else Some (Inr st1)) (\<lambda>st2.
            csv_rows render sha d scope version headers (data_rows + 1) records used st2)))"

definition csv_chunks ::
  "(str \<Rightarrow> (unit + str list) list) \<Rightarrow> (json \<Rightarrow> str) \<Rightarrow> (str \<Rightarrow> str) \<Rightarrow> draws \<Rightarrow> tenant_scope \<Rightarrow> uuid \<Rightarrow>
     str \<Rightarrow> chunk list outcome" where
  "csv_chunks records render sha d scope version text =
     obind (Some (validate_csv (utf8_bytes (case strip_prefix [65279] text of None \<Rightarrow> text | Some t \<Rightarrow> t)))) (\<lambda>_.
     obind (Some (ok_or (ts_project_id scope) (invalid_request (lit ''CSV import requires a project scope'')))) (\<lambda>_.
     case records text of
       [] \<Rightarrow> Some (Inl (invalid_request (lit ''CSV requires a header and data records'')))
     | Inl _ # _ \<Rightarrow> Some (Inl (invalid_request (lit ''CSV header is invalid'')))
     | Inr headers # rest \<Rightarrow>
         obind (csv_rows render sha d scope version headers 0 rest 0 ([], 0)) (\<lambda>(chunks, _).
           if chunks = [] then Some (Inl (invalid_request (lit ''CSV requires at least one data record'')))
           else Some (Inr chunks))))"

end
