(* ===== verification/Csv_Grammar.thy ===== *)
theory Csv_Grammar
  imports Csv_Ingestion
begin

text \<open>
  The language the lexical guard accepts, stated without the automaton: fields that are bare
  or quoted with doubled quotes, joined by separators, within the bounds on columns and cells.
\<close>

fun double_quotes :: "nat list \<Rightarrow> nat list" where
  "double_quotes [] = []"
| "double_quotes (b # bs) = (if b = csv_quote then [csv_quote, csv_quote] else [b]) @ double_quotes bs"

definition bare_field :: "nat list \<Rightarrow> bool" where
  "bare_field f \<longleftrightarrow> (\<forall>b\<in>set f. b \<noteq> csv_quote \<and> \<not> csv_separator b)"

definition quoted_tail :: "nat list \<Rightarrow> bool" where
  "quoted_tail f \<longleftrightarrow> (\<exists>body. f = double_quotes body @ [csv_quote])"

definition csv_field :: "nat list \<Rightarrow> bool" where
  "csv_field f \<longleftrightarrow> bare_field f \<or> (\<exists>body. f = csv_quote # double_quotes body @ [csv_quote])"

text \<open>The fields after the first, each with the separator before it; a comma adds a column to
  the record, a line end starts a new one. Empty records, which the decoder ignores, count.\<close>

fun fields_ok :: "nat \<Rightarrow> (nat \<times> nat list) list \<Rightarrow> bool" where
  "fields_ok columns [] \<longleftrightarrow> True"
| "fields_ok columns ((sep, f) # rest) \<longleftrightarrow> csv_separator sep \<and> csv_field f \<and> length f < max_cell_bytes \<and>
     (let columns' = (if sep = 44 then columns + 1 else 1) in columns' \<le> max_columns \<and> fields_ok columns' rest)"

definition join_fields :: "nat list \<Rightarrow> (nat \<times> nat list) list \<Rightarrow> nat list" where
  "join_fields f rest = f @ concat (map (\<lambda>(sep, g). sep # g) rest)"

text \<open>What is left of a field when the automaton is in a given state.\<close>

fun field_rest :: "csv_state \<Rightarrow> nat list \<Rightarrow> bool" where
  "field_rest CsvStart f = csv_field f"
| "field_rest CsvBare f = bare_field f"
| "field_rest CsvQuoted f = quoted_tail f"
| "field_rest CsvClosed f = (f = [] \<or> (\<exists>g. f = csv_quote # g \<and> quoted_tail g))"

text \<open>The state after a byte inside a field.\<close>

fun field_step :: "csv_state \<Rightarrow> nat \<Rightarrow> csv_state option" where
  "field_step CsvStart b = (if b = csv_quote then Some CsvQuoted else if csv_separator b then None else Some CsvBare)"
| "field_step CsvBare b = (if b = csv_quote \<or> csv_separator b then None else Some CsvBare)"
| "field_step CsvQuoted b = (if b = csv_quote then Some CsvClosed else Some CsvQuoted)"
| "field_step CsvClosed b = (if b = csv_quote then Some CsvQuoted else None)"

declare csv_scan.simps(2) [simp del]

lemma quote_no_separator [simp]: "\<not> csv_separator csv_quote"
  by (simp add: csv_separator_def csv_quote_def)

lemma quoted_tail_Nil [simp]: "\<not> quoted_tail []"
  by (simp add: quoted_tail_def)

lemma quoted_tail_Cons:
  "quoted_tail (b # f) \<longleftrightarrow>
     (if b = csv_quote then f = [] \<or> (\<exists>g. f = csv_quote # g \<and> quoted_tail g) else quoted_tail f)"
proof
  assume "quoted_tail (b # f)"
  then obtain body where body: "b # f = double_quotes body @ [csv_quote]" by (auto simp: quoted_tail_def)
  then show "if b = csv_quote then f = [] \<or> (\<exists>g. f = csv_quote # g \<and> quoted_tail g) else quoted_tail f"
    by (cases body) (auto simp: quoted_tail_def split: if_splits)
next
  assume R: "if b = csv_quote then f = [] \<or> (\<exists>g. f = csv_quote # g \<and> quoted_tail g) else quoted_tail f"
  show "quoted_tail (b # f)"
  proof (cases "b = csv_quote \<and> f = []")
    case True
    then have "b # f = double_quotes [] @ [csv_quote]" by simp
    then show ?thesis unfolding quoted_tail_def by blast
  next
    case False
    with R obtain g body where g: "g = double_quotes body @ [csv_quote]"
      and f: "f = (if b = csv_quote then csv_quote # g else g)"
      by (auto simp: quoted_tail_def split: if_splits)
    then have "b # f = double_quotes (b # body) @ [csv_quote]" by simp
    then show ?thesis unfolding quoted_tail_def by blast
  qed
qed

lemma csv_field_quote: "csv_field (csv_quote # f) \<longleftrightarrow> quoted_tail f"
  by (auto simp: csv_field_def bare_field_def quoted_tail_def)

lemma csv_field_Cons: "b \<noteq> csv_quote \<Longrightarrow> csv_field (b # f) \<longleftrightarrow> \<not> csv_separator b \<and> bare_field f"
  by (auto simp: csv_field_def bare_field_def)

lemma field_rest_Nil: "field_rest s [] \<longleftrightarrow> s \<noteq> CsvQuoted"
  by (cases s) (simp_all add: csv_field_def bare_field_def)

lemma field_rest_Cons:
  "field_rest s (b # f) \<longleftrightarrow> (case field_step s b of None \<Rightarrow> False | Some s' \<Rightarrow> field_rest s' f)"
  by (cases s; cases "b = csv_quote")
     (auto simp: csv_field_quote csv_field_Cons quoted_tail_Cons bare_field_def)

text \<open>One byte of the guard.\<close>

lemma csv_scan_field:
  "field_step s b = Some s' \<Longrightarrow> csv_scan s n k (b # bs) =
     (if k + 1 > max_cell_bytes then Inl (invalid_request (lit ''CSV cell exceeds 256 KiB''))
      else csv_scan s' n (k + 1) bs)"
  by (cases s) (auto simp: csv_scan.simps Let_def split: if_splits)

lemma csv_scan_separator:
  "field_step s b = None \<Longrightarrow> (\<exists>s'. csv_scan s n k (b # bs) = Inr s') \<Longrightarrow>
     csv_separator b \<and> s \<noteq> CsvQuoted \<and> (b = 44 \<longrightarrow> n + 1 \<le> max_columns)"
  by (cases s) (auto simp: csv_scan.simps Let_def split: if_splits)

lemma csv_scan_next:
  "csv_separator b \<Longrightarrow> s \<noteq> CsvQuoted \<Longrightarrow> (b = 44 \<Longrightarrow> n + 1 \<le> max_columns) \<Longrightarrow>
     csv_scan s n k (b # bs) = csv_scan CsvStart (if b = 44 then n + 1 else 1) 1 bs"
  by (cases s) (auto simp: csv_scan.simps Let_def csv_separator_def csv_quote_def max_cell_bytes_def)

lemma field_step_separator: "csv_separator b \<Longrightarrow> s \<noteq> CsvQuoted \<Longrightarrow> field_step s b = None"
  by (cases s) (auto simp: csv_separator_def csv_quote_def)

definition accepts :: "csv_state \<Rightarrow> nat \<Rightarrow> nat \<Rightarrow> nat list \<Rightarrow> bool" where
  "accepts s n k bs \<longleftrightarrow> (\<exists>f rest. bs = join_fields f rest \<and> field_rest s f \<and> k + length f \<le> max_cell_bytes \<and>
     fields_ok n rest)"

lemma accepts_Nil: "k \<le> max_cell_bytes \<Longrightarrow> accepts s n k [] \<longleftrightarrow> s \<noteq> CsvQuoted"
proof -
  have "join_fields f rest = [] \<longleftrightarrow> f = [] \<and> rest = []" for f rest
    by (cases rest) (auto simp: join_fields_def split: prod.split)
  then show "k \<le> max_cell_bytes \<Longrightarrow> ?thesis"
    by (auto simp: accepts_def field_rest_Nil eq_commute [of "[]"])
qed

lemma accepts_field:
  assumes "field_step s b = Some s'"
  shows "accepts s n k (b # bs) \<longleftrightarrow> accepts s' n (k + 1) bs"
proof
  assume "accepts s n k (b # bs)"
  then obtain f rest where d: "b # bs = join_fields f rest" and f: "field_rest s f" "k + length f \<le> max_cell_bytes"
    "fields_ok n rest" by (auto simp: accepts_def)
  have "f \<noteq> []"
  proof
    assume "f = []"
    with d obtain g rest' where "rest = (b, g) # rest'" by (cases rest) (auto simp: join_fields_def)
    with f(3) have "csv_separator b" by simp
    moreover have "s \<noteq> CsvQuoted" using f(1) \<open>f = []\<close> by (simp add: field_rest_Nil)
    ultimately show False using field_step_separator assms by simp
  qed
  then obtain f' where f': "f = b # f'" using d by (cases f) (auto simp: join_fields_def)
  with d f assms have "bs = join_fields f' rest" "field_rest s' f'" "k + 1 + length f' \<le> max_cell_bytes"
    by (auto simp: join_fields_def field_rest_Cons)
  with f(3) show "accepts s' n (k + 1) bs" unfolding accepts_def by blast
next
  assume "accepts s' n (k + 1) bs"
  then obtain f rest where "bs = join_fields f rest" "field_rest s' f" "k + 1 + length f \<le> max_cell_bytes"
    "fields_ok n rest" by (auto simp: accepts_def)
  with assms have "b # bs = join_fields (b # f) rest \<and> field_rest s (b # f) \<and>
      k + length (b # f) \<le> max_cell_bytes \<and> fields_ok n rest"
    by (simp add: join_fields_def field_rest_Cons)
  then show "accepts s n k (b # bs)" unfolding accepts_def by blast
qed

lemma accepts_separator:
  assumes "field_step s b = None" and "k \<le> max_cell_bytes"
  shows "accepts s n k (b # bs) \<longleftrightarrow> csv_separator b \<and> s \<noteq> CsvQuoted \<and> (b = 44 \<longrightarrow> n + 1 \<le> max_columns) \<and>
    accepts CsvStart (if b = 44 then n + 1 else 1) 1 bs"
proof
  assume "accepts s n k (b # bs)"
  then obtain f rest where d: "b # bs = join_fields f rest" and f: "field_rest s f" "fields_ok n rest"
    by (auto simp: accepts_def)
  have "f = []"
    using d f(1) assms(1) by (cases f) (auto simp: join_fields_def field_rest_Cons)
  with d obtain g rest' where r: "rest = (b, g) # rest'" and bs: "bs = join_fields g rest'"
    by (cases rest) (auto simp: join_fields_def)
  let ?n = "if b = 44 then n + 1 else 1"
  from r f \<open>f = []\<close> have b: "csv_separator b" "s \<noteq> CsvQuoted" "b = 44 \<longrightarrow> n + 1 \<le> max_columns"
    and g: "csv_field g" "1 + length g \<le> max_cell_bytes" "fields_ok ?n rest'"
    by (auto simp: field_rest_Nil Let_def)
  from bs g have "accepts CsvStart ?n 1 bs" unfolding accepts_def field_rest.simps by blast
  with b show "csv_separator b \<and> s \<noteq> CsvQuoted \<and> (b = 44 \<longrightarrow> n + 1 \<le> max_columns) \<and>
    accepts CsvStart (if b = 44 then n + 1 else 1) 1 bs" by blast
next
  assume R: "csv_separator b \<and> s \<noteq> CsvQuoted \<and> (b = 44 \<longrightarrow> n + 1 \<le> max_columns) \<and>
    accepts CsvStart (if b = 44 then n + 1 else 1) 1 bs"
  then obtain g rest where bs: "bs = join_fields g rest" and g: "csv_field g" "1 + length g \<le> max_cell_bytes"
    "fields_ok (if b = 44 then n + 1 else 1) rest" by (auto simp: accepts_def)
  with R have "b # bs = join_fields [] ((b, g) # rest) \<and> field_rest s [] \<and> k + length [] \<le> max_cell_bytes \<and>
      fields_ok n ((b, g) # rest)"
    using assms(2) by (auto simp: join_fields_def field_rest_Nil Let_def max_columns_def)
  then show "accepts s n k (b # bs)" unfolding accepts_def by blast
qed

lemma csv_scan_accepts:
  "k \<le> max_cell_bytes \<Longrightarrow> (\<exists>s'. csv_scan s n k bs = Inr s' \<and> s' \<noteq> CsvQuoted) \<longleftrightarrow> accepts s n k bs"
proof (induction bs arbitrary: s n k)
  case Nil
  then show ?case by (simp add: accepts_Nil)
next
  case (Cons b bs)
  show ?case
  proof (cases "field_step s b")
    case None
    have one: "(1::nat) \<le> max_cell_bytes" by (simp add: max_cell_bytes_def)
    show ?thesis
    proof (cases "csv_separator b \<and> s \<noteq> CsvQuoted \<and> (b = 44 \<longrightarrow> n + 1 \<le> max_columns)")
      case True
      then have "csv_scan s n k (b # bs) = csv_scan CsvStart (if b = 44 then n + 1 else 1) 1 bs"
        by (intro csv_scan_next) blast+
      then show ?thesis
        unfolding accepts_separator [OF None Cons.prems] Cons.IH [OF one, symmetric] using True by simp
    next
      case False
      then show ?thesis
        using csv_scan_separator [OF None] by (auto simp: accepts_separator [OF None Cons.prems])
    qed
  next
    case (Some s')
    show ?thesis
    proof (cases "k + 1 \<le> max_cell_bytes")
      case True
      then show ?thesis using Cons.IH [OF True, of s' n] by (simp add: csv_scan_field [OF Some] accepts_field [OF Some])
    next
      case False
      then have "\<not> accepts s' n (k + 1) bs" by (auto simp: accepts_def)
      with False show ?thesis by (simp add: csv_scan_field [OF Some] accepts_field [OF Some])
    qed
  qed
qed

text \<open>C32: the lexical guard accepts exactly the strictly quoted tables: bytes that are fields,
  bare without quotes and separators or quoted with every inner quote doubled, joined by
  commas, carriage returns and line feeds, with at most 256 columns in every record, a first
  cell of at most 256 KiB and, because the separator before it is counted, every later cell
  of less than 256 KiB.\<close>

theorem csv_guard_accepts_exactly_strict_csv:
  "validate_csv text = Inr () \<longleftrightarrow>
     (\<exists>f rest. text = join_fields f rest \<and> csv_field f \<and> length f \<le> max_cell_bytes \<and> fields_ok 1 rest)"
proof -
  have "validate_csv text = Inr () \<longleftrightarrow> (\<exists>s'. csv_scan CsvStart 1 0 text = Inr s' \<and> s' \<noteq> CsvQuoted)"
    by (auto simp: validate_csv_def rbind_eq_Inr)
  also have "\<dots> \<longleftrightarrow> accepts CsvStart 1 0 text"
    by (rule csv_scan_accepts) simp
  finally show ?thesis by (simp add: accepts_def)
qed

end
