(* ===== verification/Csv_Properties.thy ===== *)
theory Csv_Properties
  imports Csv_Grammar
begin

text \<open>
  What an import appends, as a list of items (text, locator, extraction method): which part of
  the table every chunk quotes, and that no assertion of the import can fail.
\<close>

type_synonym csv_item = "str \<times> chunk_locator \<times> str"

section \<open>The printer\<close>

text \<open>
  The documented form of compact JSON, for the objects the import prints: no white space,
  strings in quotes with every character escaped on its own, in at most the six characters
  of \<open>\u0000\<close>.
\<close>

definition print_string :: "(nat \<Rightarrow> str) \<Rightarrow> str \<Rightarrow> str" where
  "print_string esc s = csv_quote # concat (map esc s) @ [csv_quote]"

fun print_items :: "(nat \<Rightarrow> str) \<Rightarrow> str list \<Rightarrow> str" where
  "print_items esc [] = []"
| "print_items esc [x] = print_string esc x"
| "print_items esc (x # y # zs) = print_string esc x @ 44 # print_items esc (y # zs)"

definition print_field :: "(nat \<Rightarrow> str) \<Rightarrow> str \<Rightarrow> str list \<Rightarrow> str" where
  "print_field esc key xs = csv_quote # key @ [csv_quote, 58, 91] @ print_items esc xs @ [93]"

definition compact_json :: "(nat \<Rightarrow> str) \<Rightarrow> (json \<Rightarrow> str) \<Rightarrow> bool" where
  "compact_json esc render \<longleftrightarrow> (\<forall>c. length (esc c) \<le> 6) \<and> length (esc 0) = 6 \<and>
     (\<forall>hs. render (json_headers hs) = 123 # print_field esc (lit ''headers'') hs @ [125]) \<and>
     (\<forall>vs. render (json_values vs) = 123 # print_field esc (lit ''values'') vs @ [125]) \<and>
     (\<forall>hs vs. render (json_row hs vs) =
        123 # print_field esc (lit ''headers'') hs @ 44 # print_field esc (lit ''values'') vs @ [125])"

lemma span_text_one:
  assumes "compact_json esc render" and "\<And>h. header = Some h \<Longrightarrow> quote_len render [h] [[0]] \<le> max_quote_chars"
  shows "length (span_text render row header [c]) \<le> max_quote_chars"
proof (cases header)
  case None
  with assms(1) have "length (span_text render row header [c]) \<le> 20 + length (esc c)"
    by (simp add: span_text_def compact_json_def print_field_def print_string_def)
  also have "length (esc c) \<le> 6" using assms(1) by (simp add: compact_json_def)
  finally show ?thesis by (simp add: max_quote_chars_def)
next
  case (Some h)
  have "length (esc c) \<le> length (esc 0)" using assms(1) by (simp add: compact_json_def)
  then have "length (span_text render row header [c]) \<le> quote_len render [h] [[0]]"
    using assms(1) Some
    by (simp add: span_text_def quote_len_def compact_json_def print_field_def print_string_def)
  with assms(2) [OF Some] show ?thesis by simp
qed

lemma span_text_empty:
  "compact_json esc render \<Longrightarrow> length (span_text render row None []) \<le> max_quote_chars"
  by (simp add: span_text_def compact_json_def print_field_def print_string_def max_quote_chars_def)

section \<open>Appending items\<close>

fun append_items ::
  "(str \<Rightarrow> str) \<Rightarrow> draws \<Rightarrow> tenant_scope \<Rightarrow> uuid \<Rightarrow> csv_item list \<Rightarrow> chunk list \<times> nat \<Rightarrow>
     (chunk list \<times> nat) outcome" where
  "append_items sha d scope version [] st = Some (Inr st)"
| "append_items sha d scope version ((text, locator, extraction) # xs) st =
     obind (append_chunk sha d scope version text locator extraction st) (append_items sha d scope version xs)"

lemma append_items_append:
  "append_items sha d scope version (xs @ ys) st =
     obind (append_items sha d scope version xs st) (append_items sha d scope version ys)"
proof (induction xs arbitrary: st)
  case (Cons x xs)
  then show ?case by (cases x) (simp add: obind_assoc cong: obind_cong)
qed simp

definition item_of :: "chunk \<Rightarrow> csv_item" where
  "item_of c = (ck_text c, ck_locator c, ck_extraction_method c)"

text \<open>The \<open>n\<close>-th chunk of an import: its ordinal, identifier, owner and digest.\<close>

definition stamped :: "(str \<Rightarrow> str) \<Rightarrow> draws \<Rightarrow> tenant_scope \<Rightarrow> uuid \<Rightarrow> nat \<Rightarrow> chunk \<Rightarrow> bool" where
  "stamped sha d scope version n c \<longleftrightarrow> ck_ordinal c = of_nat n \<and> ck_chunk_id c = uuid_at d n \<and>
     ck_text_hash c = sha (ck_text c) \<and> ck_source_version_id c = version \<and>
     ck_operator_id c = ts_operator_id scope \<and> ck_tenant_id c = ts_tenant_id scope \<and>
     Some (ck_project_id c) = ts_project_id scope"

definition slice_total :: "csv_item list \<Rightarrow> nat" where
  "slice_total xs = sum_list (map (\<lambda>x. byte_len (fst x)) (filter (\<lambda>x. snd (snd x) = slice_method) xs))"

lemma append_chunk_Inr:
  assumes "append_chunk sha d scope version text locator extraction st = Some (Inr st')"
  obtains p where "ts_project_id scope = Some p"
    and "fst st' = fst st @ [csv_chunk sha d scope version p (length (fst st)) text locator extraction]"
    and "snd st' = snd st + slice_total [(text, locator, extraction)]"
    and "snd st \<le> max_slice_bytes \<Longrightarrow> snd st' \<le> max_slice_bytes"
  using assms that
  by (cases st; cases "extraction = slice_method")
     (auto simp: append_chunk_def slice_total_def obind_eq_Inr checked_add_usize_def split: option.splits if_splits)

lemma append_chunk_runs: "ts_project_id scope \<noteq> None \<Longrightarrow> returns (append_chunk sha d scope version text locator extraction st)"
  by (auto simp: append_chunk_def obind_def split: prod.split option.split sum.split)

lemma append_items_Inr:
  assumes "append_items sha d scope version xs st = Some (Inr st')"
  shows "\<exists>new. fst st' = fst st @ new \<and> map item_of new = xs \<and>
      (\<forall>i<length new. stamped sha d scope version (length (fst st) + i) (new ! i)) \<and>
      snd st' = snd st + slice_total xs \<and> (snd st \<le> max_slice_bytes \<longrightarrow> snd st' \<le> max_slice_bytes)"
  using assms
proof (induction xs arbitrary: st)
  case Nil
  then show ?case by (simp add: slice_total_def)
next
  case (Cons x xs)
  obtain t locator extraction where x: "x = (t, locator, extraction)" by (cases x) auto
  with Cons.prems obtain st1 where one: "append_chunk sha d scope version t locator extraction st = Some (Inr st1)"
    and more: "append_items sha d scope version xs st1 = Some (Inr st')"
    by (auto simp: obind_eq_Inr)
  obtain p where p: "ts_project_id scope = Some p"
    and st1: "fst st1 = fst st @ [csv_chunk sha d scope version p (length (fst st)) t locator extraction]"
    and bytes: "snd st1 = snd st + slice_total [x]" "snd st \<le> max_slice_bytes \<Longrightarrow> snd st1 \<le> max_slice_bytes"
    by (rule append_chunk_Inr [OF one]) (use x in auto)
  obtain new where new: "fst st' = fst st1 @ new" "map item_of new = xs" "snd st' = snd st1 + slice_total xs"
    "snd st1 \<le> max_slice_bytes \<longrightarrow> snd st' \<le> max_slice_bytes"
    and each: "\<forall>i<length new. stamped sha d scope version (length (fst st1) + i) (new ! i)"
    using Cons.IH [OF more] by blast
  let ?c = "csv_chunk sha d scope version p (length (fst st)) t locator extraction"
  have parts: "fst st' = fst st @ ?c # new" "map item_of (?c # new) = x # xs"
    using st1 new x by (simp_all add: item_of_def csv_chunk_def)
  have stamp: "stamped sha d scope version (length (fst st) + i) ((?c # new) ! i)" if "i < length (?c # new)" for i
  proof (cases i)
    case 0
    then show ?thesis by (simp add: stamped_def csv_chunk_def p)
  next
    case (Suc j)
    with that have "j < length new" by simp
    with each have "stamped sha d scope version (length (fst st1) + j) (new ! j)" by blast
    with Suc st1 show ?thesis by simp
  qed
  have bound: "snd st' = snd st + slice_total (x # xs)" "snd st \<le> max_slice_bytes \<longrightarrow> snd st' \<le> max_slice_bytes"
    using new(3,4) bytes by (simp_all add: slice_total_def)
  show ?case
    by (rule exI [of _ "?c # new"], intro conjI allI impI) (fact parts bound(1) stamp | rule stamp bound(2) [THEN mp] | assumption)+
qed

section \<open>Spans of a cell\<close>

fun spans_of :: "u32 \<Rightarrow> str list \<Rightarrow> (u32 \<times> u32) list" where
  "spans_of k [] = []"
| "spans_of k (f # fs) = (k, k + of_nat (length f)) # spans_of (k + of_nat (length f)) fs"

definition span_items :: "(json \<Rightarrow> str) \<Rightarrow> u32 \<Rightarrow> u32 \<Rightarrow> str option \<Rightarrow> u32 \<Rightarrow> str list \<Rightarrow> csv_item list" where
  "span_items render row column header k fs =
     map (\<lambda>(f, span). (span_text render row header f, csv_locator row column column (Some span), slice_method))
       (zip fs (spans_of k fs))"

text \<open>The fragments of a cell: together the cell, in order, each quoted within the bound. An
  empty cell has one empty fragment, quoted without its header.\<close>

definition cell_cut :: "(json \<Rightarrow> str) \<Rightarrow> u32 \<Rightarrow> str option \<Rightarrow> str \<Rightarrow> str list \<Rightarrow> bool" where
  "cell_cut render row header cell fs \<longleftrightarrow> concat fs = cell \<and> (cell \<noteq> [] \<longrightarrow> [] \<notin> set fs) \<and> fs \<noteq> [] \<and>
     (\<forall>f\<in>set fs. length (span_text render row header f) \<le> max_quote_chars)"

lemma cell_spans_items:
  "cell_spans render sha d scope version row column header cell k st = Some (Inr st') \<Longrightarrow>
     \<exists>fs. concat fs = cell \<and> [] \<notin> set fs \<and>
       (\<forall>f\<in>set fs. length (span_text render row header f) \<le> max_quote_chars) \<and>
       append_items sha d scope version (span_items render row column header k fs) st = Some (Inr st')"
proof (induction "length cell" arbitrary: cell k st rule: less_induct)
  case less
  show ?case
  proof (cases "cell = []")
    case True
    then have "concat [] = cell \<and> append_items sha d scope version (span_items render row column header k []) st = Some (Inr st')"
      using less.prems by (simp add: cell_spans.simps span_items_def)
    then show ?thesis by (intro exI [of _ "[]"]) simp
  next
    case False
    then have pos: "0 < min (length cell) max_quote_chars" by (simp add: max_quote_chars_def)
    from less.prems False obtain n t st1
      where fit: "fit_fragment (span_text render row header) cell (min (length cell) max_quote_chars) = Some (n, t)"
        and one: "append_chunk sha d scope version t (csv_locator row column column (Some (k, k + of_nat n)))
          slice_method st = Some (Inr st1)"
        and more: "cell_spans render sha d scope version row column header (drop n cell) (k + of_nat n) st1 = Some (Inr st')"
      by (subst (asm) cell_spans.simps) (auto simp: obind_eq_Inr Let_def split: option.splits)
    note n = fit_fragment_Some [OF fit pos]
    have "length (drop n cell) < length cell" using n False by auto
    from less.hyps [OF this more] obtain fs where fs: "concat fs = drop n cell" "[] \<notin> set fs"
      "\<forall>f\<in>set fs. length (span_text render row header f) \<le> max_quote_chars"
      "append_items sha d scope version (span_items render row column header (k + of_nat n) fs) st1 = Some (Inr st')"
      by blast
    have len: "length (take n cell) = n" using n by auto
    have "append_items sha d scope version (span_items render row column header k (take n cell # fs)) st = Some (Inr st')"
      using one fs(4) n by (simp add: span_items_def len)
    moreover have "concat (take n cell # fs) = cell \<and> [] \<notin> set (take n cell # fs)"
      using fs(1,2) len n by auto
    ultimately show ?thesis using fs(3) n by (intro exI [of _ "take n cell # fs"]) auto
  qed
qed

lemma append_cell_spans_items:
  assumes json: "compact_json esc render"
    and res: "append_cell_spans render sha d scope version (row, column) cell header st = Some (Inr st')"
  shows "\<exists>fs. cell_cut render row (if cell = [] then None else header) cell fs \<and>
    append_items sha d scope version (span_items render row column (if cell = [] then None else header) 0 fs) st = Some (Inr st')"
proof (cases "cell = []")
  case True
  with res have "append_items sha d scope version (span_items render row column None 0 [[]]) st = Some (Inr st')"
    by (auto simp: append_cell_spans_def cell_spans.simps span_items_def span_text_def split: if_splits)
  moreover have "cell_cut render row None cell [[]]"
    using True span_text_empty [OF json] by (simp add: cell_cut_def)
  ultimately show ?thesis using True by auto
next
  case False
  with res have "cell_spans render sha d scope version row column header cell 0 st = Some (Inr st')"
    by (auto simp: append_cell_spans_def obind_eq_Inr)
  from cell_spans_items [OF this] False show ?thesis by (fastforce simp: cell_cut_def)
qed

lemma fit_fragment_runs:
  "(\<And>c. length (quote [c]) \<le> max_quote_chars) \<Longrightarrow> 0 < n \<Longrightarrow> n \<le> length remaining \<Longrightarrow>
     fit_fragment quote remaining n \<noteq> None"
proof (induction n rule: less_induct)
  case (less n)
  show ?case
  proof (cases "n div 2 = 0")
    case True
    with less.prems(2) have "n = 1" by linarith
    with less.prems(3) obtain c where "take n remaining = [c]" by (cases remaining) auto
    with less.prems(1) [of c] show ?thesis by (subst fit_fragment.simps) simp
  next
    case False
    with less show ?thesis by (subst fit_fragment.simps) (auto simp: Let_def)
  qed
qed

lemma cell_spans_runs:
  assumes project: "ts_project_id scope \<noteq> None"
    and one: "\<And>c. length (span_text render row header [c]) \<le> max_quote_chars"
  shows "returns (cell_spans render sha d scope version row column header cell k st)"
proof (induction "length cell" arbitrary: cell k st rule: less_induct)
  case less
  show ?case
  proof (cases "cell = []")
    case True
    then show ?thesis by (simp add: cell_spans.simps)
  next
    case False
    then have pos: "0 < min (length cell) max_quote_chars" by (simp add: max_quote_chars_def)
    obtain n t where fit: "fit_fragment (span_text render row header) cell (min (length cell) max_quote_chars) = Some (n, t)"
      using fit_fragment_runs [of "span_text render row header" _ cell, OF one pos] by fastforce
    have "length (drop n cell) < length cell" using fit_fragment_Some [OF fit pos] False by auto
    then show ?thesis
      using less fit append_chunk_runs [OF project] False
      by (subst cell_spans.simps) (simp add: returns_obind Let_def)
  qed
qed

lemma append_cell_spans_runs:
  assumes "ts_project_id scope \<noteq> None" and "compact_json esc render"
    and "\<And>h. header = Some h \<Longrightarrow> quote_len render [h] [[0]] \<le> max_quote_chars"
  shows "returns (append_cell_spans render sha d scope version location cell header st)"
proof (cases location)
  case (Pair row column)
  have "returns (cell_spans render sha d scope version row column header cell 0 st)"
    by (rule cell_spans_runs [OF assms(1) span_text_one [OF assms(2,3)]])
  then show ?thesis
    unfolding Pair by (simp add: append_cell_spans_def append_chunk_runs [OF assms(1)] returns_obind)
qed

end
