(* ===== verification/Csv_Theorems.thy ===== *)
theory Csv_Theorems
  imports Csv_Properties "HOL-Library.Code_Target_Nat"
begin

text \<open>The properties of CSV ingestion, with a concrete table.\<close>

section \<open>What the slices of a record quote\<close>

text \<open>
  The items that quote the columns of one record from column \<open>k + 1\<close> on, in order: a group of
  neighbouring columns in one quote, or the fragments of one cell, preceded by those of its
  header when that is too long to accompany them.
\<close>

inductive slices_cover :: "(json \<Rightarrow> str) \<Rightarrow> u32 \<Rightarrow> nat \<Rightarrow> (str \<times> str) list \<Rightarrow> csv_item list \<Rightarrow> bool"
  for render row where
  cover_end: "slices_cover render row k [] []"
| cover_group: "grp \<noteq> [] \<Longrightarrow> quote_len render (map fst grp) (map snd grp) \<le> max_quote_chars \<Longrightarrow>
    slices_cover render row (k + length grp) rest xs \<Longrightarrow>
    slices_cover render row k (grp @ rest)
      ((render (json_row (map fst grp) (map snd grp)),
        csv_locator row (of_nat k + 1) (of_nat k + of_nat (length grp)) None, slice_method) # xs)"
| cover_cell: "cell_cut render row (if val = [] then None else Some header) val vs \<Longrightarrow>
    slices_cover render row (k + 1) rest xs \<Longrightarrow>
    slices_cover render row k ((header, val) # rest)
      (span_items render row (of_nat k + 1) (if val = [] then None else Some header) 0 vs @ xs)"
| cover_header: "cell_cut render 1 None header hs \<Longrightarrow> cell_cut render row None val vs \<Longrightarrow>
    slices_cover render row (k + 1) rest xs \<Longrightarrow>
    slices_cover render row k ((header, val) # rest)
      (span_items render 1 (of_nat k + 1) None 0 hs @ span_items render row (of_nat k + 1) None 0 vs @ xs)"

definition within_quote :: "csv_item \<Rightarrow> bool" where
  "within_quote x \<longleftrightarrow> length (fst x) \<le> max_quote_chars \<and> snd (snd x) = slice_method"

lemma span_items_within: "cell_cut render row header cell fs \<Longrightarrow> x \<in> set (span_items render row column header k fs) \<Longrightarrow> within_quote x"
  by (auto simp: span_items_def cell_cut_def within_quote_def dest!: set_zip_leftD)

lemma slices_within: "slices_cover render row k cols xs \<Longrightarrow> x \<in> set xs \<Longrightarrow> within_quote x"
  by (induction rule: slices_cover.induct) (auto simp: quote_len_def within_quote_def dest: span_items_within)

lemma flush_group_items:
  assumes "flush_group render sha d scope version row (of_nat k + 1) gh gv st = Some (Inr st')" and "length gh = length gv"
    and small: "gh \<noteq> [] \<Longrightarrow> quote_len render gh gv \<le> max_quote_chars"
    and rest: "slices_cover render row (k + length gh) cols xs"
  shows "\<exists>ys. append_items sha d scope version ys st = Some (Inr st') \<and>
    slices_cover render row k (zip gh gv @ cols) (ys @ xs)"
proof (cases "gh = []")
  case True
  with assms(1) rest show ?thesis by (intro exI [of _ "[]"]) (simp add: flush_group_def)
next
  case False
  let ?g = "zip gh gv"
  let ?y = "(render (json_row gh gv), csv_locator row (of_nat k + 1) (of_nat k + of_nat (length gh)) None, slice_method)"
  have g: "map fst ?g = gh" "map snd ?g = gv" "length ?g = length gh" "?g \<noteq> []"
    using assms(2) False by auto
  have "slices_cover render row k (?g @ cols) (?y # xs)"
    using cover_group [of ?g render row k cols xs] g small False rest by simp
  moreover have "append_items sha d scope version [?y] st = Some (Inr st')"
    using assms(1) False by (simp add: flush_group_def algebra_simps)
  ultimately show ?thesis by (intro exI [of _ "[?y]"]) simp
qed

lemma append_items_comp:
  "append_items sha d scope version xs st = Some (Inr st1) \<Longrightarrow> append_items sha d scope version ys st1 = Some (Inr st2) \<Longrightarrow>
     append_items sha d scope version (xs @ ys) st = Some (Inr st2)"
  by (simp add: append_items_append)

text \<open>A cell too long for one quote: the items of its header, if it has its own, and its own.\<close>

lemma long_cell_items:
  assumes json: "compact_json esc render"
    and hdr: "(if short_header render header = None then append_cell_spans render sha d scope version (1, of_nat k + 1) header None st
      else Some (Inr st)) = Some (Inr st1)"
    and cell: "append_cell_spans render sha d scope version (row, of_nat k + 1) val (short_header render header) st1 = Some (Inr st2)"
    and rest: "slices_cover render row (k + 1) cols xs"
  shows "\<exists>ys. append_items sha d scope version ys st = Some (Inr st2) \<and>
    slices_cover render row k ((header, val) # cols) (ys @ xs)"
proof -
  let ?S = "short_header render header"
  obtain vs where vs: "cell_cut render row (if val = [] then None else ?S) val vs"
    and v: "append_items sha d scope version
      (span_items render row (of_nat k + 1) (if val = [] then None else ?S) 0 vs) st1 = Some (Inr st2)"
    using append_cell_spans_items [OF json cell] by blast
  show ?thesis
  proof (cases "?S = None")
    case True
    then have "append_cell_spans render sha d scope version (1, of_nat k + 1) header None st = Some (Inr st1)"
      using hdr by simp
    from append_cell_spans_items [OF json this] obtain hs where hs: "cell_cut render 1 None header hs"
      and h: "append_items sha d scope version (span_items render 1 (of_nat k + 1) None 0 hs) st = Some (Inr st1)"
      by auto
    have vs': "cell_cut render row None val vs"
      and v': "append_items sha d scope version (span_items render row (of_nat k + 1) None 0 vs) st1 = Some (Inr st2)"
      using vs v unfolding True if_cancel .
    show ?thesis
      using append_items_comp [OF h v'] cover_header [OF hs vs' rest]
      by (intro exI [of _ "span_items render 1 (of_nat k + 1) None 0 hs @ span_items render row (of_nat k + 1) None 0 vs"])
        simp
  next
    case False
    then have S: "?S = Some header" and st: "st1 = st" using hdr by (auto simp: short_header_def split: if_splits)
    have vs': "cell_cut render row (if val = [] then None else Some header) val vs"
      using vs unfolding S .
    show ?thesis
      using v [unfolded S st] cover_cell [OF vs' rest] by blast
  qed
qed

lemma slices_loop_items:
  assumes "compact_json esc render"
  shows "slices_loop render sha d scope version row (k + length gh) cols (of_nat k + 1) gh gv st = Some (Inr st') \<Longrightarrow>
    length gh = length gv \<Longrightarrow> (gh \<noteq> [] \<Longrightarrow> quote_len render gh gv \<le> max_quote_chars) \<Longrightarrow>
    \<exists>xs. append_items sha d scope version xs st = Some (Inr st') \<and> slices_cover render row k (zip gh gv @ cols) xs"
proof (induction cols arbitrary: k gh gv st)
  case Nil
  then show ?case using flush_group_items [OF _ _ _ cover_end] by fastforce
next
  case (Cons col cols)
  obtain header val where col: "col = (header, val)" by (cases col)
  show ?case
  proof (cases "quote_len render (gh @ [header]) (gv @ [val]) \<le> max_quote_chars")
    case True
    with Cons.prems col have "slices_loop render sha d scope version row (k + length (gh @ [header])) cols (of_nat k + 1)
        (gh @ [header]) (gv @ [val]) st = Some (Inr st')" by simp
    from Cons.IH [OF this] True Cons.prems(2) col show ?thesis by simp
  next
    case False
    let ?k = "k + length gh"
    have column: "of_nat ?k + 1 = (of_nat (k + length gh) + 1 :: u32)" by simp
    from Cons.prems(1) False col obtain st1
      where flush: "flush_group render sha d scope version row (of_nat k + 1) gh gv st = Some (Inr st1)"
        and more: "(let short = short_header render header in
          if quote_len render [header] [val] \<le> max_quote_chars
           then slices_loop render sha d scope version row (?k + 1) cols (of_nat ?k + 1) [header] [val] st1
           else obind (if short = None
                 then append_cell_spans render sha d scope version (1, of_nat ?k + 1) header None st1
                 else Some (Inr st1)) (\<lambda>st2.
             obind (append_cell_spans render sha d scope version (row, of_nat ?k + 1) val short st2) (\<lambda>st3.
               slices_loop render sha d scope version row (?k + 1) cols (of_nat ?k + 1 + 1) [] [] st3))) = Some (Inr st')"
      by (auto simp only: slices_loop.simps if_False obind_eq_Inr Let_def)
    have "\<exists>ys. append_items sha d scope version ys st1 = Some (Inr st') \<and> slices_cover render row ?k (col # cols) ys"
    proof (cases "quote_len render [header] [val] \<le> max_quote_chars")
      case True
      with more have "slices_loop render sha d scope version row (?k + length [header]) cols (of_nat ?k + 1)
          [header] [val] st1 = Some (Inr st')" by (simp add: Let_def)
      from Cons.IH [OF this] True col show ?thesis by simp
    next
      case long: False
      let ?short = "short_header render header"
      from more long obtain st2 st3
        where hdr: "(if ?short = None then append_cell_spans render sha d scope version (1, of_nat ?k + 1) header None st1
            else Some (Inr st1)) = Some (Inr st2)"
          and cell: "append_cell_spans render sha d scope version (row, of_nat ?k + 1) val ?short st2 = Some (Inr st3)"
          and tail: "slices_loop render sha d scope version row (?k + 1) cols (of_nat ?k + 1 + 1) [] [] st3 = Some (Inr st')"
        unfolding Let_def if_not_P [OF long] obind_eq_Inr by blast
      have "slices_loop render sha d scope version row (?k + 1 + length ([]::str list)) cols (of_nat (?k + 1) + 1) [] [] st3
          = Some (Inr st')" using tail by (simp add: add.commute add.left_commute)
      from Cons.IH [OF this] obtain xs where "append_items sha d scope version xs st3 = Some (Inr st')"
        and "slices_cover render row (?k + 1) cols xs" by auto
      with long_cell_items [OF assms hdr cell] append_items_comp col show ?thesis by metis
    qed
    then obtain ys where ys: "append_items sha d scope version ys st1 = Some (Inr st')"
      and cov: "slices_cover render row ?k (col # cols) ys" by blast
    from flush_group_items [OF flush Cons.prems(2,3) cov] ys append_items_comp show ?thesis by metis
  qed
qed

section \<open>What a whole import quotes\<close>

text \<open>
  The items of the data records from the \<open>k\<close>-th on: for every record its whole row, under the
  number of the logical record, followed by its slices when the row is too long for a quote.
\<close>

inductive rows_evidence :: "(json \<Rightarrow> str) \<Rightarrow> str list \<Rightarrow> nat \<Rightarrow> str list list \<Rightarrow> csv_item list \<Rightarrow> bool"
  for render headers where
  rows_end: "rows_evidence render headers k [] []"
| rows_next: "t = render (json_row headers vals) \<Longrightarrow>
    (if length t \<le> max_quote_chars then slices = []
     else slices_cover render (of_nat k + 2) 0 (zip headers vals) slices) \<Longrightarrow>
    rows_evidence render headers (k + 1) rows xs \<Longrightarrow>
    rows_evidence render headers k (vals # rows)
      ((t, csv_locator (of_nat k + 2) 1 (of_nat (length headers)) None, csv_rows_method) # slices @ xs)"

definition row_bytes :: "(json \<Rightarrow> str) \<Rightarrow> str list \<Rightarrow> str list list \<Rightarrow> nat" where
  "row_bytes render headers rows = sum_list (map (\<lambda>vals. byte_len (render (json_row headers vals))) rows)"

lemma csv_rows_items:
  assumes json: "compact_json esc render"
  shows "csv_rows render sha d scope version headers k records used st = Some (Inr st') \<Longrightarrow>
     k \<le> max_data_rows \<Longrightarrow> used \<le> max_chunk_text_bytes \<Longrightarrow>
     \<exists>rows xs. records = map Inr rows \<and> rows_evidence render headers k rows xs \<and>
       append_items sha d scope version xs st = Some (Inr st') \<and> k + length rows \<le> max_data_rows \<and>
       used + row_bytes render headers rows \<le> max_chunk_text_bytes"
proof (induction records arbitrary: k used st)
  case Nil
  then show ?case by (auto intro!: exI [of _ "[]"] rows_end simp: row_bytes_def)
next
  case (Cons r records)
  from Cons.prems obtain vals where r: "r = Inr vals" by (cases r) auto
  let ?t = "render (json_row headers vals)" and ?row = "of_nat k + 2 :: u32"
  let ?x = "(?t, csv_locator ?row 1 (of_nat (length headers)) None, csv_rows_method)"
  have few: "\<not> k \<ge> max_data_rows" and bytes: "\<not> used + byte_len ?t > max_chunk_text_bytes"
    using Cons.prems(1) r by (auto simp: Let_def split: if_splits)
  with Cons.prems(1) r have "obind (append_chunk sha d scope version ?t (csv_locator ?row 1 (of_nat (length headers)) None)
        csv_rows_method st) (\<lambda>st1.
      obind (if length ?t > max_quote_chars then append_generation_slices render sha d scope version ?row headers vals st1
          else Some (Inr st1)) (\<lambda>st2.
        csv_rows render sha d scope version headers (k + 1) records (used + byte_len ?t) st2)) = Some (Inr st')"
    by (simp add: Let_def)
  then obtain st1 st2
    where one: "append_chunk sha d scope version ?t (csv_locator ?row 1 (of_nat (length headers)) None)
          csv_rows_method st = Some (Inr st1)"
      and slices: "(if length ?t > max_quote_chars then append_generation_slices render sha d scope version ?row headers vals st1
          else Some (Inr st1)) = Some (Inr st2)"
      and more: "csv_rows render sha d scope version headers (k + 1) records (used + byte_len ?t) st2 = Some (Inr st')"
    unfolding obind_eq_Inr by blast
  from Cons.IH [OF more] few bytes obtain rows xs where rows: "records = map Inr rows"
    and ev: "rows_evidence render headers (k + 1) rows xs"
    and xs: "append_items sha d scope version xs st2 = Some (Inr st')"
    and bounds: "k + 1 + length rows \<le> max_data_rows"
      "used + byte_len ?t + row_bytes render headers rows \<le> max_chunk_text_bytes" by auto
  obtain sl where sl: "if length ?t \<le> max_quote_chars then sl = []
      else slices_cover render ?row 0 (zip headers vals) sl"
    and app: "append_items sha d scope version sl st1 = Some (Inr st2)"
  proof (cases "length ?t \<le> max_quote_chars")
    case True
    with slices that [of "[]"] show ?thesis by simp
  next
    case False
    with slices have "slices_loop render sha d scope version ?row (0 + length ([]::str list)) (zip headers vals) (of_nat 0 + 1) [] [] st1
        = Some (Inr st2)" by (simp add: append_generation_slices_def)
    from slices_loop_items [OF json this] that False show ?thesis by auto
  qed
  have "append_items sha d scope version (?x # sl @ xs) st = Some (Inr st')"
    using one append_items_comp [OF app xs] by simp
  moreover have "rows_evidence render headers k (vals # rows) (?x # sl @ xs)"
    by (rule rows_next [OF refl sl ev])
  ultimately show ?case
    using rows r bounds by (intro exI [of _ "vals # rows"] exI [of _ "?x # sl @ xs"]) (simp add: row_bytes_def)
qed

lemma rows_items_within:
  "rows_evidence render headers k rows xs \<Longrightarrow> x \<in> set xs \<Longrightarrow> snd (snd x) = csv_rows_method \<or> within_quote x"
  by (induction rule: rows_evidence.induct) (auto dest: slices_within split: if_splits)

lemma csv_chunks_items:
  assumes json: "compact_json esc render"
    and res: "csv_chunks records render sha d scope version t = Some (Inr chunks)"
  shows "\<exists>headers rows. records t = map Inr (headers # rows) \<and> rows \<noteq> [] \<and> length rows \<le> max_data_rows \<and>
      row_bytes render headers rows \<le> max_chunk_text_bytes \<and>
      rows_evidence render headers 0 rows (map item_of chunks) \<and>
      append_items sha d scope version (map item_of chunks) ([], 0) = Some (Inr (chunks, slice_total (map item_of chunks)))"
proof -
  from res obtain headers rest st' where recs: "records t = Inr headers # rest"
    and rows: "csv_rows render sha d scope version headers 0 rest 0 ([], 0) = Some (Inr st')"
    and chunks: "chunks = fst st'" "chunks \<noteq> []"
    by (auto simp: csv_chunks_def obind_eq_Inr split: list.splits sum.splits if_splits)
  obtain rws xs where rws: "rest = map Inr rws" and ev: "rows_evidence render headers 0 rws xs"
    and app: "append_items sha d scope version xs ([], 0) = Some (Inr st')"
    and bounds: "length rws \<le> max_data_rows" "row_bytes render headers rws \<le> max_chunk_text_bytes"
    using csv_rows_items [OF json rows] by auto
  from append_items_Inr [OF app] chunks have xs: "xs = map item_of chunks" and total: "snd st' = slice_total xs" by auto
  have "rws \<noteq> []" using ev chunks(2) xs by (auto elim: rows_evidence.cases)
  moreover have "st' = (chunks, slice_total xs)" using chunks(1) total by (cases st') simp
  ultimately show ?thesis using recs rws ev app bounds xs by auto
qed

section \<open>No assertion fails\<close>

lemma slices_loop_runs:
  assumes project: "ts_project_id scope \<noteq> None" and json: "compact_json esc render"
  shows "returns (slices_loop render sha d scope version row index cols first_column gh gv st)"
proof (induction cols arbitrary: index first_column gh gv st)
  case Nil
  show ?case using append_chunk_runs [OF project] by (simp add: flush_group_def)
next
  case (Cons col cols)
  obtain h v where col: "col = (h, v)" by (cases col)
  have short: "short_header render h = Some h' \<Longrightarrow> quote_len render [h'] [[0]] \<le> max_quote_chars" for h'
    by (auto simp: short_header_def split: if_splits)
  have spans: "returns (append_cell_spans render sha d scope version loc c None s)"
    "returns (append_cell_spans render sha d scope version loc c (short_header render h) s)" for loc c s
    using append_cell_spans_runs [OF project json] short by blast+
  have flush: "returns (flush_group render sha d scope version row first_column gh gv st)"
    using append_chunk_runs [OF project] by (simp add: flush_group_def)
  show ?case
    unfolding col by (simp add: Let_def Cons.IH spans flush returns_obind)
qed

lemma csv_rows_runs:
  assumes project: "ts_project_id scope \<noteq> None" and json: "compact_json esc render"
  shows "returns (csv_rows render sha d scope version headers k records used st)"
proof (induction records arbitrary: k used st)
  case (Cons r records)
  show ?case
    by (cases r) (simp_all add: Let_def append_generation_slices_def append_chunk_runs [OF project]
        slices_loop_runs [OF project json] Cons.IH returns_obind)
qed simp

section \<open>A concrete table\<close>

definition ex_esc :: "nat \<Rightarrow> str" where
  "ex_esc c = (if c < 32 then [92, 117, 48, 48, 48 + c div 16, if c mod 16 < 10 then 48 + c mod 16 else 87 + c mod 16]
     else if c = 34 \<or> c = 92 then [92, c] else [c])"

fun ex_field :: "str \<times> json \<Rightarrow> str" where
  "ex_field (k, JArr xs) = print_field ex_esc k (map (\<lambda>x. case as_str x of None \<Rightarrow> [] | Some s \<Rightarrow> s) xs)"
| "ex_field (k, _) = []"

fun ex_render :: "json \<Rightarrow> str" where
  "ex_render (JObj [f]) = 123 # ex_field f @ [125]"
| "ex_render (JObj [f, g]) = 123 # ex_field f @ 44 # ex_field g @ [125]"
| "ex_render _ = []"

lemma ex_compact: "compact_json ex_esc ex_render"
  by (simp add: compact_json_def ex_esc_def json_headers_def json_values_def json_row_def comp_def)

definition ex_csv_scope :: tenant_scope where
  "ex_csv_scope = \<lparr>ts_operator_id = Ident 1, ts_tenant_id = Ident 2, ts_project_id = Some (Ident 3)\<rparr>"

definition ex_csv_draws :: draws where
  "ex_csv_draws = \<lparr>uuid_at = of_nat, now_at = (\<lambda>_. 0)\<rparr>"

definition ex_table :: "(unit + str list) list" where
  "ex_table = [Inr [lit ''name'', lit ''price''], Inr [lit ''a,b'', lit ''7''], Inr [[], lit ''9'']]"

definition ex_text :: str where
  "ex_text = lit ''name,price'' @ [10, 34] @ lit ''a,b'' @ [34] @ lit '',7'' @ [13, 10] @ lit '',9'' @ [10]"

definition ex_chunks :: "chunk list" where
  "ex_chunks = (case csv_chunks (\<lambda>_. ex_table) ex_render id ex_csv_draws ex_csv_scope 4 ex_text of
     Some (Inr chunks) \<Rightarrow> chunks | _ \<Rightarrow> [])"

lemma ex_chunks: "csv_chunks (\<lambda>_. ex_table) ex_render id ex_csv_draws ex_csv_scope 4 ex_text = Some (Inr ex_chunks)"
proof -
  have "(case csv_chunks (\<lambda>_. ex_table) ex_render id ex_csv_draws ex_csv_scope 4 ex_text of
     Some (Inr chunks) \<Rightarrow> True | _ \<Rightarrow> False)" by code_simp
  then show ?thesis unfolding ex_chunks_def by (auto split: option.splits sum.splits)
qed

section \<open>Properties\<close>

text \<open>C30: an oversized cell is cut without loss: when the fragments of a cell have been appended,
  they are, in order and from the character offsets in their locators, exactly the cell; each
  is quoted in one chunk of at most 1600 characters. (An empty cell has one empty fragment.)
  The printer is any that prints compact JSON.\<close>

theorem cell_fragments_are_lossless:
  assumes "compact_json esc render"
    and "append_cell_spans render sha d scope version (row, column) cell header st = Some (Inr st')"
  shows "\<exists>fragments new. concat fragments = cell \<and> (cell \<noteq> [] \<longrightarrow> [] \<notin> set fragments) \<and>
    fst st' = fst st @ new \<and>
    map ck_locator new = map (\<lambda>span. csv_locator row column column (Some span)) (spans_of 0 fragments) \<and>
    map ck_text new = map (span_text render row (if cell = [] then None else header)) fragments \<and>
    (\<forall>c\<in>set new. length (ck_text c) \<le> max_quote_chars)"
proof -
  let ?h = "if cell = [] then None else header"
  obtain fs where cut: "cell_cut render row ?h cell fs"
    and app: "append_items sha d scope version (span_items render row column ?h 0 fs) st = Some (Inr st')"
    using append_cell_spans_items [OF assms] by blast
  obtain new where new: "fst st' = fst st @ new" and items: "map item_of new = span_items render row column ?h 0 fs"
    using append_items_Inr [OF app] by blast
  have len: "length (spans_of k xs) = length xs" for k xs by (induction xs arbitrary: k) auto
  have "map ck_text new = map fst (map item_of new)" "map ck_locator new = map (fst \<circ> snd) (map item_of new)"
    by (simp_all add: item_of_def comp_def)
  then have "map ck_text new = map (span_text render row ?h) (map fst (zip fs (spans_of 0 fs)))"
    and "map ck_locator new = map (\<lambda>span. csv_locator row column column (Some span)) (map snd (zip fs (spans_of 0 fs)))"
    unfolding items span_items_def by (simp_all add: comp_def case_prod_beta)
  moreover have "length (ck_text c) \<le> max_quote_chars" if "c \<in> set new" for c
  proof -
    have "item_of c \<in> set (span_items render row column ?h 0 fs)" using that items by (metis image_eqI list.set_map)
    from span_items_within [OF cut this] show ?thesis by (simp add: within_quote_def item_of_def)
  qed
  ultimately show ?thesis using cut new by (intro exI [of _ fs] exI [of _ new]) (simp add: cell_cut_def len)
qed

theorem cell_fragments_are_lossless_witness:
  "\<exists>st' fragments. append_cell_spans ex_render id ex_csv_draws ex_csv_scope 4 (2, 1) (lit ''a,b'') (Some (lit ''name'')) ([], 0)
      = Some (Inr st') \<and> concat fragments = lit ''a,b'' \<and>
    map ck_text (fst st') = map (span_text ex_render 2 (Some (lit ''name''))) fragments"
proof -
  have "(case append_cell_spans ex_render id ex_csv_draws ex_csv_scope 4 (2, 1) (lit ''a,b'') (Some (lit ''name'')) ([], 0)
      of Some (Inr st') \<Rightarrow> True | _ \<Rightarrow> False)" by code_simp
  then obtain st' where
    st': "append_cell_spans ex_render id ex_csv_draws ex_csv_scope 4 (2, 1) (lit ''a,b'') (Some (lit ''name'')) ([], 0)
      = Some (Inr st')" by (auto split: option.splits sum.splits)
  have "lit ''a,b'' \<noteq> []" by (simp add: lit_def)
  with cell_fragments_are_lossless [OF ex_compact st'] st' show ?thesis by auto
qed

text \<open>C31: an import that succeeds quotes the whole table: the decoder returned a header and
  between 1 and 10000 records, and the chunks are, in order, one whole row per record under
  the number of the record, each row longer than 1600 characters being followed by slices
  that quote every one of its columns, in order, completely.\<close>

theorem csv_import_quotes_every_row:
  assumes "compact_json esc render" and "csv_chunks records render sha d scope version t = Some (Inr chunks)"
  shows "\<exists>headers rows. records t = map Inr (headers # rows) \<and> rows \<noteq> [] \<and> length rows \<le> max_data_rows \<and>
    rows_evidence render headers 0 rows (map item_of chunks)"
  using csv_chunks_items [OF assms] by blast

theorem csv_import_quotes_every_row_witness:
  "\<exists>headers rows. ex_table = map Inr (headers # rows) \<and> rows \<noteq> [] \<and> length rows \<le> max_data_rows \<and>
    rows_evidence ex_render headers 0 rows (map item_of ex_chunks)"
  using csv_import_quotes_every_row [OF ex_compact ex_chunks] .

text \<open>C34: the bounds of an import: chunks are numbered from 0 with the identifiers drawn for
  them and carry the project, source version and digest; every chunk that is not a whole row
  has at most 1600 characters; all slices together have at most 32 MiB, and so have all rows.\<close>

theorem csv_import_is_bounded:
  assumes "compact_json esc render" and "csv_chunks records render sha d scope version t = Some (Inr chunks)"
  shows "(\<forall>i<length chunks. stamped sha d scope version i (chunks ! i)) \<and>
    (\<forall>c\<in>set chunks. ck_extraction_method c = csv_rows_method \<or> length (ck_text c) \<le> max_quote_chars) \<and>
    slice_total (map item_of chunks) \<le> max_slice_bytes \<and>
    (\<exists>headers rows. records t = map Inr (headers # rows) \<and> row_bytes render headers rows \<le> max_chunk_text_bytes)"
proof -
  obtain headers rows where tab: "records t = map Inr (headers # rows)" "row_bytes render headers rows \<le> max_chunk_text_bytes"
    and ev: "rows_evidence render headers 0 rows (map item_of chunks)"
    and app: "append_items sha d scope version (map item_of chunks) ([], 0) = Some (Inr (chunks, slice_total (map item_of chunks)))"
    using csv_chunks_items [OF assms] by blast
  have "ck_extraction_method c = csv_rows_method \<or> length (ck_text c) \<le> max_quote_chars" if "c \<in> set chunks" for c
    using rows_items_within [OF ev, of "item_of c"] that by (auto simp: item_of_def within_quote_def)
  with append_items_Inr [OF app] tab show ?thesis by auto
qed

theorem csv_import_is_bounded_witness:
  "stamped id ex_csv_draws ex_csv_scope 4 1 (ex_chunks ! 1) \<and> slice_total (map item_of ex_chunks) \<le> max_slice_bytes"
proof -
  have "1 < length ex_chunks" by code_simp
  then show ?thesis using csv_import_is_bounded [OF ex_compact ex_chunks] by blast
qed

text \<open>C33: an import always returns: the loops over the cells of a table end, no fragment is
  halved away to nothing and no missing project is unwrapped, whatever the text, the decoder
  and the clock do, provided the printer prints compact JSON.\<close>

theorem csv_import_returns:
  assumes "compact_json esc render"
  shows "\<exists>r. csv_chunks records render sha d scope version t = Some r"
proof -
  have "returns (csv_chunks records render sha d scope version t)"
  proof (cases "ts_project_id scope = None")
    case True
    then show ?thesis by (auto simp: csv_chunks_def intro!: returns_obind)
  next
    case False
    then show ?thesis
      using csv_rows_runs [OF False assms]
      by (auto simp: csv_chunks_def intro!: returns_obind split: list.split sum.split)
  qed
  then show ?thesis by (simp add: returns_def)
qed

theorem csv_import_returns_witness:
  "\<exists>r. csv_chunks (\<lambda>_. ex_table) ex_render id ex_csv_draws ex_csv_scope 4 (ex_text @ [34]) = Some r"
  by (rule csv_import_returns [OF ex_compact])

end
