(* ===== verification/Rich_Content.thy ===== *)
theory Rich_Content
  imports Knowledge_Types Hash_Maps
begin

text \<open>
  \<open>crates/domain/src/content/rich_content.rs\<close>: the typed document tree of rich content, its
  validation under limits, and its rendering as HTML and Markdown.

  Parameters: \<open>urls\<close> is the url crate as \<open>safe_link\<close> uses it and \<open>show_uuid\<close> the display of a
  UUID. A rendering that may fail or panic is an \<open>outcome\<close>.
\<close>

type_synonym u8 = "8 word"
type_synonym u16 = "16 word"

section \<open>Decimal numbers\<close>

function show_nat :: "nat \<Rightarrow> str" where
  "show_nat n = (if n < 10 then [48 + n] else show_nat (n div 10) @ [48 + n mod 10])"
  by auto
termination by (relation "measure id") auto

declare show_nat.simps [simp del]

definition show_i64 :: "i64 \<Rightarrow> str" where
  "show_i64 w = (if sint w < 0 then lit ''-'' @ show_nat (nat (- sint w)) else show_nat (nat (sint w)))"

section \<open>The document tree\<close>

record heading_attrs =
  ha_level :: u8

record ordered_list_attrs =
  oa_start :: u32

record code_block_attrs =
  ca_language :: "str option"

datatype cell_alignment = AlignLeft | AlignCenter | AlignRight

record table_cell_attrs =
  ta_colspan :: u16
  ta_rowspan :: u16
  ta_colwidth :: "u16 list option"
  ta_alignment :: "cell_alignment option"

record media_reference =
  mr_object_id :: uuid
  mr_object_version :: i64
  mr_sha256 :: str
  mr_alt :: str
  mr_caption :: str

record link_attrs =
  la_href :: str
  la_title :: "str option"

datatype rich_mark = MarkBold | MarkItalic | MarkStrike | MarkUnderline | MarkCode | MarkLink link_attrs

datatype rich_node =
    RParagraph "rich_node list"
  | RHeading heading_attrs "rich_node list"
  | RText str "rich_mark list"
  | RHardBreak
  | RBulletList "rich_node list"
  | ROrderedList ordered_list_attrs "rich_node list"
  | RListItem "rich_node list"
  | RCodeBlock "code_block_attrs option" "rich_node list"
  | RTable "rich_node list"
  | RTableRow "rich_node list"
  | RTableHeader "table_cell_attrs option" "rich_node list"
  | RTableCell "table_cell_attrs option" "rich_node list"
  | RMedia media_reference

record rich_content =
  rc_version :: u8
  rc_node :: rich_node

fun node_children :: "rich_node \<Rightarrow> rich_node list" where
  "node_children (RParagraph c) = c"
| "node_children (RHeading a c) = c"
| "node_children (RBulletList c) = c"
| "node_children (ROrderedList a c) = c"
| "node_children (RListItem c) = c"
| "node_children (RCodeBlock a c) = c"
| "node_children (RTable c) = c"
| "node_children (RTableRow c) = c"
| "node_children (RTableHeader a c) = c"
| "node_children (RTableCell a c) = c"
| "node_children (RText t m) = []"
| "node_children RHardBreak = []"
| "node_children (RMedia a) = []"

lemma node_children_size [termination_simp]: "c \<in> set (node_children n) \<Longrightarrow> size c < size n"
proof -
  have "c \<in> set cs \<Longrightarrow> size c \<le> size_list size cs" for cs :: "rich_node list"
    by (induction cs) auto
  from this [of "node_children n"] show "c \<in> set (node_children n) \<Longrightarrow> size c < size n"
    by (cases n) auto
qed

section \<open>Media paths\<close>

record media_object_key =
  mk_object_id :: uuid
  mk_object_version :: i64
  mk_sha256 :: str

definition relative_path :: "(uuid \<Rightarrow> str) \<Rightarrow> media_reference \<Rightarrow> str" where
  "relative_path show_uuid m = lit ''media/'' @ show_uuid (mr_object_id m) @ lit ''-'' @ show_i64 (mr_object_version m)"

definition resolved_path :: "(uuid \<Rightarrow> str) \<Rightarrow> (media_object_key, str) hash_map \<Rightarrow> media_reference \<Rightarrow> str result" where
  "resolved_path show_uuid paths m =
     rbind (ok_or (hm_get paths \<lparr>mk_object_id = mr_object_id m, mk_object_version = mr_object_version m,
                                  mk_sha256 = mr_sha256 m\<rparr>)
              (invalid_request (lit ''media export path is missing''))) (\<lambda>path.
     if \<not> list_ex (\<lambda>extension. path = relative_path show_uuid m @ lit ''.'' @ extension)
           [lit ''png'', lit ''jpg'', lit ''webp'']
     then Inl (invalid_request (lit ''invalid media export path''))
     else Inr path)"

section \<open>Links\<close>

record url_parts =
  up_scheme :: str
  up_host :: "str option"
  up_username :: str
  up_password :: "str option"
  up_path :: str

text \<open>\<open>Url::parse\<close>, and joining a reference to a parsed base.\<close>

record url_crate =
  url_parse :: "str \<Rightarrow> url_parts option"
  url_join :: "url_parts \<Rightarrow> str \<Rightarrow> url_parts option"

definition contains_char :: "nat \<Rightarrow> str \<Rightarrow> bool" where
  "contains_char c s \<longleftrightarrow> list_ex (\<lambda>x. x = c) s"

definition safe_link :: "url_crate \<Rightarrow> str \<Rightarrow> bool" where
  "safe_link urls href =
     (if href = [] \<or> byte_len href > 2048 \<or> contains_char 92 href then False
      else if list_ex (\<lambda>c. is_control c \<or> is_whitespace c) href then False
      else case url_parse urls href of
        Some url \<Rightarrow>
          if up_scheme url = lit ''https'' \<or> up_scheme url = lit ''http''
          then up_host url \<noteq> None \<and> up_username url = [] \<and> up_password url = None
          else if up_scheme url = lit ''mailto'' then up_path url \<noteq> []
          else False
      | None \<Rightarrow>
          \<not> starts_with (lit ''//'') href \<and>
          (case url_parse urls (lit ''https://content.invalid/'') of None \<Rightarrow> False | Some base \<Rightarrow>
             (case url_join urls base href of None \<Rightarrow> False | Some url \<Rightarrow>
                up_scheme url = lit ''https'' \<and> up_host url = Some (lit ''content.invalid''))))"

section \<open>Validation\<close>

definition max_nodes :: nat where "max_nodes = 10000"
definition max_depth :: nat where "max_depth = 24"
definition max_text_bytes :: nat where "max_text_bytes = 1000000"
definition max_table_rows :: nat where "max_table_rows = 100"
definition max_table_columns :: nat where "max_table_columns = 32"

definition saturating_add :: "nat \<Rightarrow> nat \<Rightarrow> nat" where
  "saturating_add a b = min (a + b) (2 ^ 64 - 1)"

record limits =
  lim_nodes :: nat
  lim_text_bytes :: nat

definition limits_text :: "str \<Rightarrow> limits \<Rightarrow> limits result" where
  "limits_text s l =
     (let l' = l\<lparr>lim_text_bytes := saturating_add (lim_text_bytes l) (byte_len s)\<rparr> in
      if lim_text_bytes l' > max_text_bytes
      then Inl (invalid_request (lit ''rich text limit exceeded'')) else Inr l')"

text \<open>\<open>std::mem::discriminant\<close> of a mark.\<close>

fun mark_kind :: "rich_mark \<Rightarrow> nat" where
  "mark_kind MarkBold = 0"
| "mark_kind MarkItalic = 1"
| "mark_kind MarkStrike = 2"
| "mark_kind MarkUnderline = 3"
| "mark_kind MarkCode = 4"
| "mark_kind (MarkLink a) = 5"

fun validate_marks :: "url_crate \<Rightarrow> nat list \<Rightarrow> rich_mark list \<Rightarrow> limits \<Rightarrow> limits result" where
  "validate_marks urls seen [] l = Inr l"
| "validate_marks urls seen (m # ms) l =
     (if mark_kind m \<in> set seen then Inl (invalid_request (lit ''duplicate rich mark''))
      else case m of
        MarkLink a \<Rightarrow>
          if \<not> safe_link urls (la_href a) \<or>
             (case la_title a of None \<Rightarrow> False | Some t \<Rightarrow> byte_len t > 1024 \<or> list_ex is_control t)
          then Inl (invalid_request (lit ''unsafe rich link''))
          else rbind (case la_title a of None \<Rightarrow> Inr l | Some t \<Rightarrow> limits_text t l)
            (validate_marks urls (mark_kind m # seen) ms)
      | _ \<Rightarrow> validate_marks urls (mark_kind m # seen) ms l)"

definition validate_text :: "url_crate \<Rightarrow> str \<Rightarrow> rich_mark list \<Rightarrow> limits \<Rightarrow> limits result" where
  "validate_text urls s marks l =
     (if s = [] then Inl (invalid_request (lit ''empty rich text node''))
      else rbind (limits_text s l) (\<lambda>l1.
        rbind (validate_marks urls [] marks l1) (\<lambda>l2.
          if list_ex (\<lambda>m. m = MarkCode) marks \<and> length marks > 1
          then Inl (invalid_request (lit ''inline code cannot combine with other marks''))
          else Inr l2)))"

definition is_ascii_hexdigit :: "nat \<Rightarrow> bool" where
  "is_ascii_hexdigit c \<longleftrightarrow> is_ascii_digit c \<or> (65 \<le> c \<and> c \<le> 70) \<or> (97 \<le> c \<and> c \<le> 102)"

definition validate_media :: "media_reference \<Rightarrow> limits \<Rightarrow> limits result" where
  "validate_media a l =
     (if is_nil (mr_object_id a) \<or> sint (mr_object_version a) < 1 \<or> byte_len (mr_sha256 a) \<noteq> 64 \<or>
         \<not> list_all is_ascii_hexdigit (mr_sha256 a)
      then Inl (invalid_request (lit ''invalid media object identity or digest''))
      else rbind (limits_text (mr_alt a) l) (\<lambda>l1.
        rbind (limits_text (mr_caption a) l1) (\<lambda>l2.
          if trim (mr_alt a) = [] then Inl (invalid_request (lit ''media alternative text required''))
          else Inr l2)))"

text \<open>Which children a container takes.\<close>

fun child_ok :: "rich_node \<Rightarrow> rich_node \<Rightarrow> bool" where
  "child_ok (RParagraph _) c = (case c of RText _ _ \<Rightarrow> True | RHardBreak \<Rightarrow> True | _ \<Rightarrow> False)"
| "child_ok (RHeading _ _) c = (case c of RText _ _ \<Rightarrow> True | RHardBreak \<Rightarrow> True | _ \<Rightarrow> False)"
| "child_ok (RBulletList _) c = (case c of RListItem _ \<Rightarrow> True | _ \<Rightarrow> False)"
| "child_ok (ROrderedList _ _) c = (case c of RListItem _ \<Rightarrow> True | _ \<Rightarrow> False)"
| "child_ok (RListItem _) c =
     (case c of RParagraph _ \<Rightarrow> True | RBulletList _ \<Rightarrow> True | ROrderedList _ _ \<Rightarrow> True | _ \<Rightarrow> False)"
| "child_ok (RCodeBlock _ _) c = (case c of RText _ marks \<Rightarrow> marks = [] | _ \<Rightarrow> False)"
| "child_ok (RTable _) c = (case c of RTableRow _ \<Rightarrow> True | _ \<Rightarrow> False)"
| "child_ok (RTableRow _) c = (case c of RTableHeader _ _ \<Rightarrow> True | RTableCell _ _ \<Rightarrow> True | _ \<Rightarrow> False)"
| "child_ok (RTableHeader _ _) c = (case c of RParagraph _ \<Rightarrow> True | _ \<Rightarrow> False)"
| "child_ok (RTableCell _ _) c = (case c of RParagraph _ \<Rightarrow> True | _ \<Rightarrow> False)"
| "child_ok _ c = False"

definition is_ascii_alphanumeric :: "nat \<Rightarrow> bool" where
  "is_ascii_alphanumeric c \<longleftrightarrow> is_ascii_digit c \<or> (65 \<le> c \<and> c \<le> 90) \<or> (97 \<le> c \<and> c \<le> 122)"

definition language_char :: "nat \<Rightarrow> bool" where
  "language_char b \<longleftrightarrow> is_ascii_alphanumeric b \<or> b = 45 \<or> b = 95 \<or> b = 43 \<or> b = 35"

definition validate_cell_attrs :: "table_cell_attrs option \<Rightarrow> unit result" where
  "validate_cell_attrs attrs = (case attrs of
       None \<Rightarrow> Inr ()
     | Some a \<Rightarrow>
         if ta_colspan a = 0 \<or> ta_rowspan a = 0 \<or> unat (ta_colspan a) > max_table_columns \<or>
            unat (ta_rowspan a) > max_table_rows \<or>
            (case ta_colwidth a of None \<Rightarrow> False | Some w \<Rightarrow> length w \<noteq> unat (ta_colspan a) \<or> 0 \<in> set w)
         then Inl (invalid_request (lit ''invalid table cell span or width''))
         else Inr ())"

fun validate_attrs :: "rich_node \<Rightarrow> unit result" where
  "validate_attrs (RHeading a _) =
     (if \<not> (1 \<le> ha_level a \<and> ha_level a \<le> 6) then Inl (invalid_request (lit ''invalid heading level'')) else Inr ())"
| "validate_attrs (ROrderedList a _) =
     (if oa_start a = 0 then Inl (invalid_request (lit ''ordered list start must be positive'')) else Inr ())"
| "validate_attrs (RCodeBlock attrs _) =
     (case attrs of None \<Rightarrow> Inr () | Some a \<Rightarrow> (case ca_language a of None \<Rightarrow> Inr () | Some s \<Rightarrow>
        if byte_len s > 64 \<or> \<not> list_all language_char s
        then Inl (invalid_request (lit ''invalid code language'')) else Inr ()))"
| "validate_attrs (RTableHeader attrs _) = validate_cell_attrs attrs"
| "validate_attrs (RTableCell attrs _) = validate_cell_attrs attrs"
| "validate_attrs _ = Inr ()"

end
