(* ===== verification/Rich_Validate.thy ===== *)
theory Rich_Validate
  imports Rich_Content
begin

text \<open>
  \<open>crates/domain/src/content/rich_content.rs\<close>, continued: table geometry, the recursive
  validation of a tree, its text and media, and the test that a repaired tree keeps the
  structure of what survives.
\<close>

section \<open>Tables\<close>

definition cell_attrs :: "rich_node \<Rightarrow> table_cell_attrs option" where
  "cell_attrs cell = (case cell of RTableHeader a _ \<Rightarrow> a | RTableCell a _ \<Rightarrow> a | _ \<Rightarrow> None)"

definition cell_colspan :: "rich_node \<Rightarrow> nat" where
  "cell_colspan cell = (case cell_attrs cell of None \<Rightarrow> 1 | Some a \<Rightarrow> unat (ta_colspan a))"

definition cell_rowspan :: "rich_node \<Rightarrow> nat" where
  "cell_rowspan cell = (case cell_attrs cell of None \<Rightarrow> 1 | Some a \<Rightarrow> unat (ta_rowspan a))"

function skip_column :: "nat list \<Rightarrow> nat \<Rightarrow> nat \<Rightarrow> nat" where
  "skip_column occupancy row column =
     (if column < max_table_columns \<and> occupancy ! column > row then skip_column occupancy row (column + 1)
      else column)"
  by auto
termination by (relation "measure (\<lambda>(_, _, column). max_table_columns - column)") auto

declare skip_column.simps [simp del]

text \<open>Writing \<open>bottom\<close> into the columns of a cell; a column still occupied is an error.\<close>

fun occupy :: "nat \<Rightarrow> nat \<Rightarrow> nat list \<Rightarrow> nat \<Rightarrow> nat \<Rightarrow> nat list result" where
  "occupy row bottom occupancy column 0 = Inr occupancy"
| "occupy row bottom occupancy column (Suc n) =
     (if occupancy ! column > row then Inl (invalid_request (lit ''overlapping table cell span''))
      else occupy row bottom (occupancy[column := bottom]) (column + 1) n)"

fun place_cells :: "nat \<Rightarrow> nat \<Rightarrow> rich_node list \<Rightarrow> nat \<Rightarrow> nat list \<Rightarrow> nat list result" where
  "place_cells row_count row [] column occupancy = Inr occupancy"
| "place_cells row_count row (cell # cells) column occupancy =
     (let start = skip_column occupancy row column;
          colspan = cell_colspan cell; rowspan = cell_rowspan cell in
      if start + colspan > max_table_columns \<or> row + rowspan > row_count
      then Inl (invalid_request (lit ''table cell extends past table boundary''))
      else rbind (occupy row (row + rowspan) occupancy start colspan)
        (place_cells row_count row cells (start + colspan)))"

text \<open>\<open>rposition\<close> of an occupied column, plus one.\<close>

definition row_width :: "nat list \<Rightarrow> nat \<Rightarrow> nat" where
  "row_width occupancy row =
     (case filter (\<lambda>i. occupancy ! i > row) [0..<length occupancy] of [] \<Rightarrow> 0 | is \<Rightarrow> last is + 1)"

fun table_rows :: "nat \<Rightarrow> nat \<Rightarrow> rich_node list \<Rightarrow> nat list \<Rightarrow> nat option \<Rightarrow> unit result" where
  "table_rows row_count row [] occupancy width = Inr ()"
| "table_rows row_count row (r # rows) occupancy width =
     rbind (place_cells row_count row (node_children r) 0 occupancy) (\<lambda>occ.
       let w = row_width occ row in
       if w = 0 \<or> (case width of None \<Rightarrow> False | Some w' \<Rightarrow> w' \<noteq> w)
       then Inl (invalid_request (lit ''table rows must have equal column widths''))
       else if list_ex (\<lambda>i. i \<le> row) (take w occ)
       then Inl (invalid_request (lit ''table row has a missing cell''))
       else table_rows row_count (row + 1) rows occ (Some w))"

definition validate_table :: "rich_node list \<Rightarrow> unit result" where
  "validate_table rows =
     (if length rows > max_table_rows then Inl (invalid_request (lit ''table row limit exceeded''))
      else table_rows (length rows) 0 rows (replicate max_table_columns 0) None)"

section \<open>Trees\<close>

text \<open>A container: the checks of \<open>validate\<close> before its loop over the children.\<close>

definition validate_container :: "rich_node \<Rightarrow> unit result" where
  "validate_container n =
     rbind (validate_attrs n) (\<lambda>_.
       if node_children n = [] \<and> (case n of RParagraph _ \<Rightarrow> False | RCodeBlock _ _ \<Rightarrow> False | _ \<Rightarrow> True)
       then Inl (invalid_request (lit ''rich container must not be empty''))
       else if (case n of RListItem content \<Rightarrow> (case content of RParagraph _ # _ \<Rightarrow> False | _ \<Rightarrow> True) | _ \<Rightarrow> False)
       then Inl (invalid_request (lit ''list item must begin with a paragraph''))
       else Inr ())"

function validate_node :: "url_crate \<Rightarrow> nat \<Rightarrow> rich_node \<Rightarrow> limits \<Rightarrow> limits result"
  and validate_children :: "url_crate \<Rightarrow> nat \<Rightarrow> rich_node \<Rightarrow> rich_node list \<Rightarrow> limits \<Rightarrow> limits result" where
  "validate_node urls depth n l0 =
     (let l = l0\<lparr>lim_nodes := lim_nodes l0 + 1\<rparr> in
      if depth > max_depth \<or> lim_nodes l > max_nodes
      then Inl (invalid_request (lit ''rich node depth or count limit exceeded''))
      else case n of
        RText s marks \<Rightarrow> validate_text urls s marks l
      | RHardBreak \<Rightarrow> Inr l
      | RMedia a \<Rightarrow> validate_media a l
      | _ \<Rightarrow>
          rbind (validate_container n) (\<lambda>_.
          rbind (validate_children urls depth n (node_children n) l) (\<lambda>l'.
            case n of RTable rows \<Rightarrow> rbind (validate_table rows) (\<lambda>_. Inr l') | _ \<Rightarrow> Inr l')))"
| "validate_children urls depth n [] l = Inr l"
| "validate_children urls depth n (c # cs) l =
     (if \<not> child_ok n c then Inl (invalid_request (lit ''invalid rich node child''))
      else rbind (validate_node urls (depth + 1) c l) (validate_children urls depth n cs))"
  by pat_completeness auto
termination
  by (relation "measure (\<lambda>x. case x of Inl (_, _, n, _) \<Rightarrow> 2 * size n | Inr (_, _, _, cs, _) \<Rightarrow> 2 * size_list size cs + 1)")
     (auto simp: less_Suc_eq_le split: rich_node.splits)

declare validate_node.simps [simp del]

definition is_block_node :: "rich_node \<Rightarrow> bool" where
  "is_block_node n = (case n of RParagraph _ \<Rightarrow> True | RHeading _ _ \<Rightarrow> True | RBulletList _ \<Rightarrow> True
     | ROrderedList _ _ \<Rightarrow> True | RCodeBlock _ _ \<Rightarrow> True | RTable _ \<Rightarrow> True | RMedia _ \<Rightarrow> True | _ \<Rightarrow> False)"

definition rich_validate :: "url_crate \<Rightarrow> rich_content \<Rightarrow> unit result" where
  "rich_validate urls r =
     (if rc_version r \<noteq> 1 then Inl (invalid_request (lit ''unsupported rich node version''))
      else if \<not> is_block_node (rc_node r)
      then Inl (invalid_request (lit ''rich block root must be a block node''))
      else rbind (validate_node urls 0 (rc_node r) \<lparr>lim_nodes = 0, lim_text_bytes = 0\<rparr>) (\<lambda>_. Inr ()))"

section \<open>Traversals\<close>

text \<open>\<open>gather_media\<close> and \<open>gather_text\<close> push into a buffer; they return it here.\<close>

fun gather_media :: "rich_node \<Rightarrow> media_reference list \<Rightarrow> media_reference list" where
  "gather_media n result =
     fold (\<lambda>c acc. gather_media c acc) (node_children n) (case n of RMedia a \<Rightarrow> result @ [a] | _ \<Rightarrow> result)"

definition rich_media_references :: "rich_content \<Rightarrow> media_reference list" where
  "rich_media_references r = gather_media (rc_node r) []"

fun gather_text :: "rich_node \<Rightarrow> str \<Rightarrow> str" where
  "gather_text n buf = (case n of
       RText s _ \<Rightarrow> buf @ s
     | RHardBreak \<Rightarrow> buf @ [10]
     | RMedia a \<Rightarrow> buf @ mr_alt a @ [10] @ mr_caption a
     | _ \<Rightarrow> fold (\<lambda>c acc. gather_text c acc) (node_children n) buf @ [10])"

definition rich_plain_text :: "rich_content \<Rightarrow> str" where
  "rich_plain_text r = gather_text (rc_node r) []"

fun visit_complexity :: "rich_node \<Rightarrow> nat \<times> nat \<Rightarrow> nat \<times> nat" where
  "visit_complexity n acc =
     fold (\<lambda>c x. visit_complexity c x) (node_children n)
       (saturating_add (fst acc) 1,
        case n of
          RText s _ \<Rightarrow> saturating_add (snd acc) (byte_len s)
        | RMedia a \<Rightarrow> saturating_add (saturating_add (snd acc) (byte_len (mr_alt a))) (byte_len (mr_caption a))
        | _ \<Rightarrow> snd acc)"

definition rich_complexity :: "rich_content \<Rightarrow> nat \<times> nat" where
  "rich_complexity r = visit_complexity (rc_node r) (0, 0)"

declare gather_media.simps [simp del] gather_text.simps [simp del] visit_complexity.simps [simp del]

section \<open>Survivors\<close>

definition attrs_match :: "rich_node \<Rightarrow> rich_node \<Rightarrow> bool" where
  "attrs_match old new = (case old of
       RParagraph _ \<Rightarrow> (case new of RParagraph _ \<Rightarrow> True | _ \<Rightarrow> False)
     | RHardBreak \<Rightarrow> (case new of RHardBreak \<Rightarrow> True | _ \<Rightarrow> False)
     | RBulletList _ \<Rightarrow> (case new of RBulletList _ \<Rightarrow> True | _ \<Rightarrow> False)
     | RListItem _ \<Rightarrow> (case new of RListItem _ \<Rightarrow> True | _ \<Rightarrow> False)
     | RTable _ \<Rightarrow> (case new of RTable _ \<Rightarrow> True | _ \<Rightarrow> False)
     | RTableRow _ \<Rightarrow> (case new of RTableRow _ \<Rightarrow> True | _ \<Rightarrow> False)
     | RHeading a _ \<Rightarrow> (case new of RHeading b _ \<Rightarrow> a = b | _ \<Rightarrow> False)
     | ROrderedList a _ \<Rightarrow> (case new of ROrderedList b _ \<Rightarrow> a = b | _ \<Rightarrow> False)
     | RCodeBlock a _ \<Rightarrow> (case new of RCodeBlock b _ \<Rightarrow> a = b | _ \<Rightarrow> False)
     | RTableHeader a _ \<Rightarrow> (case new of RTableHeader b _ \<Rightarrow> a = b | _ \<Rightarrow> False)
     | RTableCell a _ \<Rightarrow> (case new of RTableCell b _ \<Rightarrow> a = b | _ \<Rightarrow> False)
     | RText _ a \<Rightarrow> (case new of RText _ b \<Rightarrow> a = b | _ \<Rightarrow> False)
     | RMedia a \<Rightarrow> (case new of RMedia b \<Rightarrow> a = b | _ \<Rightarrow> False))"

text \<open>\<open>survivors\<close> is the shared iterator: \<open>any\<close> consumes it up to and including the first match.\<close>

function preserves_node :: "rich_node \<Rightarrow> rich_node \<Rightarrow> bool"
  and match_children :: "rich_node list \<Rightarrow> rich_node list \<Rightarrow> bool" where
  "preserves_node old new \<longleftrightarrow> attrs_match old new \<and> match_children (node_children old) (node_children new)"
| "match_children survivors [] \<longleftrightarrow> True"
| "match_children [] (c # cs) \<longleftrightarrow> False"
| "match_children (s # survivors) (c # cs) \<longleftrightarrow>
     (if preserves_node s c then match_children survivors cs else match_children survivors (c # cs))"
  by pat_completeness auto
termination
proof (relation "measure (\<lambda>x. case x of Inl (a, _) \<Rightarrow> 2 * size a + 1 | Inr (ss, _) \<Rightarrow> 2 * size_list size ss)", goal_cases)
  case (2 old new)
  then show ?case by (cases old) auto
qed auto

declare preserves_node.simps [simp del]

definition rich_preserves :: "rich_content \<Rightarrow> rich_content \<Rightarrow> bool" where
  "rich_preserves a b \<longleftrightarrow> rc_version a = rc_version b \<and> preserves_node (rc_node a) (rc_node b)"

end
