(* ===== verification/Rich_Render.thy ===== *)
theory Rich_Render
  imports Rich_Validate
begin

text \<open>
  \<open>crates/domain/src/content/rich_content.rs\<close>, continued: HTML and Markdown, with and without
  the media paths of an export.
\<close>

section \<open>Escaping\<close>

text \<open>\<open>str::replace\<close> of one character.\<close>

definition replace_char :: "nat \<Rightarrow> str \<Rightarrow> str \<Rightarrow> str" where
  "replace_char c r s = concat (map (\<lambda>x. if x = c then r else [x]) s)"

definition escape_html :: "str \<Rightarrow> str" where
  "escape_html s =
     replace_char 39 (lit ''&#39;'') (replace_char 34 (lit ''&quot;'') (replace_char 62 (lit ''&gt;'')
       (replace_char 60 (lit ''&lt;'') (replace_char 38 (lit ''&amp;'') s))))"

definition markdown_punctuation :: "str" where
  "markdown_punctuation = [92, 96, 42, 95, 123, 125, 91, 93, 40, 41, 35, 43, 45, 46, 33, 62, 124, 126]"

fun escape_markdown :: "str \<Rightarrow> str" where
  "escape_markdown [] = []"
| "escape_markdown (c # cs) =
     (if c = 38 then lit ''&amp;''
      else if c = 60 then lit ''&lt;''
      else if c \<in> set markdown_punctuation then [92, c]
      else [c]) @ escape_markdown cs"

section \<open>HTML\<close>

definition quoted_attr :: "string \<Rightarrow> str \<Rightarrow> str" where
  "quoted_attr name v = lit '' '' @ lit name @ lit ''='' @ [34] @ v @ [34]"

definition element :: "str \<Rightarrow> str \<Rightarrow> str \<Rightarrow> str" where
  "element tag properties body = [60] @ tag @ properties @ [62] @ body @ [60, 47] @ tag @ [62]"

fun mark_html :: "rich_mark \<Rightarrow> str \<Rightarrow> str" where
  "mark_html MarkBold v = element (lit ''strong'') [] v"
| "mark_html MarkItalic v = element (lit ''em'') [] v"
| "mark_html MarkStrike v = element (lit ''s'') [] v"
| "mark_html MarkUnderline v = element (lit ''u'') [] v"
| "mark_html MarkCode v = element (lit ''code'') [] v"
| "mark_html (MarkLink a) v = element (lit ''a'')
     (quoted_attr ''href'' (escape_html (la_href a)) @
      (case la_title a of None \<Rightarrow> [] | Some t \<Rightarrow> quoted_attr ''title'' (escape_html t)) @
      quoted_attr ''rel'' (lit ''noopener noreferrer'')) v"

definition text_html :: "str \<Rightarrow> rich_mark list \<Rightarrow> str" where
  "text_html s marks = fold mark_html marks (escape_html s)"

text \<open>The texts of the text children, as the code block renderings collect them.\<close>

fun child_texts :: "rich_node list \<Rightarrow> str list" where
  "child_texts [] = []"
| "child_texts (RText s _ # cs) = s # child_texts cs"
| "child_texts (_ # cs) = child_texts cs"

fun join_with :: "str \<Rightarrow> str list \<Rightarrow> str" where
  "join_with sep [] = []"
| "join_with sep [x] = x"
| "join_with sep (x # y # zs) = x @ sep @ join_with sep (y # zs)"

definition alignment_name :: "cell_alignment \<Rightarrow> str" where
  "alignment_name a = (case a of AlignLeft \<Rightarrow> lit ''left'' | AlignCenter \<Rightarrow> lit ''center'' | AlignRight \<Rightarrow> lit ''right'')"

definition cell_properties :: "table_cell_attrs option \<Rightarrow> str" where
  "cell_properties attrs = (case attrs of None \<Rightarrow> [] | Some a \<Rightarrow>
     (if ta_colspan a > 1 then quoted_attr ''colspan'' (show_nat (unat (ta_colspan a))) else []) @
     (if ta_rowspan a > 1 then quoted_attr ''rowspan'' (show_nat (unat (ta_rowspan a))) else []) @
     (case ta_alignment a of None \<Rightarrow> [] | Some al \<Rightarrow> quoted_attr ''style'' (lit ''text-align:'' @ alignment_name al)) @
     (case ta_colwidth a of None \<Rightarrow> []
      | Some ws \<Rightarrow> quoted_attr ''data-colwidth'' (join_with (lit '','') (map (\<lambda>w. show_nat (unat w)) ws))))"

definition code_language :: "code_block_attrs option \<Rightarrow> str" where
  "code_language attrs = (case attrs of None \<Rightarrow> [] | Some a \<Rightarrow> (case ca_language a of None \<Rightarrow> [] | Some s \<Rightarrow> s))"

definition media_html :: "str \<Rightarrow> media_reference \<Rightarrow> str" where
  "media_html src a = lit ''<figure><img'' @ quoted_attr ''src'' src @ quoted_attr ''alt'' (escape_html (mr_alt a)) @
     lit ''><figcaption>'' @ escape_html (mr_caption a) @ lit ''</figcaption></figure>''"

text \<open>\<open>render_html\<close>; \<open>paths\<close> is absent when media keep their relative paths.\<close>

function render_html :: "(uuid \<Rightarrow> str) \<Rightarrow> (media_object_key, str) hash_map option \<Rightarrow> rich_node \<Rightarrow> str result"
  and render_children :: "(uuid \<Rightarrow> str) \<Rightarrow> (media_object_key, str) hash_map option \<Rightarrow> rich_node list \<Rightarrow> str result" where
  "render_html show_uuid paths n =
     (let inline = render_children show_uuid paths (node_children n) in
      case n of
        RText s marks \<Rightarrow> Inr (text_html s marks)
      | RHardBreak \<Rightarrow> Inr (lit ''<br>'')
      | RParagraph _ \<Rightarrow> rbind inline (\<lambda>v. Inr (element (lit ''p'') [] v))
      | RHeading a _ \<Rightarrow> rbind inline (\<lambda>v. Inr (element (lit ''h'' @ show_nat (unat (ha_level a))) [] v))
      | RBulletList _ \<Rightarrow> rbind inline (\<lambda>v. Inr (element (lit ''ul'') [] v))
      | ROrderedList a _ \<Rightarrow>
          rbind inline (\<lambda>v. Inr (element (lit ''ol'') (quoted_attr ''start'' (show_nat (unat (oa_start a)))) v))
      | RListItem _ \<Rightarrow> rbind inline (\<lambda>v. Inr (element (lit ''li'') [] v))
      | RCodeBlock attrs content \<Rightarrow>
          Inr (element (lit ''pre'') []
            (element (lit ''code'') (quoted_attr ''data-language'' (escape_html (code_language attrs)))
              (concat (map escape_html (child_texts content)))))
      | RTable _ \<Rightarrow> rbind inline (\<lambda>v. Inr (element (lit ''table'') [] (element (lit ''tbody'') [] v)))
      | RTableRow _ \<Rightarrow> rbind inline (\<lambda>v. Inr (element (lit ''tr'') [] v))
      | RTableHeader attrs _ \<Rightarrow> rbind inline (\<lambda>v. Inr (element (lit ''th'') (cell_properties attrs) v))
      | RTableCell attrs _ \<Rightarrow> rbind inline (\<lambda>v. Inr (element (lit ''td'') (cell_properties attrs) v))
      | RMedia a \<Rightarrow> (case paths of
            None \<Rightarrow> Inr (media_html (relative_path show_uuid a) a)
          | Some ps \<Rightarrow> rbind (resolved_path show_uuid ps a) (\<lambda>p. Inr (media_html (escape_html p) a))))"
| "render_children show_uuid paths [] = Inr []"
| "render_children show_uuid paths (c # cs) =
     rbind (render_html show_uuid paths c) (\<lambda>v. rbind (render_children show_uuid paths cs) (\<lambda>vs. Inr (v @ vs)))"
  by pat_completeness auto
termination
proof (relation "measure (\<lambda>x. case x of Inl (_, _, n) \<Rightarrow> 2 * size n + 1 | Inr (_, _, cs) \<Rightarrow> 2 * size_list size cs)", goal_cases)
  case (2 show_uuid paths n)
  then show ?case by (cases n) auto
qed auto

declare render_html.simps [simp del]

definition node_html :: "(uuid \<Rightarrow> str) \<Rightarrow> rich_node \<Rightarrow> str outcome" where
  "node_html show_uuid n = (case render_html show_uuid None n of Inl _ \<Rightarrow> None | Inr v \<Rightarrow> Some (Inr v))"

definition rich_html :: "(uuid \<Rightarrow> str) \<Rightarrow> rich_content \<Rightarrow> str outcome" where
  "rich_html show_uuid r = node_html show_uuid (rc_node r)"

definition rich_html_with_media_paths ::
  "(uuid \<Rightarrow> str) \<Rightarrow> (media_object_key, str) hash_map \<Rightarrow> rich_content \<Rightarrow> str result" where
  "rich_html_with_media_paths show_uuid paths r = render_html show_uuid (Some paths) (rc_node r)"

section \<open>Markdown\<close>

text \<open>The mark loop of a text node; \<open>None\<close> is the \<open>unreachable!\<close> of an underline.\<close>

fun mark_markdown :: "rich_mark list \<Rightarrow> str \<Rightarrow> str option" where
  "mark_markdown [] v = Some v"
| "mark_markdown (m # ms) v = (case m of
       MarkBold \<Rightarrow> mark_markdown ms (lit ''**'' @ v @ lit ''**'')
     | MarkItalic \<Rightarrow> mark_markdown ms (lit ''*'' @ v @ lit ''*'')
     | MarkStrike \<Rightarrow> mark_markdown ms (lit ''~~'' @ v @ lit ''~~'')
     | MarkUnderline \<Rightarrow> None
     | MarkCode \<Rightarrow> mark_markdown ms v
     | MarkLink a \<Rightarrow>
         let target = replace_char 41 (lit ''%29'') (replace_char 40 (lit ''%28'') (replace_char 62 (lit ''%3E'')
               (replace_char 60 (lit ''%3C'') (replace_char 34 (lit ''%22'') (la_href a)))));
             title = (case la_title a of None \<Rightarrow> []
               | Some t \<Rightarrow> [32, 34] @ replace_char 34 [92, 34] (replace_char 92 [92, 92] t) @ [34])
         in mark_markdown ms (lit ''['' @ v @ lit ''](''@ target @ title @ lit '')''))"

definition text_markdown :: "str \<Rightarrow> rich_mark list \<Rightarrow> str option" where
  "text_markdown s marks =
     (if marks \<noteq> [] \<and> (trim s \<noteq> s \<or> list_ex (\<lambda>m. m = MarkUnderline \<or> m = MarkCode) marks)
      then Some (text_html s marks)
      else mark_markdown marks (escape_markdown s))"

text \<open>The longest run of back quotes: \<open>split(|c| c != '`').map(str::len).max()\<close>.\<close>

fun longest_run :: "nat \<Rightarrow> nat \<Rightarrow> str \<Rightarrow> nat" where
  "longest_run best run [] = max best run"
| "longest_run best run (c # cs) = (if c = 96 then longest_run best (run + 1) cs else longest_run (max best run) 0 cs)"

definition code_markdown :: "code_block_attrs option \<Rightarrow> rich_node list \<Rightarrow> str" where
  "code_markdown attrs content =
     (let code = concat (child_texts content); fence = replicate (max 3 (longest_run 0 0 code + 1)) 96
      in fence @ code_language attrs @ [10] @ code @ [10] @ fence)"

definition media_markdown :: "str \<Rightarrow> media_reference \<Rightarrow> str" where
  "media_markdown path a =
     lit ''!['' @ escape_markdown (mr_alt a) @ lit ''](''@ path @ lit '')'' @ [10, 10] @ escape_markdown (mr_caption a)"

definition is_marked :: "rich_node \<Rightarrow> bool" where
  "is_marked n = (case n of RText _ marks \<Rightarrow> marks \<noteq> [] | _ \<Rightarrow> False)"

definition is_paragraph :: "rich_node \<Rightarrow> bool" where
  "is_paragraph n = (case n of RParagraph _ \<Rightarrow> True | _ \<Rightarrow> False)"

definition list_prefix :: "u32 option \<Rightarrow> nat \<Rightarrow> str" where
  "list_prefix start index = (case start of
       Some n \<Rightarrow> show_nat (unat n + index) @ lit ''. ''
     | None \<Rightarrow> lit ''- '')"

definition list_entry :: "u32 option \<Rightarrow> nat \<Rightarrow> str \<Rightarrow> str" where
  "list_entry start index body =
     (let prefix = list_prefix start index in prefix @ replace_char 10 (10 # replicate (byte_len prefix) 32) body)"

definition long_list :: "ordered_list_attrs \<Rightarrow> rich_node list \<Rightarrow> bool" where
  "long_list attrs content \<longleftrightarrow> unat (oa_start attrs) + length content > 1000000000"

text \<open>
  \<open>markdown\<close> and \<open>markdown_with_media_paths\<close> differ in how they render media and nodes that
  fall back to HTML, so one recursion serves both: \<open>paths\<close> is absent for the first. The
  second renders text, line breaks and code blocks with the first. \<open>inline_node\<close>,
  \<open>list_nodes\<close> and \<open>item_nodes\<close> are \<open>inline_markdown\<close>, \<open>list_markdown\<close> and the loop of a list
  item, each with its \<open>_with_media_paths\<close> twin.
\<close>

definition fallback_html :: "(uuid \<Rightarrow> str) \<Rightarrow> (media_object_key, str) hash_map option \<Rightarrow> rich_node \<Rightarrow> str outcome" where
  "fallback_html show_uuid paths n =
     (case paths of None \<Rightarrow> node_html show_uuid n | Some ps \<Rightarrow> Some (render_html show_uuid (Some ps) n))"

function node_markdown ::
    "(uuid \<Rightarrow> str) \<Rightarrow> (media_object_key, str) hash_map option \<Rightarrow> rich_node \<Rightarrow> str outcome"
  and inline_nodes ::
    "(uuid \<Rightarrow> str) \<Rightarrow> (media_object_key, str) hash_map option \<Rightarrow> bool \<Rightarrow> rich_node list \<Rightarrow> str outcome"
  and list_nodes ::
    "(uuid \<Rightarrow> str) \<Rightarrow> (media_object_key, str) hash_map option \<Rightarrow> u32 option \<Rightarrow> nat \<Rightarrow> rich_node list \<Rightarrow> str list outcome"
  and item_nodes ::
    "(uuid \<Rightarrow> str) \<Rightarrow> (media_object_key, str) hash_map option \<Rightarrow> bool \<Rightarrow> rich_node list \<Rightarrow> str outcome" where
  "node_markdown show_uuid paths n = (case n of
       RText s marks \<Rightarrow> map_option Inr (text_markdown s marks)
     | RHardBreak \<Rightarrow> Some (Inr [32, 32, 10])
     | RParagraph _ \<Rightarrow> inline_nodes show_uuid paths False (node_children n)
     | RHeading a _ \<Rightarrow>
         obind (inline_nodes show_uuid paths False (node_children n)) (\<lambda>v.
           Some (Inr (replicate (unat (ha_level a)) 35 @ [32] @ v)))
     | RBulletList _ \<Rightarrow>
         obind (list_nodes show_uuid paths None 0 (node_children n)) (\<lambda>vs. Some (Inr (join_with [10] vs)))
     | ROrderedList a content \<Rightarrow>
         if long_list a content then fallback_html show_uuid paths n
         else obind (list_nodes show_uuid paths (Some (oa_start a)) 0 (node_children n)) (\<lambda>vs.
           Some (Inr (join_with [10] vs)))
     | RListItem _ \<Rightarrow> item_nodes show_uuid paths True (node_children n)
     | RCodeBlock attrs content \<Rightarrow> Some (Inr (code_markdown attrs content))
     | RTable _ \<Rightarrow> fallback_html show_uuid paths n
     | RTableRow _ \<Rightarrow> fallback_html show_uuid paths n
     | RTableHeader _ _ \<Rightarrow> fallback_html show_uuid paths n
     | RTableCell _ _ \<Rightarrow> fallback_html show_uuid paths n
     | RMedia a \<Rightarrow> (case paths of
           None \<Rightarrow> Some (Inr (media_markdown (relative_path show_uuid a) a))
         | Some ps \<Rightarrow> Some (rbind (resolved_path show_uuid ps a) (\<lambda>p. Inr (media_markdown p a)))))"
| "inline_nodes show_uuid paths previous [] = Some (Inr [])"
| "inline_nodes show_uuid paths previous (c # cs) =
     obind (if is_marked c \<and> (previous \<or> (case cs of [] \<Rightarrow> False | next # _ \<Rightarrow> is_marked next))
        then fallback_html show_uuid paths c else node_markdown show_uuid paths c) (\<lambda>v.
     obind (inline_nodes show_uuid paths (is_marked c) cs) (\<lambda>vs. Some (Inr (v @ vs))))"
| "list_nodes show_uuid paths start index [] = Some (Inr [])"
| "list_nodes show_uuid paths start index (item # items) =
     obind (node_markdown show_uuid paths item) (\<lambda>body.
     obind (list_nodes show_uuid paths start (index + 1) items) (\<lambda>vs. Some (Inr (list_entry start index body # vs))))"
| "item_nodes show_uuid paths first [] = Some (Inr [])"
| "item_nodes show_uuid paths first (c # cs) =
     obind (node_markdown show_uuid paths c) (\<lambda>v.
     obind (item_nodes show_uuid paths False cs) (\<lambda>vs.
       Some (Inr ((if first then [] else if is_paragraph c then [10, 10] else [10]) @ v @ vs))))"
  by pat_completeness auto
termination
  by (relation "measure (\<lambda>x. case x of Inl (Inl (_, _, n)) \<Rightarrow> 2 * size n + 1 | Inl (Inr (_, _, _, cs)) \<Rightarrow> 2 * size_list size cs
       | Inr (Inl (_, _, _, _, cs)) \<Rightarrow> 2 * size_list size cs | Inr (Inr (_, _, _, cs)) \<Rightarrow> 2 * size_list size cs)") auto

declare node_markdown.simps [simp del]

definition rich_markdown :: "(uuid \<Rightarrow> str) \<Rightarrow> rich_content \<Rightarrow> str outcome" where
  "rich_markdown show_uuid r = obind (node_markdown show_uuid None (rc_node r)) (\<lambda>v. Some (Inr (v @ [10, 10])))"

definition node_markdown_with_media_paths ::
  "(uuid \<Rightarrow> str) \<Rightarrow> (media_object_key, str) hash_map \<Rightarrow> rich_node \<Rightarrow> str outcome" where
  "node_markdown_with_media_paths show_uuid paths n = node_markdown show_uuid (Some paths) n"

definition rich_markdown_with_media_paths ::
  "(uuid \<Rightarrow> str) \<Rightarrow> (media_object_key, str) hash_map \<Rightarrow> rich_content \<Rightarrow> str outcome" where
  "rich_markdown_with_media_paths show_uuid paths r =
     obind (node_markdown_with_media_paths show_uuid paths (rc_node r)) (\<lambda>v. Some (Inr (v @ [10, 10])))"

end
