(* ===== verification/Rich_Trees.thy ===== *)
theory Rich_Trees
  imports Rich_Render "HOL-Library.Sublist" "HOL-Library.Code_Target_Nat"
begin

text \<open>
  What the validation of rich content accepts, stated on the tree as a whole; where the cells of
  an accepted table lie; which trees count as survivors of another.
\<close>

section \<open>Accepted trees\<close>

fun nodes_of :: "rich_node \<Rightarrow> rich_node list" where
  "nodes_of n = n # concat (map nodes_of (node_children n))"

fun height_of :: "rich_node \<Rightarrow> nat" where
  "height_of n = foldr max (map (\<lambda>c. Suc (height_of c)) (node_children n)) 0"

declare nodes_of.simps [simp del] height_of.simps [simp del]

abbreviation nodes_list :: "rich_node list \<Rightarrow> rich_node list" where
  "nodes_list cs \<equiv> concat (map nodes_of cs)"

fun mark_text :: "rich_mark \<Rightarrow> str" where
  "mark_text (MarkLink a) = (case la_title a of None \<Rightarrow> [] | Some t \<Rightarrow> t)"
| "mark_text _ = []"

fun marks_bytes :: "rich_mark list \<Rightarrow> nat" where
  "marks_bytes [] = 0"
| "marks_bytes (m # ms) = byte_len (mark_text m) + marks_bytes ms"

definition node_bytes :: "rich_node \<Rightarrow> nat" where
  "node_bytes n = (case n of
       RText s marks \<Rightarrow> byte_len s + marks_bytes marks
     | RMedia a \<Rightarrow> byte_len (mr_alt a) + byte_len (mr_caption a)
     | _ \<Rightarrow> 0)"

definition bytes_of :: "rich_node list \<Rightarrow> nat" where
  "bytes_of ns = sum_list (map node_bytes ns)"

definition mark_ok :: "url_crate \<Rightarrow> rich_mark \<Rightarrow> bool" where
  "mark_ok urls m \<longleftrightarrow> (case m of MarkLink a \<Rightarrow> safe_link urls (la_href a) \<and>
     (case la_title a of None \<Rightarrow> True | Some t \<Rightarrow> byte_len t \<le> 1024 \<and> list_all (\<lambda>c. \<not> is_control c) t) | _ \<Rightarrow> True)"

text \<open>What validation asks of one node, given its children.\<close>

definition node_ok :: "url_crate \<Rightarrow> rich_node \<Rightarrow> bool" where
  "node_ok urls n \<longleftrightarrow> (case n of
       RText s marks \<Rightarrow> s \<noteq> [] \<and> distinct (map mark_kind marks) \<and> list_all (mark_ok urls) marks \<and>
         (MarkCode \<in> set marks \<longrightarrow> marks = [MarkCode])
     | RHardBreak \<Rightarrow> True
     | RMedia a \<Rightarrow> \<not> is_nil (mr_object_id a) \<and> 1 \<le> sint (mr_object_version a) \<and> byte_len (mr_sha256 a) = 64 \<and>
         list_all is_ascii_hexdigit (mr_sha256 a) \<and> trim (mr_alt a) \<noteq> []
     | RTable rows \<Rightarrow> rows \<noteq> [] \<and> list_all (child_ok n) rows \<and> validate_table rows = Inr ()
     | _ \<Rightarrow> validate_container n = Inr () \<and> list_all (child_ok n) (node_children n))"

lemma byte_len_Nil [simp]: "byte_len [] = 0"
  by (simp add: byte_len_def)

lemma mark_ok_simps [simp]:
  "mark_ok urls MarkBold" "mark_ok urls MarkItalic" "mark_ok urls MarkStrike" "mark_ok urls MarkUnderline" "mark_ok urls MarkCode"
  "mark_ok urls (MarkLink a) \<longleftrightarrow> safe_link urls (la_href a) \<and>
     (case la_title a of None \<Rightarrow> True | Some t \<Rightarrow> byte_len t \<le> 1024 \<and> list_all (\<lambda>c. \<not> is_control c) t)"
  by (simp_all add: mark_ok_def)

lemma limits_text_Inr:
  assumes "lim_text_bytes l \<le> max_text_bytes"
  shows "limits_text s l = Inr l' \<longleftrightarrow> lim_text_bytes l + byte_len s \<le> max_text_bytes \<and>
    l' = l\<lparr>lim_text_bytes := lim_text_bytes l + byte_len s\<rparr>"
  using assms by (auto simp: limits_text_def saturating_add_def max_text_bytes_def min_def Let_def)

lemma validate_marks_Inr:
  assumes "lim_text_bytes l \<le> max_text_bytes"
  shows "validate_marks urls seen marks l = Inr l' \<longleftrightarrow>
    distinct (map mark_kind marks) \<and> set (map mark_kind marks) \<inter> set seen = {} \<and> list_all (mark_ok urls) marks \<and>
    lim_text_bytes l + marks_bytes marks \<le> max_text_bytes \<and>
    l' = l\<lparr>lim_text_bytes := lim_text_bytes l + marks_bytes marks\<rparr>"
  using assms
proof (induction marks arbitrary: seen l)
  case (Cons m ms)
  show ?case
  proof (cases m)
    case (MarkLink a)
    show ?thesis
    proof (cases "la_title a")
      case None
      then show ?thesis
        using MarkLink Cons.IH [OF Cons.prems, of "mark_kind m # seen"] by auto
    next
      case (Some t)
      let ?l = "l\<lparr>lim_text_bytes := lim_text_bytes l + byte_len t\<rparr>"
      have "lim_text_bytes l + byte_len t \<le> max_text_bytes \<Longrightarrow>
          validate_marks urls (mark_kind m # seen) ms ?l = Inr l' \<longleftrightarrow>
          distinct (map mark_kind ms) \<and> set (map mark_kind ms) \<inter> set (mark_kind m # seen) = {} \<and>
          list_all (mark_ok urls) ms \<and>
          lim_text_bytes l + byte_len t + marks_bytes ms \<le> max_text_bytes \<and>
          l' = l\<lparr>lim_text_bytes := lim_text_bytes l + byte_len t + marks_bytes ms\<rparr>"
        using Cons.IH [of ?l "mark_kind m # seen"] by simp
      moreover have "list_ex is_control t \<longleftrightarrow> \<not> list_all (\<lambda>c. \<not> is_control c) t"
        by (induction t) auto
      ultimately show ?thesis
        using MarkLink Some Cons.prems
        by (auto simp: rbind_eq_Inr limits_text_Inr add.assoc)
    qed
  qed (use Cons.IH [OF Cons.prems, of "mark_kind m # seen"] in auto)
qed auto

lemma code_alone: "(list_ex (\<lambda>m. m = MarkCode) marks \<and> length marks > 1) \<longleftrightarrow> (MarkCode \<in> set marks \<and> marks \<noteq> [MarkCode])"
  by (cases marks rule: remdups_adj.cases) (auto simp: list_ex_iff)

lemma validate_text_Inr:
  assumes "lim_text_bytes l \<le> max_text_bytes"
  shows "validate_text urls s marks l = Inr l' \<longleftrightarrow> node_ok urls (RText s marks) \<and>
    lim_text_bytes l + node_bytes (RText s marks) \<le> max_text_bytes \<and>
    l' = l\<lparr>lim_text_bytes := lim_text_bytes l + node_bytes (RText s marks)\<rparr>"
proof -
  let ?b = "marks_bytes marks"
  have marks: "validate_marks urls [] marks (l\<lparr>lim_text_bytes := lim_text_bytes l + byte_len s\<rparr>) = Inr l2 \<longleftrightarrow>
      distinct (map mark_kind marks) \<and> list_all (mark_ok urls) marks \<and>
      lim_text_bytes l + byte_len s + ?b \<le> max_text_bytes \<and>
      l2 = l\<lparr>lim_text_bytes := lim_text_bytes l + byte_len s + ?b\<rparr>"
    if "lim_text_bytes l + byte_len s \<le> max_text_bytes" for l2
    using that by (subst validate_marks_Inr) auto
  show ?thesis
    using assms unfolding validate_text_def code_alone
    by (auto simp: rbind_eq_Inr limits_text_Inr marks node_ok_def node_bytes_def add.assoc)
qed

lemma validate_media_Inr:
  assumes "lim_text_bytes l \<le> max_text_bytes"
  shows "validate_media a l = Inr l' \<longleftrightarrow> node_ok urls (RMedia a) \<and>
    lim_text_bytes l + node_bytes (RMedia a) \<le> max_text_bytes \<and>
    l' = l\<lparr>lim_text_bytes := lim_text_bytes l + node_bytes (RMedia a)\<rparr>"
  using assms
  by (auto simp: validate_media_def rbind_eq_Inr limits_text_Inr node_ok_def node_bytes_def add.assoc split: if_splits)

text \<open>Nodes one at a time: the content, the height and the bytes of a tree add up over its children.\<close>

lemma tree_lists [simp]:
  "bytes_of [] = 0" "bytes_of (n # ns) = node_bytes n + bytes_of ns" "bytes_of (ns @ ms) = bytes_of ns + bytes_of ms"
  by (simp_all add: bytes_of_def)

definition height_list :: "rich_node list \<Rightarrow> nat" where
  "height_list cs = foldr max (map (\<lambda>c. Suc (height_of c)) cs) 0"

lemma height_list_simps [simp]:
  "height_list [] = 0" "height_list (c # cs) = max (Suc (height_of c)) (height_list cs)"
  by (simp_all add: height_list_def)

lemma tree_unfold:
  "nodes_of n = n # nodes_list (node_children n)" "height_of n = height_list (node_children n)"
  by (simp_all add: nodes_of.simps [of n] height_of.simps [of n] height_list_def)

text \<open>The counters after a part of the tree was validated from \<open>l\<close>.\<close>

definition advance :: "limits \<Rightarrow> rich_node list \<Rightarrow> limits" where
  "advance l ns = l\<lparr>lim_nodes := lim_nodes l + length ns, lim_text_bytes := lim_text_bytes l + bytes_of ns\<rparr>"

definition within :: "limits \<Rightarrow> bool" where
  "within l \<longleftrightarrow> lim_nodes l \<le> max_nodes \<and> lim_text_bytes l \<le> max_text_bytes"

lemma advance_simps [simp]:
  "advance l [] = l" "advance (advance l ns) ms = advance l (ns @ ms)"
  "lim_nodes (advance l ns) = lim_nodes l + length ns"
  "lim_text_bytes (advance l ns) = lim_text_bytes l + bytes_of ns"
  by (simp_all add: advance_def)

lemma advance_leaf: "advance l [n] = l\<lparr>lim_nodes := lim_nodes l + 1, lim_text_bytes := lim_text_bytes l + node_bytes n\<rparr>"
  by (simp add: advance_def)

lemma within_append: "within (advance l (ns @ ms)) \<Longrightarrow> within (advance l ns)"
  by (simp add: within_def)

lemma container_bytes [simp]:
  "(case n of RText _ _ \<Rightarrow> False | RMedia _ \<Rightarrow> False | _ \<Rightarrow> True) \<Longrightarrow> node_bytes n = 0"
  by (simp add: node_bytes_def split: rich_node.splits)

definition is_leaf :: "rich_node \<Rightarrow> bool" where
  "is_leaf n \<longleftrightarrow> (case n of RText _ _ \<Rightarrow> True | RHardBreak \<Rightarrow> True | RMedia _ \<Rightarrow> True | _ \<Rightarrow> False)"

lemma validate_leaf:
  assumes "is_leaf n" and "within l"
  shows "validate_node urls depth n l = Inr l' \<longleftrightarrow>
    node_ok urls n \<and> depth \<le> max_depth \<and> within (advance l [n]) \<and> l' = advance l [n]"
proof (cases n)
  case (RText s marks)
  show ?thesis
    using assms RText by (subst validate_node.simps)
      (auto simp: Let_def validate_text_Inr within_def advance_leaf)
next
  case RHardBreak
  show ?thesis
    using assms RHardBreak by (subst validate_node.simps)
      (auto simp: Let_def within_def advance_leaf node_ok_def)
next
  case (RMedia a)
  show ?thesis
    using assms RMedia by (subst validate_node.simps)
      (auto simp: Let_def validate_media_Inr [of _ _ _ urls] within_def advance_leaf)
qed (use assms in \<open>auto simp: is_leaf_def\<close>)

lemma validate_inner:
  assumes "\<not> is_leaf n"
  shows "validate_node urls depth n l = Inr l' \<longleftrightarrow>
    depth \<le> max_depth \<and> lim_nodes l + 1 \<le> max_nodes \<and> validate_container n = Inr () \<and>
    validate_children urls depth n (node_children n) (l\<lparr>lim_nodes := lim_nodes l + 1\<rparr>) = Inr l' \<and>
    (case n of RTable rows \<Rightarrow> validate_table rows = Inr () | _ \<Rightarrow> True)"
  using assms by (subst validate_node.simps)
    (auto simp: Let_def rbind_eq_Inr is_leaf_def split: rich_node.splits)

lemma node_ok_inner:
  "\<not> is_leaf n \<Longrightarrow> node_ok urls n \<longleftrightarrow> validate_container n = Inr () \<and> list_all (child_ok n) (node_children n) \<and>
    (case n of RTable rows \<Rightarrow> validate_table rows = Inr () | _ \<Rightarrow> True)"
  by (cases n) (auto simp: node_ok_def is_leaf_def validate_container_def)

lemma height_leaf: "is_leaf n \<Longrightarrow> height_of n = 0" "is_leaf n \<Longrightarrow> nodes_of n = [n]"
  by (cases n; simp add: is_leaf_def tree_unfold)+

lemma validate_inner_Inr:
  assumes inner: "\<not> is_leaf n" and "within l"
    and children: "depth \<le> max_depth \<Longrightarrow> within (advance l [n]) \<Longrightarrow>
      validate_children urls depth n (node_children n) (advance l [n]) = Inr l' \<longleftrightarrow>
      list_all (child_ok n) (node_children n) \<and> list_all (node_ok urls) (nodes_list (node_children n)) \<and>
      depth + height_list (node_children n) \<le> max_depth \<and>
      within (advance (advance l [n]) (nodes_list (node_children n))) \<and>
      l' = advance (advance l [n]) (nodes_list (node_children n))"
  shows "validate_node urls depth n l = Inr l' \<longleftrightarrow>
    list_all (node_ok urls) (nodes_of n) \<and> depth + height_of n \<le> max_depth \<and>
    within (advance l (nodes_of n)) \<and> l' = advance l (nodes_of n)"
proof -
  have bytes: "node_bytes n = 0"
    using inner by (simp add: is_leaf_def split: rich_node.splits)
  then have step: "l\<lparr>lim_nodes := lim_nodes l + 1\<rparr> = advance l [n]"
    by (simp add: advance_leaf)
  have room: "within (advance l [n]) \<longleftrightarrow> lim_nodes l + 1 \<le> max_nodes"
    using assms(2) bytes by (simp add: within_def)
  have head: "within (advance l (nodes_of n)) \<Longrightarrow> within (advance l [n])"
    unfolding tree_unfold(1) [of n] by (rule within_append [of _ _ "nodes_list (node_children n)"]) simp
  show ?thesis
    unfolding validate_inner [OF inner] step
    using children room head by (auto simp: tree_unfold node_ok_inner [OF inner])
qed

lemma validate_children_Inr:
  assumes "\<And>c depth l l'. c \<in> set cs \<Longrightarrow> within l \<Longrightarrow> validate_node urls depth c l = Inr l' \<longleftrightarrow>
      list_all (node_ok urls) (nodes_of c) \<and> depth + height_of c \<le> max_depth \<and>
      within (advance l (nodes_of c)) \<and> l' = advance l (nodes_of c)"
    and "within l" and "depth \<le> max_depth"
  shows "validate_children urls depth p cs l = Inr l' \<longleftrightarrow>
      list_all (child_ok p) cs \<and> list_all (node_ok urls) (nodes_list cs) \<and> depth + height_list cs \<le> max_depth \<and>
      within (advance l (nodes_list cs)) \<and> l' = advance l (nodes_list cs)"
  using assms
proof (induction cs arbitrary: l)
  case (Cons c cs)
  have head: "validate_node urls (Suc depth) c l = Inr l2 \<longleftrightarrow>
      list_all (node_ok urls) (nodes_of c) \<and> Suc (depth + height_of c) \<le> max_depth \<and>
      within (advance l (nodes_of c)) \<and> l2 = advance l (nodes_of c)" for l2
    using Cons.prems by simp
  have room: "within (advance l (nodes_of c @ nodes_list cs)) \<Longrightarrow> within (advance l (nodes_of c))"
    by (rule within_append)
  show ?case
  proof (cases "within (advance l (nodes_of c))")
    case True
    have "validate_children urls depth p cs (advance l (nodes_of c)) = Inr l' \<longleftrightarrow>
      list_all (child_ok p) cs \<and> list_all (node_ok urls) (nodes_list cs) \<and> depth + height_list cs \<le> max_depth \<and>
      within (advance l (nodes_of c @ nodes_list cs)) \<and> l' = advance l (nodes_of c @ nodes_list cs)"
      using Cons.IH [OF Cons.prems(1) True Cons.prems(3)] by simp
    then show ?thesis
      using True by (auto simp: rbind_eq_Inr head)
  next
    case False
    then show ?thesis using room by (auto simp: rbind_eq_Inr head)
  qed
qed auto

lemma validate_node_Inr:
  "within l \<Longrightarrow> validate_node urls depth n l = Inr l' \<longleftrightarrow>
      list_all (node_ok urls) (nodes_of n) \<and> depth + height_of n \<le> max_depth \<and>
      within (advance l (nodes_of n)) \<and> l' = advance l (nodes_of n)"
proof (induction "size n" arbitrary: n depth l l' rule: less_induct)
  case less
  show ?case
  proof (cases "is_leaf n")
    case True
    then show ?thesis using validate_leaf [OF True less(2)] by (simp add: height_leaf)
  next
    case False
    show ?thesis
    proof (rule validate_inner_Inr [OF False less(2)], goal_cases)
      case 1
      show ?case
        by (rule validate_children_Inr [OF _ 1(2,1)]) (rule less(1) [OF node_children_size])
    qed
  qed
qed

text \<open>The root starts from empty counters.\<close>

lemma rich_validate_Inr:
  "rich_validate urls r = Inr () \<longleftrightarrow> rc_version r = 1 \<and> is_block_node (rc_node r) \<and>
     list_all (node_ok urls) (nodes_of (rc_node r)) \<and> height_of (rc_node r) \<le> max_depth \<and>
     length (nodes_of (rc_node r)) \<le> max_nodes \<and> bytes_of (nodes_of (rc_node r)) \<le> max_text_bytes"
proof -
  have "within \<lparr>lim_nodes = 0, lim_text_bytes = 0\<rparr>"
    by (simp add: within_def)
  from validate_node_Inr [OF this, of urls 0 "rc_node r"] show ?thesis
    by (auto simp: rich_validate_def rbind_eq_Inr within_def)
qed

section \<open>Where the cells of a table lie\<close>

record placed_cell =
  pc_row :: nat
  pc_column :: nat
  pc_height :: nat
  pc_width :: nat

definition covers :: "nat \<Rightarrow> nat \<Rightarrow> placed_cell \<Rightarrow> bool" where
  "covers r c p \<longleftrightarrow> pc_row p \<le> r \<and> r < pc_row p + pc_height p \<and> pc_column p \<le> c \<and> c < pc_column p + pc_width p"

definition cover_count :: "placed_cell list \<Rightarrow> nat \<Rightarrow> nat \<Rightarrow> nat" where
  "cover_count ps r c = length (filter (covers r c) ps)"

lemma cover_count_simps [simp]:
  "cover_count [] r c = 0" "cover_count (ps @ qs) r c = cover_count ps r c + cover_count qs r c"
  "cover_count [p] r c = (if covers r c p then 1 else 0)"
  by (simp_all add: cover_count_def)

text \<open>The cells of a table in document order, as row, height and width.\<close>

fun cells_of_rows :: "nat \<Rightarrow> rich_node list \<Rightarrow> (nat \<times> nat \<times> nat) list" where
  "cells_of_rows row [] = []"
| "cells_of_rows row (r # rows) =
     map (\<lambda>cell. (row, cell_rowspan cell, cell_colspan cell)) (node_children r) @ cells_of_rows (row + 1) rows"

abbreviation cell_shape :: "placed_cell \<Rightarrow> nat \<times> nat \<times> nat" where
  "cell_shape p \<equiv> (pc_row p, pc_height p, pc_width p)"

text \<open>From row \<open>row\<close> on, the occupancy counters say which positions the placed cells cover.\<close>

definition tracks :: "nat \<Rightarrow> nat list \<Rightarrow> placed_cell list \<Rightarrow> bool" where
  "tracks row occupancy ps \<longleftrightarrow> length occupancy = max_table_columns \<and>
     (\<forall>r c. row \<le> r \<longrightarrow> cover_count ps r c = (if c < max_table_columns \<and> occupancy ! c > r then 1 else 0))"

lemma occupy_Inr:
  "occupy row bottom occupancy column n = Inr occ \<Longrightarrow> column + n \<le> length occupancy \<Longrightarrow>
    length occ = length occupancy \<and>
    (\<forall>c<length occ. occ ! c = (if column \<le> c \<and> c < column + n then bottom else occupancy ! c)) \<and>
    (\<forall>c. column \<le> c \<and> c < column + n \<longrightarrow> occupancy ! c \<le> row)"
proof (induction n arbitrary: occupancy column)
  case (Suc n)
  then have step: "occupancy ! column \<le> row" "occupy row bottom (occupancy[column := bottom]) (column + 1) n = Inr occ"
    by (auto split: if_splits)
  have len: "length occ = length occupancy"
    and val: "c < length occ \<Longrightarrow> occ ! c = (if column + 1 \<le> c \<and> c < column + 1 + n then bottom else occupancy[column := bottom] ! c)"
    and free: "column + 1 \<le> c \<and> c < column + 1 + n \<Longrightarrow> occupancy[column := bottom] ! c \<le> row" for c
    using Suc.IH [OF step(2)] Suc.prems(2) by auto
  show ?case
  proof (intro conjI allI impI)
    fix c assume "c < length occ"
    from val [OF this] show "occ ! c = (if column \<le> c \<and> c < column + Suc n then bottom else occupancy ! c)"
      using len Suc.prems(2) by (auto simp: nth_list_update split: if_splits)
  next
    fix c assume "column \<le> c \<and> c < column + Suc n"
    then show "occupancy ! c \<le> row"
      using step(1) free [of c] by (cases "c = column") auto
  qed (rule len)
qed simp

lemma tracks_occupy:
  assumes "tracks row occupancy ps" and "occupy row (row + h) occupancy start w = Inr occ"
    and "start + w \<le> max_table_columns"
  shows "tracks row occ (ps @ [\<lparr>pc_row = row, pc_column = start, pc_height = h, pc_width = w\<rparr>])"
proof -
  note o = occupy_Inr [OF assms(2)]
  have len: "length occupancy = max_table_columns"
    and count: "row \<le> r \<Longrightarrow> cover_count ps r c = (if c < max_table_columns \<and> occupancy ! c > r then 1 else 0)" for r c
    using assms(1) by (auto simp: tracks_def)
  show ?thesis
    unfolding tracks_def
  proof (intro conjI allI impI)
    fix r c :: nat assume r: "row \<le> r"
    show "cover_count (ps @ [\<lparr>pc_row = row, pc_column = start, pc_height = h, pc_width = w\<rparr>]) r c =
        (if c < max_table_columns \<and> occ ! c > r then 1 else 0)"
    proof (cases "start \<le> c \<and> c < start + w")
      case True
      then have "occupancy ! c \<le> row" "c < max_table_columns" "occ ! c = row + h"
        using o len assms(3) by auto
      then show ?thesis using True r count [OF r, of c] by (auto simp: covers_def)
    next
      case False
      then have "c < max_table_columns \<Longrightarrow> occ ! c = occupancy ! c"
        using o len assms(3) by auto
      then show ?thesis using False count [OF r, of c] by (auto simp: covers_def)
    qed
  qed (use o len assms(3) in simp)
qed

lemma place_cells_Inr:
  assumes "place_cells row_count row cells column occupancy = Inr occ" and "tracks row occupancy ps"
  shows "\<exists>qs. tracks row occ (ps @ qs) \<and>
    map cell_shape qs = map (\<lambda>cell. (row, cell_rowspan cell, cell_colspan cell)) cells \<and>
    list_all (\<lambda>q. pc_row q + pc_height q \<le> row_count) qs"
  using assms
proof (induction cells arbitrary: column occupancy ps)
  case Nil
  then show ?case by (auto intro: exI [of _ "[]"])
next
  case (Cons cell cells)
  let ?s = "skip_column occupancy row column"
  let ?p = "\<lparr>pc_row = row, pc_column = ?s, pc_height = cell_rowspan cell, pc_width = cell_colspan cell\<rparr>"
  obtain o1 where room: "?s + cell_colspan cell \<le> max_table_columns" "row + cell_rowspan cell \<le> row_count"
    and o1: "occupy row (row + cell_rowspan cell) occupancy ?s (cell_colspan cell) = Inr o1"
    and rest: "place_cells row_count row cells (?s + cell_colspan cell) o1 = Inr occ"
    using Cons.prems(1) by (auto simp: Let_def rbind_eq_Inr split: if_splits)
  obtain qs where qs: "tracks row occ ((ps @ [?p]) @ qs)"
    "map cell_shape qs = map (\<lambda>cell. (row, cell_rowspan cell, cell_colspan cell)) cells"
    "list_all (\<lambda>q. pc_row q + pc_height q \<le> row_count) qs"
    using Cons.IH [OF rest tracks_occupy [OF Cons.prems(2) o1 room(1)]] by blast
  show ?case
    by (rule exI [of _ "?p # qs"]) (use qs room in simp)
qed

lemma sorted_le_last: "sorted xs \<Longrightarrow> i \<in> set xs \<Longrightarrow> i \<le> last xs" for i :: nat
  by (induction xs) auto

lemma row_width_bounds:
  "row_width occ row \<le> length occ" "row_width occ row \<le> c \<Longrightarrow> c < length occ \<Longrightarrow> occ ! c \<le> row"
proof -
  let ?is = "filter (\<lambda>i. occ ! i > row) [0..<length occ]"
  have sorted: "sorted ?is"
    by (rule sorted_wrt_filter) simp
  have "row_width occ row \<le> length occ \<and> (\<forall>c. row_width occ row \<le> c \<longrightarrow> c < length occ \<longrightarrow> occ ! c \<le> row)"
  proof (cases "?is = []")
    case True
    then have "\<forall>c<length occ. occ ! c \<le> row"
      by (auto simp: filter_empty_conv not_less)
    then show ?thesis using True by (simp add: row_width_def)
  next
    case False
    then have w: "row_width occ row = last ?is + 1"
      by (cases ?is) (simp_all add: row_width_def)
    have "last ?is \<in> set ?is"
      using False by (rule last_in_set)
    then have "last ?is < length occ" by simp
    moreover have "occ ! c \<le> row" if "last ?is + 1 \<le> c" "c < length occ" for c
    proof (rule ccontr)
      assume "\<not> occ ! c \<le> row"
      with that have "c \<in> set ?is" by simp
      from sorted_le_last [OF sorted this] that show False by simp
    qed
    ultimately show ?thesis unfolding w by auto
  qed
  then show "row_width occ row \<le> length occ" "row_width occ row \<le> c \<Longrightarrow> c < length occ \<Longrightarrow> occ ! c \<le> row"
    by auto
qed

text \<open>A rectangle of \<open>w\<close> columns whose rows from \<open>row\<close> up to \<open>row_count\<close> are covered once everywhere.\<close>

definition tiled :: "nat \<Rightarrow> nat \<Rightarrow> nat \<Rightarrow> placed_cell list \<Rightarrow> bool" where
  "tiled row row_count w ps \<longleftrightarrow>
     (\<forall>r c. row \<le> r \<and> r < row_count \<longrightarrow> cover_count ps r c = (if c < w then 1 else 0)) \<and>
     list_all (\<lambda>p. pc_row p + pc_height p \<le> row_count) ps"

lemma later_cells_cover_later: "map cell_shape qs = cells_of_rows row rows \<Longrightarrow> r < row \<Longrightarrow> cover_count qs r c = 0"
proof -
  have "(a, b) \<in> set (cells_of_rows row rows) \<Longrightarrow> row \<le> a" for a b
    by (induction rows arbitrary: row) (auto, force)
  then show "map cell_shape qs = cells_of_rows row rows \<Longrightarrow> r < row \<Longrightarrow> cover_count qs r c = 0"
    unfolding cover_count_def covers_def
    by (metis (mono_tags, lifting) filter_False image_eqI leD le_trans list.set_map list.size(3))
qed

lemma table_rows_Inr:
  assumes "table_rows row_count row rows occupancy width = Inr ()" and "tracks row occupancy ps"
    and "row + length rows = row_count" and "case width of None \<Rightarrow> True | Some w \<Rightarrow> w \<le> max_table_columns"
  shows "\<exists>qs w. map cell_shape qs = cells_of_rows row rows \<and> w \<le> max_table_columns \<and>
    (case width of None \<Rightarrow> True | Some w' \<Rightarrow> w = w') \<and>
    list_all (\<lambda>p. pc_row p + pc_height p \<le> row_count) qs \<and>
    (\<forall>r c. row \<le> r \<and> r < row_count \<longrightarrow> cover_count (ps @ qs) r c = (if c < w then 1 else 0))"
  using assms
proof (induction rows arbitrary: row occupancy width ps)
  case Nil
  show ?case
    by (rule exI [of _ "[]"], rule exI [of _ "case width of None \<Rightarrow> 0 | Some w \<Rightarrow> w"])
      (use Nil.prems in \<open>simp split: option.splits\<close>)
next
  case (Cons r rows)
  obtain occ where occ: "place_cells row_count row (node_children r) 0 occupancy = Inr occ"
    using Cons.prems(1) by (auto simp: rbind_eq_Inr)
  let ?w = "row_width occ row"
  have checks: "case width of None \<Rightarrow> True | Some w' \<Rightarrow> w' = ?w" "list_all (\<lambda>i. row < i) (take ?w occ)"
    "table_rows row_count (row + 1) rows occ (Some ?w) = Inr ()"
    using Cons.prems(1) occ
    by (auto simp: Let_def list_all_iff list_ex_iff not_le split: if_splits option.splits)
  obtain qs where qs: "tracks row occ (ps @ qs)"
    "map cell_shape qs = map (\<lambda>cell. (row, cell_rowspan cell, cell_colspan cell)) (node_children r)"
    "list_all (\<lambda>q. pc_row q + pc_height q \<le> row_count) qs"
    using place_cells_Inr [OF occ Cons.prems(2)] by blast
  have len: "length occ = max_table_columns"
    using qs(1) by (simp add: tracks_def)
  have here: "cover_count (ps @ qs) row c = (if c < ?w then 1 else 0)" for c
  proof -
    have "c < ?w \<Longrightarrow> row < occ ! c"
      using checks(2) row_width_bounds(1) [of occ row] by (simp add: list_all_length)
    moreover have "?w \<le> c \<Longrightarrow> c < max_table_columns \<Longrightarrow> occ ! c \<le> row"
      using row_width_bounds(2) [of occ row c] len by simp
    ultimately show ?thesis
      using qs(1) row_width_bounds(1) [of occ row] len by (cases "c < ?w") (auto simp: tracks_def)
  qed
  have "tracks (row + 1) occ (ps @ qs)"
    using qs(1) by (simp add: tracks_def)
  from Cons.IH [OF checks(3) this] Cons.prems(3) row_width_bounds(1) [of occ row] len
  obtain rs where rs: "map cell_shape rs = cells_of_rows (row + 1) rows"
    "list_all (\<lambda>p. pc_row p + pc_height p \<le> row_count) rs"
    "\<And>r c. row + 1 \<le> r \<and> r < row_count \<Longrightarrow> cover_count ((ps @ qs) @ rs) r c = (if c < ?w then 1 else 0)"
    by auto
  have all: "cover_count (ps @ qs @ rs) r c = (if c < ?w then 1 else 0)" if "row \<le> r \<and> r < row_count" for r c
  proof (cases "r = row")
    case True
    then show ?thesis using here [of c] later_cells_cover_later [OF rs(1), of row c] by simp
  next
    case False
    then show ?thesis using that rs(3) [of r c] by simp
  qed
  show ?case
    by (rule exI [of _ "qs @ rs"], rule exI [of _ ?w])
      (use qs rs all checks(1) row_width_bounds(1) [of occ row] len in \<open>simp split: option.splits\<close>)
qed

text \<open>The cells of an accepted table tile a rectangle.\<close>

lemma validate_table_tiles:
  assumes "validate_table rows = Inr ()"
  shows "\<exists>ps w. map cell_shape ps = cells_of_rows 0 rows \<and> w \<le> max_table_columns \<and>
    tiled 0 (length rows) w ps"
proof -
  have "tracks 0 (replicate max_table_columns 0) []"
    by (simp add: tracks_def)
  moreover have "table_rows (length rows) 0 rows (replicate max_table_columns 0) None = Inr ()"
    using assms by (auto simp: validate_table_def split: if_splits)
  ultimately obtain qs w where "map cell_shape qs = cells_of_rows 0 rows" "w \<le> max_table_columns"
    "list_all (\<lambda>p. pc_row p + pc_height p \<le> length rows) qs"
    "\<forall>r c. 0 \<le> r \<and> r < length rows \<longrightarrow> cover_count ([] @ qs) r c = (if c < w then 1 else 0)"
    using table_rows_Inr [of "length rows" 0 rows "replicate max_table_columns 0" None "[]"] by auto
  then show ?thesis
    by (intro exI [of _ qs] exI [of _ w] conjI) (simp_all add: tiled_def)
qed

section \<open>Survivors\<close>

text \<open>
  A tree survives in another when the roots match and the children of the new one are, in order,
  survivors of some of the old one's children.
\<close>

inductive survives :: "rich_node \<Rightarrow> rich_node \<Rightarrow> bool" where
  survivor: "attrs_match old new \<Longrightarrow> list_emb (\<lambda>c s. survives s c) (node_children new) (node_children old) \<Longrightarrow>
    survives old new"
monos list_emb_mono

lemma match_children_emb: "match_children ss cs \<longleftrightarrow> list_emb (\<lambda>c s. preserves_node s c) cs ss"
  by (induction ss arbitrary: cs; case_tac cs) (auto intro: list_emb_ConsD elim: list_emb.cases)

lemma list_emb_weaken:
  "list_emb P xs ys \<Longrightarrow> (\<And>x y. y \<in> set ys \<Longrightarrow> P x y \<Longrightarrow> Q x y) \<Longrightarrow> list_emb Q xs ys"
  by (induction rule: list_emb.induct) auto

lemma preserves_survives: "preserves_node old new \<longleftrightarrow> survives old new"
proof (induction "size old" arbitrary: old new rule: less_induct)
  case less
  have "list_emb (\<lambda>c s. preserves_node s c) (node_children new) (node_children old) \<longleftrightarrow>
      list_emb (\<lambda>c s. survives s c) (node_children new) (node_children old)"
    using less node_children_size [of _ old] by (auto elim!: list_emb_weaken)
  then show ?case
    by (subst preserves_node.simps, subst survives.simps) (simp add: match_children_emb)
qed

end
