(* ===== verification/Rich_Theorems.thy ===== *)
theory Rich_Theorems
  imports Rich_Trees
begin

text \<open>The properties of rich content: safe HTML, survivors, bounds of valid trees.\<close>

section \<open>The HTML that is written\<close>

text \<open>Characters that open or close a tag or an attribute value.\<close>

definition plain_html :: "str \<Rightarrow> bool" where
  "plain_html s \<longleftrightarrow> (\<forall>c\<in>set s. c \<noteq> 60 \<and> c \<noteq> 62 \<and> c \<noteq> 34 \<and> c \<noteq> 39)"

definition html_tags :: "str list" where
  "html_tags = map lit [''strong'', ''em'', ''s'', ''u'', ''code'', ''a'', ''p'', ''ul'', ''ol'', ''li'', ''pre'',
     ''table'', ''tbody'', ''tr'', ''th'', ''td'', ''figure'', ''figcaption'']"

definition html_attributes :: "string list" where
  "html_attributes = [''href'', ''title'', ''rel'', ''start'', ''data-language'', ''colspan'', ''rowspan'', ''style'',
     ''data-colwidth'', ''src'', ''alt'']"

text \<open>The value of an \<open>href\<close>: an escaped link that \<open>safe_link\<close> accepts.\<close>

definition safe_target :: "url_crate \<Rightarrow> str \<Rightarrow> bool" where
  "safe_target urls v \<longleftrightarrow> (\<exists>href. safe_link urls href \<and> v = escape_html href)"

inductive attributes_html :: "url_crate \<Rightarrow> str \<Rightarrow> bool" for urls where
  attr_none: "attributes_html urls []"
| attr_more: "name \<in> set html_attributes \<Longrightarrow> plain_html v \<Longrightarrow> (name = ''href'' \<Longrightarrow> safe_target urls v) \<Longrightarrow> attributes_html urls rest \<Longrightarrow>
    attributes_html urls (quoted_attr name v @ rest)"

text \<open>Balanced HTML made of known elements and attributes, whose texts and attribute values
  contain no angle bracket and no quote.\<close>

inductive safe_html :: "url_crate \<Rightarrow> str \<Rightarrow> bool" for urls where
  safe_text: "plain_html s \<Longrightarrow> safe_html urls s"
| safe_append: "safe_html urls a \<Longrightarrow> safe_html urls b \<Longrightarrow> safe_html urls (a @ b)"
| safe_element: "tag \<in> set html_tags \<or> (\<exists>n. tag = lit ''h'' @ show_nat n) \<Longrightarrow> attributes_html urls ps \<Longrightarrow>
    safe_html urls body \<Longrightarrow> safe_html urls (element tag ps body)"
| safe_break: "safe_html urls (lit ''<br>'')"
| safe_image: "attributes_html urls ps \<Longrightarrow> safe_html urls (lit ''<img'' @ ps @ lit ''>'')"

lemma set_replace_char: "set (replace_char c r s) = (set s - {c}) \<union> (if c \<in> set s then set r else {})"
  by (auto simp: replace_char_def split: if_splits)

lemma plain_html_iff: "plain_html s \<longleftrightarrow> 60 \<notin> set s \<and> 62 \<notin> set s \<and> 34 \<notin> set s \<and> 39 \<notin> set s"
  unfolding plain_html_def by blast

lemma plain_escape [simp]: "plain_html (escape_html s)"
  unfolding plain_html_iff escape_html_def by (intro conjI) (simp_all add: set_replace_char lit_def)

lemma plain_simps [simp]: "plain_html []" "plain_html (a @ b) \<longleftrightarrow> plain_html a \<and> plain_html b"
  "plain_html (c # s) \<longleftrightarrow> c \<noteq> 60 \<and> c \<noteq> 62 \<and> c \<noteq> 34 \<and> c \<noteq> 39 \<and> plain_html s"
  by (auto simp: plain_html_def)

lemma show_nat_digits: "c \<in> set (show_nat n) \<Longrightarrow> 48 \<le> c \<and> c \<le> 57"
proof (induction n rule: show_nat.induct)
  case (1 n)
  then show ?case by (subst (asm) (2) show_nat.simps) (auto split: if_splits)
qed

lemma plain_show_nat [simp]: "plain_html (show_nat n)"
  using show_nat_digits by (fastforce simp: plain_html_def)

lemma plain_lit: "plain_html (lit s) \<longleftrightarrow> (\<forall>c\<in>set s. of_char c \<notin> {60, 62, 34, 39::nat})"
  by (auto simp: plain_html_def lit_def)

lemma plain_show_i64 [simp]: "plain_html (show_i64 w)"
  by (simp add: show_i64_def plain_lit)

lemma plain_concat: "(\<And>s. s \<in> set ss \<Longrightarrow> plain_html s) \<Longrightarrow> plain_html (concat ss)"
  by (induction ss) auto

lemma plain_join: "plain_html sep \<Longrightarrow> (\<And>s. s \<in> set ss \<Longrightarrow> plain_html s) \<Longrightarrow> plain_html (join_with sep ss)"
  by (induction sep ss rule: join_with.induct) auto

lemma attr_one: "name \<in> set html_attributes \<Longrightarrow> plain_html v \<Longrightarrow> (name = ''href'' \<Longrightarrow> safe_target urls v) \<Longrightarrow>
    attributes_html urls (quoted_attr name v)"
  using attr_more [OF _ _ _ attr_none] by simp

lemma attr_append: "attributes_html urls a \<Longrightarrow> attributes_html urls b \<Longrightarrow> attributes_html urls (a @ b)"
  by (induction rule: attributes_html.induct) (simp_all add: attr_more)

lemma attributes_if: "attributes_html urls a \<Longrightarrow> attributes_html urls (if P then a else [])"
  by (simp add: attr_none)

lemma attributes_option: "(\<And>x. attributes_html urls (f x)) \<Longrightarrow> attributes_html urls (case m of None \<Rightarrow> [] | Some x \<Rightarrow> f x)"
  by (simp add: attr_none split: option.split)

lemma plain_alignment: "plain_html (lit ''text-align:'' @ alignment_name al)"
  by (cases al) (simp_all add: alignment_name_def plain_lit)

lemma cell_attributes: "attributes_html urls (cell_properties attrs)"
proof (cases attrs)
  case (Some a)
  show ?thesis
    unfolding Some cell_properties_def option.case
    by (intro attr_append attributes_if attributes_option attr_one plain_alignment plain_join)
       (auto simp: html_attributes_def plain_lit)
qed (simp add: cell_properties_def attr_none)

lemma safe_mark: "mark_ok urls m \<Longrightarrow> safe_html urls v \<Longrightarrow> safe_html urls (mark_html m v)"
proof (cases m)
  case (MarkLink a)
  show "mark_ok urls m \<Longrightarrow> safe_html urls v \<Longrightarrow> safe_html urls (mark_html m v)"
    unfolding MarkLink mark_html.simps
    by (intro safe_element attr_append attributes_option attr_one)
       (auto simp: html_tags_def html_attributes_def plain_lit safe_target_def)
qed (auto intro!: safe_element attr_none simp: html_tags_def)

lemma safe_marks: "list_all (mark_ok urls) ms \<Longrightarrow> safe_html urls v \<Longrightarrow> safe_html urls (fold mark_html ms v)"
  by (induction ms arbitrary: v) (auto intro: safe_mark)

lemma safe_text_html: "node_ok urls (RText s marks) \<Longrightarrow> safe_html urls (text_html s marks)"
  by (simp add: text_html_def safe_marks safe_text node_ok_def)

lemma safe_media:
  assumes "plain_html src"
  shows "safe_html urls (media_html src a)"
proof -
  let ?ps = "quoted_attr ''src'' src @ quoted_attr ''alt'' (escape_html (mr_alt a))"
  have cap: "safe_html urls (element (lit ''figcaption'') [] (escape_html (mr_caption a)))"
    by (intro safe_element attr_none safe_text) (auto simp: html_tags_def)
  have "attributes_html urls ?ps"
    using assms by (intro attr_append attr_one) (auto simp: html_attributes_def)
  then have "safe_html urls ((lit ''<img'' @ ?ps @ lit ''>'') @ element (lit ''figcaption'') [] (escape_html (mr_caption a)))"
    by (rule safe_append [OF safe_image cap])
  then have "safe_html urls (element (lit ''figure'') []
      ((lit ''<img'' @ ?ps @ lit ''>'') @ element (lit ''figcaption'') [] (escape_html (mr_caption a))))"
    by (intro safe_element attr_none) (auto simp: html_tags_def)
  then show ?thesis
    by (simp add: media_html_def element_def lit_def)
qed

lemma safe_simple: "tag \<in> set html_tags \<Longrightarrow> attributes_html urls ps \<Longrightarrow> safe_html urls v \<Longrightarrow> safe_html urls (element tag ps v)"
  by (intro safe_element) auto

lemma known_tags [simp]:
  "lit ''p'' \<in> set html_tags" "lit ''ul'' \<in> set html_tags" "lit ''ol'' \<in> set html_tags" "lit ''li'' \<in> set html_tags"
  "lit ''pre'' \<in> set html_tags" "lit ''code'' \<in> set html_tags" "lit ''table'' \<in> set html_tags"
  "lit ''tbody'' \<in> set html_tags" "lit ''tr'' \<in> set html_tags" "lit ''th'' \<in> set html_tags" "lit ''td'' \<in> set html_tags"
  by (simp_all add: html_tags_def)

lemma safe_heading: "safe_html urls v \<Longrightarrow> safe_html urls (element (lit ''h'' @ show_nat n) [] v)"
  by (intro safe_element attr_none) auto

lemma safe_code: "safe_html urls (element (lit ''pre'') [] (element (lit ''code'') (quoted_attr ''data-language'' (escape_html s))
    (concat (map escape_html ss))))"
  by (intro safe_simple attr_none attr_one safe_text plain_concat) (auto simp: html_attributes_def)

lemma plain_relative_path: "(\<And>u. plain_html (show_uuid u)) \<Longrightarrow> plain_html (relative_path show_uuid a)"
  by (simp add: relative_path_def plain_lit)

lemma render_safe_node:
  assumes uuids: "\<And>u. plain_html (show_uuid u)" and ok: "node_ok urls n"
    and children: "\<And>vs. render_children show_uuid paths (node_children n) = Inr vs \<Longrightarrow> safe_html urls vs"
    and run: "render_html show_uuid paths n = Inr v"
  shows "safe_html urls v"
proof (cases n)
  case (RMedia a)
  show ?thesis
  proof (cases paths)
    case None
    then show ?thesis using run RMedia uuids by (auto simp: render_html.simps intro: safe_media plain_relative_path)
  next
    case (Some ps)
    then show ?thesis using run RMedia by (auto simp: render_html.simps rbind_eq_Inr intro: safe_media)
  qed
qed (use run ok children in \<open>auto simp: render_html.simps rbind_eq_Inr html_attributes_def
       intro!: safe_simple safe_heading safe_break safe_text_html safe_code attr_none attr_one cell_attributes\<close>)

lemma render_safe:
  assumes uuids: "\<And>u. plain_html (show_uuid u)"
  shows "list_all (node_ok urls) (nodes_of n) \<Longrightarrow> render_html show_uuid paths n = Inr v \<Longrightarrow> safe_html urls v"
    and "list_all (node_ok urls) (nodes_list cs) \<Longrightarrow> render_children show_uuid paths cs = Inr vs \<Longrightarrow> safe_html urls vs"
  using uuids
proof (induction show_uuid paths n and show_uuid paths cs arbitrary: v and vs rule: render_html_render_children.induct)
  case (1 show_uuid paths n)
  show ?case
    by (rule render_safe_node [OF 1(4) _ _ 1(3)]) (use 1(1,2,4) in \<open>simp_all add: tree_unfold [of n]\<close>)
next
  case (2 show_uuid paths)
  then show ?case by (simp add: safe_text)
next
  case (3 show_uuid paths c cs)
  then show ?case by (auto simp: rbind_eq_Inr intro: safe_append)
qed

lemma render_succeeds:
  "\<exists>v. render_html show_uuid None n = Inr v" "\<exists>vs. render_children show_uuid None cs = Inr vs"
proof (induction show_uuid "None :: (media_object_key, str) hash_map option" n
    and show_uuid "None :: (media_object_key, str) hash_map option" cs rule: render_html_render_children.induct)
  case (1 show_uuid n)
  then show ?case by (cases n) (auto simp: render_html.simps)
qed auto

lemma rich_html_succeeds: "\<exists>v. rich_html show_uuid r = Some (Inr v) \<and> render_html show_uuid None (rc_node r) = Inr v"
  using render_succeeds(1) [of show_uuid "rc_node r"] by (auto simp: rich_html_def node_html_def)

section \<open>Markdown returns\<close>

lemma mark_markdown_returns: "MarkUnderline \<notin> set ms \<Longrightarrow> mark_markdown ms v \<noteq> None"
  by (induction ms arbitrary: v) (auto simp: Let_def split: rich_mark.split)

lemma text_markdown_returns: "text_markdown s marks \<noteq> None"
  using mark_markdown_returns [of marks] by (auto simp: text_markdown_def list_ex_iff)

text \<open>Neither rendering panics, and the one without media paths has no error either.\<close>

definition renders :: "'p option \<Rightarrow> 'a outcome \<Rightarrow> bool" where
  "renders paths m \<longleftrightarrow> returns m \<and> (paths = None \<longrightarrow> (\<exists>v. m = Some (Inr v)))"

lemma renders_Inr [simp]: "renders paths (Some (Inr v))"
  by (simp add: renders_def)

lemma renders_paths [simp]: "renders (Some ps) (Some r)"
  by (simp add: renders_def)

lemma renders_obind: "renders paths m \<Longrightarrow> (\<And>x. m = Some (Inr x) \<Longrightarrow> renders paths (k x)) \<Longrightarrow> renders paths (obind m k)"
  unfolding renders_def by (auto intro: returns_obind)

lemma renders_fallback: "renders paths (fallback_html show_uuid paths n)"
  using render_succeeds(1) [of show_uuid n] by (cases paths) (auto simp: fallback_html_def node_html_def)

lemma renders_text: "renders paths (map_option Inr (text_markdown s marks))"
  using text_markdown_returns [of s marks] by (cases "text_markdown s marks") auto

lemma markdown_renders:
  "renders paths (node_markdown show_uuid paths n)"
  "renders paths (inline_nodes show_uuid paths previous cs)"
  "renders paths (list_nodes show_uuid paths start index cs)"
  "renders paths (item_nodes show_uuid paths first cs)"
proof (induction show_uuid paths n and show_uuid paths previous cs and show_uuid paths start index cs
    and show_uuid paths first cs rule: node_markdown_inline_nodes_list_nodes_item_nodes.induct)
  case (1 show_uuid paths n)
  then show ?case
    by (cases n; subst node_markdown.simps)
      (auto simp: renders_fallback renders_text intro!: renders_obind split: option.split)
next
  case (3 show_uuid paths previous c cs)
  then show ?case by (auto simp: renders_fallback intro!: renders_obind)
next
  case (5 show_uuid paths start index item items)
  then show ?case by (auto intro!: renders_obind)
next
  case (7 show_uuid paths first c cs)
  then show ?case by (auto intro!: renders_obind)
qed auto

section \<open>A document\<close>

definition ex_urls :: url_crate where
  "ex_urls = \<lparr>url_parse = (\<lambda>s. if starts_with (lit ''https://'') s
      then Some \<lparr>up_scheme = lit ''https'', up_host = Some (drop 8 s), up_username = [], up_password = None, up_path = lit ''/''\<rparr>
      else None), url_join = (\<lambda>base s. None)\<rparr>"

definition ex_uuid :: "uuid \<Rightarrow> str" where
  "ex_uuid u = lit ''0''"

definition ex_cell :: "u16 \<Rightarrow> u16 \<Rightarrow> string \<Rightarrow> rich_node" where
  "ex_cell colspan rowspan s = RTableCell (Some \<lparr>ta_colspan = colspan, ta_rowspan = rowspan, ta_colwidth = None, ta_alignment = Some AlignLeft\<rparr>)
     [RParagraph [RText (lit s) []]]"

definition ex_rows :: "rich_node list" where
  "ex_rows = [RTableRow [ex_cell 1 2 ''a'', ex_cell 1 1 ''b''], RTableRow [ex_cell 1 1 ''c'']]"

definition ex_table :: rich_content where
  "ex_table = \<lparr>rc_version = 1, rc_node = RTable ex_rows\<rparr>"

definition ex_link :: rich_content where
  "ex_link = \<lparr>rc_version = 1, rc_node =
     RParagraph [RText (lit ''a<b'') [MarkLink \<lparr>la_href = lit ''https://x.example'', la_title = None\<rparr>]]\<rparr>"

lemma ex_table_valid: "rich_validate ex_urls ex_table = Inr ()"
  by code_simp

lemma ex_link_valid: "rich_validate ex_urls ex_link = Inr ()"
  by code_simp

lemma ex_link_html: "rich_html ex_uuid ex_link =
    Some (Inr (lit ''<p><a href=\"https://x.example\" rel=\"noopener noreferrer\">a&lt;b</a></p>''))"
  by code_simp

section \<open>Properties\<close>

text \<open>C35: The validator accepts exactly the documents of version 1 whose root is a block and all of
  whose nodes meet the rules for their kind, of depth at most 24, with at most 10000 nodes and
  1000000 bytes of text in texts, link titles, alternative texts and captions.\<close>

theorem rich_validation_is_exact:
  "rich_validate urls r = Inr () \<longleftrightarrow>
     rc_version r = 1 \<and> is_block_node (rc_node r) \<and> list_all (node_ok urls) (nodes_of (rc_node r)) \<and>
     height_of (rc_node r) \<le> 24 \<and> length (nodes_of (rc_node r)) \<le> 10000 \<and>
     bytes_of (nodes_of (rc_node r)) \<le> 1000000"
  using rich_validate_Inr [of urls r] by (simp add: max_depth_def max_nodes_def max_text_bytes_def)

text \<open>C37: The HTML of an accepted document always exists and is safe, with the media paths of an
  export as without: balanced known elements, texts and attribute values with no angle bracket or
  quote in them, and only links that \<open>safe_link\<close> accepted.\<close>

theorem rich_html_is_safe:
  assumes "\<And>u. plain_html (show_uuid u)" and "rich_validate urls r = Inr ()"
  shows "(\<exists>v. rich_html show_uuid r = Some (Inr v) \<and> safe_html urls v) \<and>
    (\<forall>v. rich_html_with_media_paths show_uuid paths r = Inr v \<longrightarrow> safe_html urls v)"
proof -
  have "list_all (node_ok urls) (nodes_of (rc_node r))"
    using assms(2) by (simp add: rich_validate_Inr)
  then show ?thesis
    using rich_html_succeeds [of show_uuid r] render_safe(1) [OF assms(1)]
    by (auto simp: rich_html_with_media_paths_def)
qed

theorem rich_html_is_safe_witness:
  "safe_html ex_urls (lit ''<p><a href=\"https://x.example\" rel=\"noopener noreferrer\">a&lt;b</a></p>'')"
proof -
  have "\<And>u. plain_html (ex_uuid u)"
    by (simp add: ex_uuid_def plain_lit)
  from rich_html_is_safe [of ex_uuid, OF this ex_link_valid] show ?thesis
    by (auto simp: ex_link_html)
qed

text \<open>C36: The cells of every table of an accepted document, with their row and column spans, tile a
  rectangle of at most 32 columns and 100 rows: each position is covered by exactly one cell.\<close>

theorem accepted_tables_tile:
  assumes "rich_validate urls r = Inr ()" and "RTable rows \<in> set (nodes_of (rc_node r))"
  shows "length rows \<le> 100 \<and> (\<exists>ps w. map (\<lambda>p. (pc_row p, pc_height p, pc_width p)) ps = cells_of_rows 0 rows \<and>
    w \<le> 32 \<and> tiled 0 (length rows) w ps)"
proof -
  have "node_ok urls (RTable rows)"
    using assms by (auto simp: rich_validate_Inr list_all_iff)
  then have "validate_table rows = Inr ()"
    by (simp add: node_ok_def)
  then show ?thesis
    using validate_table_tiles [of rows]
    by (auto simp: validate_table_def max_table_rows_def max_table_columns_def split: if_splits)
qed

theorem accepted_tables_tile_witness:
  "\<exists>ps w. map (\<lambda>p. (pc_row p, pc_height p, pc_width p)) ps = [(0, 2, 1), (0, 1, 1), (1, 1, 1)] \<and>
    w \<le> 32 \<and> tiled 0 2 w ps"
proof -
  have "RTable ex_rows \<in> set (nodes_of (rc_node ex_table))"
    by (simp add: ex_table_def tree_unfold(1) [of "RTable ex_rows"])
  from accepted_tables_tile [OF ex_table_valid this]
  have "\<exists>ps w. map (\<lambda>p. (pc_row p, pc_height p, pc_width p)) ps = cells_of_rows 0 ex_rows \<and> w \<le> 32 \<and>
      tiled 0 (length ex_rows) w ps"
    by blast
  moreover have "cells_of_rows 0 ex_rows = [(0, 2, 1), (0, 1, 1), (1, 1, 1)]" "length ex_rows = 2"
    by code_simp+
  ultimately show ?thesis by simp
qed

text \<open>C38: \<open>preserves_survivor_structure\<close> holds exactly when the new tree arises from the old one by
  removing subtrees and editing texts: node by node the kind, attributes and marks agree and the
  new children are, in order, survivors of some of the old children. Matching each child greedily
  against the remaining survivors misses none.\<close>

theorem preserves_exactly_survivors:
  "rich_preserves a b \<longleftrightarrow> rc_version a = rc_version b \<and> survives (rc_node a) (rc_node b)"
  by (simp add: rich_preserves_def preserves_survives)

text \<open>C39: Markdown never reaches its \<open>unreachable!\<close>: both renderings return for every tree, and the
  one without media paths succeeds.\<close>

theorem rich_markdown_returns:
  "(\<exists>v. rich_markdown show_uuid r = Some (Inr v)) \<and> rich_markdown_with_media_paths show_uuid paths r \<noteq> None"
proof -
  have "renders (None :: (media_object_key, str) hash_map option) (rich_markdown show_uuid r)"
    unfolding rich_markdown_def by (rule renders_obind [OF markdown_renders(1)]) simp
  moreover have "renders (Some paths) (rich_markdown_with_media_paths show_uuid paths r)"
    unfolding rich_markdown_with_media_paths_def node_markdown_with_media_paths_def by (rule renders_obind [OF markdown_renders(1)]) simp
  ultimately show ?thesis by (simp add: renders_def returns_def)
qed

end
