(* ===== verification/Structured_Document.thy ===== *)
theory Structured_Document
  imports Rich_Render
begin

text \<open>
  \<open>StructuredDocument\<close> of \<open>crates/domain/src/content/mod.rs\<close>: the blocks of a document, their
  validation against the prepared evidence, and the Markdown and HTML of the whole.
\<close>

record evidence_ref =
  ev_source_version_id :: uuid
  ev_chunk_id :: "uuid option"
  ev_locator :: chunk_locator

datatype content_block_kind = BlockHeading | BlockParagraph | BlockList | BlockRich

record content_block =
  cb_block_id :: uuid
  cb_kind :: content_block_kind
  cb_text :: str
  cb_citation_ids :: "uuid list"
  cb_items :: "str list"
  cb_rich :: "rich_content option"

record structured_document =
  sd_title :: str
  sd_blocks :: "content_block list"
  sd_schema_version :: u8

definition requires_rich_publication :: "structured_document \<Rightarrow> bool" where
  "requires_rich_publication d \<longleftrightarrow> list_ex (\<lambda>b. cb_kind b = BlockRich) (sd_blocks d)"

definition document_media_references :: "structured_document \<Rightarrow> media_reference list" where
  "document_media_references d =
     concat (map rich_media_references (List.map_filter cb_rich (sd_blocks d)))"

definition check_sections :: "structured_document \<Rightarrow> (uuid option \<times> str) list" where
  "check_sections d = (None, sd_title d) # map (\<lambda>b. (Some (cb_block_id b),
     case cb_rich b of
       Some rich \<Rightarrow> rich_plain_text rich
     | None \<Rightarrow> if cb_kind b = BlockList then join_with [10] (cb_text b # cb_items b) else cb_text b)) (sd_blocks d)"

section \<open>Validation\<close>

text \<open>The checks of one block after the uniqueness of its identifier; the counters of nodes and
  text bytes go in and out.\<close>

definition validate_block :: "url_crate \<Rightarrow> evidence_ref list \<Rightarrow> content_block \<Rightarrow> nat \<times> nat \<Rightarrow> (nat \<times> nat) result" where
  "validate_block urls evidence b counters =
     rbind (if cb_kind b = BlockRich then
         (if cb_text b \<noteq> [] \<or> cb_items b \<noteq> []
          then Inl (invalid_request (lit ''rich block requires empty text/items''))
          else rbind (ok_or (cb_rich b) (invalid_request (lit ''rich block requires a node''))) (\<lambda>rich.
            rbind (rich_validate urls rich) (\<lambda>_.
              Inr (saturating_add (fst counters) (fst (rich_complexity rich)),
                   saturating_add (snd counters) (snd (rich_complexity rich))))))
       else if cb_rich b \<noteq> None then Inl (invalid_request (lit ''only rich blocks contain rich nodes''))
       else Inr counters) (\<lambda>c1.
     if cb_kind b \<noteq> BlockList \<and> cb_items b \<noteq> []
     then Inl (invalid_request (lit ''only list blocks contain items''))
     else if cb_kind b = BlockList \<and> cb_items b = []
     then Inl (invalid_request (lit ''list blocks require items''))
     else if cb_kind b \<noteq> BlockRich \<and> trim (cb_text b) = [] \<and> cb_items b = []
     then Inl (invalid_request (lit ''empty block''))
     else
       let nodes = saturating_add (fst c1) 1;
           bytes = fold (\<lambda>item n. saturating_add n (byte_len item)) (cb_items b)
                     (saturating_add (snd c1) (byte_len (cb_text b))) in
       if nodes > max_nodes \<or> bytes > max_text_bytes
       then Inl (invalid_request (lit ''document node or text limit exceeded''))
       else if list_ex (\<lambda>i. \<not> list_ex (\<lambda>e. ev_chunk_id e = Some i) evidence) (cb_citation_ids b)
       then Inl (invalid_request (lit ''citation is outside the prepared evidence set''))
       else Inr (nodes, bytes))"

fun validate_blocks :: "url_crate \<Rightarrow> evidence_ref list \<Rightarrow> uuid list \<Rightarrow> content_block list \<Rightarrow> nat \<times> nat \<Rightarrow> unit result" where
  "validate_blocks urls evidence seen [] counters = Inr ()"
| "validate_blocks urls evidence seen (b # bs) counters =
     (if cb_block_id b \<in> set seen then Inl (invalid_request (lit ''duplicate block id''))
      else rbind (validate_block urls evidence b counters)
        (validate_blocks urls evidence (cb_block_id b # seen) bs))"

definition validate_document :: "url_crate \<Rightarrow> evidence_ref list \<Rightarrow> structured_document \<Rightarrow> unit result" where
  "validate_document urls evidence d =
     (if sd_schema_version d \<noteq> 2 then Inl (invalid_request (lit ''unsupported content schema version''))
      else if trim (sd_title d) = [] \<or> sd_blocks d = []
      then Inl (invalid_request (lit ''document title and blocks are required''))
      else if byte_len (sd_title d) > 4096 \<or> length (sd_blocks d) > max_nodes
      then Inl (invalid_request (lit ''document title or block count limit exceeded''))
      else validate_blocks urls evidence [] (sd_blocks d) (0, byte_len (sd_title d)))"

text \<open>The loop over the media of an export; the hash map keeps the digest seen last.\<close>

fun media_identities_loop :: "(uuid \<times> i64, str) hash_map \<Rightarrow> media_reference list \<Rightarrow> unit result" where
  "media_identities_loop seen [] = Inr ()"
| "media_identities_loop seen (m # ms) =
     (let identity = (mr_object_id m, mr_object_version m) in
      if (case hm_get seen identity of None \<Rightarrow> False | Some digest \<Rightarrow> digest \<noteq> mr_sha256 m)
      then Inl (invalid_request (lit ''media object has conflicting digests''))
      else media_identities_loop (hm_insert identity (mr_sha256 m) seen) ms)"

definition validate_export_media_identities :: "structured_document \<Rightarrow> unit result" where
  "validate_export_media_identities d = media_identities_loop [] (document_media_references d)"

section \<open>Renderings\<close>

definition trim_end :: "str \<Rightarrow> str" where
  "trim_end s = rev (dropWhile is_whitespace (rev s))"

text \<open>The Markdown of one block; a rich block without a node panics.\<close>

definition block_markdown :: "(uuid \<Rightarrow> str) \<Rightarrow> (media_object_key, str) hash_map option \<Rightarrow> content_block \<Rightarrow> str outcome" where
  "block_markdown show_uuid paths b = (case cb_kind b of
       BlockRich \<Rightarrow> (case cb_rich b of
           None \<Rightarrow> None
         | Some rich \<Rightarrow> (case paths of
               Some ps \<Rightarrow> rich_markdown_with_media_paths show_uuid ps rich
             | None \<Rightarrow> rich_markdown show_uuid rich))
     | BlockHeading \<Rightarrow> Some (Inr (lit ''## '' @ escape_markdown (cb_text b) @ [10, 10]))
     | BlockParagraph \<Rightarrow> Some (Inr (escape_markdown (cb_text b) @ [10, 10]))
     | BlockList \<Rightarrow> Some (Inr ((if cb_text b \<noteq> [] then escape_markdown (cb_text b) @ [10, 10] else []) @
         concat (map (\<lambda>item. lit ''- '' @ escape_markdown item @ [10]) (cb_items b)) @ [10])))"

fun concat_outcomes :: "('a \<Rightarrow> str outcome) \<Rightarrow> 'a list \<Rightarrow> str outcome" where
  "concat_outcomes f [] = Some (Inr [])"
| "concat_outcomes f (x # xs) = obind (f x) (\<lambda>v. obind (concat_outcomes f xs) (\<lambda>vs. Some (Inr (v @ vs))))"

definition render_rich_markdown ::
  "(uuid \<Rightarrow> str) \<Rightarrow> (media_object_key, str) hash_map option \<Rightarrow> bool \<Rightarrow> structured_document \<Rightarrow> str outcome" where
  "render_rich_markdown show_uuid paths include_title d =
     obind (concat_outcomes (block_markdown show_uuid paths) (sd_blocks d)) (\<lambda>v.
       Some (Inr (trim_end ((if include_title then lit ''# '' @ escape_markdown (sd_title d) @ [10, 10] else []) @ v))))"

text \<open>\<open>expect\<close> turns an error into a panic.\<close>

definition expect_ok :: "'a outcome \<Rightarrow> 'a option" where
  "expect_ok m = (case m of Some (Inr x) \<Rightarrow> Some x | _ \<Rightarrow> None)"

definition document_markdown :: "(uuid \<Rightarrow> str) \<Rightarrow> structured_document \<Rightarrow> str option" where
  "document_markdown show_uuid d = expect_ok (render_rich_markdown show_uuid None True d)"

definition markdown_body :: "(uuid \<Rightarrow> str) \<Rightarrow> structured_document \<Rightarrow> str option" where
  "markdown_body show_uuid d = expect_ok (render_rich_markdown show_uuid None False d)"

definition checked_markdown :: "url_crate \<Rightarrow> (uuid \<Rightarrow> str) \<Rightarrow> evidence_ref list \<Rightarrow> structured_document \<Rightarrow> str outcome" where
  "checked_markdown urls show_uuid evidence d =
     obind (Some (validate_document urls evidence d)) (\<lambda>_. map_option Inr (document_markdown show_uuid d))"

definition markdown_with_media_paths :: "url_crate \<Rightarrow> (uuid \<Rightarrow> str) \<Rightarrow> evidence_ref list \<Rightarrow>
    (media_object_key, str) hash_map \<Rightarrow> structured_document \<Rightarrow> str outcome" where
  "markdown_with_media_paths urls show_uuid evidence paths d =
     obind (Some (validate_document urls evidence d)) (\<lambda>_.
     obind (Some (validate_export_media_identities d)) (\<lambda>_.
       render_rich_markdown show_uuid (Some paths) True d))"

definition block_html :: "(uuid \<Rightarrow> str) \<Rightarrow> (media_object_key, str) hash_map option \<Rightarrow> content_block \<Rightarrow> str outcome" where
  "block_html show_uuid paths b = (case cb_kind b of
       BlockRich \<Rightarrow> (case cb_rich b of
           None \<Rightarrow> None
         | Some rich \<Rightarrow> (case paths of
               Some ps \<Rightarrow> Some (rich_html_with_media_paths show_uuid ps rich)
             | None \<Rightarrow> rich_html show_uuid rich))
     | BlockHeading \<Rightarrow> Some (Inr (element (lit ''h2'') [] (escape_html (cb_text b))))
     | BlockParagraph \<Rightarrow> Some (Inr (element (lit ''p'') [] (escape_html (cb_text b))))
     | BlockList \<Rightarrow> Some (Inr ((if cb_text b \<noteq> [] then element (lit ''p'') [] (escape_html (cb_text b)) else []) @
         element (lit ''ul'') [] (concat (map (\<lambda>item. element (lit ''li'') [] (element (lit ''p'') [] (escape_html item)))
           (cb_items b))))))"

definition render_document_html ::
  "(uuid \<Rightarrow> str) \<Rightarrow> (media_object_key, str) hash_map option \<Rightarrow> structured_document \<Rightarrow> str outcome" where
  "render_document_html show_uuid paths d =
     obind (concat_outcomes (block_html show_uuid paths) (sd_blocks d)) (\<lambda>v.
       Some (Inr (element (lit ''h1'') [] (escape_html (sd_title d)) @ v)))"

definition document_html :: "url_crate \<Rightarrow> (uuid \<Rightarrow> str) \<Rightarrow> evidence_ref list \<Rightarrow> structured_document \<Rightarrow> str outcome" where
  "document_html urls show_uuid evidence d =
     obind (Some (validate_document urls evidence d)) (\<lambda>_. render_document_html show_uuid None d)"

definition html_with_media_paths :: "url_crate \<Rightarrow> (uuid \<Rightarrow> str) \<Rightarrow> evidence_ref list \<Rightarrow>
    (media_object_key, str) hash_map \<Rightarrow> structured_document \<Rightarrow> str outcome" where
  "html_with_media_paths urls show_uuid evidence paths d =
     obind (Some (validate_document urls evidence d)) (\<lambda>_.
     obind (Some (validate_export_media_identities d)) (\<lambda>_.
       render_document_html show_uuid (Some paths) d))"

end
