(* ===== verification/Content_Media.thy ===== *)
theory Content_Media
  imports Rich_Content "HOL-Library.List_Lexorder"
begin

text \<open>
  \<open>crates/domain/src/content/content_media.rs\<close>: verified images, the ordered batch of an
  export, and the revocable bindings that authorize an image for a project.

  The knowledge repository that owns the bytes is a parameter. The \<open>BTreeMap\<close> of bindings is a
  map whose listing sorts by identifier; a fresh UUID and the clock are arguments.
\<close>

definition max_upload_bytes :: nat where "max_upload_bytes = 100 * 1024 * 1024"
definition max_image_dimension :: nat where "max_image_dimension = 16384"
definition max_image_pixels :: nat where "max_image_pixels = 100000000"
definition max_media_snapshot_bytes :: nat where "max_media_snapshot_bytes = 512 * 1024 * 1024"
definition max_media_snapshot_images :: nat where "max_media_snapshot_images = 256"

definition lower_hex :: "nat \<Rightarrow> bool" where
  "lower_hex b \<longleftrightarrow> is_ascii_digit b \<or> (97 \<le> b \<and> b \<le> 102)"

definition validate_media_key :: "media_object_key \<Rightarrow> unit result" where
  "validate_media_key k =
     (if is_nil (mk_object_id k) \<or> sint (mk_object_version k) < 1
      then Inl (invalid_request (lit ''invalid media object identity''))
      else if byte_len (mk_sha256 k) \<noteq> 64 \<or> \<not> list_all lower_hex (mk_sha256 k)
      then Inl (invalid_request (lit ''media sha256 must be 64 lowercase hexadecimal characters''))
      else Inr ())"

record verified_image =
  vi_key :: media_object_key
  vi_media_type :: str
  vi_byte_len :: u64
  vi_width :: u32
  vi_height :: u32

definition validate_image :: "verified_image \<Rightarrow> unit result" where
  "validate_image i =
     rbind (validate_media_key (vi_key i)) (\<lambda>_.
     if vi_media_type i \<notin> set [lit ''image/png'', lit ''image/jpeg'', lit ''image/webp'']
     then Inl (invalid_request (lit ''unsupported image media type''))
     else if vi_byte_len i = 0 \<or> unat (vi_byte_len i) > max_upload_bytes
     then Inl (invalid_request (lit ''image byte length is out of range''))
     else if vi_width i = 0 \<or> vi_height i = 0 \<or> unat (vi_width i) > max_image_dimension \<or>
        unat (vi_height i) > max_image_dimension \<or> unat (vi_width i) * unat (vi_height i) > max_image_pixels
     then Inl (invalid_request (lit ''image dimensions are out of range''))
     else Inr ())"

record authorized_media_snapshot =
  as_image :: verified_image
  as_bytes :: "8 word list"

section \<open>The batch of an export\<close>

text \<open>The derived order of keys: identifier, signed version, digest.\<close>

definition media_order :: "media_object_key \<Rightarrow> uuid \<times> int \<times> str" where
  "media_order k = (mk_object_id k, sint (mk_object_version k), mk_sha256 k)"

fun snapshot_keys_loop :: "media_object_key list \<Rightarrow> media_object_key list \<Rightarrow> media_object_key list result" where
  "snapshot_keys_loop collected [] = Inr collected"
| "snapshot_keys_loop collected (k # ks) =
     rbind (validate_media_key k) (\<lambda>_.
       let collected' = insort_insert_key media_order k collected in
       if length collected' > max_media_snapshot_images
       then Inl (invalid_request (lit ''too many images in media export''))
       else snapshot_keys_loop collected' ks)"

fun digests_agree :: "media_object_key list \<Rightarrow> unit result" where
  "digests_agree (a # b # ks) =
     (if mk_object_id a = mk_object_id b \<and> mk_object_version a = mk_object_version b
      then Inl (conflict (lit ''conflicting digests for media object version''))
      else digests_agree (b # ks))"
| "digests_agree _ = Inr ()"

definition ordered_media_snapshot_keys :: "media_object_key list \<Rightarrow> media_object_key list result" where
  "ordered_media_snapshot_keys keys =
     rbind (snapshot_keys_loop [] keys) (\<lambda>ordered. rbind (digests_agree ordered) (\<lambda>_. Inr ordered))"

text \<open>Both numbers are \<open>u64\<close>; an overflow is refused like an excess.\<close>

definition add_media_snapshot_bytes :: "nat \<Rightarrow> nat \<Rightarrow> nat result" where
  "add_media_snapshot_bytes current additional =
     (if current + additional \<ge> 2 ^ 64 then Inl (invalid_request (lit ''media export is too large''))
      else if current + additional > max_media_snapshot_bytes
      then Inl (invalid_request (lit ''media export is too large''))
      else Inr (current + additional))"

section \<open>Bindings\<close>

datatype content_media_binding_state = BindingActive | BindingWithdrawn

record content_media_binding =
  mb_binding_id :: uuid
  mb_operator_id :: operator_id
  mb_tenant_id :: tenant_id
  mb_project_id :: project_id
  mb_image :: verified_image
  mb_state :: content_media_binding_state
  mb_created_at :: instant
  mb_withdrawn_at :: "instant option"

type_synonym scoped_object_key = "operator_id \<times> tenant_id \<times> project_id \<times> media_object_key"

record memory_media_state =
  ms_bindings :: "(uuid, content_media_binding) hash_map"
  ms_by_object :: "(scoped_object_key, uuid) hash_map"

definition require_media_project :: "tenant_scope \<Rightarrow> project_id result" where
  "require_media_project scope =
     ok_or (ts_project_id scope) (invalid_request (lit ''a project scope is required for media''))"

definition binding_in_scope :: "content_media_binding \<Rightarrow> tenant_scope \<Rightarrow> project_id \<Rightarrow> bool" where
  "binding_in_scope b scope project \<longleftrightarrow> mb_operator_id b = ts_operator_id scope \<and>
     mb_tenant_id b = ts_tenant_id scope \<and> mb_project_id b = project"

definition object_index :: "tenant_scope \<Rightarrow> project_id \<Rightarrow> media_object_key \<Rightarrow> scoped_object_key" where
  "object_index scope project k = (ts_operator_id scope, ts_tenant_id scope, project, k)"

definition authorized_binding :: "memory_media_state \<Rightarrow> tenant_scope \<Rightarrow> project_id \<Rightarrow> media_object_key \<Rightarrow>
    content_media_binding option" where
  "authorized_binding st scope project k =
     (case hm_get (ms_by_object st) (object_index scope project k) of None \<Rightarrow> None | Some i \<Rightarrow>
       (case hm_get (ms_bindings st) i of None \<Rightarrow> None | Some b \<Rightarrow>
         if mb_state b = BindingActive \<and> vi_key (mb_image b) = k \<and> binding_in_scope b scope project
         then Some b else None))"

fun authorize_keys :: "memory_media_state \<Rightarrow> tenant_scope \<Rightarrow> project_id \<Rightarrow> media_object_key list \<Rightarrow>
    content_media_binding list result" where
  "authorize_keys st scope project [] = Inr []"
| "authorize_keys st scope project (k # ks) =
     rbind (validate_media_key k) (\<lambda>_.
     rbind (ok_or (authorized_binding st scope project k)
              (conflict (lit ''image is not authorized for content use''))) (\<lambda>b.
     rbind (authorize_keys st scope project ks) (\<lambda>bs. Inr (b # bs))))"

text \<open>\<open>ContentMediaReadGuard::validate\<close>.\<close>

definition guard_validate :: "memory_media_state \<Rightarrow> tenant_scope \<Rightarrow> media_object_key list \<Rightarrow>
    content_media_binding list result" where
  "guard_validate st scope keys =
     rbind (require_media_project scope) (\<lambda>project. authorize_keys st scope project keys)"

definition create_binding :: "tenant_scope \<Rightarrow> verified_image \<Rightarrow> uuid \<Rightarrow> instant \<Rightarrow> memory_media_state \<Rightarrow>
    content_media_binding result \<times> memory_media_state" where
  "create_binding scope img fresh now st =
     try_in st (require_media_project scope) (\<lambda>project.
     try_in st (validate_image img) (\<lambda>_.
       let key = object_index scope project (vi_key img) in
       case hm_get (ms_by_object st) key of
         Some i \<Rightarrow>
           try_in st (ok_or (hm_get (ms_bindings st) i) (conflict (lit ''media binding index is inconsistent'')))
             (\<lambda>existing.
             if mb_state existing = BindingWithdrawn then (Inl (conflict (lit ''image binding was withdrawn'')), st)
             else if mb_image existing \<noteq> img
             then (Inl (conflict (lit ''image metadata changed for existing binding'')), st)
             else (Inr existing, st))
       | None \<Rightarrow>
           let b = \<lparr>mb_binding_id = fresh, mb_operator_id = ts_operator_id scope, mb_tenant_id = ts_tenant_id scope,
                    mb_project_id = project, mb_image = img, mb_state = BindingActive, mb_created_at = now,
                    mb_withdrawn_at = None\<rparr>
           in (Inr b, st\<lparr>ms_by_object := hm_insert key fresh (ms_by_object st),
                         ms_bindings := hm_insert fresh b (ms_bindings st)\<rparr>)))"

definition get_binding :: "tenant_scope \<Rightarrow> uuid \<Rightarrow> memory_media_state \<Rightarrow> content_media_binding option result" where
  "get_binding scope binding_id st =
     rbind (require_media_project scope) (\<lambda>project.
       Inr (case hm_get (ms_bindings st) binding_id of None \<Rightarrow> None
            | Some b \<Rightarrow> if binding_in_scope b scope project then Some b else None))"

definition list_bindings :: "tenant_scope \<Rightarrow> uuid option \<Rightarrow> nat \<Rightarrow> memory_media_state \<Rightarrow>
    content_media_binding list result" where
  "list_bindings scope after limit st =
     rbind (require_media_project scope) (\<lambda>project.
       if limit = 0 then Inr []
       else Inr (take limit (map snd (filter (\<lambda>(i, b).
          (case after of None \<Rightarrow> True | Some a \<Rightarrow> i > a) \<and> binding_in_scope b scope project \<and>
          mb_state b = BindingActive) (sort_key fst (ms_bindings st))))))"

definition withdraw_binding :: "tenant_scope \<Rightarrow> uuid \<Rightarrow> instant \<Rightarrow> memory_media_state \<Rightarrow>
    content_media_binding result \<times> memory_media_state" where
  "withdraw_binding scope binding_id now st =
     try_in st (require_media_project scope) (\<lambda>project.
     try_in st (ok_or (case hm_get (ms_bindings st) binding_id of None \<Rightarrow> None
                 | Some b \<Rightarrow> if binding_in_scope b scope project then Some b else None)
               (not_found (lit ''image binding not found''))) (\<lambda>b.
       let b' = (if mb_state b = BindingActive
                 then b\<lparr>mb_state := BindingWithdrawn, mb_withdrawn_at := Some now\<rparr> else b)
       in (Inr b', st\<lparr>ms_bindings := hm_insert binding_id b' (ms_bindings st)\<rparr>)))"

section \<open>Snapshots\<close>

text \<open>An attachment object as the knowledge repository describes it, and reading its bytes.\<close>

record attachment_object =
  ao_object_version :: i64
  ao_sha256 :: str
  ao_actual_size :: u64

record knowledge_objects =
  ko_object :: "tenant_scope \<Rightarrow> uuid \<Rightarrow> attachment_object option result"
  ko_bytes :: "tenant_scope \<Rightarrow> media_object_key \<Rightarrow> (8 word list) option result"

fun snapshot_sizes :: "knowledge_objects \<Rightarrow> tenant_scope \<Rightarrow> nat \<Rightarrow> media_object_key list \<Rightarrow> unit result" where
  "snapshot_sizes knowledge scope aggregate [] = Inr ()"
| "snapshot_sizes knowledge scope aggregate (k # ks) =
     rbind (ko_object knowledge scope (mk_object_id k)) (\<lambda>found.
     rbind (ok_or found (conflict (lit ''media object is unavailable''))) (\<lambda>object.
       if ao_object_version object \<noteq> mk_object_version k \<or> ao_sha256 object \<noteq> mk_sha256 k
       then Inl (conflict (lit ''media object version is unavailable''))
       else rbind (add_media_snapshot_bytes aggregate (unat (ao_actual_size object))) (\<lambda>n.
         snapshot_sizes knowledge scope n ks)))"

fun snapshot_bytes :: "knowledge_objects \<Rightarrow> tenant_scope \<Rightarrow> media_object_key list \<Rightarrow> (8 word list) list result" where
  "snapshot_bytes knowledge scope [] = Inr []"
| "snapshot_bytes knowledge scope (k # ks) =
     rbind (ko_bytes knowledge scope k) (\<lambda>found.
     rbind (ok_or found (conflict (lit ''committed media attachment is unavailable''))) (\<lambda>bytes.
     rbind (snapshot_bytes knowledge scope ks) (\<lambda>rest. Inr (bytes # rest))))"

fun pair_snapshots :: "nat \<Rightarrow> (content_media_binding \<times> 8 word list) list \<Rightarrow> authorized_media_snapshot list result" where
  "pair_snapshots total_bytes [] = Inr []"
| "pair_snapshots total_bytes ((b, bytes) # rest) =
     rbind (add_media_snapshot_bytes total_bytes (length bytes)) (\<lambda>n.
       if vi_byte_len (mb_image b) \<noteq> of_nat (length bytes)
       then Inl (conflict (lit ''media byte length changed''))
       else rbind (pair_snapshots n rest) (\<lambda>snaps. Inr (\<lparr>as_image = mb_image b, as_bytes = bytes\<rparr> # snaps)))"

definition snapshot_authorized_images :: "knowledge_objects option \<Rightarrow> tenant_scope \<Rightarrow> media_object_key list \<Rightarrow>
    memory_media_state \<Rightarrow> authorized_media_snapshot list result" where
  "snapshot_authorized_images knowledge scope keys st =
     rbind (require_media_project scope) (\<lambda>_.
     rbind (ordered_media_snapshot_keys keys) (\<lambda>ordered.
     rbind (ok_or knowledge (capability_missing (lit ''committed attachment byte reading is unavailable''))) (\<lambda>k.
     rbind (snapshot_sizes k scope 0 ordered) (\<lambda>_.
     rbind (snapshot_bytes k scope ordered) (\<lambda>bytes.
     rbind (guard_validate st scope ordered) (\<lambda>bindings.
       pair_snapshots 0 (zip bindings bytes)))))))"

end
