(* ===== verification/Publication_Types.thy ===== *)
theory Publication_Types
  imports Structured_Document Content_Media
begin

text \<open>
  \<open>crates/domain/src/publishing/distribution.rs\<close>: the frozen variant of a publication with its
  rich payload, the bundle that ties revision, variant, intent, origin and command together,
  and their validation; the request types of \<open>content_distribution_request.rs\<close>.

  Hashing, canonical JSON and the display of identifiers are parameters, collected in \<open>codecs\<close>.
\<close>

section \<open>Revisions\<close>

record content_evidence =
  ce_reference :: evidence_ref
  ce_exact_quote :: str

record content_finding =
  cf_finding_id :: uuid
  cf_code :: str
  cf_block_id :: "uuid option"
  cf_evidence :: "evidence_ref list"
  cf_detail :: str
  cf_blocking :: bool

record content_revision =
  cr_revision_id :: uuid
  cr_asset_id :: uuid
  cr_revision :: i32
  cr_base_revision_id :: "uuid option"
  cr_derived_from_revision_id :: "uuid option"
  cr_document :: structured_document
  cr_markdown :: str
  cr_evidence :: "evidence_ref list"
  cr_quotes :: "content_evidence list"
  cr_findings :: "content_finding list"
  cr_created_at :: instant

section \<open>Variants, intents and commands\<close>

datatype publication_media_role = RoleImage

record publication_media_item =
  pm_binding_id :: uuid
  pm_object :: media_object_key
  pm_media_type :: str
  pm_byte_len :: u64
  pm_width :: u32
  pm_height :: u32
  pm_alt :: str
  pm_caption :: str
  pm_role :: publication_media_role

record rich_publication_payload =
  rp_schema_version :: u8
  rp_format :: str
  rp_content_revision_id :: uuid
  rp_policy_version :: str
  rp_document :: structured_document
  rp_media :: "publication_media_item list"

record channel_variant =
  cv_variant_id :: uuid
  cv_content_revision_id :: uuid
  cv_platform_id :: str
  cv_placement_slot :: str
  cv_policy_version :: str
  cv_title :: str
  cv_markdown :: str
  cv_payload_hash :: str
  cv_evidence :: "evidence_ref list"
  cv_rich_payload :: "rich_publication_payload option"

datatype intent_verification = IntentUnverified | IntentUnknown | IntentVerified

record publication_intent =
  pi_intent_id :: uuid
  pi_project_id :: project_id
  pi_channel_target_id :: uuid
  pi_variant_id :: uuid
  pi_content_revision_id :: uuid
  pi_platform_id :: str
  pi_placement_slot :: str
  pi_account_id :: uuid
  pi_payload_hash :: str
  pi_logical_key :: str
  pi_verification :: intent_verification
  pi_verification_evidence_id :: "uuid option"
  pi_created_at :: instant

record publication_command =
  pc_command_id :: uuid
  pc_intent_id :: uuid
  pc_target_id :: uuid
  pc_payload_hash :: str
  pc_fixture :: bool

datatype distribution_target_status =
    DistPending | DistBlocked | DistDeferred | DistNotApplicable | DistCancelled | DistReady
  | DistReusedVerified | DistReusedUnknown

record distribution_target =
  dt_target_id :: uuid
  dt_manifest_id :: uuid
  dt_ordinal :: u64
  dt_document_item_id :: uuid
  dt_content_revision_id :: "uuid option"
  dt_platform_id :: str
  dt_placement_slot :: str
  dt_variant_id :: "uuid option"
  dt_account_id :: "uuid option"
  dt_publication_intent_id :: "uuid option"
  dt_status :: distribution_target_status
  dt_reason :: "str option"
  dt_version :: u64

datatype deferral_reason =
    ProjectPaused | AccountUnavailable | ConnectorUnavailable | ContentNotReady | SourceUnavailable
  | FormatUnsupported | TemporaryFailure | InternalError

record content_request_deferral =
  df_reason :: deferral_reason
  df_attempts :: u32
  df_next_retry_at :: instant

record content_distribution_request =
  dr_request_id :: uuid
  dr_scope :: tenant_scope
  dr_schema_version :: i32
  dr_content_revision_id :: uuid
  dr_content_asset_id :: uuid
  dr_platform_id :: str
  dr_placement_slot :: str
  dr_account_id :: uuid
  dr_account_owner_kind :: str
  dr_format :: str
  dr_withdraw_after_publish :: bool
  dr_idempotency_key_hash :: str
  dr_request_hash :: str
  dr_publication_intent_id :: "uuid option"
  dr_materialization_deferral :: "content_request_deferral option"
  dr_created_at :: instant

definition text_distribution_format :: str where
  "text_distribution_format = lit ''markdown.v1''"

datatype publication_origin =
    CoverageTarget distribution_target
  | ContentRequest content_distribution_request

record publication_bundle =
  pb_revision :: content_revision
  pb_variant :: channel_variant
  pb_intent :: publication_intent
  pb_origin :: publication_origin
  pb_command :: publication_command

section \<open>Codecs\<close>

text \<open>
  What the code takes from other crates: the display of a UUID, the 32 bytes of SHA-256, the
  parsing of a timestamp from text and from JSON, of JSON from text, the length of printed JSON
  and the canonical JSON of a payload.
\<close>

record codecs =
  cd_uuid :: "uuid \<Rightarrow> str"
  cd_sha256 :: "nat list \<Rightarrow> 8 word list"
  cd_datetime :: "str \<Rightarrow> instant option"
  cd_datetime_json :: "json \<Rightarrow> instant option"
  cd_parse_json :: "str \<Rightarrow> json option"
  cd_json_len :: "json \<Rightarrow> nat"
  cd_payload_json :: "rich_publication_payload \<Rightarrow> str result"
  cd_urls :: url_crate

definition hex_digit :: "nat \<Rightarrow> nat" where
  "hex_digit d = (if d < 10 then 48 + d else 87 + d)"

definition hex_encode :: "8 word list \<Rightarrow> str" where
  "hex_encode bs = concat (map (\<lambda>b. [hex_digit (unat b div 16), hex_digit (unat b mod 16)]) bs)"

definition sha256_hex :: "codecs \<Rightarrow> nat list \<Rightarrow> str" where
  "sha256_hex cd bs = hex_encode (cd_sha256 cd bs)"

text \<open>\<open>u64::to_be_bytes\<close>.\<close>

definition be_bytes :: "nat \<Rightarrow> nat list" where
  "be_bytes n = map (\<lambda>i. n div 256 ^ i mod 256) [7, 6, 5, 4, 3, 2, 1, 0]"

definition digest_input :: "str list \<Rightarrow> nat list" where
  "digest_input parts = concat (map (\<lambda>p. be_bytes (byte_len p) @ utf8_bytes p) parts)"

definition digest :: "codecs \<Rightarrow> str list \<Rightarrow> str" where
  "digest cd parts = sha256_hex cd (digest_input parts)"

text \<open>The first 16 bytes of the hash with the version and variant bits of a UUID.\<close>

definition identity_of :: "codecs \<Rightarrow> str list \<Rightarrow> uuid" where
  "identity_of cd parts =
     (let bytes = take 16 (cd_sha256 cd (digest_input parts));
          bytes = bytes[6 := or (and (bytes ! 6) 0x0F) 0x50];
          bytes = bytes[8 := or (and (bytes ! 8) 0x3F) 0x80]
      in word_rcat bytes)"

section \<open>Validation of rich variants\<close>

definition rich_markdown_format :: str where
  "rich_markdown_format = lit ''rich_markdown.v2''"

definition rich_channel_variant_policy :: str where
  "rich_channel_variant_policy = lit ''deterministic-rich-markdown-v2''"

definition rich_payload_hash :: "codecs \<Rightarrow> rich_publication_payload \<Rightarrow> str \<Rightarrow> str \<Rightarrow> str result" where
  "rich_payload_hash cd payload title markdown =
     rbind (cd_payload_json cd payload) (\<lambda>canonical.
       Inr (digest cd [lit ''rich-publication-payload-v2'', title, markdown, canonical]))"

type_synonym media_identity = "str \<times> uuid \<times> str \<times> u64 \<times> u32 \<times> u32"

definition item_identity :: "publication_media_item \<Rightarrow> media_identity" where
  "item_identity m = (mk_sha256 (pm_object m), pm_binding_id m, pm_media_type m, pm_byte_len m, pm_width m, pm_height m)"

fun rich_media_loop :: "(uuid \<times> i64, media_identity) hash_map \<Rightarrow>
    (media_reference \<times> publication_media_item) list \<Rightarrow> (uuid \<times> i64, media_identity) hash_map result" where
  "rich_media_loop identities [] = Inr identities"
| "rich_media_loop identities ((reference, m) # rest) =
     (if is_nil (pm_binding_id m) \<or> pm_role m \<noteq> RoleImage \<or>
         mk_object_id (pm_object m) \<noteq> mr_object_id reference \<or>
         mk_object_version (pm_object m) \<noteq> mr_object_version reference \<or>
         mk_sha256 (pm_object m) \<noteq> mr_sha256 reference \<or>
         pm_alt m \<noteq> mr_alt reference \<or> pm_caption m \<noteq> mr_caption reference
      then Inl (invalid_request (lit ''rich publication media differs''))
      else rbind (validate_image \<lparr>vi_key = pm_object m, vi_media_type = pm_media_type m,
                    vi_byte_len = pm_byte_len m, vi_width = pm_width m, vi_height = pm_height m\<rparr>) (\<lambda>_.
        let key = (mk_object_id (pm_object m), mk_object_version (pm_object m)) in
        if (case hm_get identities key of None \<Rightarrow> False | Some previous \<Rightarrow> previous \<noteq> item_identity m)
        then Inl (invalid_request (lit ''conflicting media object identity in publication''))
        else if length (hm_insert key (item_identity m) identities) > max_media_snapshot_images
        then Inl (invalid_request (lit ''too many distinct publication images''))
        else rich_media_loop (hm_insert key (item_identity m) identities) rest))"

fun aggregate_media_bytes :: "nat \<Rightarrow> media_identity list \<Rightarrow> unit result" where
  "aggregate_media_bytes n [] = Inr ()"
| "aggregate_media_bytes n ((_, _, _, bytes, _, _) # rest) =
     rbind (add_media_snapshot_bytes n (unat bytes)) (\<lambda>n'. aggregate_media_bytes n' rest)"

definition validate_rich_media :: "rich_publication_payload \<Rightarrow> unit result" where
  "validate_rich_media payload =
     (let references = document_media_references (rp_document payload) in
      if length references \<noteq> length (rp_media payload)
      then Inl (invalid_request (lit ''rich publication media count differs''))
      else rbind (rich_media_loop [] (zip references (rp_media payload))) (\<lambda>identities.
        aggregate_media_bytes 0 (hm_values identities)))"

text \<open>The document is valid when its Markdown is rendered, so \<open>markdown()\<close> returns.\<close>

definition validate_rich_publication_payload :: "codecs \<Rightarrow> channel_variant \<Rightarrow> unit outcome" where
  "validate_rich_publication_payload cd v =
     obind (Some (ok_or (cv_rich_payload v) (invalid_request (lit ''rich publication payload missing'')))) (\<lambda>payload.
     if rp_schema_version payload \<noteq> 2 \<or> rp_format payload \<noteq> rich_markdown_format \<or>
        rp_policy_version payload \<noteq> rich_channel_variant_policy \<or> cv_policy_version v \<noteq> rp_policy_version payload \<or>
        cv_content_revision_id v \<noteq> rp_content_revision_id payload \<or>
        sd_schema_version (rp_document payload) \<noteq> 2 \<or> sd_title (rp_document payload) \<noteq> cv_title v
     then Some (Inl (invalid_request (lit ''rich publication format or revision differs'')))
     else obind (Some (validate_document (cd_urls cd) (cv_evidence v) (rp_document payload))) (\<lambda>_.
       obind (Some (validate_rich_media payload)) (\<lambda>_.
       obind (map_option Inr (document_markdown (cd_uuid cd) (rp_document payload))) (\<lambda>md.
       if md \<noteq> cv_markdown v
       then Some (Inl (invalid_request (lit ''rich publication identity differs'')))
       else obind (Some (rich_payload_hash cd payload (cv_title v) (cv_markdown v))) (\<lambda>h.
         if h \<noteq> cv_payload_hash v \<or>
            identity_of cd [cd_uuid cd (cv_content_revision_id v), cv_platform_id v, cv_placement_slot v,
              cv_policy_version v, cv_payload_hash v] \<noteq> cv_variant_id v
         then Some (Inl (invalid_request (lit ''rich publication identity differs'')))
         else Some (Inr ()))))))"

definition expected_origin :: "publication_bundle \<Rightarrow> uuid result" where
  "expected_origin b = (case pb_origin b of
       CoverageTarget t \<Rightarrow>
         if dt_publication_intent_id t = Some (pi_intent_id (pb_intent b)) \<and>
            dt_variant_id t = Some (cv_variant_id (pb_variant b)) \<and>
            dt_content_revision_id t = Some (cr_revision_id (pb_revision b)) \<and>
            dt_account_id t = Some (pi_account_id (pb_intent b))
         then Inr (dt_target_id t) else Inl (conflict (lit ''publication origin is inconsistent''))
     | ContentRequest r \<Rightarrow>
         if dr_publication_intent_id r = Some (pi_intent_id (pb_intent b)) \<and>
            ts_project_id (dr_scope r) = Some (pi_project_id (pb_intent b)) \<and>
            dr_content_revision_id r = cr_revision_id (pb_revision b) \<and>
            dr_account_id r = pi_account_id (pb_intent b) \<and>
            dr_platform_id r = cv_platform_id (pb_variant b) \<and>
            dr_placement_slot r = cv_placement_slot (pb_variant b)
         then Inr 0 else Inl (conflict (lit ''publication origin is inconsistent'')))"

text \<open>The first check of \<open>validate_origin\<close>: the variant is the rich or the plain form of its revision.\<close>

definition validate_origin_variant :: "codecs \<Rightarrow> publication_bundle \<Rightarrow> unit outcome" where
  "validate_origin_variant cd b =
     (let v = pb_variant b; r = pb_revision b in
      if cv_rich_payload v \<noteq> None then
        obind (validate_rich_publication_payload cd v) (\<lambda>_.
          if cv_content_revision_id v \<noteq> cr_revision_id r \<or>
             map_option rp_document (cv_rich_payload v) \<noteq> Some (cr_document r) \<or>
             cv_markdown v \<noteq> cr_markdown r
          then Some (Inl (conflict (lit ''rich publication revision differs''))) else Some (Inr ()))
      else if requires_rich_publication (cr_document r)
      then Some (Inl (conflict (lit ''rich publication payload is missing'')))
      else if cv_placement_slot v = lit ''short_post'' then
        obind (map_option Inr (markdown_body (cd_uuid cd) (cr_document r))) (\<lambda>body.
          if cv_markdown v \<noteq> body \<or> cv_title v \<noteq> sd_title (cr_document r)
          then Some (Inl (conflict (lit ''short publication revision differs''))) else Some (Inr ()))
      else Some (Inr ()))"

definition validate_origin :: "codecs \<Rightarrow> publication_bundle \<Rightarrow> unit outcome" where
  "validate_origin cd b =
     obind (validate_origin_variant cd b) (\<lambda>_.
     obind (Some (expected_origin b)) (\<lambda>expected.
       let i = pb_intent b; c = pb_command b; v = pb_variant b in
       if pi_channel_target_id i \<noteq> expected \<or> pc_target_id c \<noteq> expected \<or> pc_intent_id c \<noteq> pi_intent_id i \<or>
          pc_payload_hash c \<noteq> pi_payload_hash i \<or> pi_payload_hash i \<noteq> cv_payload_hash v \<or>
          pi_variant_id i \<noteq> cv_variant_id v \<or> pi_platform_id i \<noteq> cv_platform_id v \<or>
          pi_placement_slot i \<noteq> cv_placement_slot v
       then Some (Inl (conflict (lit ''publication origin binding differs''))) else Some (Inr ())))"

end
