(* ===== verification/Channel_Types.thy ===== *)
theory Channel_Types
  imports Publication_Types Browser_Operations
begin

text \<open>
  \<open>crates/domain/src/publishing/channel_jobs.rs\<close>: frozen channel targets, plans, attempts and
  outcomes, with the question and report types they name, and the functions that are pure: the
  withdrawal of a publication, the facts an optimizer may see and the inputs of a report.
\<close>

section \<open>Targets\<close>

datatype question_purpose = Optimization | FrozenEvaluation

record question_reference =
  qr_question_set_id :: uuid
  qr_question_set_version_id :: uuid
  qr_question_id :: uuid
  qr_question_revision_id :: uuid

record frozen_question_binding =
  qb_reference :: question_reference
  qb_purpose :: question_purpose
  qb_split_policy_version :: str

record publish_input =
  pu_source_id :: uuid
  pu_source_version_id :: uuid
  pu_platform :: str
  pu_placement_slot :: str
  pu_account_id :: uuid
  pu_title :: str
  pu_body :: str
  pu_body_sha256 :: str

record generated_publish_input =
  gp_content_revision_id :: uuid
  gp_variant_id :: uuid
  gp_publication_intent_id :: uuid
  gp_distribution_target_id :: uuid
  gp_origin_request_id :: "uuid option"
  gp_platform :: str
  gp_placement_slot :: str
  gp_account_id :: uuid
  gp_title :: str
  gp_body :: str
  gp_body_sha256 :: str
  gp_payload_hash :: str
  gp_evidence :: "evidence_ref list"
  gp_rich_payload :: "rich_publication_payload option"

record measure_input =
  me_account_id :: uuid
  me_provider :: str
  me_model :: str
  me_surface :: str
  me_search_mode :: str
  me_protocol_version :: str
  me_question_set_version :: str
  me_question :: str
  me_market :: str
  me_language :: str
  me_scheduled_at :: instant
  me_sample_ordinal :: u32
  me_question_binding :: "frozen_question_binding option"

datatype channel_target_input =
    Publish publish_input
  | GeneratedPublish generated_publish_input
  | Measure measure_input

fun input_account_id :: "channel_target_input \<Rightarrow> uuid" where
  "input_account_id (Publish p) = pu_account_id p"
| "input_account_id (GeneratedPublish g) = gp_account_id g"
| "input_account_id (Measure m) = me_account_id m"

fun is_publication :: "channel_target_input \<Rightarrow> bool" where
  "is_publication (Publish _) = True"
| "is_publication (GeneratedPublish _) = True"
| "is_publication (Measure _) = False"

fun join_bars :: "str list \<Rightarrow> str" where
  "join_bars [] = []"
| "join_bars [s] = s"
| "join_bars (s # t # ss) = s @ lit ''|'' @ join_bars (t # ss)"

fun comparison_key :: "channel_target_input \<Rightarrow> str option" where
  "comparison_key (Measure m) =
     (let legacy = join_bars [me_provider m, me_model m, me_surface m, me_search_mode m, me_protocol_version m,
            me_question_set_version m, me_market m, me_language m]
      in Some (case me_question_binding m of
           None \<Rightarrow> legacy
         | Some b \<Rightarrow> join_bars [legacy,
             (case qb_purpose b of Optimization \<Rightarrow> lit ''optimization'' | FrozenEvaluation \<Rightarrow> lit ''frozen_evaluation''),
             qb_split_policy_version b]))"
| "comparison_key _ = None"

record channel_target =
  ct_target_id :: uuid
  ct_input :: channel_target_input

record channel_plan =
  cp_plan_id :: uuid
  cp_project_id :: project_id
  cp_cycle_id :: uuid
  cp_input_hash :: str
  cp_revision :: i32
  cp_created_at :: instant
  cp_targets :: "channel_target list"

record standalone_measurement_plan =
  mp_plan_id :: uuid
  mp_project_id :: project_id
  mp_title :: str
  mp_input_hash :: str
  mp_revision :: i32
  mp_created_at :: instant
  mp_targets :: "channel_target list"

fun is_measure :: "channel_target_input \<Rightarrow> bool" where
  "is_measure (Measure _) = True"
| "is_measure _ = False"

definition validate_measurement_plan :: "tenant_scope \<Rightarrow> standalone_measurement_plan \<Rightarrow> unit result" where
  "validate_measurement_plan scope p =
     (if ts_project_id scope \<noteq> Some (mp_project_id p)
      then Inl (forbidden (lit ''measurement plan outside project''))
      else if trim (mp_title p) = [] \<or> sint (mp_revision p) \<le> 0 \<or> mp_targets p = [] \<or>
         list_ex (\<lambda>t. \<not> is_measure (ct_input t)) (mp_targets p)
      then Inl (invalid_request (lit ''invalid standalone measurement plan''))
      else if \<not> distinct (map ct_target_id (mp_targets p))
      then Inl (invalid_request (lit ''duplicate measurement target''))
      else Inr ())"

section \<open>Attempts\<close>

datatype channel_outcome_status =
    OsPublished | OsVerified | OsUnknown | OsFailed | OsLoginRequired | OsUnsupported | OsObserved | OsRefused | OsMissing

record channel_outcome =
  oc_status :: channel_outcome_status
  oc_detail :: "str option"
  oc_occurred_at :: instant
  oc_raw_answer :: "str option"
  oc_citations :: "str list"
  oc_public_url :: "str option"
  oc_screenshot_ref :: "str option"
  oc_connector_version :: "str option"
  oc_runner_evidence :: "json list"
  oc_fixture :: bool

record channel_attempt =
  at_attempt_id :: uuid
  at_target_id :: uuid
  at_claimed_at :: instant
  at_outcome :: "channel_outcome option"
  at_received_at :: "instant option"

datatype withdrawal_state = WdAwaitingPublication | WdReady | WdClaimed | WdUnknown | WdWithdrawn

record publication_withdrawal =
  wd_scope :: tenant_scope
  wd_request_id :: uuid
  wd_target_id :: uuid
  wd_attempt_id :: uuid
  wd_account_id :: uuid
  wd_state :: withdrawal_state
  wd_external_id :: "str option"
  wd_public_url :: "str option"
  wd_execution_id :: "uuid option"
  wd_claimed_at :: "instant option"
  wd_evidence :: json
  wd_finished_at :: "instant option"
  wd_error_code :: "str option"

record channel_target_view =
  tv_target :: channel_target
  tv_attempts :: "channel_attempt list"

record channel_dispatch_candidate =
  dc_scope :: tenant_scope
  dc_target_id :: uuid

definition channel_execution_lease :: int where
  "channel_execution_lease = minutes 5"

definition channel_measurement_lease :: int where
  "channel_measurement_lease = seconds (3 * 60 + (240 + 10) + 30)"

section \<open>Withdrawals\<close>

text \<open>\<open>split_whitespace\<close>, joined by single spaces.\<close>

fun split_whitespace :: "str \<Rightarrow> str \<Rightarrow> str list" where
  "split_whitespace word [] = (if word = [] then [] else [word])"
| "split_whitespace word (c # cs) =
     (if is_whitespace c then (if word = [] then split_whitespace [] cs else word # split_whitespace [] cs)
      else split_whitespace (word @ [c]) cs)"

definition normalized_text :: "str \<Rightarrow> str" where
  "normalized_text s = join_with [32] (split_whitespace [] s)"

definition readback_hash :: "codecs \<Rightarrow> str \<Rightarrow> str \<Rightarrow> str" where
  "readback_hash cd title body =
     sha256_hex cd (utf8_bytes (normalized_text title @ [10] @ normalized_text body))"

definition publication_readback_hash :: "codecs \<Rightarrow> str \<Rightarrow> str \<Rightarrow> str \<Rightarrow> str" where
  "publication_readback_hash cd slot title body =
     readback_hash cd (if slot = lit ''short_post'' then [] else title) body"

definition key_is :: "json \<Rightarrow> string \<Rightarrow> str \<Rightarrow> bool" where
  "key_is p k v \<longleftrightarrow> jindex p (lit k) = JStr v"

definition status_in :: "json \<Rightarrow> string \<Rightarrow> (nat \<Rightarrow> bool) \<Rightarrow> bool" where
  "status_in p k ok \<longleftrightarrow> (case as_u64 (jindex p (lit k)) of None \<Rightarrow> False | Some s \<Rightarrow> ok (unat s))"

definition success_status :: "nat \<Rightarrow> bool" where
  "success_status s \<longleftrightarrow> 200 \<le> s \<and> s < 300"

definition observed_at :: "codecs \<Rightarrow> json \<Rightarrow> instant option" where
  "observed_at cd p = (case as_str (jindex p (lit ''observed_at'')) of None \<Rightarrow> None | Some s \<Rightarrow> cd_datetime cd s)"

definition bad_version :: "str option \<Rightarrow> bool" where
  "bad_version v \<longleftrightarrow> (case v of None \<Rightarrow> True | Some s \<Rightarrow> s = [] \<or> byte_len s > 100 \<or> starts_with (lit ''fixture'') s)"

text \<open>The checks on the creation response that authorizes a cleanup.\<close>

definition creation_proof :: "codecs \<Rightarrow> publication_withdrawal \<Rightarrow> channel_attempt \<Rightarrow> channel_outcome \<Rightarrow> instant \<Rightarrow>
    str \<Rightarrow> str \<Rightarrow> json \<Rightarrow> bool" where
  "creation_proof cd row attempt outcome received_at expected i p \<longleftrightarrow>
     \<not> (i = [] \<or> starts_with (lit ''0'') i \<or> byte_len i > 40 \<or> \<not> list_all is_ascii_digit i) \<and>
     key_is p ''schema_version'' (lit ''geo.publication.created.v1'') \<and> key_is p ''external_id'' i \<and>
     key_is p ''request_method'' (lit ''POST'') \<and>
     key_is p ''request_url'' (lit ''https://www.zhihu.com/api/v4/content/publish'') \<and>
     status_in p ''http_status'' success_status \<and> key_is p ''expected_sha256'' expected \<and>
     key_is p ''attempt_id'' (cd_uuid cd (wd_attempt_id row)) \<and>
     key_is p ''target_id'' (cd_uuid cd (wd_target_id row)) \<and>
     key_is p ''account_id'' (cd_uuid cd (wd_account_id row)) \<and>
     as_str (jindex p (lit ''connector_version'')) = oc_connector_version outcome \<and>
     (case observed_at cd p of None \<Rightarrow> False | Some at \<Rightarrow> at_claimed_at attempt \<le> at \<and> at \<le> received_at)"

definition optional_json :: "str option \<Rightarrow> json" where
  "optional_json v = (case v of None \<Rightarrow> JNull | Some s \<Rightarrow> JStr s)"

text \<open>What the single creation record of an outcome makes of the row.\<close>

definition ready_withdrawal :: "codecs \<Rightarrow> generated_publish_input \<Rightarrow> channel_attempt \<Rightarrow> channel_outcome \<Rightarrow> instant \<Rightarrow>
    publication_withdrawal \<Rightarrow> publication_withdrawal" where
  "ready_withdrawal cd g attempt outcome received_at row =
     (case filter (\<lambda>p. key_is p ''kind'' (lit ''publication_created'')) (oc_runner_evidence outcome) of
        [p] \<Rightarrow>
          (case as_str (jindex p (lit ''url'')) of None \<Rightarrow> row | Some url \<Rightarrow>
            (case strip_prefix (lit ''https://www.zhihu.com/pin/'') url of None \<Rightarrow> row | Some i \<Rightarrow>
              let expected = publication_readback_hash cd (gp_placement_slot g) (gp_title g) (gp_body g) in
              if creation_proof cd row attempt outcome received_at expected i p
              then row\<lparr>wd_external_id := Some i, wd_public_url := Some url,
                       wd_evidence := JObj [(lit ''connector_version'', optional_json (oc_connector_version outcome)),
                         (lit ''expected_sha256'', JStr expected)],
                       wd_state := WdReady\<rparr>
              else row))
      | _ \<Rightarrow> row)"

definition resolve_publication_withdrawal :: "codecs \<Rightarrow> channel_target \<Rightarrow> channel_attempt \<Rightarrow>
    publication_withdrawal \<Rightarrow> unit result \<times> publication_withdrawal" where
  "resolve_publication_withdrawal cd target attempt row =
     (if wd_state row \<noteq> WdAwaitingPublication then (Inr (), row)
      else case ct_input target of
        GeneratedPublish g \<Rightarrow>
          (case (gp_origin_request_id g, gp_rich_payload g) of
             (Some request_id, None) \<Rightarrow>
               if ct_target_id target \<noteq> wd_target_id row \<or> at_attempt_id attempt \<noteq> wd_attempt_id row \<or>
                  at_target_id attempt \<noteq> wd_target_id row \<or> request_id \<noteq> wd_request_id row \<or>
                  gp_account_id g \<noteq> wd_account_id row \<or> gp_placement_slot g \<noteq> lit ''short_post'' \<or>
                  gp_platform g \<noteq> lit ''zhihu''
               then (Inl (conflict (lit ''withdrawal publication binding differs'')), row)
               else (case at_outcome attempt of None \<Rightarrow> (Inr (), row) | Some outcome \<Rightarrow>
                 (case at_received_at attempt of None \<Rightarrow> (Inr (), row) | Some received_at \<Rightarrow>
                   if oc_fixture outcome \<or> bad_version (oc_connector_version outcome) then (Inr (), row)
                   else (Inr (), ready_withdrawal cd g attempt outcome received_at row)))
           | _ \<Rightarrow> (Inl (conflict (lit ''withdrawal publication binding differs'')), row))
      | _ \<Rightarrow> (Inl (conflict (lit ''withdrawal publication binding differs'')), row))"

definition withdrawal_verified :: "codecs \<Rightarrow> uuid \<Rightarrow> json \<Rightarrow> instant \<Rightarrow> publication_withdrawal \<Rightarrow> bool" where
  "withdrawal_verified cd execution_id evidence received_at row \<longleftrightarrow>
     key_is evidence ''schema_version'' (lit ''geo.publication.withdrawal.v1'') \<and>
     key_is evidence ''execution_id'' (cd_uuid cd execution_id) \<and>
     as_str (jindex evidence (lit ''external_id'')) = wd_external_id row \<and> wd_external_id row \<noteq> None \<and>
     wd_public_url row \<noteq> None \<and> as_str (jindex evidence (lit ''public_url'')) = wd_public_url row \<and>
     jindex evidence (lit ''expected_sha256'') = jindex (wd_evidence row) (lit ''expected_sha256'') \<and>
     jindex evidence (lit ''connector_version'') = jindex (wd_evidence row) (lit ''connector_version'') \<and>
     key_is evidence ''provenance'' (lit ''live'') \<and> jindex evidence (lit ''delete_confirmed'') = JBool True \<and>
     status_in evidence ''delete_status'' success_status \<and>
     status_in evidence ''absence_status'' (\<lambda>s. s = 404 \<or> s = 410) \<and>
     (case (observed_at cd evidence, wd_claimed_at row) of
        (Some at, Some claimed) \<Rightarrow> claimed \<le> at \<and> at \<le> received_at | _ \<Rightarrow> False)"

definition finish_publication_withdrawal :: "codecs \<Rightarrow> uuid \<Rightarrow> json \<Rightarrow> instant \<Rightarrow> publication_withdrawal \<Rightarrow>
    unit result \<times> publication_withdrawal" where
  "finish_publication_withdrawal cd execution_id evidence received_at row =
     (if wd_state row \<noteq> WdClaimed \<or> wd_execution_id row \<noteq> Some execution_id \<or>
         (case wd_claimed_at row of None \<Rightarrow> True | Some at \<Rightarrow> at > received_at) \<or> cd_json_len cd evidence > 4096
      then (Inl (conflict (lit ''withdrawal completion differs from claim'')), row)
      else if withdrawal_verified cd execution_id evidence received_at row
      then (Inr (), row\<lparr>wd_state := WdWithdrawn, wd_error_code := None, wd_evidence := evidence,
                        wd_finished_at := Some received_at\<rparr>)
      else (Inr (), row\<lparr>wd_state := WdUnknown, wd_error_code := Some (lit ''withdrawal_unverified''),
                        wd_finished_at := Some received_at\<rparr>))"

end
