(* ===== verification/Channel_Evidence.thy ===== *)
theory Channel_Evidence
  imports Channel_Types
begin

text \<open>
  \<open>crates/domain/src/publishing/channel_jobs.rs\<close>, continued: which saved observations an
  optimizer may see, and the frozen inputs of a report.
\<close>

section \<open>What an optimizer may see\<close>

record optimization_eligible_observation =
  oo_target_id :: uuid
  oo_observation_id :: uuid
  oo_question :: question_reference
  oo_protocol_comparison_key :: str

record optimization_projection =
  op_cycle_id :: uuid
  op_observations :: "optimization_eligible_observation list"

definition label_ok :: "json \<Rightarrow> bool" where
  "label_ok v \<longleftrightarrow> (case as_str v of None \<Rightarrow> False
     | Some t \<Rightarrow> trim t \<noteq> [] \<and> byte_len t \<le> 200 \<and> \<not> list_ex is_control t)"

definition digest_ok :: "json \<Rightarrow> bool" where
  "digest_ok v \<longleftrightarrow> (case as_str v of None \<Rightarrow> False | Some t \<Rightarrow> byte_len t = 64 \<and> list_all is_ascii_hexdigit t)"

definition is_json_array :: "json \<Rightarrow> bool" where
  "is_json_array v \<longleftrightarrow> as_array v \<noteq> None"

text \<open>The extraction audit of an observation against its search event.\<close>

definition audit_ok :: "codecs \<Rightarrow> json \<Rightarrow> json \<Rightarrow> str \<Rightarrow> bool" where
  "audit_ok cd event audit source_json \<longleftrightarrow>
     byte_len source_json \<le> 750000 \<and>
     as_str (jindex event (lit ''source_sha256'')) = Some (sha256_hex cd (utf8_bytes source_json)) \<and>
     (case cd_parse_json cd source_json of None \<Rightarrow> False
      | Some source \<Rightarrow> is_object source \<and> is_json_array (jindex source (lit ''messages''))) \<and>
     key_is audit ''method'' (lit ''llm_grounded'') \<and>
     jindex audit (lit ''model'') = jindex event (lit ''extraction_model'') \<and>
     jindex audit (lit ''prompt_version'') = jindex event (lit ''extraction_prompt_version'') \<and>
     jindex audit (lit ''source_sha256'') = jindex event (lit ''source_sha256'') \<and>
     (key_is audit ''surface'' (lit ''signed_in_browser'') \<or> key_is audit ''surface'' (lit ''model_api'')) \<and>
     (case as_array (jindex audit (lit ''refs'')) of None \<Rightarrow> False | Some refs \<Rightarrow> refs \<noteq> [])"

definition semantic_search_projection_valid :: "codecs \<Rightarrow> json \<Rightarrow> channel_outcome \<Rightarrow> bool" where
  "semantic_search_projection_valid cd proof_json outcome =
     (let event = jindex proof_json (lit ''search_event'') in
      if \<not> key_is event ''source'' (lit ''browser_response_ai'') \<or> \<not> key_is event ''search_used'' (lit ''yes'') \<or>
         \<not> key_is event ''extraction_prompt_version'' (lit ''geo.observation.extract.v5'') \<or>
         jindex event (lit ''request_model'') \<noteq> jindex proof_json (lit ''model'') \<or>
         \<not> label_ok (jindex event (lit ''request_model'')) \<or>
         jindex event (lit ''request_question_sha256'') \<noteq> jindex proof_json (lit ''question_sha256'') \<or>
         \<not> digest_ok (jindex event (lit ''request_question_sha256'')) \<or>
         \<not> label_ok (jindex event (lit ''extraction_model'')) \<or> \<not> digest_ok (jindex event (lit ''source_sha256''))
      then False
      else case filter (\<lambda>v. key_is v ''kind'' (lit ''observation_extraction'')) (oc_runner_evidence outcome) of
        [audit] \<Rightarrow> (case as_str (jindex audit (lit ''source_json'')) of
            None \<Rightarrow> False | Some source_json \<Rightarrow> audit_ok cd event audit source_json)
      | _ \<Rightarrow> False)"

definition json_time :: "codecs \<Rightarrow> json \<Rightarrow> string \<Rightarrow> instant option" where
  "json_time cd p k = (case jget p (lit k) of None \<Rightarrow> None | Some v \<Rightarrow> cd_datetime_json cd v)"

definition search_event_ok :: "codecs \<Rightarrow> measure_input \<Rightarrow> channel_attempt \<Rightarrow> channel_outcome \<Rightarrow> json \<Rightarrow> bool" where
  "search_event_ok cd m attempt outcome p =
     (case jget p (lit ''search_event'') of None \<Rightarrow> False | Some event \<Rightarrow>
        is_object event \<and> key_is event ''kind'' (lit ''official_search_event'') \<and>
        key_is event ''provenance'' (lit ''live'') \<and> me_surface m = lit ''consumer_web'' \<and>
        me_search_mode m = lit ''web_search'' \<and> semantic_search_projection_valid cd p outcome \<and>
        (case json_time cd event ''observed_at'' of None \<Rightarrow> False
         | Some at \<Rightarrow> at_claimed_at attempt \<le> at \<and> at \<le> oc_occurred_at outcome))"

text \<open>A runner proof that matches the frozen target field by field.\<close>

definition proof_matches :: "codecs \<Rightarrow> channel_target \<Rightarrow> measure_input \<Rightarrow> channel_attempt \<Rightarrow> channel_outcome \<Rightarrow>
    json \<Rightarrow> bool" where
  "proof_matches cd target m attempt outcome p \<longleftrightarrow>
     key_is p ''kind'' (lit ''official_search_observation'') \<and>
     key_is p ''target_id'' (cd_uuid cd (ct_target_id target)) \<and>
     key_is p ''account_id'' (cd_uuid cd (me_account_id m)) \<and>
     key_is p ''question_sha256'' (sha256_hex cd (utf8_bytes (me_question m))) \<and>
     key_is p ''provider'' (me_provider m) \<and> key_is p ''model'' (me_model m) \<and>
     key_is p ''surface'' (me_surface m) \<and> key_is p ''search_mode'' (me_search_mode m) \<and>
     key_is p ''protocol_version'' (me_protocol_version m) \<and>
     key_is p ''question_set_version'' (me_question_set_version m) \<and>
     key_is p ''market'' (me_market m) \<and> key_is p ''language'' (me_language m) \<and>
     json_time cd p ''scheduled_at'' = Some (me_scheduled_at m) \<and>
     as_u64 (jindex p (lit ''sample_ordinal'')) = Some (ucast (me_sample_ordinal m)) \<and>
     key_is p ''provenance'' (lit ''live'') \<and> key_is p ''disposition'' (lit ''observed'') \<and>
     key_is p ''schema_version'' (lit ''geo.measure.official_search.v4'') \<and>
     search_event_ok cd m attempt outcome p \<and>
     as_str (jindex p (lit ''raw_answer'')) = oc_raw_answer outcome \<and>
     as_str (jindex p (lit ''connector_version'')) = oc_connector_version outcome"

definition outcome_eligible :: "measure_input \<Rightarrow> channel_attempt \<Rightarrow> channel_outcome \<Rightarrow> instant \<Rightarrow> bool" where
  "outcome_eligible m attempt outcome as_of \<longleftrightarrow>
     \<not> oc_fixture outcome \<and> oc_status outcome = OsObserved \<and>
     (case oc_raw_answer outcome of None \<Rightarrow> False | Some answer \<Rightarrow> trim answer \<noteq> []) \<and>
     (case oc_connector_version outcome of None \<Rightarrow> False
      | Some v \<Rightarrow> v \<noteq> [] \<and> \<not> starts_with (lit ''fixture'') v) \<and>
     (case at_received_at attempt of None \<Rightarrow> False
      | Some received \<Rightarrow> at_claimed_at attempt \<le> oc_occurred_at outcome \<and>
          me_scheduled_at m \<le> oc_occurred_at outcome \<and> oc_occurred_at outcome \<le> received \<and>
          received \<le> as_of \<and> me_scheduled_at m \<le> received)"

text \<open>What the body of the loop pushes for one target.\<close>

definition last_attempt :: "(uuid, channel_attempt list) hash_map \<Rightarrow> uuid \<Rightarrow> channel_attempt option" where
  "last_attempt attempts i = (case hm_get attempts i of None \<Rightarrow> None
     | Some items \<Rightarrow> (case rev items of [] \<Rightarrow> None | a # _ \<Rightarrow> Some a))"

definition project_target :: "codecs \<Rightarrow> (uuid, channel_attempt list) hash_map \<Rightarrow> instant \<Rightarrow> channel_target \<Rightarrow>
    optimization_eligible_observation option" where
  "project_target cd attempts as_of target = (case ct_input target of
       Measure m \<Rightarrow> (case me_question_binding m of None \<Rightarrow> None | Some binding \<Rightarrow>
         if qb_purpose binding \<noteq> Optimization \<or>
            me_question_set_version m \<noteq> cd_uuid cd (qr_question_set_version_id (qb_reference binding))
         then None
         else (case last_attempt attempts (ct_target_id target) of None \<Rightarrow> None | Some attempt \<Rightarrow>
           (case at_outcome attempt of None \<Rightarrow> None | Some outcome \<Rightarrow>
             if \<not> outcome_eligible m attempt outcome as_of then None
             else if length (filter (proof_matches cd target m attempt outcome) (oc_runner_evidence outcome)) \<noteq> 1
             then None
             else Some \<lparr>oo_target_id = ct_target_id target, oo_observation_id = at_attempt_id attempt,
               oo_question = qb_reference binding,
               oo_protocol_comparison_key = (case comparison_key (ct_input target) of None \<Rightarrow> [] | Some k \<Rightarrow> k)\<rparr>)))
     | _ \<Rightarrow> None)"

definition optimization_eligible_projection :: "codecs \<Rightarrow> tenant_scope \<Rightarrow> channel_plan \<Rightarrow>
    (uuid, channel_attempt list) hash_map \<Rightarrow> instant \<Rightarrow> optimization_projection result" where
  "optimization_eligible_projection cd scope plan attempts as_of =
     (if ts_project_id scope \<noteq> Some (cp_project_id plan)
      then Inl (forbidden (lit ''optimization projection outside project scope''))
      else Inr \<lparr>op_cycle_id = cp_cycle_id plan,
                op_observations = List.map_filter (project_target cd attempts as_of) (cp_targets plan)\<rparr>)"

section \<open>The inputs of a report\<close>

datatype report_manifest_kind = ManifestDocument | ManifestDistribution | ManifestMeasurement

record report_manifest_ref =
  rm_kind :: report_manifest_kind
  rm_manifest_id :: uuid
  rm_revision :: i32
  rm_sealed :: bool
  rm_expected_count :: "u64 option"

record report_evidence_reference =
  re_evidence_id :: uuid
  re_kind :: str
  re_resource_id :: uuid
  re_resource_version :: "str option"
  re_occurred_at :: "instant option"
  re_received_at :: "instant option"
  re_summary :: str

datatype report_publication_status =
    PsPlanned | PsPublished | PsVerified | PsUnknown | PsFailed | PsBlocked | PsDeferred | PsNotApplicable | PsCancelled

record report_publication_target =
  rt_target_id :: uuid
  rt_platform_id :: str
  rt_status :: report_publication_status
  rt_reason :: "str option"
  rt_evidence :: "report_evidence_reference list"

datatype report_measurement_status = MsObserved | MsNotMentioned | MsRefused | MsMissing | MsPending

record report_measurement_target =
  mt_target_id :: uuid
  mt_comparison_key :: str
  mt_question_binding :: "frozen_question_binding option"
  mt_scheduled_at :: instant
  mt_status :: report_measurement_status
  mt_missing_reason :: "str option"
  mt_evidence :: "report_evidence_reference list"

record channel_cycle_inputs =
  ci_manifests :: "report_manifest_ref list"
  ci_publications :: "report_publication_target list option"
  ci_measurements :: "report_measurement_target list option"

text \<open>The derived \<open>Debug\<close> name of a status.\<close>

fun status_name :: "channel_outcome_status \<Rightarrow> str" where
  "status_name OsPublished = lit ''Published''"
| "status_name OsVerified = lit ''Verified''"
| "status_name OsUnknown = lit ''Unknown''"
| "status_name OsFailed = lit ''Failed''"
| "status_name OsLoginRequired = lit ''LoginRequired''"
| "status_name OsUnsupported = lit ''Unsupported''"
| "status_name OsObserved = lit ''Observed''"
| "status_name OsRefused = lit ''Refused''"
| "status_name OsMissing = lit ''Missing''"

definition evidence_kind :: "channel_outcome \<Rightarrow> str" where
  "evidence_kind o1 =
     (if (oc_status o1 = OsObserved \<or> oc_status o1 = OsRefused) \<and> \<not> oc_fixture o1 then lit ''observation''
      else if oc_status o1 = OsVerified \<and> \<not> oc_fixture o1 then lit ''public_verification''
      else if oc_status o1 = OsPublished \<and> \<not> oc_fixture o1 then lit ''publication_receipt''
      else lit ''channel_execution'')"

definition evidence_reference :: "uuid \<Rightarrow> channel_attempt \<Rightarrow> report_evidence_reference option" where
  "evidence_reference target_id attempt = (case at_outcome attempt of None \<Rightarrow> None | Some o1 \<Rightarrow>
     Some \<lparr>re_evidence_id = at_attempt_id attempt, re_kind = evidence_kind o1, re_resource_id = target_id,
           re_resource_version = oc_connector_version o1, re_occurred_at = Some (oc_occurred_at o1),
           re_received_at = at_received_at attempt,
           re_summary = (case oc_detail o1 of None \<Rightarrow> status_name (oc_status o1) | Some d \<Rightarrow> d)\<rparr>)"

definition publication_status :: "channel_outcome_status option \<Rightarrow> bool \<Rightarrow> report_publication_status" where
  "publication_status s attempted = (case s of
       Some OsVerified \<Rightarrow> PsVerified
     | Some OsPublished \<Rightarrow> PsPublished
     | Some OsFailed \<Rightarrow> PsFailed
     | Some OsLoginRequired \<Rightarrow> PsDeferred
     | Some OsUnsupported \<Rightarrow> PsDeferred
     | Some OsUnknown \<Rightarrow> PsUnknown
     | _ \<Rightarrow> if attempted then PsUnknown else PsPlanned)"

definition measurement_status :: "channel_outcome_status option \<Rightarrow> bool \<Rightarrow> report_measurement_status" where
  "measurement_status s attempted = (case s of
       Some OsObserved \<Rightarrow> MsObserved
     | Some OsRefused \<Rightarrow> MsRefused
     | Some OsMissing \<Rightarrow> MsMissing
     | Some OsUnsupported \<Rightarrow> MsMissing
     | Some OsLoginRequired \<Rightarrow> MsMissing
     | _ \<Rightarrow> if attempted then MsMissing else MsPending)"

definition last_eligible :: "(uuid, channel_attempt list) hash_map \<Rightarrow> instant \<Rightarrow> uuid \<Rightarrow> channel_attempt option" where
  "last_eligible attempts as_of i =
     (case hm_get attempts i of None \<Rightarrow> None | Some items \<Rightarrow>
       (case rev (filter (\<lambda>a. at_claimed_at a \<le> as_of) items) of [] \<Rightarrow> None | a # _ \<Rightarrow> Some a))"

definition known_attempt :: "instant \<Rightarrow> channel_attempt option \<Rightarrow> channel_attempt option" where
  "known_attempt as_of a = (case a of None \<Rightarrow> None | Some x \<Rightarrow>
     (case at_received_at x of None \<Rightarrow> None | Some t \<Rightarrow> if t \<le> as_of then Some x else None))"

definition target_facts :: "(uuid, channel_attempt list) hash_map \<Rightarrow> instant \<Rightarrow> channel_target \<Rightarrow>
    bool \<times> channel_outcome option \<times> report_evidence_reference list" where
  "target_facts attempts as_of target =
     (let newest = last_eligible attempts as_of (ct_target_id target);
          known = known_attempt as_of newest
      in (newest \<noteq> None, case known of None \<Rightarrow> None | Some a \<Rightarrow> at_outcome a,
          case known of None \<Rightarrow> [] | Some a \<Rightarrow>
            (case evidence_reference (ct_target_id target) a of None \<Rightarrow> [] | Some e \<Rightarrow> [e])))"

definition publication_row :: "(uuid, channel_attempt list) hash_map \<Rightarrow> instant \<Rightarrow> channel_target \<Rightarrow>
    report_publication_target option" where
  "publication_row attempts as_of target =
     (let row = (\<lambda>platform. case target_facts attempts as_of target of (attempted, o1, refs) \<Rightarrow>
        Some \<lparr>rt_target_id = ct_target_id target, rt_platform_id = platform,
              rt_status = publication_status (map_option oc_status o1) attempted,
              rt_reason = (case o1 of None \<Rightarrow> None | Some x \<Rightarrow> oc_detail x), rt_evidence = refs\<rparr>)
      in case ct_input target of Publish p \<Rightarrow> row (pu_platform p) | GeneratedPublish g \<Rightarrow> row (gp_platform g)
         | Measure _ \<Rightarrow> None)"

definition measurement_row :: "(uuid, channel_attempt list) hash_map \<Rightarrow> instant \<Rightarrow> channel_target \<Rightarrow>
    report_measurement_target option" where
  "measurement_row attempts as_of target = (case ct_input target of
       Measure m \<Rightarrow> (case target_facts attempts as_of target of (attempted, o1, refs) \<Rightarrow>
         Some \<lparr>mt_target_id = ct_target_id target,
               mt_comparison_key = (case comparison_key (ct_input target) of None \<Rightarrow> [] | Some k \<Rightarrow> k),
               mt_question_binding = me_question_binding m, mt_scheduled_at = me_scheduled_at m,
               mt_status = measurement_status (map_option oc_status o1) attempted,
               mt_missing_reason = (case o1 of None \<Rightarrow> None | Some x \<Rightarrow> oc_detail x), mt_evidence = refs\<rparr>)
     | _ \<Rightarrow> None)"

definition frozen_cycle_inputs :: "channel_plan \<Rightarrow> (uuid, channel_attempt list) hash_map \<Rightarrow> instant \<Rightarrow>
    channel_cycle_inputs" where
  "frozen_cycle_inputs plan attempts as_of =
     (let publications = List.map_filter (publication_row attempts as_of) (cp_targets plan);
          measurements = List.map_filter (measurement_row attempts as_of) (cp_targets plan)
      in \<lparr>ci_manifests =
            [\<lparr>rm_kind = ManifestDistribution, rm_manifest_id = cp_plan_id plan, rm_revision = cp_revision plan,
               rm_sealed = True, rm_expected_count = Some (of_nat (length publications))\<rparr>,
             \<lparr>rm_kind = ManifestMeasurement, rm_manifest_id = cp_plan_id plan, rm_revision = cp_revision plan,
               rm_sealed = True, rm_expected_count = Some (of_nat (length measurements))\<rparr>],
          ci_publications = Some publications, ci_measurements = Some measurements\<rparr>)"

end
