(* ===== verification/Channel_State.thy ===== *)
theory Channel_State
  imports Channel_Evidence Login_Queue
begin

text \<open>
  The state of \<open>MemoryChannelJobRepository\<close> (\<open>crates/domain/src/publishing/channel_jobs.rs\<close>), and
  its operations on plans, targets and measurement plans.

  One record holds the five maps the repository keeps under their mutexes. An operation takes its
  locks in a fixed order and holds them to the end, so it is one step on that record. The clock is
  an argument.
\<close>

section \<open>State\<close>

text \<open>\<open>MemorySendRegistration\<close> (\<open>publication_send_authorization.rs\<close>).\<close>

record memory_send_registration =
  sr_session_id :: uuid
  sr_deadline :: instant
  sr_binding_sha256 :: str
  sr_send_authorized_at :: "instant option"

record memory_cycle =
  mc_plan :: "channel_plan option"
  mc_measurement :: "standalone_measurement_plan option"
  mc_measurement_request :: "(str \<times> str) option"
  mc_generated :: "(uuid, channel_target) hash_map"
  mc_attempts :: "(uuid, channel_attempt list) hash_map"
  mc_publication_bindings :: "(uuid, channel_secret) hash_map"
  mc_withdrawals :: "(uuid, publication_withdrawal) hash_map"
  mc_publication_send :: "(uuid, memory_send_registration) hash_map"

definition empty_cycle :: memory_cycle where
  "empty_cycle = \<lparr>mc_plan = None, mc_measurement = None, mc_measurement_request = None, mc_generated = [],
     mc_attempts = [], mc_publication_bindings = [], mc_withdrawals = [], mc_publication_send = []\<rparr>"

datatype channel_owner = CycleOwner uuid | MeasurementOwner uuid

type_synonym project_key = "uuid \<times> uuid \<times> uuid"
type_synonym channel_scope_key = "project_key \<times> channel_owner"
type_synonym account_key = "uuid \<times> uuid"
type_synonym account_reservation = "uuid \<times> instant"

record channel_state =
  cs_cycles :: "(channel_scope_key, memory_cycle) hash_map"
  cs_gates :: "(account_key, account_reservation) hash_map"
  cs_operations :: "(uuid, browser_operation) hash_map"
  cs_networks :: memory_account_networks
  cs_queues :: "(uuid, login_queue) hash_map"

definition channel_empty :: channel_state where
  "channel_empty = \<lparr>cs_cycles = [], cs_gates = [], cs_operations = [],
     cs_networks = \<lparr>mn_heads = [], mn_bindings = []\<rparr>, cs_queues = []\<rparr>"

definition scope_key :: "tenant_scope \<Rightarrow> project_key result" where
  "scope_key scope =
     rbind (ok_or (ts_project_id scope) (forbidden (lit ''project scope required''))) (\<lambda>p.
       Inr (as_uuid (ts_operator_id scope), as_uuid (ts_tenant_id scope), as_uuid p))"

section \<open>Targets of a cycle\<close>

definition plan_target :: "channel_target list \<Rightarrow> uuid \<Rightarrow> channel_target option" where
  "plan_target targets i = find (\<lambda>t. ct_target_id t = i) targets"

definition cycle_target :: "memory_cycle \<Rightarrow> uuid \<Rightarrow> channel_target option" where
  "cycle_target c i = (case hm_get (mc_generated c) i of
       Some t \<Rightarrow> Some t
     | None \<Rightarrow> (case (case mc_plan c of None \<Rightarrow> None | Some p \<Rightarrow> plan_target (cp_targets p) i) of
           Some t \<Rightarrow> Some t
         | None \<Rightarrow> (case mc_measurement c of None \<Rightarrow> None | Some p \<Rightarrow> plan_target (mp_targets p) i)))"

definition cycle_targets :: "memory_cycle \<Rightarrow> channel_target list" where
  "cycle_targets c = hm_values (mc_generated c) @
     (case mc_plan c of None \<Rightarrow> [] | Some p \<Rightarrow> cp_targets p) @
     (case mc_measurement c of None \<Rightarrow> [] | Some p \<Rightarrow> mp_targets p)"

text \<open>The first cycle of a project that knows the target.\<close>

definition find_cycle :: "project_key \<Rightarrow> uuid \<Rightarrow> channel_state \<Rightarrow> (channel_scope_key \<times> memory_cycle) option" where
  "find_cycle key i st = find (\<lambda>(k, c). fst k = key \<and> cycle_target c i \<noteq> None) (cs_cycles st)"

definition set_cycle :: "channel_scope_key \<Rightarrow> memory_cycle \<Rightarrow> channel_state \<Rightarrow> channel_state" where
  "set_cycle k c st = st\<lparr>cs_cycles := hm_insert k c (cs_cycles st)\<rparr>"

section \<open>Plans\<close>

fun is_generated :: "channel_target_input \<Rightarrow> bool" where
  "is_generated (GeneratedPublish _) = True"
| "is_generated _ = False"

definition create_plan :: "tenant_scope \<Rightarrow> channel_plan \<Rightarrow> channel_state \<Rightarrow> channel_plan result \<times> channel_state" where
  "create_plan scope plan st =
     (if ts_project_id scope \<noteq> Some (cp_project_id plan)
      then (Inl (forbidden (lit ''plan outside project'')), st)
      else if list_ex (\<lambda>t. is_generated (ct_input t)) (cp_targets plan)
      then (Inl (invalid_request (lit ''generated publication cannot be frozen into a legacy plan'')), st)
      else try_in st (scope_key scope) (\<lambda>key.
        let k = (key, CycleOwner (cp_cycle_id plan));
            c = (case hm_get (cs_cycles st) k of None \<Rightarrow> empty_cycle | Some c \<Rightarrow> c) in
        case mc_plan c of
          Some existing \<Rightarrow>
            if cp_input_hash existing = cp_input_hash plan then (Inr existing, st)
            else (Inl (conflict (lit ''channel plan already frozen'')), st)
        | None \<Rightarrow> (Inr plan, set_cycle k (c\<lparr>mc_plan := Some plan\<rparr>) st)))"

definition get_plan :: "tenant_scope \<Rightarrow> uuid \<Rightarrow> channel_state \<Rightarrow> channel_plan option result" where
  "get_plan scope cycle_id st =
     rbind (scope_key scope) (\<lambda>key. Inr (case hm_get (cs_cycles st) (key, CycleOwner cycle_id) of
       None \<Rightarrow> None | Some c \<Rightarrow> mc_plan c))"

definition insert_generated_target :: "tenant_scope \<Rightarrow> uuid \<Rightarrow> uuid \<Rightarrow> channel_target \<Rightarrow> channel_state \<Rightarrow>
    channel_target result \<times> channel_state" where
  "insert_generated_target scope cycle_id command_id target st =
     (if ct_target_id target \<noteq> command_id \<or> \<not> is_generated (ct_input target)
      then (Inl (invalid_request (lit ''invalid generated command target'')), st)
      else try_in st (scope_key scope) (\<lambda>key.
        case find_cycle key command_id st of
          Some (k, c) \<Rightarrow>
            if cycle_target c command_id = Some target then (Inr target, st)
            else (Inl (conflict (lit ''generated command target differs'')), st)
        | None \<Rightarrow>
            let k = (key, CycleOwner cycle_id);
                c = (case hm_get (cs_cycles st) k of None \<Rightarrow> empty_cycle | Some c \<Rightarrow> c)
            in (Inr target, set_cycle k (c\<lparr>mc_generated := hm_insert command_id target (mc_generated c)\<rparr>) st)))"

definition get_target :: "tenant_scope \<Rightarrow> uuid \<Rightarrow> channel_state \<Rightarrow> channel_target_view result" where
  "get_target scope target_id st =
     rbind (scope_key scope) (\<lambda>key.
     rbind (ok_or (find_cycle key target_id st) (not_found (lit ''target not found''))) (\<lambda>(k, c).
     rbind (ok_or (cycle_target c target_id) (not_found (lit ''target not found''))) (\<lambda>target.
       Inr \<lparr>tv_target = target,
            tv_attempts = (case hm_get (mc_attempts c) target_id of None \<Rightarrow> [] | Some attempts \<Rightarrow> attempts)\<rparr>)))"

definition cycle_inputs :: "tenant_scope \<Rightarrow> uuid \<Rightarrow> instant \<Rightarrow> channel_state \<Rightarrow> channel_cycle_inputs result" where
  "cycle_inputs scope cycle_id as_of st =
     rbind (scope_key scope) (\<lambda>key.
       let no_inputs = \<lparr>ci_manifests = [], ci_publications = None, ci_measurements = None\<rparr> in
       Inr (case hm_get (cs_cycles st) (key, CycleOwner cycle_id) of
              None \<Rightarrow> no_inputs
            | Some c \<Rightarrow> (case mc_plan c of
                None \<Rightarrow> no_inputs
              | Some plan \<Rightarrow>
                  if cp_created_at plan \<le> as_of then frozen_cycle_inputs plan (mc_attempts c) as_of else no_inputs)))"

section \<open>Dispatch\<close>

definition project_scope_of :: "project_key \<Rightarrow> tenant_scope" where
  "project_scope_of key = (case key of (o1, t, p) \<Rightarrow> tenant_scope_new (Ident o1) (Ident t) (Some (Ident p)))"

definition pending_target :: "uuid option \<Rightarrow> instant \<Rightarrow> memory_cycle \<Rightarrow> channel_target \<Rightarrow> bool" where
  "pending_target after as_of c t \<longleftrightarrow>
     \<not> (case after of None \<Rightarrow> False | Some a \<Rightarrow> ct_target_id t \<le> a) \<and>
     \<not> hm_contains (mc_attempts c) (ct_target_id t) \<and>
     \<not> (case ct_input t of Measure m \<Rightarrow> me_scheduled_at m > as_of | _ \<Rightarrow> False)"

definition cycle_candidates :: "uuid option \<Rightarrow> instant \<Rightarrow> channel_scope_key \<times> memory_cycle \<Rightarrow>
    channel_dispatch_candidate list" where
  "cycle_candidates after as_of e = (case e of (k, c) \<Rightarrow>
     map (\<lambda>t. \<lparr>dc_scope = project_scope_of (fst k), dc_target_id = ct_target_id t\<rparr>)
       (filter (pending_target after as_of c) (cycle_targets c)))"

definition scan_pending :: "uuid option \<Rightarrow> instant \<Rightarrow> nat \<Rightarrow> channel_state \<Rightarrow> channel_dispatch_candidate list result" where
  "scan_pending after as_of limit st =
     (if limit = 0 \<or> limit > 1000 then Inl (invalid_request (lit ''invalid channel dispatch page size''))
      else Inr (take limit (sort_key dc_target_id (concat (map (cycle_candidates after as_of) (cs_cycles st))))))"

definition materialize_pending_commands :: "uuid option \<Rightarrow> nat \<Rightarrow> channel_dispatch_candidate list result" where
  "materialize_pending_commands after limit =
     (if limit = 0 \<or> limit > 1000 then Inl (invalid_request (lit ''invalid command page size'')) else Inr [])"

section \<open>Measurement plans\<close>

text \<open>The first entry of the project whose request key is \<open>key\<close>.\<close>

definition find_request :: "project_key \<Rightarrow> str \<Rightarrow> channel_state \<Rightarrow> memory_cycle option" where
  "find_request project key st = map_option snd (find (\<lambda>(k, c). fst k = project \<and>
     (case mc_measurement_request c of None \<Rightarrow> False | Some (existing, _) \<Rightarrow> existing = key)) (cs_cycles st))"

definition request_hash_of :: "memory_cycle \<Rightarrow> str option" where
  "request_hash_of c = map_option snd (mc_measurement_request c)"

definition replay_measurement_plan :: "tenant_scope \<Rightarrow> str \<Rightarrow> str \<Rightarrow> channel_state \<Rightarrow>
    standalone_measurement_plan option result" where
  "replay_measurement_plan scope key request_hash st =
     rbind (scope_key scope) (\<lambda>project. case find_request project key st of
       None \<Rightarrow> Inr None
     | Some c \<Rightarrow> if request_hash_of c = Some request_hash then Inr (mc_measurement c)
         else Inl (conflict (lit ''measurement idempotency key differs'')))"

text \<open>An entry with a request always holds its plan, so the \<open>expect\<close> cannot fail; \<open>None\<close> is its panic.\<close>

definition create_measurement_plan :: "tenant_scope \<Rightarrow> str \<Rightarrow> str \<Rightarrow> standalone_measurement_plan \<Rightarrow> channel_state \<Rightarrow>
    standalone_measurement_plan outcome \<times> channel_state" where
  "create_measurement_plan scope key request_hash plan st =
     (case validate_measurement_plan scope plan of Inl e \<Rightarrow> (Some (Inl e), st) | Inr _ \<Rightarrow>
      if trim key = [] \<or> request_hash = []
      then (Some (Inl (invalid_request (lit ''measurement idempotency identity required''))), st)
      else case scope_key scope of Inl e \<Rightarrow> (Some (Inl e), st) | Inr project \<Rightarrow>
        (case find_request project key st of
           Some c \<Rightarrow>
             if request_hash_of c = Some request_hash then (map_option Inr (mc_measurement c), st)
             else (Some (Inl (conflict (lit ''measurement idempotency key differs''))), st)
         | None \<Rightarrow>
             let k = (project, MeasurementOwner (mp_plan_id plan)) in
             if hm_contains (cs_cycles st) k \<or>
                list_ex (\<lambda>c. list_ex (\<lambda>t. cycle_target c (ct_target_id t) \<noteq> None) (mp_targets plan))
                  (hm_values (cs_cycles st))
             then (Some (Inl (conflict (lit ''measurement plan or target already exists''))), st)
             else (Some (Inr plan), set_cycle k (empty_cycle\<lparr>mc_measurement := Some plan,
                     mc_measurement_request := Some (key, request_hash)\<rparr>) st)))"

definition get_measurement_plan :: "tenant_scope \<Rightarrow> uuid \<Rightarrow> channel_state \<Rightarrow> standalone_measurement_plan option result" where
  "get_measurement_plan scope plan_id st =
     rbind (scope_key scope) (\<lambda>key. Inr (case hm_get (cs_cycles st) (key, MeasurementOwner plan_id) of
       None \<Rightarrow> None | Some c \<Rightarrow> mc_measurement c))"

definition plan_key :: "standalone_measurement_plan \<Rightarrow> instant \<times> uuid" where
  "plan_key p = (mp_created_at p, mp_plan_id p)"

definition project_measurements :: "project_key \<Rightarrow> channel_state \<Rightarrow> standalone_measurement_plan list" where
  "project_measurements key st = List.map_filter (\<lambda>(k, c). if fst k = key then mc_measurement c else None) (cs_cycles st)"

text \<open>The two listings differ in the plans they show, and a cursor must be one of those.\<close>

definition list_eligible_plans :: "(standalone_measurement_plan \<Rightarrow> bool) \<Rightarrow> tenant_scope \<Rightarrow> uuid option \<Rightarrow> nat \<Rightarrow>
    channel_state \<Rightarrow> standalone_measurement_plan list result" where
  "list_eligible_plans eligible scope after limit st =
     (if limit = 0 \<or> limit > 1000 then Inl (invalid_request (lit ''invalid measurement page size''))
      else rbind (scope_key scope) (\<lambda>key.
        rbind (case after of
            None \<Rightarrow> Inr None
          | Some i \<Rightarrow> (case (case hm_get (cs_cycles st) (key, MeasurementOwner i) of
                  None \<Rightarrow> None | Some c \<Rightarrow> mc_measurement c) of
                Some p \<Rightarrow> if eligible p then Inr (Some (plan_key p))
                  else Inl (invalid_request (lit ''invalid measurement cursor''))
              | None \<Rightarrow> Inl (invalid_request (lit ''invalid measurement cursor'')))) (\<lambda>cursor.
          Inr (take limit (rev (sort_key plan_key (filter
            (\<lambda>p. eligible p \<and> (case cursor of None \<Rightarrow> True | Some a \<Rightarrow> plan_key p < a))
            (project_measurements key st))))))))"

definition list_measurement_plans :: "tenant_scope \<Rightarrow> uuid option \<Rightarrow> nat \<Rightarrow> channel_state \<Rightarrow>
    standalone_measurement_plan list result" where
  "list_measurement_plans = list_eligible_plans (\<lambda>_. True)"

fun optimization_target :: "channel_target_input \<Rightarrow> bool" where
  "optimization_target (Measure m) =
     (case me_question_binding m of None \<Rightarrow> False | Some b \<Rightarrow> qb_purpose b = Optimization)"
| "optimization_target _ = False"

definition list_optimization_measurement_plans :: "tenant_scope \<Rightarrow> uuid option \<Rightarrow> nat \<Rightarrow> channel_state \<Rightarrow>
    standalone_measurement_plan list result" where
  "list_optimization_measurement_plans =
     list_eligible_plans (\<lambda>p. list_ex (\<lambda>t. optimization_target (ct_input t)) (mp_targets p))"

end
