(* ===== verification/Channel_Claims.thy ===== *)
theory Channel_Claims
  imports Channel_State
begin

text \<open>
  \<open>crates/domain/src/publishing/channel_jobs.rs\<close>, continued: account reservations, the one-shot
  claim of a target, its outcome, the encrypted execution binding, the one-shot authorization to
  send a rich publication and the withdrawal of a publication.
\<close>

section \<open>Account reservations\<close>

text \<open>A browser operation that still owns the account for the operator.\<close>

definition holds_account :: "operator_id \<Rightarrow> uuid \<Rightarrow> browser_operation \<Rightarrow> bool" where
  "holds_account operator account op \<longleftrightarrow>
     bs_operator_id (bo_scope op) = operator \<and> owns_account op account \<and> bo_state op \<noteq> Disposed"

definition browser_busy :: "operator_id \<Rightarrow> uuid \<Rightarrow> channel_state \<Rightarrow> bool" where
  "browser_busy operator account st \<longleftrightarrow> list_ex (holds_account operator account) (hm_values (cs_operations st))"

definition gate_key :: "operator_id \<Rightarrow> uuid \<Rightarrow> account_key" where
  "gate_key operator account = (as_uuid operator, account)"

definition reserve_account :: "tenant_scope \<Rightarrow> uuid \<Rightarrow> uuid \<Rightarrow> instant \<Rightarrow> instant \<Rightarrow> channel_state \<Rightarrow>
    unit result \<times> channel_state" where
  "reserve_account scope account_id reservation_id at expires_at st =
     try_in st (scope_key scope) (\<lambda>_.
     if expires_at \<le> at \<or> expires_at - at > channel_execution_lease
     then (Inl (invalid_request (lit ''invalid account reservation duration'')), st)
     else
       let key = gate_key (ts_operator_id scope) account_id in
       if browser_busy (ts_operator_id scope) account_id st
       then (Inl (conflict (lit ''channel account browser busy'')), st)
       else if (case hm_get (cs_gates st) key of None \<Rightarrow> False | Some (_, expiry) \<Rightarrow> expiry > at)
       then (Inl (conflict (lit ''channel account preflight busy'')), st)
       else (Inr (), st\<lparr>cs_gates := hm_insert key (reservation_id, expires_at) (cs_gates st)\<rparr>))"

definition release_account :: "tenant_scope \<Rightarrow> uuid \<Rightarrow> uuid \<Rightarrow> channel_state \<Rightarrow> unit result \<times> channel_state" where
  "release_account scope account_id reservation_id st =
     try_in st (scope_key scope) (\<lambda>_.
       let key = gate_key (ts_operator_id scope) account_id in
       if browser_busy (ts_operator_id scope) account_id st then (Inr (), st)
       else if (case hm_get (cs_gates st) key of None \<Rightarrow> False | Some (owner, _) \<Rightarrow> owner = reservation_id)
       then (Inr (), st\<lparr>cs_gates := hm_remove key (cs_gates st)\<rparr>)
       else (Inr (), st))"

section \<open>Claims\<close>

text \<open>A publication target of the account with an attempt whose outcome was not received.\<close>

definition in_flight :: "uuid \<Rightarrow> memory_cycle \<Rightarrow> channel_target \<Rightarrow> bool" where
  "in_flight account c t \<longleftrightarrow> is_publication (ct_input t) \<and> input_account_id (ct_input t) = account \<and>
     (case hm_get (mc_attempts c) (ct_target_id t) of None \<Rightarrow> False
      | Some attempts \<Rightarrow> list_ex (\<lambda>a. at_received_at a = None) attempts)"

definition publication_in_flight :: "uuid \<Rightarrow> uuid \<Rightarrow> channel_state \<Rightarrow> bool" where
  "publication_in_flight operator account st \<longleftrightarrow>
     list_ex (\<lambda>(k, c). fst (fst k) = operator \<and> list_ex (in_flight account c) (cycle_targets c)) (cs_cycles st)"

text \<open>The withdrawal authority that a claim freezes with its attempt. \<open>requests\<close> is the repository
  of distribution requests when there is one.\<close>

definition claim_withdrawal_row :: "(tenant_scope \<Rightarrow> uuid \<Rightarrow> content_distribution_request result) option \<Rightarrow>
    tenant_scope \<Rightarrow> channel_target \<Rightarrow> uuid \<Rightarrow> publication_withdrawal option result" where
  "claim_withdrawal_row requests scope target attempt_id =
     (case ct_input target of
        GeneratedPublish g \<Rightarrow>
          (case (gp_origin_request_id g, requests) of
             (Some i, Some get_request) \<Rightarrow>
               rbind (get_request scope i) (\<lambda>r.
                 if \<not> dr_withdraw_after_publish r then Inr None
                 else if \<not> (gp_rich_payload g = None \<and> gp_platform g = lit ''zhihu'' \<and>
                     gp_placement_slot g = lit ''short_post'' \<and> gp_account_id g = dr_account_id r \<and>
                     dr_platform_id r = gp_platform g \<and> dr_placement_slot r = gp_placement_slot g \<and>
                     dr_account_owner_kind r = lit ''customer'' \<and> dr_format r = text_distribution_format)
                 then Inl (conflict (lit ''withdrawal publication authority differs''))
                 else Inr (Some \<lparr>wd_scope = scope, wd_request_id = i, wd_target_id = ct_target_id target,
                        wd_attempt_id = attempt_id, wd_account_id = gp_account_id g, wd_state = WdAwaitingPublication,
                        wd_external_id = None, wd_public_url = None, wd_execution_id = None, wd_claimed_at = None,
                        wd_evidence = JObj [], wd_finished_at = None, wd_error_code = None\<rparr>))
           | _ \<Rightarrow> Inr None)
      | _ \<Rightarrow> Inr None)"

definition project_targets :: "project_key \<Rightarrow> channel_state \<Rightarrow> channel_target list" where
  "project_targets key st = concat (map (\<lambda>(k, c). if fst k = key then cycle_targets c else []) (cs_cycles st))"

definition record_claim :: "channel_target \<Rightarrow> channel_attempt \<Rightarrow> publication_withdrawal option \<Rightarrow> memory_cycle \<Rightarrow>
    memory_cycle" where
  "record_claim target attempt withdrawal c =
     (let previous = (case hm_get (mc_attempts c) (ct_target_id target) of None \<Rightarrow> [] | Some xs \<Rightarrow> xs);
          c' = c\<lparr>mc_attempts := hm_insert (ct_target_id target) (previous @ [attempt]) (mc_attempts c)\<rparr>
      in case withdrawal of None \<Rightarrow> c'
         | Some row \<Rightarrow> c'\<lparr>mc_withdrawals := hm_insert (at_attempt_id attempt) row (mc_withdrawals c')\<rparr>)"

definition claim :: "(tenant_scope \<Rightarrow> uuid \<Rightarrow> content_distribution_request result) option \<Rightarrow> tenant_scope \<Rightarrow>
    uuid \<Rightarrow> uuid \<Rightarrow> instant \<Rightarrow> channel_state \<Rightarrow> (channel_target \<times> channel_attempt) result \<times> channel_state" where
  "claim requests scope target_id attempt_id at st =
     try_in st (scope_key scope) (\<lambda>key.
     try_in st (ok_or (find (\<lambda>t. ct_target_id t = target_id) (project_targets key st))
                 (not_found (lit ''target not found''))) (\<lambda>pending.
     if is_publication (ct_input pending) \<and> publication_in_flight (fst key) (input_account_id (ct_input pending)) st
     then (Inl (conflict (lit ''channel account already has a publication in flight'')), st)
     else try_in st (ok_or (find_cycle key target_id st) (not_found (lit ''target not found''))) (\<lambda>(k, c).
     try_in st (ok_or (cycle_target c target_id) (not_found (lit ''target not found''))) (\<lambda>target.
     if (case hm_get (mc_attempts c) target_id of None \<Rightarrow> False | Some attempts \<Rightarrow> attempts \<noteq> [])
     then (Inl (conflict (lit ''target already attempted; inspect or reconcile existing outcome'')), st)
     else
       let attempt = \<lparr>at_attempt_id = attempt_id, at_target_id = target_id, at_claimed_at = at,
                      at_outcome = None, at_received_at = None\<rparr> in
       try_in st (claim_withdrawal_row requests scope target attempt_id) (\<lambda>withdrawal.
         (Inr (target, attempt), set_cycle k (record_claim target attempt withdrawal c) st))))))"

definition claim_reserved :: "(tenant_scope \<Rightarrow> uuid \<Rightarrow> content_distribution_request result) option \<Rightarrow> tenant_scope \<Rightarrow>
    uuid \<Rightarrow> uuid \<Rightarrow> uuid \<Rightarrow> instant \<Rightarrow> channel_state \<Rightarrow>
    (channel_target \<times> channel_attempt) result \<times> channel_state" where
  "claim_reserved requests scope target_id attempt_id reservation_id at st =
     try_in st (get_target scope target_id st) (\<lambda>view.
       let target = tv_target view; key = gate_key (ts_operator_id scope) (input_account_id (ct_input target)) in
       if \<not> (case hm_get (cs_gates st) key of None \<Rightarrow> False
             | Some (owner, expiry) \<Rightarrow> owner = reservation_id \<and> expiry > at)
       then (Inl (conflict (lit ''account preflight reservation expired'')), st)
       else case claim requests scope target_id attempt_id at st of
         (Inl e, st1) \<Rightarrow> (Inl e, st1)
       | (Inr claimed, st1) \<Rightarrow>
           (Inr claimed, st1\<lparr>cs_gates := hm_insert key (reservation_id,
              at + (if is_measure (ct_input target) then channel_measurement_lease else channel_execution_lease))
              (cs_gates st1)\<rparr>))"

section \<open>Outcomes\<close>

fun is_rich :: "channel_target_input \<Rightarrow> bool" where
  "is_rich (GeneratedPublish g) = (gp_rich_payload g \<noteq> None)"
| "is_rich _ = False"

definition send_authorized :: "memory_cycle \<Rightarrow> uuid \<Rightarrow> bool" where
  "send_authorized c attempt_id \<longleftrightarrow> (case hm_get (mc_publication_send c) attempt_id of None \<Rightarrow> False
     | Some r \<Rightarrow> sr_send_authorized_at r \<noteq> None)"

text \<open>A readback never proves rich media, and nothing is published before it was authorized.\<close>

definition admitted_outcome :: "memory_cycle \<Rightarrow> channel_target \<Rightarrow> uuid \<Rightarrow> channel_outcome \<Rightarrow> channel_outcome" where
  "admitted_outcome c target attempt_id outcome =
     (if is_rich (ct_input target) \<and> (oc_status outcome = OsVerified \<or>
           oc_status outcome = OsPublished \<and> \<not> send_authorized c attempt_id)
      then outcome\<lparr>oc_status := OsUnknown\<rparr> else outcome)"

definition is_attempt :: "uuid \<Rightarrow> channel_attempt \<Rightarrow> bool" where
  "is_attempt i a \<longleftrightarrow> at_attempt_id a = i"

definition finish :: "tenant_scope \<Rightarrow> uuid \<Rightarrow> uuid \<Rightarrow> channel_outcome \<Rightarrow> instant \<Rightarrow> channel_state \<Rightarrow>
    channel_target_view result \<times> channel_state" where
  "finish scope target_id attempt_id outcome received_at st =
     try_in st (scope_key scope) (\<lambda>key.
     try_in st (ok_or (find_cycle key target_id st) (not_found (lit ''target not found''))) (\<lambda>(k, c).
     try_in st (ok_or (cycle_target c target_id) (not_found (lit ''target not found''))) (\<lambda>target.
     try_in st (ok_or (hm_get (mc_attempts c) target_id) (not_found (lit ''attempt not found''))) (\<lambda>attempts.
     try_in st (ok_or (find (is_attempt attempt_id) attempts) (not_found (lit ''attempt not found''))) (\<lambda>attempt.
       let o1 = admitted_outcome c target attempt_id outcome in
       case at_outcome attempt of
         Some previous \<Rightarrow>
           if previous \<noteq> o1 then (Inl (conflict (lit ''attempt outcome already recorded'')), st)
           else (Inr \<lparr>tv_target = target, tv_attempts = attempts\<rparr>, st)
       | None \<Rightarrow>
           let attempts' = update_first (is_attempt attempt_id)
                 (\<lambda>a. a\<lparr>at_outcome := Some o1, at_received_at := Some received_at\<rparr>) attempts
           in (Inr \<lparr>tv_target = target, tv_attempts = attempts'\<rparr>,
               set_cycle k (c\<lparr>mc_attempts := hm_insert target_id attempts' (mc_attempts c)\<rparr>) st))))))"

definition find_attempt :: "memory_cycle \<Rightarrow> uuid \<Rightarrow> uuid \<Rightarrow> channel_attempt option" where
  "find_attempt c target_id attempt_id = (case hm_get (mc_attempts c) target_id of None \<Rightarrow> None
     | Some attempts \<Rightarrow> find (is_attempt attempt_id) attempts)"

definition target_is_publication :: "memory_cycle \<Rightarrow> uuid \<Rightarrow> bool" where
  "target_is_publication c target_id \<longleftrightarrow> (case cycle_target c target_id of None \<Rightarrow> False
     | Some t \<Rightarrow> is_publication (ct_input t))"

definition store_publication_binding :: "tenant_scope \<Rightarrow> uuid \<Rightarrow> uuid \<Rightarrow> channel_secret \<Rightarrow> channel_state \<Rightarrow>
    unit result \<times> channel_state" where
  "store_publication_binding scope target_id attempt_id binding st =
     (if binding = [] then (Inl (invalid_request (lit ''empty encrypted publication binding'')), st)
      else try_in st (scope_key scope) (\<lambda>key.
      try_in st (ok_or (find_cycle key target_id st) (not_found (lit ''target not found''))) (\<lambda>(k, c).
      if \<not> target_is_publication c target_id
      then (Inl (invalid_request (lit ''binding requires a publication target'')), st)
      else try_in st (ok_or (find_attempt c target_id attempt_id) (not_found (lit ''attempt not found''))) (\<lambda>attempt.
      case hm_get (mc_publication_bindings c) attempt_id of
        Some existing \<Rightarrow> if existing = binding then (Inr (), st)
          else (Inl (conflict (lit ''publication binding already recorded'')), st)
      | None \<Rightarrow>
          if at_received_at attempt \<noteq> None
          then (Inl (conflict (lit ''publication attempt already finished'')), st)
          else (Inr (), set_cycle k
            (c\<lparr>mc_publication_bindings := hm_insert attempt_id binding (mc_publication_bindings c)\<rparr>) st)))))"

definition get_publication_binding :: "tenant_scope \<Rightarrow> uuid \<Rightarrow> uuid \<Rightarrow> channel_state \<Rightarrow> channel_secret option result" where
  "get_publication_binding scope target_id attempt_id st =
     rbind (scope_key scope) (\<lambda>key.
     rbind (ok_or (find_cycle key target_id st) (not_found (lit ''target not found''))) (\<lambda>(k, c).
     if \<not> target_is_publication c target_id
     then Inl (invalid_request (lit ''binding requires a publication target''))
     else if find_attempt c target_id attempt_id = None then Inl (not_found (lit ''attempt not found''))
     else Inr (hm_get (mc_publication_bindings c) attempt_id)))"

end
