(* ===== verification/Channel_Sends.thy ===== *)
theory Channel_Sends
  imports Channel_Claims
begin

text \<open>
  The one-shot authorization to send a rich publication
  (\<open>crates/domain/src/publishing/publication_send_authorization.rs\<close> and the ledger half of it in
  \<open>channel_jobs.rs\<close>) and the withdrawal of a publication.

  The project guard, the distribution and knowledge repositories and the byte check's keys are
  parameters; the ledger transition runs while the guards are held.
\<close>

section \<open>Requests and decisions\<close>

record publication_send_registration =
  rs_target_id :: uuid
  rs_attempt_id :: uuid
  rs_account_id :: uuid
  rs_runner_session_id :: uuid
  rs_encrypted_binding_sha256 :: str
  rs_send_not_after :: instant

record publication_send_request =
  au_target_id :: uuid
  au_attempt_id :: uuid
  au_account_id :: uuid
  au_runner_session_id :: uuid
  au_publication_intent_id :: uuid
  au_payload_hash :: str
  au_encrypted_binding_sha256 :: str

record publication_send_grant =
  sg_attempt_id :: uuid
  sg_runner_session_id :: uuid
  sg_payload_hash :: str
  sg_send_not_after :: instant

datatype publication_send_decision = Granted publication_send_grant | AlreadyConsumed

definition secret_sha256 :: "codecs \<Rightarrow> channel_secret \<Rightarrow> str" where
  "secret_sha256 cd s = sha256_hex cd (map unat s)"

section \<open>Registration\<close>

definition same_registration :: "publication_send_registration \<Rightarrow> memory_send_registration \<Rightarrow> bool" where
  "same_registration r registered \<longleftrightarrow> sr_session_id registered = rs_runner_session_id r \<and>
     sr_deadline registered = rs_send_not_after r \<and> sr_binding_sha256 registered = rs_encrypted_binding_sha256 r"

definition registration_window :: "publication_send_registration \<Rightarrow> channel_attempt \<Rightarrow> instant \<Rightarrow> bool" where
  "registration_window r attempt now \<longleftrightarrow>
     \<not> is_nil (rs_runner_session_id r) \<and> \<not> is_nil (rs_attempt_id r) \<and> rs_send_not_after r > now \<and>
     rs_send_not_after r \<le> now + minutes 5 \<and> rs_send_not_after r > at_claimed_at attempt \<and>
     at_claimed_at attempt \<le> now \<and> now - at_claimed_at attempt \<le> minutes 5"

definition register_rich_send :: "codecs \<Rightarrow> tenant_scope \<Rightarrow> publication_send_registration \<Rightarrow> instant \<Rightarrow> channel_state \<Rightarrow>
    unit result \<times> channel_state" where
  "register_rich_send cd scope r now st =
     try_in st (scope_key scope) (\<lambda>key.
     try_in st (ok_or (find_cycle key (rs_target_id r) st) (not_found (lit ''publication target not found''))) (\<lambda>(k, c).
     try_in st (ok_or (cycle_target c (rs_target_id r)) (not_found (lit ''publication target not found''))) (\<lambda>target.
     if \<not> is_rich (ct_input target) \<or> input_account_id (ct_input target) \<noteq> rs_account_id r
     then (Inl (conflict (lit ''publication preflight target differs'')), st)
     else try_in st (ok_or (find_attempt c (rs_target_id r) (rs_attempt_id r))
                       (not_found (lit ''publication attempt not found''))) (\<lambda>attempt.
     if at_outcome attempt \<noteq> None \<or> at_received_at attempt \<noteq> None
     then (Inl (conflict (lit ''publication attempt already completed'')), st)
     else try_in st (ok_or (hm_get (mc_publication_bindings c) (rs_attempt_id r))
                       (conflict (lit ''preflight binding is unavailable''))) (\<lambda>binding.
     if secret_sha256 cd binding \<noteq> rs_encrypted_binding_sha256 r
     then (Inl (conflict (lit ''preflight binding identity differs'')), st)
     else case hm_get (mc_publication_send c) (rs_attempt_id r) of
       Some registered \<Rightarrow>
         if same_registration r registered then (Inr (), st)
         else (Inl (conflict (lit ''publication preflight already registered'')), st)
     | None \<Rightarrow>
         if \<not> registration_window r attempt now
         then (Inl (conflict (lit ''publication preflight deadline or session invalid'')), st)
         else (Inr (), set_cycle k (c\<lparr>mc_publication_send := hm_insert (rs_attempt_id r)
           \<lparr>sr_session_id = rs_runner_session_id r, sr_deadline = rs_send_not_after r,
            sr_binding_sha256 = rs_encrypted_binding_sha256 r, sr_send_authorized_at = None\<rparr>
           (mc_publication_send c)\<rparr>) st))))))"

section \<open>Authorization\<close>

text \<open>The frozen target, the bundle and the request agree in every field.\<close>

definition origin_agrees :: "generated_publish_input \<Rightarrow> publication_bundle \<Rightarrow> bool" where
  "origin_agrees g b \<longleftrightarrow> (case pb_origin b of
       ContentRequest r \<Rightarrow> gp_origin_request_id g = Some (dr_request_id r)
     | CoverageTarget _ \<Rightarrow> gp_origin_request_id g = None)"

definition frozen_intent_agrees :: "codecs \<Rightarrow> publication_send_request \<Rightarrow> publication_bundle \<Rightarrow>
    generated_publish_input \<Rightarrow> rich_publication_payload \<Rightarrow> bool" where
  "frozen_intent_agrees cd x b g frozen \<longleftrightarrow>
     (let i = pb_intent b; v = pb_variant b; r = pb_revision b; c = pb_command b in
      gp_account_id g = au_account_id x \<and> au_publication_intent_id x = gp_publication_intent_id g \<and>
      au_payload_hash x = gp_payload_hash g \<and> pi_intent_id i = gp_publication_intent_id g \<and>
      pi_account_id i = gp_account_id g \<and> pi_platform_id i = gp_platform g \<and>
      pi_placement_slot i = gp_placement_slot g \<and> pi_payload_hash i = gp_payload_hash g \<and>
      cv_variant_id v = gp_variant_id g \<and> cv_content_revision_id v = gp_content_revision_id g \<and>
      cv_placement_slot v = gp_placement_slot g \<and> cv_title v = gp_title g \<and> cv_markdown v = gp_body g \<and>
      cv_rich_payload v = Some frozen \<and> cr_revision_id r = gp_content_revision_id g \<and>
      cr_document r = rp_document frozen \<and> pc_command_id c = au_target_id x \<and>
      pc_target_id c = gp_distribution_target_id g \<and> origin_agrees g b \<and> \<not> pc_fixture c \<and>
      sha256_hex cd (utf8_bytes (gp_body g)) = gp_body_sha256 g)"

definition attempt_agrees :: "codecs \<Rightarrow> publication_send_request \<Rightarrow> channel_attempt \<Rightarrow>
    memory_send_registration \<Rightarrow> channel_secret option \<Rightarrow> bool" where
  "attempt_agrees cd x attempt registered binding \<longleftrightarrow>
     at_outcome attempt = None \<and> at_received_at attempt = None \<and>
     sr_session_id registered = au_runner_session_id x \<and>
     sr_binding_sha256 registered = au_encrypted_binding_sha256 x \<and>
     (case binding of None \<Rightarrow> False | Some s \<Rightarrow> secret_sha256 cd s = au_encrypted_binding_sha256 x)"

definition media_granted :: "content_media_binding list \<Rightarrow> publication_media_item \<Rightarrow> bool" where
  "media_granted verified m \<longleftrightarrow> list_ex (\<lambda>b. mb_binding_id b = pm_binding_id m \<and> vi_key (mb_image b) = pm_object m \<and>
     vi_media_type (mb_image b) = pm_media_type m \<and> vi_byte_len (mb_image b) = pm_byte_len m \<and>
     vi_width (mb_image b) = pm_width m \<and> vi_height (mb_image b) = pm_height m) verified"

definition authorize_rich_send :: "codecs \<Rightarrow> tenant_scope \<Rightarrow> publication_send_request \<Rightarrow> publication_bundle \<Rightarrow>
    content_media_binding list \<Rightarrow> instant \<Rightarrow> channel_state \<Rightarrow>
    publication_send_decision outcome \<times> channel_state" where
  "authorize_rich_send cd scope x b verified now st =
     (let fail = (\<lambda>e. (Some (Inl e), st)) in
      case scope_key scope of Inl e \<Rightarrow> fail e | Inr key \<Rightarrow>
      (case find_cycle key (au_target_id x) st of
         None \<Rightarrow> fail (not_found (lit ''publication target not found''))
       | Some (k, c) \<Rightarrow>
      (case cycle_target c (au_target_id x) of
         None \<Rightarrow> fail (not_found (lit ''publication target not found''))
       | Some target \<Rightarrow>
      (case (case ct_input target of
               GeneratedPublish g \<Rightarrow> map_option (Pair g) (gp_rich_payload g) | _ \<Rightarrow> None) of
         None \<Rightarrow> fail (conflict (lit ''only a frozen rich publication may be authorized''))
       | Some (g, frozen) \<Rightarrow>
      (case find_attempt c (au_target_id x) (au_attempt_id x) of
         None \<Rightarrow> fail (not_found (lit ''publication attempt not found''))
       | Some attempt \<Rightarrow>
      (case hm_get (mc_publication_send c) (au_attempt_id x) of
         None \<Rightarrow> fail (conflict (lit ''publication preflight is unregistered''))
       | Some registered \<Rightarrow>
         if \<not> attempt_agrees cd x attempt registered (hm_get (mc_publication_bindings c) (au_attempt_id x)) \<or>
            \<not> frozen_intent_agrees cd x b g frozen
         then fail (conflict (lit ''publication frozen intent or attempt differs''))
         else case obind (validate_origin cd b) (\<lambda>_. validate_rich_publication_payload cd (pb_variant b)) of
           None \<Rightarrow> (None, st)
         | Some (Inl e) \<Rightarrow> fail e
         | Some (Inr _) \<Rightarrow>
             if \<not> list_all (media_granted verified) (rp_media frozen)
             then fail (conflict (lit ''publication media grant differs''))
             else if sr_send_authorized_at registered \<noteq> None then (Some (Inr AlreadyConsumed), st)
             else if now > sr_deadline registered \<or> now < at_claimed_at attempt
             then fail (conflict (lit ''publication send authorization expired''))
             else (Some (Inr (Granted \<lparr>sg_attempt_id = au_attempt_id x,
                     sg_runner_session_id = au_runner_session_id x, sg_payload_hash = gp_payload_hash g,
                     sg_send_not_after = sr_deadline registered\<rparr>)),
                   set_cycle k (c\<lparr>mc_publication_send := hm_insert (au_attempt_id x)
                     (registered\<lparr>sr_send_authorized_at := Some now\<rparr>) (mc_publication_send c)\<rparr>) st)))))))"

section \<open>The service around the ledger\<close>

text \<open>
  What \<open>MemoryPublicationSendAuthorizationRepository\<close> is built from: the guard of the project, the
  bundle of an intent (read before the byte check and again under the guard) and the committed
  attachment bytes with the object they belong to.
\<close>

record send_services =
  ss_hold_project :: "tenant_scope \<Rightarrow> project_id \<Rightarrow> unit result"
  ss_early_bundle :: "tenant_scope \<Rightarrow> uuid \<Rightarrow> publication_bundle result"
  ss_bundle :: "tenant_scope \<Rightarrow> uuid \<Rightarrow> publication_bundle result"
  ss_bytes :: "tenant_scope \<Rightarrow> media_object_key \<Rightarrow> (attachment_object \<times> 8 word list) option result"

definition require_publication_project :: "tenant_scope \<Rightarrow> project_id result" where
  "require_publication_project scope = ok_or (ts_project_id scope) (forbidden (lit ''publication requires project scope''))"

fun check_bytes :: "codecs \<Rightarrow> send_services \<Rightarrow> tenant_scope \<Rightarrow> media_object_key list \<Rightarrow> unit result" where
  "check_bytes cd services scope [] = Inr ()"
| "check_bytes cd services scope (k # ks) =
     rbind (ss_bytes services scope k) (\<lambda>found.
     rbind (ok_or found (conflict (lit ''publication media attachment unavailable''))) (\<lambda>(object, bytes).
       if ao_object_version object \<noteq> mk_object_version k \<or> ao_sha256 object \<noteq> mk_sha256 k \<or>
          of_nat (length bytes) \<noteq> ao_actual_size object \<or> sha256_hex cd (map unat bytes) \<noteq> mk_sha256 k
       then Inl (conflict (lit ''publication media attachment bytes differ''))
       else check_bytes cd services scope ks))"

definition verify_actual_bytes :: "codecs \<Rightarrow> send_services \<Rightarrow> tenant_scope \<Rightarrow> publication_bundle \<Rightarrow>
    media_object_key list result" where
  "verify_actual_bytes cd services scope b =
     rbind (ok_or (cv_rich_payload (pb_variant b)) (conflict (lit ''rich publication payload missing''))) (\<lambda>payload.
       let keys = remdups_adj (sort_key media_order (map pm_object (rp_media payload))) in
       rbind (check_bytes cd services scope keys) (\<lambda>_. Inr keys))"

definition register_publication_send :: "codecs \<Rightarrow> send_services \<Rightarrow> tenant_scope \<Rightarrow> publication_send_registration \<Rightarrow>
    instant \<Rightarrow> channel_state \<Rightarrow> unit result \<times> channel_state" where
  "register_publication_send cd services scope r now st =
     try_in st (require_publication_project scope) (\<lambda>project.
     try_in st (ss_hold_project services scope project) (\<lambda>_. register_rich_send cd scope r now st))"

definition authorize_publication_send :: "codecs \<Rightarrow> send_services \<Rightarrow> tenant_scope \<Rightarrow> publication_send_request \<Rightarrow>
    memory_media_state \<Rightarrow> instant \<Rightarrow> channel_state \<Rightarrow> publication_send_decision outcome \<times> channel_state" where
  "authorize_publication_send cd services scope x media now st =
     (case rbind (require_publication_project scope) (\<lambda>project.
           rbind (ss_early_bundle services scope (au_publication_intent_id x)) (\<lambda>early.
           rbind (verify_actual_bytes cd services scope early) (\<lambda>keys.
           rbind (ss_hold_project services scope project) (\<lambda>_.
           rbind (ss_bundle services scope (au_publication_intent_id x)) (\<lambda>b.
           if b \<noteq> early then Inl (conflict (lit ''publication bundle changed during byte check''))
           else rbind (guard_validate media scope keys) (\<lambda>verified. Inr (b, verified))))))) of
        Inl e \<Rightarrow> (Some (Inl e), st)
      | Inr (b, verified) \<Rightarrow> authorize_rich_send cd scope x b verified now st)"

section \<open>Withdrawals\<close>

definition find_withdrawal :: "project_key \<Rightarrow> uuid \<Rightarrow> channel_state \<Rightarrow>
    (channel_scope_key \<times> memory_cycle \<times> publication_withdrawal) option" where
  "find_withdrawal key attempt_id st =
     (case find (\<lambda>(k, c). fst k = key \<and> hm_get (mc_withdrawals c) attempt_id \<noteq> None) (cs_cycles st) of
        None \<Rightarrow> None
      | Some (k, c) \<Rightarrow> map_option (\<lambda>row. (k, c, row)) (hm_get (mc_withdrawals c) attempt_id))"

definition set_withdrawal :: "channel_scope_key \<Rightarrow> memory_cycle \<Rightarrow> uuid \<Rightarrow> publication_withdrawal \<Rightarrow> channel_state \<Rightarrow>
    channel_state" where
  "set_withdrawal k c attempt_id row st =
     set_cycle k (c\<lparr>mc_withdrawals := hm_insert attempt_id row (mc_withdrawals c)\<rparr>) st"

definition get_withdrawal :: "tenant_scope \<Rightarrow> uuid \<Rightarrow> channel_state \<Rightarrow> publication_withdrawal result" where
  "get_withdrawal scope attempt_id st =
     rbind (scope_key scope) (\<lambda>key.
     rbind (ok_or (find_withdrawal key attempt_id st) (not_found (lit ''publication withdrawal not found'')))
       (\<lambda>(k, c, row). Inr row))"

definition interrupt_stale :: "instant \<Rightarrow> publication_withdrawal \<Rightarrow> publication_withdrawal" where
  "interrupt_stale now row =
     (if wd_state row = WdClaimed \<and>
         (case wd_claimed_at row of None \<Rightarrow> False | Some at \<Rightarrow> at + channel_execution_lease \<le> now)
      then row\<lparr>wd_state := WdUnknown, wd_error_code := Some (lit ''withdrawal_interrupted'')\<rparr> else row)"

definition map_vals :: "('v \<Rightarrow> 'v) \<Rightarrow> ('k, 'v) hash_map \<Rightarrow> ('k, 'v) hash_map" where
  "map_vals f m = map (\<lambda>(k, v). (k, f v)) m"

definition scan_withdrawals :: "uuid option \<Rightarrow> nat \<Rightarrow> instant \<Rightarrow> channel_state \<Rightarrow>
    publication_withdrawal list result \<times> channel_state" where
  "scan_withdrawals after limit now st =
     (if limit = 0 \<or> limit > 1000 then (Inl (invalid_request (lit ''invalid withdrawal page size'')), st)
      else
        let cycles = map_vals (\<lambda>c. c\<lparr>mc_withdrawals := map_vals (interrupt_stale now) (mc_withdrawals c)\<rparr>) (cs_cycles st);
            rows = concat (map (\<lambda>c. hm_values (mc_withdrawals c)) (hm_values cycles))
        in (Inr (take limit (sort_key wd_attempt_id (filter (\<lambda>row.
              (case after of None \<Rightarrow> True | Some a \<Rightarrow> wd_attempt_id row > a) \<and>
              (wd_state row = WdAwaitingPublication \<or> wd_state row = WdReady)) rows))),
            st\<lparr>cs_cycles := cycles\<rparr>))"

definition resolve_withdrawal :: "codecs \<Rightarrow> tenant_scope \<Rightarrow> uuid \<Rightarrow> channel_state \<Rightarrow>
    publication_withdrawal result \<times> channel_state" where
  "resolve_withdrawal cd scope attempt_id st =
     try_in st (scope_key scope) (\<lambda>key.
     try_in st (ok_or (find_withdrawal key attempt_id st) (not_found (lit ''publication withdrawal not found'')))
       (\<lambda>(k, c, row).
     try_in st (ok_or (cycle_target c (wd_target_id row)) (not_found (lit ''publication target not found''))) (\<lambda>target.
     try_in st (ok_or (find_attempt c (wd_target_id row) attempt_id)
                 (not_found (lit ''publication attempt not found''))) (\<lambda>attempt.
       case resolve_publication_withdrawal cd target attempt row of
         (Inl e, row') \<Rightarrow> (Inl e, set_withdrawal k c attempt_id row' st)
       | (Inr _, row') \<Rightarrow> (Inr row', set_withdrawal k c attempt_id row' st)))))"

definition claim_withdrawal :: "tenant_scope \<Rightarrow> uuid \<Rightarrow> uuid \<Rightarrow> uuid \<Rightarrow> instant \<Rightarrow> channel_state \<Rightarrow>
    publication_withdrawal result \<times> channel_state" where
  "claim_withdrawal scope attempt_id execution_id reservation_id at st =
     try_in st (scope_key scope) (\<lambda>key.
     try_in st (ok_or (find_withdrawal key attempt_id st) (not_found (lit ''publication withdrawal not found'')))
       (\<lambda>(k, c, row).
       if wd_state row \<noteq> WdReady \<or> wd_execution_id row \<noteq> None \<or>
          \<not> (case hm_get (cs_gates st) (gate_key (ts_operator_id scope) (wd_account_id row)) of None \<Rightarrow> False
             | Some (i, expiry) \<Rightarrow> i = reservation_id \<and> expiry > at)
       then (Inl (conflict (lit ''withdrawal already claimed or reservation expired'')), st)
       else
         let row' = row\<lparr>wd_state := WdClaimed, wd_execution_id := Some execution_id, wd_claimed_at := Some at\<rparr>
         in (Inr row', set_withdrawal k c attempt_id row' st)))"

definition finish_withdrawal :: "codecs \<Rightarrow> tenant_scope \<Rightarrow> uuid \<Rightarrow> uuid \<Rightarrow> json \<Rightarrow> instant \<Rightarrow> channel_state \<Rightarrow>
    publication_withdrawal result \<times> channel_state" where
  "finish_withdrawal cd scope attempt_id execution_id evidence received_at st =
     try_in st (scope_key scope) (\<lambda>key.
     try_in st (ok_or (find_withdrawal key attempt_id st) (not_found (lit ''publication withdrawal not found'')))
       (\<lambda>(k, c, row).
       case finish_publication_withdrawal cd execution_id evidence received_at row of
         (Inl e, row') \<Rightarrow> (Inl e, set_withdrawal k c attempt_id row' st)
       | (Inr _, row') \<Rightarrow> (Inr row', set_withdrawal k c attempt_id row' st)))"

end
