(* ===== verification/Browser_Repository.thy ===== *)
theory Browser_Repository
  imports Channel_Claims
begin

text \<open>
  \<open>impl BrowserOperationRepository\<close> and \<open>impl AccountNetworkBindingRepository\<close> for
  \<open>MemoryChannelJobRepository\<close> (\<open>crates/domain/src/publishing/channel_jobs.rs\<close>): which browser owns
  an account, and which network it goes through. The channel repository is a parameter: each of its
  methods appears as the \<open>Result\<close> the call returns.
\<close>

section \<open>Channel records\<close>

datatype channel_status = ChNeedsLogin | ChUnverified | ChReady | ChDisabled | ChExpired

record channel_account =
  ca_account_id :: uuid
  ca_project_id :: project_id
  ca_owner_kind :: channel_owner_kind
  ca_platform :: str
  ca_group_id :: "uuid option"
  ca_status :: channel_status
  ca_display_name :: "str option"
  ca_platform_account_id :: "str option"
  ca_avatar_url :: "str option"
  ca_enabled :: bool
  ca_proxy_configured :: bool
  ca_proxy_server :: "str option"
  ca_created_at :: instant
  ca_updated_at :: instant

record channel_account_record =
  car_account :: channel_account
  car_session :: "channel_secret option"
  car_proxy :: "channel_secret option"

record pool_account =
  pa_account_id :: uuid
  pa_platform :: str
  pa_group_id :: "uuid option"
  pa_status :: channel_status
  pa_display_name :: "str option"
  pa_platform_account_id :: "str option"
  pa_avatar_url :: "str option"
  pa_enabled :: bool
  pa_proxy_configured :: bool
  pa_proxy_server :: "str option"
  pa_created_at :: instant
  pa_updated_at :: instant

record pool_account_record =
  par_account :: pool_account
  par_session :: "channel_secret option"
  par_proxy :: "channel_secret option"

record channel_settings =
  cst_project_id :: project_id
  cst_default_group_id :: "uuid option"
  cst_proxy_configured :: bool
  cst_proxy_server :: "str option"
  cst_updated_at :: instant

record channel_settings_record =
  csr_settings :: channel_settings
  csr_proxy :: "channel_secret option"

record project_network_binding_update =
  nu_expected_version :: "i64 option"
  nu_binding :: account_network_binding
  nu_legacy :: "legacy_network_bootstrap option"

datatype network_metadata_update =
    CustomerMetadata channel_account_record channel_account_record
  | PoolMetadata pool_account_record pool_account_record

record channel_services =
  sv_list_accounts :: "tenant_scope \<Rightarrow> channel_account list result"
  sv_get_account :: "tenant_scope \<Rightarrow> uuid \<Rightarrow> channel_account_record result"
  sv_validate_assignment :: "account_network_scope \<Rightarrow> account_network_source \<Rightarrow> unit result"
  sv_save_network_metadata :: "account_network_scope \<Rightarrow> network_metadata_update \<Rightarrow> unit result"
  sv_compare_set_settings :: "tenant_scope \<Rightarrow> channel_settings_record option \<Rightarrow> channel_settings_record \<Rightarrow> unit result"
  sv_save_verified_login :: "verified_login_storage \<Rightarrow> instant \<Rightarrow> unit result"

section \<open>Networks\<close>

definition active_operation :: "operator_id \<Rightarrow> uuid \<Rightarrow> channel_state \<Rightarrow> browser_operation option" where
  "active_operation operator account st = find (holds_account operator account) (hm_values (cs_operations st))"

definition get_account_network :: "account_network_scope \<Rightarrow> channel_state \<Rightarrow> account_network_bindings option result" where
  "get_account_network scope st = (case hm_get (mn_heads (cs_networks st)) (network_key scope) of
       Some head \<Rightarrow>
         if nb_scope (nh_active head) \<noteq> scope then Inl (forbidden (lit ''network account scope differs''))
         else Inr (Some (head\<lparr>nh_busy := browser_busy (ns_operator_id scope) (ns_account_id scope) st\<rparr>))
     | None \<Rightarrow> Inr None)"

definition get_network_binding :: "account_network_scope \<Rightarrow> uuid \<Rightarrow> channel_state \<Rightarrow> account_network_binding result" where
  "get_network_binding scope i st =
     ok_or (case hm_get (mn_bindings (cs_networks st)) i of None \<Rightarrow> None
            | Some b \<Rightarrow> if nb_scope b = scope then Some b else None)
       (not_found (lit ''network binding not found''))"

definition set_account_network_with_metadata :: "channel_services \<Rightarrow> account_network_scope \<Rightarrow> i64 option \<Rightarrow>
    account_network_binding \<Rightarrow> legacy_network_bootstrap option \<Rightarrow> network_metadata_update option \<Rightarrow>
    channel_state \<Rightarrow> account_network_bindings result \<times> channel_state" where
  "set_account_network_with_metadata channels scope expected binding legacy metadata st =
     try_in st (validate_network_binding scope binding) (\<lambda>_.
     try_in st (sv_validate_assignment channels scope (nb_source binding)) (\<lambda>_.
       let active = map_option bo_operation_id (active_operation (ns_operator_id scope) (ns_account_id scope) st) in
       case network_set scope expected binding legacy active (cs_networks st) of
         (Inl e, _) \<Rightarrow> (Inl e, st)
       | (Inr head, staged) \<Rightarrow>
           try_in st (case metadata of None \<Rightarrow> Inr () | Some x \<Rightarrow> sv_save_network_metadata channels scope x) (\<lambda>_.
             (Inr head, st\<lparr>cs_networks := staged\<rparr>))))"

section \<open>Project defaults\<close>

definition is_project_default :: "account_network_source \<Rightarrow> bool" where
  "is_project_default s = (case s of ProjectDefault _ \<Rightarrow> True | _ \<Rightarrow> False)"

definition desired_binding :: "account_network_bindings \<Rightarrow> account_network_binding" where
  "desired_binding h = (case nh_pending h of None \<Rightarrow> nh_active h | Some b \<Rightarrow> b)"

definition inherited_heads :: "tenant_scope \<Rightarrow> project_id \<Rightarrow> channel_state \<Rightarrow> uuid list" where
  "inherited_heads scope project st =
     map (\<lambda>h. ns_account_id (nb_scope (desired_binding h)))
       (filter (\<lambda>h. let b = desired_binding h in
          ns_operator_id (nb_scope b) = ts_operator_id scope \<and> ns_tenant_id (nb_scope b) = Some (ts_tenant_id scope) \<and>
          ns_project_id (nb_scope b) = Some project \<and> is_project_default (nb_source b))
        (hm_values (mn_heads (cs_networks st))))"

text \<open>Accounts without a head whose browser runs on the project's proxy.\<close>

fun legacy_accounts :: "channel_services \<Rightarrow> tenant_scope \<Rightarrow> channel_state \<Rightarrow> channel_account list \<Rightarrow> uuid list result" where
  "legacy_accounts channels scope st [] = Inr []"
| "legacy_accounts channels scope st (a # rest) =
     (if ca_owner_kind a = OwnerCustomer \<and>
         \<not> hm_contains (mn_heads (cs_networks st)) (gate_key (ts_operator_id scope) (ca_account_id a)) \<and>
         browser_busy (ts_operator_id scope) (ca_account_id a) st
      then rbind (sv_get_account channels scope (ca_account_id a)) (\<lambda>r.
        rbind (legacy_accounts channels scope st rest) (\<lambda>ids.
          Inr (if car_proxy r = None then ca_account_id a # ids else ids)))
      else legacy_accounts channels scope st rest)"

definition required_accounts :: "channel_services \<Rightarrow> tenant_scope \<Rightarrow> project_id \<Rightarrow> bool \<Rightarrow> channel_state \<Rightarrow> uuid list result" where
  "required_accounts channels scope project changed st =
     (if \<not> changed then Inr []
      else rbind (sv_list_accounts channels scope) (\<lambda>accounts.
        rbind (legacy_accounts channels scope st accounts) (\<lambda>ids. Inr (inherited_heads scope project st @ ids))))"

fun stage_updates :: "channel_services \<Rightarrow> tenant_scope \<Rightarrow> project_id \<Rightarrow> instant \<Rightarrow> channel_state \<Rightarrow>
    project_network_binding_update list \<Rightarrow> memory_account_networks \<Rightarrow> memory_account_networks result" where
  "stage_updates channels scope project updated_at st [] staged = Inr staged"
| "stage_updates channels scope project updated_at st (u # us) staged =
     (let b = nu_binding u; s = nb_scope b in
      if ns_operator_id s \<noteq> ts_operator_id scope \<or> ns_tenant_id s \<noteq> Some (ts_tenant_id scope) \<or>
         ns_project_id s \<noteq> Some project \<or> nb_source b \<noteq> ProjectDefault (Some updated_at)
      then Inl (conflict (lit ''project default binding differs''))
      else rbind (sv_validate_assignment channels s LegacySnapshot) (\<lambda>_.
        case network_set s (nu_expected_version u) b (nu_legacy u)
               (map_option bo_operation_id (active_operation (ts_operator_id scope) (ns_account_id s) st)) staged of
          (Inl e, _) \<Rightarrow> Inl e
        | (Inr _, staged') \<Rightarrow> stage_updates channels scope project updated_at st us staged'))"

definition set_project_network_defaults :: "channel_services \<Rightarrow> tenant_scope \<Rightarrow> channel_settings_record option \<Rightarrow>
    channel_settings_record \<Rightarrow> project_network_binding_update list \<Rightarrow> channel_state \<Rightarrow>
    channel_settings result \<times> channel_state" where
  "set_project_network_defaults channels scope expected updated updates st =
     try_in st (ok_or (ts_project_id scope) (forbidden (lit ''project scope required''))) (\<lambda>project.
     if cst_project_id (csr_settings updated) \<noteq> project
     then (Inl (forbidden (lit ''settings outside project'')), st)
     else
       let changed = (case expected of None \<Rightarrow> None | Some e \<Rightarrow> csr_proxy e) \<noteq> csr_proxy updated;
           supplied = map (\<lambda>u. ns_account_id (nb_scope (nu_binding u))) updates in
       try_in st (required_accounts channels scope project changed st) (\<lambda>required.
       if set required \<noteq> set supplied \<or> \<not> distinct supplied
       then (Inl (conflict (lit ''inherited account network set changed'')), st)
       else try_in st (stage_updates channels scope project (cst_updated_at (csr_settings updated)) st updates
                         (cs_networks st)) (\<lambda>staged.
       try_in st (sv_compare_set_settings channels scope expected updated) (\<lambda>_.
         (Inr (csr_settings updated), st\<lparr>cs_networks := staged\<rparr>)))))"

section \<open>Browser operations\<close>

definition claim_browser_start :: "browser_operation_scope \<Rightarrow> uuid \<Rightarrow> instant \<Rightarrow> channel_state \<Rightarrow>
    browser_operation option result \<times> channel_state" where
  "claim_browser_start scope i at st =
     try_in st (ok_or (hm_get (cs_operations st) i) (not_found (lit ''browser operation not found''))) (\<lambda>op.
     if bo_scope op \<noteq> scope then (Inl (forbidden (lit ''browser ownership scope mismatch'')), st)
     else if bo_state op = StartRequested then (Inr None, st)
     else if bo_state op \<noteq> Prepared then (Inl (conflict (lit ''browser cannot start'')), st)
     else case browser_transition scope Start at op of
       (Inl e, op') \<Rightarrow> (Inl e, st\<lparr>cs_operations := hm_insert i op' (cs_operations st)\<rparr>)
     | (Inr _, op') \<Rightarrow> (Inr (Some op'), st\<lparr>cs_operations := hm_insert i op' (cs_operations st)\<rparr>))"

definition get_account_browser_operation :: "operator_id \<Rightarrow> uuid \<Rightarrow> channel_state \<Rightarrow> browser_operation option" where
  "get_account_browser_operation operator account st = active_operation operator account st"

definition browser_operation_exists :: "operator_id \<Rightarrow> uuid \<Rightarrow> channel_state \<Rightarrow> bool" where
  "browser_operation_exists operator session st \<longleftrightarrow>
     list_ex (\<lambda>op. bs_operator_id (bo_scope op) = operator \<and> bo_session_id op = session) (hm_values (cs_operations st))"

definition get_active_browser_operation :: "browser_operation_scope \<Rightarrow> uuid \<Rightarrow> channel_state \<Rightarrow> browser_operation option" where
  "get_active_browser_operation scope account st =
     find (\<lambda>op. bo_scope op = scope \<and> owns_account op account \<and> bo_state op \<noteq> Disposed) (hm_values (cs_operations st))"

definition get_browser_operation :: "browser_operation_scope \<Rightarrow> uuid \<Rightarrow> channel_state \<Rightarrow> browser_operation option" where
  "get_browser_operation scope i st = (case hm_get (cs_operations st) i of None \<Rightarrow> None
     | Some op \<Rightarrow> if bo_scope op = scope then Some op else None)"

definition list_due_browser_operations :: "instant \<Rightarrow> nat \<Rightarrow> channel_state \<Rightarrow> browser_operation list result" where
  "list_due_browser_operations at limit st =
     (if limit = 0 \<or> limit > 1000 then Inl (invalid_request (lit ''invalid browser scan limit''))
      else Inr (take limit (sort_key (\<lambda>op. (bo_next_check_at op, bo_operation_id op))
        (filter (\<lambda>op. bo_state op \<noteq> Disposed \<and> bo_next_check_at op \<le> at) (hm_values (cs_operations st))))))"

text \<open>The network a new operation is pinned to.\<close>

definition selected_binding :: "browser_network_selection \<Rightarrow> account_key \<Rightarrow> memory_account_networks \<Rightarrow>
    account_network_binding result" where
  "selected_binding selection key networks =
     rbind (ok_or (case hm_get (mn_heads networks) key of None \<Rightarrow> None
              | Some h \<Rightarrow> if nb_scope (nh_active h) = sel_scope selection then Some h else None)
              (conflict (lit ''account network is not initialized''))) (\<lambda>head.
     case sel_historical_binding_id selection of
       Some i \<Rightarrow> ok_or (hm_get (mn_bindings networks) i) (not_found (lit ''historical network binding not found''))
     | None \<Rightarrow> Inr (nh_active head))"

text \<open>The gate admits the holder of a live reservation, or anyone when there is none.\<close>

definition gate_admits :: "uuid option \<Rightarrow> account_reservation option \<Rightarrow> instant \<Rightarrow> bool" where
  "gate_admits reservation gate at = (case (reservation, gate) of
       (Some owner, Some (existing, expiry)) \<Rightarrow> owner = existing \<and> expiry > at
     | (None, None) \<Rightarrow> True
     | (None, Some (_, expiry)) \<Rightarrow> expiry \<le> at
     | (Some _, None) \<Rightarrow> False)"

definition prepare_memory_browser :: "browser_operation_scope \<Rightarrow> browser_begin \<Rightarrow> instant \<Rightarrow> channel_state \<Rightarrow>
    browser_operation result" where
  "prepare_memory_browser scope input at st =
     rbind (browser_prepare scope input at) (\<lambda>operation.
     case hm_get (cs_operations st) (bb_operation_id input) of
       Some existing \<Rightarrow>
         (case replay_network (bb_network_selection input) existing operation of
            (Inl e, _) \<Rightarrow> Inl e
          | (Inr _, operation') \<Rightarrow> if matches_begin existing operation' then Inr existing
              else Inl (conflict (lit ''browser operation differs'')))
     | None \<Rightarrow>
         let key = gate_key (bs_operator_id scope) (bb_account_id input) in
         if bb_expires_at input \<le> at then Inl (invalid_request (lit ''browser ownership deadline elapsed''))
         else if list_ex (\<lambda>op. bo_session_id op = bb_session_id input \<or>
                holds_account (bs_operator_id scope) (bb_account_id input) op) (hm_values (cs_operations st))
         then Inl (conflict (lit ''browser ownership busy''))
         else if \<not> gate_admits (bb_reservation_id input) (hm_get (cs_gates st) key) at
         then Inl (conflict (lit ''channel account preflight busy''))
         else case bb_network_selection input of
           None \<Rightarrow> Inr operation
         | Some selection \<Rightarrow>
             rbind (selected_binding selection key (cs_networks st)) (\<lambda>binding.
             case pin_network selection binding operation of (Inl e, _) \<Rightarrow> Inl e | (Inr _, operation') \<Rightarrow> Inr operation'))"

definition begin_browser_operation :: "browser_operation_scope \<Rightarrow> browser_begin \<Rightarrow> instant \<Rightarrow> channel_state \<Rightarrow>
    browser_operation result \<times> channel_state" where
  "begin_browser_operation scope input at st =
     try_in st (prepare_memory_browser scope input at st) (\<lambda>op.
       (Inr op, if hm_contains (cs_operations st) (bo_operation_id op) then st
          else st\<lparr>cs_gates := hm_insert (gate_key (bs_operator_id scope) (bb_account_id input))
                     (bo_reservation_id op, bb_expires_at input) (cs_gates st),
                  cs_operations := hm_insert (bo_operation_id op) op (cs_operations st)\<rparr>))"

section \<open>Verified logins\<close>

definition reconnect_ready :: "verified_login_storage \<Rightarrow> browser_operation_scope \<Rightarrow> instant \<Rightarrow> channel_state \<Rightarrow> unit result" where
  "reconnect_ready storage scope at st = (case vl_reconnect storage of
       None \<Rightarrow> Inr ()
     | Some r \<Rightarrow>
         let key = gate_key (bs_operator_id scope) (vl_account_id storage) in
         if \<not> (case hm_get (cs_gates st) key of None \<Rightarrow> False
               | Some (owner, expiry) \<Rightarrow> owner = vr_reservation_id r \<and> expiry > at) \<or>
            browser_busy (bs_operator_id scope) (vl_account_id storage) st
         then Inl (conflict (lit ''reconnect account is in use''))
         else if \<not> (case hm_get (mn_heads (cs_networks st)) key of None \<Rightarrow> False
               | Some h \<Rightarrow> nb_binding_id (nh_active h) = vr_network_binding_id r \<and>
                   ns_tenant_id (nb_scope (nh_active h)) = Some (ts_tenant_id (vl_secret_scope storage)) \<and>
                   ns_project_id (nb_scope (nh_active h)) = ts_project_id (vl_secret_scope storage))
         then Inl (conflict (lit ''reconnect account network changed''))
         else Inr ())"

definition save_owned_login_session :: "channel_services \<Rightarrow> browser_operation_scope \<Rightarrow> uuid \<Rightarrow>
    verified_login_storage \<Rightarrow> instant \<Rightarrow> channel_state \<Rightarrow> unit result \<times> channel_state" where
  "save_owned_login_session channels scope operation_id storage at st =
     try_in st (ok_or (hm_get (cs_operations st) operation_id) (not_found (lit ''browser operation not found''))) (\<lambda>op.
     try_in st (validate_login_commit op scope storage) (\<lambda>_.
     if \<not> (case hm_get (cs_gates st) (gate_key (bs_operator_id scope) (bo_account_id op)) of None \<Rightarrow> False
           | Some (owner, _) \<Rightarrow> owner = bo_reservation_id op)
     then (Inl (conflict (lit ''login account gate differs'')), st)
     else try_in st (reconnect_ready storage scope at st) (\<lambda>_.
     try_in st (sv_save_verified_login channels storage at) (\<lambda>_.
       (Inr (), st\<lparr>cs_gates := (if vl_reconnect storage = None then cs_gates st
                     else hm_insert (gate_key (bs_operator_id scope) (vl_account_id storage))
                            (bo_reservation_id op, bo_expires_at op) (cs_gates st)),
          cs_operations := hm_insert operation_id
            (op\<lparr>bo_login_verified_at := Some (case bo_login_verified_at op of None \<Rightarrow> at | Some t \<Rightarrow> t),
                bo_login_verified_account_id := Some (vl_account_id storage)\<rparr>) (cs_operations st)\<rparr>)))))"

section \<open>Disposal\<close>

text \<open>
  A disposed browser gives back the gates it still owns and lets a waiting network take effect.
  Its accounts are a hash set of at most two keys, released independently of each other.
\<close>

definition activate_pending :: "account_network_bindings \<Rightarrow> account_network_bindings" where
  "activate_pending head = (case nh_pending head of
       None \<Rightarrow> head\<lparr>nh_busy := False\<rparr>
     | Some b \<Rightarrow> head\<lparr>nh_active := b, nh_pending := None, nh_version := nh_version head + 1, nh_busy := False\<rparr>)"

definition release_disposed :: "operator_id \<Rightarrow> uuid \<Rightarrow> browser_operation \<Rightarrow> uuid \<Rightarrow> channel_state \<Rightarrow> channel_state" where
  "release_disposed operator i op account st =
     (let key = gate_key operator account in
      if \<not> list_ex (\<lambda>other. bo_operation_id other \<noteq> i \<and> holds_account operator account other)
            (hm_values (cs_operations st)) \<and>
         (case hm_get (cs_gates st) key of None \<Rightarrow> False | Some (owner, _) \<Rightarrow> owner = bo_reservation_id op)
      then st\<lparr>cs_gates := hm_remove key (cs_gates st),
              cs_networks := (case hm_get (mn_heads (cs_networks st)) key of
                  None \<Rightarrow> cs_networks st
                | Some head \<Rightarrow> (cs_networks st)\<lparr>mn_heads := hm_insert key (activate_pending head) (mn_heads (cs_networks st))\<rparr>)\<rparr>
      else st)"

definition owned_accounts :: "browser_operation \<Rightarrow> uuid list" where
  "owned_accounts op = remdups (bo_account_id op #
     (case bo_login_verified_account_id op of None \<Rightarrow> [] | Some a \<Rightarrow> [a]))"

definition transition_browser_operation :: "browser_operation_scope \<Rightarrow> uuid \<Rightarrow> browser_action \<Rightarrow> instant \<Rightarrow>
    channel_state \<Rightarrow> browser_operation result \<times> channel_state" where
  "transition_browser_operation scope i action at st =
     try_in st (ok_or (hm_get (cs_operations st) i) (not_found (lit ''browser operation not found''))) (\<lambda>op.
     case browser_transition scope action at op of
       (Inl e, op') \<Rightarrow> (Inl e, st\<lparr>cs_operations := hm_insert i op' (cs_operations st)\<rparr>)
     | (Inr _, op') \<Rightarrow>
         let st1 = st\<lparr>cs_operations := hm_insert i op' (cs_operations st)\<rparr> in
         (Inr op', if bo_state op \<noteq> Disposed \<and> bo_state op' = Disposed
                   then fold (release_disposed (bs_operator_id scope) i op') (owned_accounts op') st1 else st1))"

end
