(* ===== verification/Login_Repository.thy ===== *)
theory Login_Repository
  imports Browser_Repository
begin

text \<open>
  \<open>impl OperatorLoginQueueRepository for MemoryChannelJobRepository\<close>
  (\<open>crates/domain/src/accounts/operator_login_queue.rs\<close>): the repository stages a copy of a queue,
  lets the queue check and change it, and commits it together with the browser it starts.
\<close>

datatype channel_import_status = ImportNeedsLogin | ImportFailed

record channel_import_row =
  ir_row_key :: str
  ir_ordinal :: u32
  ir_account_id :: "uuid option"
  ir_status :: channel_import_status
  ir_error_code :: "str option"
  ir_masked_username :: "str option"
  ir_display_alias :: "str option"

record channel_import_record =
  ic_row :: channel_import_row
  ic_secret_id :: uuid
  ic_encrypted_input :: channel_secret

record pool_login_session =
  pl_session_id :: uuid
  pl_account_id :: uuid
  pl_created_at :: instant

text \<open>The channel repository, as the results of the calls a login queue makes.\<close>

record pool_services =
  pv_import_rows :: "operator_id \<Rightarrow> str \<Rightarrow> channel_import_record list result"
  pv_pool_account :: "operator_id \<Rightarrow> uuid \<Rightarrow> pool_account_record result"
  pv_login_sessions :: "operator_id \<Rightarrow> uuid \<Rightarrow> uuid list result"
  pv_validate_assignment :: "account_network_scope \<Rightarrow> account_network_source \<Rightarrow> unit result"
  pv_save_pool_login :: "operator_id \<Rightarrow> pool_login_session \<Rightarrow> unit result"

definition find_queue :: "login_queue_scope \<Rightarrow> uuid \<Rightarrow> channel_state \<Rightarrow> login_queue option" where
  "find_queue scope i st = (case hm_get (cs_queues st) i of None \<Rightarrow> None
     | Some q \<Rightarrow> if lq_scope q = scope then Some q else None)"

definition set_queue :: "uuid \<Rightarrow> login_queue \<Rightarrow> channel_state \<Rightarrow> channel_state" where
  "set_queue i q st = st\<lparr>cs_queues := hm_insert i q (cs_queues st)\<rparr>"

definition account_disabled :: "pool_account_record \<Rightarrow> bool" where
  "account_disabled r \<longleftrightarrow> \<not> pa_enabled (par_account r) \<or> pa_status (par_account r) = ChDisabled"

definition is_import_of :: "login_queue_selection \<Rightarrow> channel_import_record \<Rightarrow> bool" where
  "is_import_of selected r \<longleftrightarrow> ir_row_key (ic_row r) = sl_row_key selected \<and>
     ir_account_id (ic_row r) = Some (sl_account_id selected) \<and> ir_status (ic_row r) = ImportNeedsLogin"

fun check_imports :: "pool_services \<Rightarrow> operator_id \<Rightarrow> channel_import_record list \<Rightarrow> login_queue_selection list \<Rightarrow> unit result" where
  "check_imports pool operator imports [] = Inr ()"
| "check_imports pool operator imports (s # ss) =
     (if \<not> list_ex (is_import_of s) imports
      then Inl (conflict (lit ''login queue import mapping differs''))
      else rbind (pv_pool_account pool operator (sl_account_id s)) (\<lambda>account.
        if account_disabled account then Inl (conflict (lit ''login queue account disabled''))
        else check_imports pool operator imports ss))"

definition create_login_queue :: "pool_services \<Rightarrow> login_queue_scope \<Rightarrow> uuid \<Rightarrow> str \<Rightarrow> login_queue_selection list \<Rightarrow>
    instant \<Rightarrow> channel_state \<Rightarrow> login_queue result \<times> channel_state" where
  "create_login_queue pool scope queue_id import_key selections at st =
     try_in st (login_queue_new scope queue_id import_key selections at) (\<lambda>candidate.
     case hm_get (cs_queues st) queue_id of
       Some existing \<Rightarrow>
         if matches_creation existing candidate then (Inr existing, st)
         else (Inl (conflict (lit ''login queue creation differs'')), st)
     | None \<Rightarrow>
         if list_ex (\<lambda>q. lq_scope q = scope \<and> lq_status q \<noteq> QueueCompleted) (hm_values (cs_queues st))
         then (Inl (conflict (lit ''login queue already active'')), st)
         else try_in st (pv_import_rows pool (qs_operator_id scope) import_key) (\<lambda>imports.
         try_in st (check_imports pool (qs_operator_id scope) imports selections) (\<lambda>_.
           (Inr candidate, set_queue queue_id candidate st))))"

definition get_login_queue :: "login_queue_scope \<Rightarrow> uuid \<Rightarrow> channel_state \<Rightarrow> login_queue option" where
  "get_login_queue scope i st = find_queue scope i st"

definition active_login_queue :: "login_queue_scope \<Rightarrow> channel_state \<Rightarrow> login_queue option" where
  "active_login_queue scope st =
     find (\<lambda>q. lq_scope q = scope \<and> lq_status q \<noteq> QueueCompleted) (hm_values (cs_queues st))"

definition apply_login_queue_action :: "login_queue_scope \<Rightarrow> uuid \<Rightarrow> i64 \<Rightarrow> login_queue_action \<Rightarrow> instant \<Rightarrow>
    channel_state \<Rightarrow> login_queue result \<times> channel_state" where
  "apply_login_queue_action scope i expected action at st =
     try_in st (ok_or (find_queue scope i st) (not_found (lit ''login queue not found''))) (\<lambda>q.
       let op = (case queue_current q of None \<Rightarrow> None | Some item \<Rightarrow>
             (case li_operation_id item of None \<Rightarrow> None | Some o1 \<Rightarrow> hm_get (cs_operations st) o1)) in
       case queue_apply expected action op at q of
         (Inl e, _) \<Rightarrow> (Inl e, st)
       | (Inr _, staged) \<Rightarrow> (Inr staged, set_queue i staged st))"

definition retained_login :: "operator_id \<Rightarrow> channel_state \<Rightarrow> uuid \<Rightarrow> bool" where
  "retained_login operator st session \<longleftrightarrow> \<not> browser_operation_exists operator session st"

definition begin_login_queue_item :: "pool_services \<Rightarrow> login_queue_scope \<Rightarrow> uuid \<Rightarrow> i64 \<Rightarrow> uuid \<Rightarrow>
    browser_begin \<Rightarrow> instant \<Rightarrow> channel_state \<Rightarrow>
    (login_queue \<times> browser_operation) result \<times> channel_state" where
  "begin_login_queue_item pool scope i expected owner input at st =
     try_in st (ok_or (find_queue scope i st) (not_found (lit ''login queue not found''))) (\<lambda>q.
     case queue_claim expected owner input at q of
       (Inl e, _) \<Rightarrow> (Inl e, st)
     | (Inr _, staged) \<Rightarrow>
         try_in st (pv_pool_account pool (qs_operator_id scope) (bb_account_id input)) (\<lambda>account.
         if account_disabled account then (Inl (conflict (lit ''login queue account disabled'')), st)
         else try_in st (pv_login_sessions pool (qs_operator_id scope) (bb_account_id input)) (\<lambda>sessions.
         if list_ex (retained_login (qs_operator_id scope) st) sessions
         then (Inl (conflict (lit ''retained login requires browser ownership reconciliation'')), st)
         else
           let browser_scope = \<lparr>bs_operator_id = qs_operator_id scope, bs_tenant_id = None, bs_project_id = None,
                 bs_owner_id = owner\<rparr> in
           try_in st (prepare_memory_browser browser_scope input at st) (\<lambda>op.
           if hm_contains (cs_operations st) (bo_operation_id op)
           then (Inl (conflict (lit ''login queue operation already used'')), st)
           else try_in st (case bb_network_selection input of None \<Rightarrow> Inr ()
               | Some s \<Rightarrow> pv_validate_assignment pool (sel_scope s) LegacySnapshot) (\<lambda>_.
           try_in st (pv_save_pool_login pool (qs_operator_id scope)
               \<lparr>pl_session_id = bo_session_id op, pl_account_id = bo_account_id op, pl_created_at = at\<rparr>) (\<lambda>_.
             (Inr (staged, op), set_queue i staged (st\<lparr>
                cs_gates := hm_insert (gate_key (qs_operator_id scope) (bo_account_id op))
                  (bo_reservation_id op, bo_expires_at op) (cs_gates st),
                cs_operations := hm_insert (bo_operation_id op) op (cs_operations st)\<rparr>))))))))"

definition pause_login_queue_error :: "login_queue_scope \<Rightarrow> uuid \<Rightarrow> i64 \<Rightarrow> uuid option \<Rightarrow> str \<Rightarrow> instant \<Rightarrow>
    channel_state \<Rightarrow> login_queue result \<times> channel_state" where
  "pause_login_queue_error scope i expected operation_id code at st =
     try_in st (ok_or (find_queue scope i st) (not_found (lit ''login queue not found''))) (\<lambda>q.
       case queue_pause_error expected operation_id code at q of
         (Inl e, q') \<Rightarrow> (Inl e, set_queue i q' st)
       | (Inr _, q') \<Rightarrow> (Inr q', set_queue i q' st))"

end
