(* ===== verification/Channel_Machine.thy ===== *)
theory Channel_Machine
  imports Channel_Sends Login_Repository Machines
begin

text \<open>
  The operations of the channel repository as one machine, and how each of them changes the
  cycles: a step relation that the invariants are proved against.
\<close>

section \<open>Operations\<close>

datatype channel_op =
    CreatePlan tenant_scope channel_plan
  | InsertGenerated tenant_scope uuid uuid channel_target
  | CreateMeasurement tenant_scope str str standalone_measurement_plan
  | ReserveAccount tenant_scope uuid uuid instant instant
  | ReleaseAccount tenant_scope uuid uuid
  | Claim "(tenant_scope \<Rightarrow> uuid \<Rightarrow> content_distribution_request result) option" tenant_scope uuid uuid instant
  | ClaimReserved "(tenant_scope \<Rightarrow> uuid \<Rightarrow> content_distribution_request result) option" tenant_scope uuid uuid uuid instant
  | Finish tenant_scope uuid uuid channel_outcome instant
  | StoreBinding tenant_scope uuid uuid channel_secret
  | RegisterSend codecs send_services tenant_scope publication_send_registration instant
  | AuthorizeSend codecs send_services tenant_scope publication_send_request memory_media_state instant
  | ScanWithdrawals "uuid option" nat instant
  | ResolveWithdrawal codecs tenant_scope uuid
  | ClaimWithdrawal tenant_scope uuid uuid uuid instant
  | FinishWithdrawal codecs tenant_scope uuid uuid json instant
  | SetNetwork channel_services account_network_scope "i64 option" account_network_binding
      "legacy_network_bootstrap option" "network_metadata_update option"
  | SetDefaults channel_services tenant_scope "channel_settings_record option" channel_settings_record
      "project_network_binding_update list"
  | ClaimStart browser_operation_scope uuid instant
  | SaveLogin channel_services browser_operation_scope uuid verified_login_storage instant
  | BeginBrowser browser_operation_scope browser_begin instant
  | TransitionBrowser browser_operation_scope uuid browser_action instant
  | CreateQueue pool_services login_queue_scope uuid str "login_queue_selection list" instant
  | ApplyQueue login_queue_scope uuid i64 login_queue_action instant
  | BeginQueueItem pool_services login_queue_scope uuid i64 uuid browser_begin instant
  | PauseQueue login_queue_scope uuid i64 "uuid option" str instant

fun channel_exec :: "channel_state \<Rightarrow> channel_op \<Rightarrow> channel_state" where
  "channel_exec st (CreatePlan scope plan) = snd (create_plan scope plan st)"
| "channel_exec st (InsertGenerated scope cycle command target) = snd (insert_generated_target scope cycle command target st)"
| "channel_exec st (CreateMeasurement scope key hash plan) = snd (create_measurement_plan scope key hash plan st)"
| "channel_exec st (ReserveAccount scope account reservation at expires) =
     snd (reserve_account scope account reservation at expires st)"
| "channel_exec st (ReleaseAccount scope account reservation) = snd (release_account scope account reservation st)"
| "channel_exec st (Claim requests scope target attempt at) = snd (claim requests scope target attempt at st)"
| "channel_exec st (ClaimReserved requests scope target attempt reservation at) =
     snd (claim_reserved requests scope target attempt reservation at st)"
| "channel_exec st (Finish scope target attempt outcome received) = snd (finish scope target attempt outcome received st)"
| "channel_exec st (StoreBinding scope target attempt binding) = snd (store_publication_binding scope target attempt binding st)"
| "channel_exec st (RegisterSend cd services scope r now) = snd (register_publication_send cd services scope r now st)"
| "channel_exec st (AuthorizeSend cd services scope x media now) =
     snd (authorize_publication_send cd services scope x media now st)"
| "channel_exec st (ScanWithdrawals after limit now) = snd (scan_withdrawals after limit now st)"
| "channel_exec st (ResolveWithdrawal cd scope attempt) = snd (resolve_withdrawal cd scope attempt st)"
| "channel_exec st (ClaimWithdrawal scope attempt execution reservation at) =
     snd (claim_withdrawal scope attempt execution reservation at st)"
| "channel_exec st (FinishWithdrawal cd scope attempt execution evidence received) =
     snd (finish_withdrawal cd scope attempt execution evidence received st)"
| "channel_exec st (SetNetwork channels scope expected binding legacy metadata) =
     snd (set_account_network_with_metadata channels scope expected binding legacy metadata st)"
| "channel_exec st (SetDefaults channels scope expected updated updates) =
     snd (set_project_network_defaults channels scope expected updated updates st)"
| "channel_exec st (ClaimStart scope i at) = snd (claim_browser_start scope i at st)"
| "channel_exec st (SaveLogin channels scope i storage at) = snd (save_owned_login_session channels scope i storage at st)"
| "channel_exec st (BeginBrowser scope input at) = snd (begin_browser_operation scope input at st)"
| "channel_exec st (TransitionBrowser scope i action at) = snd (transition_browser_operation scope i action at st)"
| "channel_exec st (CreateQueue pool scope i import_key selections at) =
     snd (create_login_queue pool scope i import_key selections at st)"
| "channel_exec st (ApplyQueue scope i expected action at) = snd (apply_login_queue_action scope i expected action at st)"
| "channel_exec st (BeginQueueItem pool scope i expected owner input at) =
     snd (begin_login_queue_item pool scope i expected owner input at st)"
| "channel_exec st (PauseQueue scope i expected operation code at) =
     snd (pause_login_queue_error scope i expected operation code at st)"

text \<open>
  What the environment provides: the targets of a plan that is stored carry identifiers that no
  cycle of the project uses yet (they are freshly drawn; \<open>create_plan\<close> does not look).
\<close>

definition fresh_targets :: "project_key \<Rightarrow> channel_target list \<Rightarrow> channel_state \<Rightarrow> bool" where
  "fresh_targets key ts st \<longleftrightarrow> distinct (map ct_target_id ts) \<and>
     (\<forall>t\<in>set ts. \<forall>k c. hm_get (cs_cycles st) k = Some c \<and> fst k = key \<longrightarrow> cycle_target c (ct_target_id t) = None)"

fun channel_ok :: "channel_state \<Rightarrow> channel_op \<Rightarrow> bool" where
  "channel_ok st (CreatePlan scope plan) \<longleftrightarrow> snd (create_plan scope plan st) \<noteq> st \<longrightarrow>
     (\<exists>key. scope_key scope = Inr key \<and> fresh_targets key (cp_targets plan) st)"
| "channel_ok st _ \<longleftrightarrow> True"

section \<open>How an operation changes the cycles\<close>

definition cycle_at :: "channel_state \<Rightarrow> channel_scope_key \<Rightarrow> memory_cycle \<Rightarrow> bool" where
  "cycle_at st k c \<longleftrightarrow> hm_get (cs_cycles st) k = Some c"

definition cycle_or_new :: "channel_state \<Rightarrow> channel_scope_key \<Rightarrow> memory_cycle \<Rightarrow> bool" where
  "cycle_or_new st k c \<longleftrightarrow> cycle_at st k c \<or> hm_get (cs_cycles st) k = None \<and> c = empty_cycle"

definition unattempted :: "memory_cycle \<Rightarrow> uuid \<Rightarrow> bool" where
  "unattempted c i \<longleftrightarrow> (case hm_get (mc_attempts c) i of None \<Rightarrow> True | Some attempts \<Rightarrow> attempts = [])"

definition finished :: "channel_outcome \<Rightarrow> instant \<Rightarrow> channel_attempt \<Rightarrow> channel_attempt" where
  "finished o1 received a = a\<lparr>at_outcome := Some o1, at_received_at := Some received\<rparr>"

fun withdrawal_rank :: "withdrawal_state \<Rightarrow> nat" where
  "withdrawal_rank WdAwaitingPublication = 0"
| "withdrawal_rank WdReady = 1"
| "withdrawal_rank WdClaimed = 2"
| "withdrawal_rank WdUnknown = 3"
| "withdrawal_rank WdWithdrawn = 3"

inductive cycles_step :: "channel_state \<Rightarrow> (channel_scope_key, memory_cycle) hash_map \<Rightarrow> bool" for st where
  step_keep: "cycles_step st (cs_cycles st)"
| step_plan: "cycle_or_new st k c \<Longrightarrow> mc_plan c = None \<Longrightarrow> fresh_targets (fst k) (cp_targets p) st \<Longrightarrow>
    cycles_step st (hm_insert k (c\<lparr>mc_plan := Some p\<rparr>) (cs_cycles st))"
| step_generated: "cycle_or_new st k c \<Longrightarrow> fresh_targets (fst k) [t] st \<Longrightarrow>
    cycles_step st (hm_insert k (c\<lparr>mc_generated := hm_insert (ct_target_id t) t (mc_generated c)\<rparr>) (cs_cycles st))"
| step_measurement: "hm_get (cs_cycles st) k = None \<Longrightarrow> fresh_targets (fst k) (mp_targets p) st \<Longrightarrow>
    list_all (\<lambda>t. is_measure (ct_input t)) (mp_targets p) \<Longrightarrow>
    cycles_step st (hm_insert k (empty_cycle\<lparr>mc_measurement := Some p, mc_measurement_request := Some r\<rparr>) (cs_cycles st))"
| step_claim: "cycle_at st k c \<Longrightarrow> cycle_target c (ct_target_id t) = Some t \<Longrightarrow> unattempted c (ct_target_id t) \<Longrightarrow>
    (is_publication (ct_input t) \<Longrightarrow> \<not> publication_in_flight (fst (fst k)) (input_account_id (ct_input t)) st) \<Longrightarrow>
    a = \<lparr>at_attempt_id = i, at_target_id = ct_target_id t, at_claimed_at = at, at_outcome = None, at_received_at = None\<rparr> \<Longrightarrow>
    cycles_step st (hm_insert k (record_claim t a w c) (cs_cycles st))"
| step_finish: "cycle_at st k c \<Longrightarrow> cycle_target c i = Some t \<Longrightarrow> hm_get (mc_attempts c) i = Some attempts \<Longrightarrow>
    find (is_attempt j) attempts = Some a \<Longrightarrow> at_outcome a = None \<Longrightarrow>
    cycles_step st (hm_insert k (c\<lparr>mc_attempts := hm_insert i
      (update_first (is_attempt j) (finished (admitted_outcome c t j o1) received) attempts) (mc_attempts c)\<rparr>) (cs_cycles st))"
| step_binding: "cycle_at st k c \<Longrightarrow> hm_get (mc_publication_bindings c) i = None \<Longrightarrow>
    cycles_step st (hm_insert k (c\<lparr>mc_publication_bindings := hm_insert i b (mc_publication_bindings c)\<rparr>) (cs_cycles st))"
| step_register: "cycle_at st k c \<Longrightarrow> hm_get (mc_publication_send c) i = None \<Longrightarrow> sr_send_authorized_at r = None \<Longrightarrow>
    cycles_step st (hm_insert k (c\<lparr>mc_publication_send := hm_insert i r (mc_publication_send c)\<rparr>) (cs_cycles st))"
| step_authorize: "cycle_at st k c \<Longrightarrow> hm_get (mc_publication_send c) i = Some r \<Longrightarrow> sr_send_authorized_at r = None \<Longrightarrow>
    cycles_step st (hm_insert k (c\<lparr>mc_publication_send :=
      hm_insert i (r\<lparr>sr_send_authorized_at := Some now\<rparr>) (mc_publication_send c)\<rparr>) (cs_cycles st))"
| step_withdrawal: "cycle_at st k c \<Longrightarrow> hm_get (mc_withdrawals c) i = Some w \<Longrightarrow>
    w' = w \<or> withdrawal_rank (wd_state w) < withdrawal_rank (wd_state w') \<Longrightarrow>
    cycles_step st (hm_insert k (c\<lparr>mc_withdrawals := hm_insert i w' (mc_withdrawals c)\<rparr>) (cs_cycles st))"
| step_interrupt: "cycles_step st (map_vals (\<lambda>c. c\<lparr>mc_withdrawals := map_vals (interrupt_stale now) (mc_withdrawals c)\<rparr>) (cs_cycles st))"

inductive_cases cycles_stepE: "cycles_step st m"

end
