(* ===== verification/Channel_Steps.thy ===== *)
theory Channel_Steps
  imports Channel_Machine
begin

text \<open>
  The well-formedness of the cycles, that every operation is a step of \<open>cycles_step\<close>, and that the
  steps preserve it.
\<close>

section \<open>Well-formed cycles\<close>

text \<open>An attempt belongs to its target, and has a time of receipt exactly when it has an outcome.\<close>

definition attempt_ok :: "uuid \<Rightarrow> channel_attempt \<Rightarrow> bool" where
  "attempt_ok i a \<longleftrightarrow> at_target_id a = i \<and> (at_received_at a = None \<longleftrightarrow> at_outcome a = None)"

definition cycle_ok :: "memory_cycle \<Rightarrow> bool" where
  "cycle_ok c \<longleftrightarrow> hm_wf (mc_generated c) \<and> hm_keyed ct_target_id (mc_generated c) \<and>
     distinct (map ct_target_id (cycle_targets c)) \<and>
     (\<forall>i attempts. hm_get (mc_attempts c) i = Some attempts \<longrightarrow>
        cycle_target c i \<noteq> None \<and> (\<exists>a. attempts = [a] \<and> attempt_ok i a))"

definition cycles_ok :: "(channel_scope_key, memory_cycle) hash_map \<Rightarrow> bool" where
  "cycles_ok m \<longleftrightarrow> hm_wf m \<and> (\<forall>k c. hm_get m k = Some c \<longrightarrow> cycle_ok c) \<and>
     (\<forall>k c k' c' i. hm_get m k = Some c \<and> hm_get m k' = Some c' \<and> fst k = fst k' \<and>
        cycle_target c i \<noteq> None \<and> cycle_target c' i \<noteq> None \<longrightarrow> k = k')"

lemma find_append: "find p (xs @ ys) = (case find p xs of None \<Rightarrow> find p ys | Some x \<Rightarrow> Some x)"
  by (induction xs) auto

lemma find_values:
  assumes "hm_wf m" and "hm_keyed key m"
  shows "find (\<lambda>v. key v = k) (hm_values m) = hm_get m k"
proof (cases "hm_get m k")
  case None
  have "key v \<noteq> k" if "v \<in> set (hm_values m)" for v
    using that hmk.keyed_vals [OF assms] None by auto
  then show ?thesis using None by (simp add: find_None_iff)
next
  case (Some v)
  then have v: "v \<in> set (hm_values m)" "key v = k"
    using hm.lookup_in_vals [OF assms(1)] hmk.keyed_lookup [OF assms(2)] by auto
  have "x = v" if "x \<in> set (hm_values m)" "key x = k" for x
    using that hmk.keyed_vals [OF assms] Some by auto
  moreover have "find (\<lambda>v. key v = k) (hm_values m) \<noteq> None"
    using v by (auto simp: find_None_iff)
  ultimately show ?thesis
    unfolding Some using find_SomeD by fastforce
qed

lemma generated_target_find:
  assumes "hm_wf (mc_generated c)" and "hm_keyed ct_target_id (mc_generated c)"
  shows "cycle_target c i = find (\<lambda>t. ct_target_id t = i) (cycle_targets c)"
  using find_values [of "mc_generated c" ct_target_id i] assms
  by (auto simp: cycle_target_def cycle_targets_def find_append plan_target_def split: option.splits)

lemma cycle_target_find: "cycle_ok c \<Longrightarrow> cycle_target c i = find (\<lambda>t. ct_target_id t = i) (cycle_targets c)"
  by (simp add: cycle_ok_def generated_target_find)

lemma cycle_targets_iff:
  assumes "cycle_ok c"
  shows "t \<in> set (cycle_targets c) \<longleftrightarrow> cycle_target c (ct_target_id t) = Some t"
proof -
  have d: "distinct (map ct_target_id (cycle_targets c))"
    using assms by (simp add: cycle_ok_def)
  show ?thesis
    unfolding cycle_target_find [OF assms]
  proof
    assume t: "t \<in> set (cycle_targets c)"
    then obtain x where x: "find (\<lambda>t'. ct_target_id t' = ct_target_id t) (cycle_targets c) = Some x"
      by (metis (mono_tags, lifting) find_None_iff not_Some_eq)
    with find_SomeD [OF this] t d show "find (\<lambda>t'. ct_target_id t' = ct_target_id t) (cycle_targets c) = Some t"
      by (metis (mono_tags) distinct_map inj_onD)
  next
    assume "find (\<lambda>t'. ct_target_id t' = ct_target_id t) (cycle_targets c) = Some t"
    then show "t \<in> set (cycle_targets c)" using find_SomeD by fast
  qed
qed

lemma cycle_target_id: "cycle_ok c \<Longrightarrow> cycle_target c i = Some t \<Longrightarrow> ct_target_id t = i"
  using find_SomeD [of "\<lambda>t. ct_target_id t = i" "cycle_targets c" t] by (simp add: cycle_target_find)

lemma cycles_okD:
  assumes "cycles_ok (cs_cycles st)" and "cycle_at st k c"
  shows "cycle_ok c"
  using assms unfolding cycles_ok_def cycle_at_def by blast

lemma same_cycle:
  assumes "cycles_ok (cs_cycles st)" and "cycle_at st k c" and "cycle_at st k' c'" and "fst k = fst k'"
    and "cycle_target c i \<noteq> None" and "cycle_target c' i \<noteq> None"
  shows "k = k'" and "c = c'"
proof -
  show k: "k = k'" using assms unfolding cycles_ok_def cycle_at_def by metis
  then show "c = c'" using assms(2,3) by (simp add: cycle_at_def)
qed

lemma find_entry:
  assumes "hm_wf m" and "find p m = Some (k, c)"
  shows "hm_get m k = Some c \<and> p (k, c)"
  using assms find_SomeD [OF assms(2)] by (simp add: hm_wf_def hm_get_def)

lemma find_cycle_Some:
  assumes "cycles_ok (cs_cycles st)" and "find_cycle key i st = Some (k, c)"
  shows "cycle_at st k c" and "fst k = key" and "cycle_target c i \<noteq> None"
  using find_entry [of "cs_cycles st" _ k c] assms
  unfolding find_cycle_def cycles_ok_def cycle_at_def by fastforce+

lemma find_cycle_None:
  assumes "find_cycle key i st = None" and "cycle_at st k c" and "fst k = key"
  shows "cycle_target c i = None"
proof -
  have "(k, c) \<in> set (cs_cycles st)"
    using assms(2) by (simp add: cycle_at_def hm_get_def map_of_SomeD)
  then have "\<not> (\<lambda>(k, c). fst k = key \<and> cycle_target c i \<noteq> None) (k, c)"
    using assms(1) unfolding find_cycle_def find_None_iff by blast
  then show ?thesis
    using assms(3) by simp
qed

text \<open>A target found among those of a project is the target of its cycle.\<close>

lemma project_target_cycle:
  assumes "cycles_ok (cs_cycles st)" and "find (\<lambda>t. ct_target_id t = i) (project_targets key st) = Some t"
  shows "\<exists>k c. cycle_at st k c \<and> fst k = key \<and> cycle_target c i = Some t"
proof -
  have "t \<in> set (project_targets key st)" and i: "ct_target_id t = i"
    using find_SomeD [OF assms(2)] by auto
  then obtain e where e: "e \<in> set (cs_cycles st)" "t \<in> set (case e of (k, c) \<Rightarrow> if fst k = key then cycle_targets c else [])"
    unfolding project_targets_def by (auto simp del: split_paired_Ex)
  obtain k c where "e = (k, c)" by (cases e)
  with e have kc: "(k, c) \<in> set (cs_cycles st)" "fst k = key" "t \<in> set (cycle_targets c)"
    by (simp_all split: if_splits)
  then have at: "cycle_at st k c"
    using assms(1) by (simp add: cycle_at_def cycles_ok_def hm_wf_def hm_get_def)
  with kc i show ?thesis
    using cycle_targets_iff [OF cycles_okD [OF assms(1) at]] by blast
qed

lemma claimed_target:
  assumes ok: "cycles_ok (cs_cycles st)" and "find (\<lambda>t. ct_target_id t = i) (project_targets key st) = Some p"
    and "find_cycle key i st = Some (k, c)" and "cycle_target c i = Some t"
  shows "p = t"
proof -
  obtain k' c' where c': "cycle_at st k' c'" "fst k' = key" "cycle_target c' i = Some p"
    using project_target_cycle [OF ok assms(2)] by blast
  show ?thesis
    using same_cycle(2) [OF ok c'(1) find_cycle_Some(1) [OF ok assms(3)], of i] find_cycle_Some(2) [OF ok assms(3)]
      c' assms(4) by auto
qed

section \<open>Every operation is a step\<close>

definition steps :: "channel_state \<Rightarrow> 'r \<times> channel_state \<Rightarrow> bool" where
  "steps st res \<longleftrightarrow> cycles_step st (cs_cycles (snd res))"

lemma steps_keep: "cs_cycles st' = cs_cycles st \<Longrightarrow> steps st (r, st')"
  using cycles_step.step_keep [of st] by (simp add: steps_def)

lemma steps_same: "steps st (r, st)"
  by (simp add: steps_keep)

lemma steps_set: "cycles_step st (hm_insert k c (cs_cycles st)) \<Longrightarrow> steps st (r, set_cycle k c st)"
  by (simp add: steps_def set_cycle_def)

lemma steps_try: "(\<And>x. m = Inr x \<Longrightarrow> steps st (k x)) \<Longrightarrow> steps st (try_in st m k)"
  by (cases m) (simp_all add: steps_keep)

lemma steps_if: "(b \<Longrightarrow> steps st x) \<Longrightarrow> (\<not> b \<Longrightarrow> steps st y) \<Longrightarrow> steps st (if b then x else y)"
  by simp

lemma steps_create_plan:
  assumes "channel_ok st (CreatePlan scope plan)"
  shows "steps st (create_plan scope plan st)"
proof (cases "snd (create_plan scope plan st) = st")
  case True
  then show ?thesis
    by (metis prod.collapse steps_keep)
next
  case False
  then obtain key where key: "scope_key scope = Inr key" "fresh_targets key (cp_targets plan) st"
    using assms by auto
  let ?k = "(key, CycleOwner (cp_cycle_id plan))"
  let ?c = "case hm_get (cs_cycles st) ?k of None \<Rightarrow> empty_cycle | Some c \<Rightarrow> c"
  have c: "cycle_or_new st ?k ?c"
    by (simp add: cycle_or_new_def cycle_at_def split: option.split)
  show ?thesis
    unfolding create_plan_def key(1) try_in_simps Let_def
    using step_plan [OF c] key(2)
    by (auto intro!: steps_if steps_keep steps_set split: option.split)
qed

lemma steps_insert_generated: "steps st (insert_generated_target scope cycle command target st)"
proof (cases "ct_target_id target = command \<and> is_generated (ct_input target)")
  case True
  show ?thesis
    unfolding insert_generated_target_def Let_def
  proof (intro steps_if steps_try steps_keep)
    fix key assume "scope_key scope = Inr key"
    let ?k = "(key, CycleOwner cycle)"
    let ?c = "case hm_get (cs_cycles st) ?k of None \<Rightarrow> empty_cycle | Some c \<Rightarrow> c"
    have c: "cycle_or_new st ?k ?c"
      by (simp add: cycle_or_new_def cycle_at_def split: option.split)
    have "steps st (Inr target, set_cycle ?k (?c\<lparr>mc_generated := hm_insert command target (mc_generated ?c)\<rparr>) st)"
      if none: "find_cycle key command st = None"
    proof (rule steps_set)
      have "fresh_targets (fst ?k) [target] st"
        unfolding fresh_targets_def
        by (intro conjI ballI allI impI) (use True find_cycle_None [OF none, unfolded cycle_at_def] in \<open>fastforce+\<close>)
      then show "cycles_step st (hm_insert ?k (?c\<lparr>mc_generated := hm_insert command target (mc_generated ?c)\<rparr>) (cs_cycles st))"
        using step_generated [OF c] True by metis
    qed
    then show "steps st (case find_cycle key command st of
          None \<Rightarrow> (Inr target, set_cycle ?k (?c\<lparr>mc_generated := hm_insert command target (mc_generated ?c)\<rparr>) st)
        | Some (k, c) \<Rightarrow> if cycle_target c command = Some target then (Inr target, st)
            else (Inl (conflict (lit ''generated command target differs'')), st))"
      by (auto intro: steps_keep split: option.split)
  qed simp
next
  case False
  then show ?thesis
    by (auto simp: insert_generated_target_def intro: steps_keep)
qed

lemma validated_measurement:
  "validate_measurement_plan scope p = Inr u \<Longrightarrow>
    distinct (map ct_target_id (mp_targets p)) \<and> list_all (\<lambda>t. is_measure (ct_input t)) (mp_targets p)"
  by (auto simp: validate_measurement_plan_def list_all_iff list_ex_iff split: if_splits)

lemma get_in_values: "hm_get m k = Some v \<Longrightarrow> v \<in> set (hm_values m)"
  by (force simp: hm_values_def hm_get_def dest: map_of_SomeD)

lemma steps_create_measurement: "steps st (create_measurement_plan scope key hash p st)"
proof -
  have new: "steps st (r, set_cycle (project, MeasurementOwner (mp_plan_id p)) (empty_cycle\<lparr>mc_measurement := Some p,
      mc_measurement_request := Some (key, hash)\<rparr>) st)"
    if valid: "validate_measurement_plan scope p = Inr u"
      and free: "\<not> (hm_contains (cs_cycles st) (project, MeasurementOwner (mp_plan_id p)) \<or>
        list_ex (\<lambda>c. list_ex (\<lambda>t. cycle_target c (ct_target_id t) \<noteq> None) (mp_targets p)) (hm_values (cs_cycles st)))"
    for r u project
  proof (intro steps_set step_measurement)
    show "hm_get (cs_cycles st) (project, MeasurementOwner (mp_plan_id p)) = None"
      using free by (simp add: hm_contains_def)
    show "fresh_targets (fst (project, MeasurementOwner (mp_plan_id p))) (mp_targets p) st"
      using free validated_measurement [OF valid] get_in_values [of "cs_cycles st"]
      unfolding fresh_targets_def list_ex_iff by blast
    show "list_all (\<lambda>t. is_measure (ct_input t)) (mp_targets p)"
      using validated_measurement [OF valid] by simp
  qed
  show ?thesis
    unfolding create_measurement_plan_def Let_def
    by (auto intro: steps_same new split: sum.split option.split)
qed

lemma claim_empty_attempts:
  "\<not> (case hm_get m i of None \<Rightarrow> False | Some attempts \<Rightarrow> attempts \<noteq> []) \<longleftrightarrow>
   (case hm_get m i of None \<Rightarrow> True | Some attempts \<Rightarrow> attempts = [])"
  by (simp split: option.split)

lemma steps_claim:
  assumes ok: "cycles_ok (cs_cycles st)"
  shows "steps st (claim requests scope i attempt at st)"
  unfolding claim_def Let_def split_def
proof (intro steps_try steps_if steps_same)
  fix key p kc t w
  assume p: "ok_or (find (\<lambda>t. ct_target_id t = i) (project_targets key st)) (not_found (lit ''target not found'')) = Inr p"
    and flight: "\<not> (is_publication (ct_input p) \<and> publication_in_flight (fst key) (input_account_id (ct_input p)) st)"
    and kc: "ok_or (find_cycle key i st) (not_found (lit ''target not found'')) = Inr kc"
    and t: "ok_or (cycle_target (snd kc) i) (not_found (lit ''target not found'')) = Inr t"
    and fresh: "\<not> (case hm_get (mc_attempts (snd kc)) i of None \<Rightarrow> False | Some attempts \<Rightarrow> attempts \<noteq> [])"
  have found: "find_cycle key i st = Some (fst kc, snd kc)" "cycle_target (snd kc) i = Some t"
    using kc t by simp_all
  have at: "cycle_at st (fst kc) (snd kc)" and key: "fst (fst kc) = key"
    using find_cycle_Some [OF ok found(1)] by simp_all
  have id: "ct_target_id t = i"
    using cycle_target_id [OF cycles_okD [OF ok at] found(2)] .
  have pt: "p = t"
    using claimed_target [OF ok _ found] p by simp
  show "steps st (Inr (t, \<lparr>at_attempt_id = attempt, at_target_id = i, at_claimed_at = at, at_outcome = None,
      at_received_at = None\<rparr>), set_cycle (fst kc) (record_claim t \<lparr>at_attempt_id = attempt, at_target_id = i,
      at_claimed_at = at, at_outcome = None, at_received_at = None\<rparr> w (snd kc)) st)"
    by (rule steps_set, rule step_claim [OF at]) (use found id fresh flight key pt in
      \<open>simp_all add: unattempted_def claim_empty_attempts\<close>)
qed

lemma snd_claim_reserved:
  "cs_cycles (snd (claim_reserved requests scope i attempt reservation at st)) =
     cs_cycles (snd (claim requests scope i attempt at st)) \<or>
   cs_cycles (snd (claim_reserved requests scope i attempt reservation at st)) = cs_cycles st"
  by (cases "get_target scope i st"; cases "claim requests scope i attempt at st"; cases "fst (claim requests scope i attempt at st)")
    (auto simp: claim_reserved_def Let_def)

lemma steps_claim_reserved:
  assumes "cycles_ok (cs_cycles st)"
  shows "steps st (claim_reserved requests scope i attempt reservation at st)"
  using snd_claim_reserved [of requests scope i attempt reservation at st] steps_claim [OF assms]
    step_keep [of st] unfolding steps_def by metis

lemma steps_finish:
  assumes ok: "cycles_ok (cs_cycles st)"
  shows "steps st (finish scope i attempt outcome received st)"
  unfolding finish_def Let_def split_def
proof (intro steps_try)
  fix key kc t attempts a
  assume kc: "ok_or (find_cycle key i st) (not_found (lit ''target not found'')) = Inr kc"
    and t: "ok_or (cycle_target (snd kc) i) (not_found (lit ''target not found'')) = Inr t"
    and attempts: "ok_or (hm_get (mc_attempts (snd kc)) i) (not_found (lit ''attempt not found'')) = Inr attempts"
    and a: "ok_or (find (is_attempt attempt) attempts) (not_found (lit ''attempt not found'')) = Inr a"
  have at: "cycle_at st (fst kc) (snd kc)"
    using find_cycle_Some(1) [OF ok, of key i "fst kc" "snd kc"] kc by simp
  note step = step_finish [OF at, of i t attempts attempt a outcome received]
  show "steps st (case at_outcome a of
        None \<Rightarrow> (Inr \<lparr>tv_target = t, tv_attempts = update_first (is_attempt attempt)
            (\<lambda>a. a\<lparr>at_outcome := Some (admitted_outcome (snd kc) t attempt outcome), at_received_at := Some received\<rparr>) attempts\<rparr>,
          set_cycle (fst kc) ((snd kc)\<lparr>mc_attempts := hm_insert i (update_first (is_attempt attempt)
            (\<lambda>a. a\<lparr>at_outcome := Some (admitted_outcome (snd kc) t attempt outcome), at_received_at := Some received\<rparr>) attempts)
            (mc_attempts (snd kc))\<rparr>) st)
      | Some previous \<Rightarrow>
          if previous \<noteq> admitted_outcome (snd kc) t attempt outcome
          then (Inl (conflict (lit ''attempt outcome already recorded'')), st)
          else (Inr \<lparr>tv_target = t, tv_attempts = attempts\<rparr>, st))"
    using step t attempts a
    by (auto simp: finished_def [abs_def] intro: steps_same steps_set split: option.split)
qed

lemma steps_binding:
  assumes ok: "cycles_ok (cs_cycles st)"
  shows "steps st (store_publication_binding scope i attempt b st)"
  unfolding store_publication_binding_def split_def
proof (intro steps_try steps_if steps_same)
  fix key kc a
  assume kc: "ok_or (find_cycle key i st) (not_found (lit ''target not found'')) = Inr kc"
  have at: "cycle_at st (fst kc) (snd kc)"
    using find_cycle_Some(1) [OF ok, of key i "fst kc" "snd kc"] kc by simp
  show "steps st (case hm_get (mc_publication_bindings (snd kc)) attempt of
        None \<Rightarrow> if at_received_at a \<noteq> None then (Inl (conflict (lit ''publication attempt already finished'')), st)
          else (Inr (), set_cycle (fst kc) ((snd kc)\<lparr>mc_publication_bindings :=
            hm_insert attempt b (mc_publication_bindings (snd kc))\<rparr>) st)
      | Some existing \<Rightarrow> if existing = b then (Inr (), st)
          else (Inl (conflict (lit ''publication binding already recorded'')), st))"
    by (auto intro: steps_same steps_set step_binding [OF at] split: option.split)
qed

lemma steps_register:
  assumes ok: "cycles_ok (cs_cycles st)"
  shows "steps st (register_publication_send cd services scope r now st)"
  unfolding register_publication_send_def register_rich_send_def split_def
proof (intro steps_try steps_if steps_same)
  fix key kc
  assume kc: "ok_or (find_cycle key (rs_target_id r) st) (not_found (lit ''publication target not found'')) = Inr kc"
  have at: "cycle_at st (fst kc) (snd kc)"
    using find_cycle_Some(1) [OF ok, of key "rs_target_id r" "fst kc" "snd kc"] kc by simp
  fix a
  show "steps st (case hm_get (mc_publication_send (snd kc)) (rs_attempt_id r) of
        None \<Rightarrow> if \<not> registration_window r a now
          then (Inl (conflict (lit ''publication preflight deadline or session invalid'')), st)
          else (Inr (), set_cycle (fst kc) ((snd kc)\<lparr>mc_publication_send := hm_insert (rs_attempt_id r)
            \<lparr>sr_session_id = rs_runner_session_id r, sr_deadline = rs_send_not_after r,
             sr_binding_sha256 = rs_encrypted_binding_sha256 r, sr_send_authorized_at = None\<rparr>
            (mc_publication_send (snd kc))\<rparr>) st)
      | Some registered \<Rightarrow> if same_registration r registered then (Inr (), st)
          else (Inl (conflict (lit ''publication preflight already registered'')), st))"
    by (auto intro!: steps_set step_register [OF at] intro: steps_same split: option.split)
qed

lemma steps_authorize:
  assumes ok: "cycles_ok (cs_cycles st)"
  shows "steps st (authorize_publication_send cd services scope x media now st)"
proof -
  have send: "steps st (r, set_cycle k (c\<lparr>mc_publication_send := hm_insert (au_attempt_id x)
      (s\<lparr>sr_send_authorized_at := Some now\<rparr>) (mc_publication_send c)\<rparr>) st)"
    if "find_cycle key (au_target_id x) st = Some (k, c)" "hm_get (mc_publication_send c) (au_attempt_id x) = Some s"
      "sr_send_authorized_at s = None" for r k c s key
    using step_authorize [OF find_cycle_Some(1) [OF ok that(1)] that(2,3)] by (rule steps_set)
  have "steps st (authorize_rich_send cd scope x b verified now st)" for b verified
    unfolding authorize_rich_send_def Let_def
    by (auto intro: steps_same send split: sum.split option.split)
  then show ?thesis
    unfolding authorize_publication_send_def by (auto intro: steps_same split: sum.split)
qed

section \<open>Withdrawals move forward\<close>

definition forward :: "publication_withdrawal \<Rightarrow> publication_withdrawal \<Rightarrow> bool" where
  "forward w w' \<longleftrightarrow> w' = w \<or> withdrawal_rank (wd_state w) < withdrawal_rank (wd_state w')"

lemma ready_withdrawal_state:
  "ready_withdrawal cd g a o1 received w = w \<or> wd_state (ready_withdrawal cd g a o1 received w) = WdReady"
  unfolding ready_withdrawal_def Let_def by (simp only: split: list.split option.split if_split) simp

lemma forward_ready: "wd_state w = WdAwaitingPublication \<Longrightarrow> forward w (ready_withdrawal cd g a o1 received w)"
  using ready_withdrawal_state [of cd g a o1 received w] by (auto simp: forward_def)

lemma forward_refl: "forward w w"
  by (simp add: forward_def)

lemma forward_if: "forward w (snd x) \<Longrightarrow> forward w (snd y) \<Longrightarrow> forward w (snd (if b then x else y))"
  by simp

lemma forward_option:
  "forward w (snd x) \<Longrightarrow> (\<And>v. forward w (snd (f v))) \<Longrightarrow> forward w (snd (case o1 of None \<Rightarrow> x | Some v \<Rightarrow> f v))"
  by (cases o1) simp_all

lemma forward_resolve: "forward w (snd (resolve_publication_withdrawal cd t a w))"
proof (cases "wd_state w = WdAwaitingPublication")
  case True
  show ?thesis
    unfolding resolve_publication_withdrawal_def
    by (cases "ct_input t"; simp only: channel_target_input.case prod.case;
        intro forward_if forward_option) (simp_all only: snd_conv forward_ready [OF True] forward_refl)
qed (simp add: resolve_publication_withdrawal_def forward_refl)

lemma steps_result:
  assumes "steps st ((), f (snd res))"
  shows "steps st (case res of (Inl e, w) \<Rightarrow> (Inl e, f w) | (Inr _, w) \<Rightarrow> (Inr w, f w))"
  using assms by (cases res; cases "fst res") (auto simp: steps_def)

lemma forward_finish: "forward w (snd (finish_publication_withdrawal cd execution evidence received w))"
proof (cases "wd_state w = WdClaimed")
  case True
  then show ?thesis
    unfolding finish_publication_withdrawal_def by (intro forward_if; simp add: forward_def)
qed (simp add: finish_publication_withdrawal_def forward_refl)

lemma find_withdrawal_Some:
  assumes "cycles_ok (cs_cycles st)" and "find_withdrawal key i st = Some (k, c, w)"
  shows "cycle_at st k c" and "hm_get (mc_withdrawals c) i = Some w" and "fst k = key"
proof -
  obtain e where e: "find (\<lambda>(k, c). fst k = key \<and> hm_get (mc_withdrawals c) i \<noteq> None) (cs_cycles st) = Some e"
      "e = (k, c)" "hm_get (mc_withdrawals c) i = Some w"
    using assms(2) by (auto simp: find_withdrawal_def split: option.splits)
  then show "cycle_at st k c" and "hm_get (mc_withdrawals c) i = Some w" and "fst k = key"
    using find_entry [of "cs_cycles st" _ k c] assms(1) by (auto simp: cycle_at_def cycles_ok_def)
qed

lemma steps_set_withdrawal:
  assumes "cycles_ok (cs_cycles st)" and "find_withdrawal key i st = Some (k, c, w)" and "forward w w'"
  shows "steps st (r, set_withdrawal k c i w' st)"
  unfolding set_withdrawal_def
  using find_withdrawal_Some [OF assms(1,2)] assms(3)
  by (auto simp: forward_def intro: steps_set step_withdrawal)

lemma steps_resolve:
  assumes ok: "cycles_ok (cs_cycles st)"
  shows "steps st (resolve_withdrawal cd scope i st)"
proof -
  have "steps st (case resolve_publication_withdrawal cd t a w of
      (Inl e, row) \<Rightarrow> (Inl e, set_withdrawal k c i row st) | (Inr _, row) \<Rightarrow> (Inr row, set_withdrawal k c i row st))"
    if "find_withdrawal key i st = Some (k, c, w)" for t a w k c key
    by (rule steps_result) (rule steps_set_withdrawal [OF ok that forward_resolve])
  then show ?thesis
    unfolding resolve_withdrawal_def by (auto intro!: steps_try)
qed

lemma steps_claim_withdrawal:
  assumes ok: "cycles_ok (cs_cycles st)"
  shows "steps st (claim_withdrawal scope i execution reservation at st)"
  unfolding claim_withdrawal_def
  by (auto intro!: steps_try steps_set_withdrawal [OF ok] simp: Let_def steps_same forward_def)

lemma steps_finish_withdrawal:
  assumes ok: "cycles_ok (cs_cycles st)"
  shows "steps st (finish_withdrawal cd scope i execution evidence received st)"
proof -
  have "steps st (case finish_publication_withdrawal cd execution evidence received w of
      (Inl e, row) \<Rightarrow> (Inl e, set_withdrawal k c i row st) | (Inr _, row) \<Rightarrow> (Inr row, set_withdrawal k c i row st))"
    if "find_withdrawal key i st = Some (k, c, w)" for w k c key
    by (rule steps_result) (rule steps_set_withdrawal [OF ok that forward_finish])
  then show ?thesis
    unfolding finish_withdrawal_def by (auto intro!: steps_try)
qed

lemma steps_scan: "steps st (scan_withdrawals after limit now st)"
  unfolding scan_withdrawals_def Let_def
  by (rule steps_if [OF steps_same]) (simp add: steps_def step_interrupt)

section \<open>Operations that leave the cycles alone\<close>

lemma cycles_release_disposed: "cs_cycles (fold (release_disposed o1 i op) accounts st) = cs_cycles st"
  by (induction accounts arbitrary: st) (simp_all add: release_disposed_def Let_def)

lemma steps_transition: "steps st (transition_browser_operation scope i action at st)"
  unfolding transition_browser_operation_def Let_def
  by (auto intro!: steps_try steps_keep simp: cycles_release_disposed split: prod.split sum.split)

lemma steps_accounts:
  "steps st (reserve_account scope account reservation at expires st)"
  "steps st (release_account scope account reservation st)"
  unfolding reserve_account_def release_account_def Let_def
  by (auto intro!: steps_try steps_keep)

lemma steps_networks:
  "steps st (set_account_network_with_metadata channels ns expected binding legacy metadata st)"
  "steps st (set_project_network_defaults channels scope before updated updates st)"
  unfolding set_account_network_with_metadata_def set_project_network_defaults_def Let_def
  by (auto intro!: steps_try steps_keep split: prod.split sum.split)

lemma steps_browsers:
  "steps st (claim_browser_start bscope i at st)"
  "steps st (save_owned_login_session channels bscope i storage at st)"
  "steps st (begin_browser_operation bscope input at st)"
  unfolding claim_browser_start_def save_owned_login_session_def begin_browser_operation_def
  by (auto intro!: steps_try steps_keep split: prod.split sum.split)

lemma steps_queues:
  "steps st (create_login_queue pool qscope i import_key selections at st)"
  "steps st (apply_login_queue_action qscope i expected action at st)"
  "steps st (begin_login_queue_item pool qscope i expected owner input at st)"
  "steps st (pause_login_queue_error qscope i expected operation code at st)"
  unfolding create_login_queue_def apply_login_queue_action_def begin_login_queue_item_def
    pause_login_queue_error_def set_queue_def Let_def
  by (auto intro!: steps_try steps_keep split: prod.split sum.split option.split)

lemmas steps_facts = steps_insert_generated steps_create_measurement steps_claim steps_claim_reserved steps_finish
  steps_binding steps_register steps_authorize steps_resolve steps_claim_withdrawal steps_finish_withdrawal steps_scan
  steps_transition steps_accounts steps_networks steps_browsers steps_queues

theorem channel_exec_step:
  assumes "cycles_ok (cs_cycles st)" and "channel_ok st op"
  shows "cycles_step st (cs_cycles (channel_exec st op))"
proof (cases op)
  case (CreatePlan scope plan)
  then show ?thesis
    using steps_create_plan [of st scope plan] assms(2) unfolding steps_def by simp
qed (use assms(1) in \<open>simp_all only: channel_exec.simps steps_facts [unfolded steps_def]\<close>)

end
