(* ===== verification/Channel_Invariant.thy ===== *)
theory Channel_Invariant
  imports Channel_Steps "HOL-Library.Code_Target_Nat"
begin

text \<open>
  What a step of the cycles preserves: their well-formedness, and the targets, attempts, outcomes,
  bindings and authorizations that are already there.
\<close>

declare split_paired_All [simp del] and split_paired_Ex [simp del]

section \<open>Identifiers\<close>

definition target_ids :: "memory_cycle \<Rightarrow> uuid list" where
  "target_ids c = map ct_target_id (cycle_targets c)"

definition generated_ok :: "memory_cycle \<Rightarrow> bool" where
  "generated_ok c \<longleftrightarrow> hm_wf (mc_generated c) \<and> hm_keyed ct_target_id (mc_generated c)"

definition attempts_ok :: "memory_cycle \<Rightarrow> bool" where
  "attempts_ok c \<longleftrightarrow> (\<forall>i attempts. hm_get (mc_attempts c) i = Some attempts \<longrightarrow>
     i \<in> set (target_ids c) \<and> (\<exists>a. attempts = [a] \<and> attempt_ok i a))"

lemma knows_iff: "generated_ok c \<Longrightarrow> cycle_target c i \<noteq> None \<longleftrightarrow> i \<in> set (target_ids c)"
  by (auto simp: generated_ok_def generated_target_find target_ids_def find_None_iff)

lemma cycle_ok_alt: "cycle_ok c \<longleftrightarrow> generated_ok c \<and> distinct (target_ids c) \<and> attempts_ok c"
proof (cases "generated_ok c")
  case True
  then show ?thesis
    using knows_iff [OF True]
    unfolding cycle_ok_def attempts_ok_def target_ids_def generated_ok_def by blast
qed (auto simp: cycle_ok_def generated_ok_def)

lemma cycle_okI: "generated_ok c \<Longrightarrow> distinct (target_ids c) \<Longrightarrow> attempts_ok c \<Longrightarrow> cycle_ok c"
  by (simp add: cycle_ok_alt)

lemma empty_cycle_ok: "cycle_ok empty_cycle"
  by (simp add: cycle_ok_alt empty_cycle_def generated_ok_def attempts_ok_def target_ids_def cycle_targets_def
      hm_values_def hmk.keyed_empty)

lemma empty_cycle_ids: "target_ids empty_cycle = []"
  by (simp add: empty_cycle_def target_ids_def cycle_targets_def hm_values_def)

lemma cycle_or_new_ok: "cycles_ok (cs_cycles st) \<Longrightarrow> cycle_or_new st k c \<Longrightarrow> cycle_ok c"
  using cycles_okD [of st k c] empty_cycle_ok by (auto simp: cycle_or_new_def)

lemma freshD:
  assumes "fresh_targets key ts st" and "t \<in> set ts" and "cycle_at st k c" and "fst k = key"
  shows "cycle_target c (ct_target_id t) = None"
  using assms by (simp add: fresh_targets_def cycle_at_def)

lemma fresh_ids:
  assumes "cycles_ok (cs_cycles st)" and "fresh_targets (fst k) ts st" and "cycle_or_new st k c"
  shows "set (map ct_target_id ts) \<inter> set (target_ids c) = {}"
proof (cases "cycle_at st k c")
  case True
  have "ct_target_id t \<notin> set (target_ids c)" if "t \<in> set ts" for t
    using freshD [OF assms(2) that True refl] cycles_okD [OF assms(1) True] knows_iff [of c "ct_target_id t"]
    by (simp add: cycle_ok_alt)
  then show ?thesis by auto
next
  case False
  then show ?thesis
    using assms(3) by (simp add: cycle_or_new_def empty_cycle_ids)
qed

section \<open>Inserting a cycle\<close>

lemma cycles_ok_insert:
  assumes ok: "cycles_ok (cs_cycles st)" and c': "cycle_ok c'"
    and ids: "\<And>i. i \<in> set (target_ids c') \<Longrightarrow>
      (\<exists>c. cycle_at st k c \<and> i \<in> set (target_ids c)) \<or>
      (\<forall>k' c. cycle_at st k' c \<and> fst k' = fst k \<longrightarrow> cycle_target c i = None)"
  shows "cycles_ok (hm_insert k c' (cs_cycles st))"
proof -
  have shared: "k = k'" if at: "cycle_at st k' d" and kk: "fst k = fst k'" and i: "cycle_target c' i \<noteq> None"
      and d: "cycle_target d i \<noteq> None" for k' d i
  proof -
    have "i \<in> set (target_ids c')"
      using i c' knows_iff unfolding cycle_ok_alt by blast
    then obtain c where c: "cycle_at st k c" "i \<in> set (target_ids c)"
      using ids at kk d by (metis)
    then have "cycle_target c i \<noteq> None"
      using cycles_okD [OF ok c(1)] knows_iff unfolding cycle_ok_alt by blast
    then show "k = k'"
      using same_cycle(1) [OF ok c(1) at kk] d by blast
  qed
  show ?thesis
    unfolding cycles_ok_def
  proof (intro conjI allI impI)
    show "hm_wf (hm_insert k c' (cs_cycles st))"
      using ok by (simp add: cycles_ok_def hm.wf_insert)
  next
    fix k1 d1
    assume "hm_get (hm_insert k c' (cs_cycles st)) k1 = Some d1"
    then show "cycle_ok d1"
      using c' cycles_okD [OF ok, of k1 d1] by (auto simp: cycle_at_def split: if_splits)
  next
    fix k1 d1 k2 d2 i
    assume a: "hm_get (hm_insert k c' (cs_cycles st)) k1 = Some d1 \<and> hm_get (hm_insert k c' (cs_cycles st)) k2 = Some d2 \<and>
      fst k1 = fst k2 \<and> cycle_target d1 i \<noteq> None \<and> cycle_target d2 i \<noteq> None"
    consider "k1 = k" "k2 = k" | "k1 = k" "d1 = c'" "cycle_at st k2 d2" | "k2 = k" "d2 = c'" "cycle_at st k1 d1"
      | "cycle_at st k1 d1" "cycle_at st k2 d2"
      using a unfolding cycle_at_def hm.lookup_insert by (metis option.inject)
    then show "k1 = k2"
    proof cases
      case 2
      then show ?thesis using shared [of k2 d2 i] a by blast
    next
      case 3
      then show ?thesis using shared [of k1 d1 i] a by metis
    next
      case 4
      then show ?thesis using same_cycle(1) [OF ok, of k1 d1 k2 d2 i] a by blast
    qed simp
  qed
qed

lemma cycles_ok_update:
  assumes ok: "cycles_ok (cs_cycles st)" and at: "cycle_at st k c" and c': "cycle_ok c'"
    and ids: "set (target_ids c') \<subseteq> set (target_ids c)"
  shows "cycles_ok (hm_insert k c' (cs_cycles st))"
  using cycles_ok_insert [OF ok c'] at ids by blast

lemma cycles_ok_extend:
  assumes ok: "cycles_ok (cs_cycles st)" and c: "cycle_or_new st k c" and c': "cycle_ok c'"
    and fresh: "fresh_targets (fst k) ts st"
    and ids: "set (target_ids c') = set (target_ids c) \<union> set (map ct_target_id ts)"
  shows "cycles_ok (hm_insert k c' (cs_cycles st))"
proof (rule cycles_ok_insert [OF ok c'])
  fix i assume "i \<in> set (target_ids c')"
  then consider "i \<in> set (target_ids c)" | t where "t \<in> set ts" "i = ct_target_id t"
    using ids by auto
  then show "(\<exists>c. cycle_at st k c \<and> i \<in> set (target_ids c)) \<or>
      (\<forall>k' c. cycle_at st k' c \<and> fst k' = fst k \<longrightarrow> cycle_target c i = None)"
  proof cases
    case 1
    then have "cycle_at st k c"
      using c empty_cycle_ids by (auto simp: cycle_or_new_def)
    then show ?thesis using 1 by blast
  next
    case 2
    then have "cycle_target c i = None" if "cycle_at st k' c" "fst k' = fst k" for k' c
      using freshD [OF fresh 2(1) that] 2(2) by simp
    then show ?thesis by blast
  qed
qed

section \<open>Updates that keep the targets\<close>

lemma cycle_target_updates [simp]:
  "cycle_target (c\<lparr>mc_attempts := m1\<rparr>) i = cycle_target c i"
  "cycle_target (c\<lparr>mc_withdrawals := m2\<rparr>) i = cycle_target c i"
  "cycle_target (c\<lparr>mc_publication_bindings := m3\<rparr>) i = cycle_target c i"
  "cycle_target (c\<lparr>mc_publication_send := m4\<rparr>) i = cycle_target c i"
  by (simp_all add: cycle_target_def cong: option.case_cong)

lemma cycle_targets_updates [simp]:
  "cycle_targets (c\<lparr>mc_attempts := m1\<rparr>) = cycle_targets c"
  "cycle_targets (c\<lparr>mc_withdrawals := m2\<rparr>) = cycle_targets c"
  "cycle_targets (c\<lparr>mc_publication_bindings := m3\<rparr>) = cycle_targets c"
  "cycle_targets (c\<lparr>mc_publication_send := m4\<rparr>) = cycle_targets c"
  by (simp_all add: cycle_targets_def cong: option.case_cong)

lemma cycle_ok_frame:
  assumes "cycle_ok c" and "mc_plan c' = mc_plan c" and "mc_measurement c' = mc_measurement c"
    and "mc_generated c' = mc_generated c" and "attempts_ok c'"
  shows "cycle_ok c'" and "target_ids c' = target_ids c"
proof -
  show t: "target_ids c' = target_ids c"
    using assms(2-4) by (simp add: target_ids_def cycle_targets_def)
  show "cycle_ok c'"
    using assms t by (simp add: cycle_ok_alt generated_ok_def)
qed

lemma cycles_ok_frame:
  assumes ok: "cycles_ok (cs_cycles st)" and at: "cycle_at st k c"
    and "mc_plan c' = mc_plan c" and "mc_measurement c' = mc_measurement c"
    and "mc_generated c' = mc_generated c" and "attempts_ok c'"
  shows "cycles_ok (hm_insert k c' (cs_cycles st))"
  by (rule cycles_ok_update [OF ok at]) (simp_all only: cycle_ok_frame [OF cycles_okD [OF ok at] assms(3-6)] subset_refl)

lemma attempts_ok_same:
  assumes "cycle_ok c" and "mc_attempts c' = mc_attempts c" and "target_ids c' = target_ids c"
  shows "attempts_ok c'"
  using assms by (simp add: cycle_ok_alt attempts_ok_def)

lemma attempts_ok_insert:
  assumes "cycle_ok c" and "i \<in> set (target_ids c)" and "attempt_ok i a"
  shows "attempts_ok (c\<lparr>mc_attempts := hm_insert i [a] (mc_attempts c)\<rparr>)"
  using assms unfolding cycle_ok_alt attempts_ok_def target_ids_def cycle_targets_updates by simp

text \<open>The single attempt of a target, and what the claim of an unattempted one stores.\<close>

lemma single_attempt:
  assumes "cycle_ok c" and "hm_get (mc_attempts c) i = Some attempts"
  shows "\<exists>a. attempts = [a] \<and> attempt_ok i a" and "i \<in> set (target_ids c)"
  using assms unfolding cycle_ok_alt attempts_ok_def by blast+

lemma unattempted_none: "cycle_ok c \<Longrightarrow> unattempted c i \<longleftrightarrow> hm_get (mc_attempts c) i = None"
  using single_attempt(1) [of c i] by (auto simp: unattempted_def split: option.splits)

lemma record_claim_attempts:
  assumes "cycle_ok c" and "unattempted c (ct_target_id t)"
  shows "mc_attempts (record_claim t a w c) = hm_insert (ct_target_id t) [a] (mc_attempts c)"
  using assms(2) unattempted_none [OF assms(1)] by (simp add: record_claim_def Let_def split: option.split)

lemma record_claim_frame [simp]:
  "mc_plan (record_claim t a w c) = mc_plan c" "mc_measurement (record_claim t a w c) = mc_measurement c"
  "mc_generated (record_claim t a w c) = mc_generated c"
  "mc_publication_send (record_claim t a w c) = mc_publication_send c"
  "mc_publication_bindings (record_claim t a w c) = mc_publication_bindings c"
  by (simp_all add: record_claim_def Let_def split: option.split)

lemma finished_single:
  assumes "cycle_ok c" and "hm_get (mc_attempts c) i = Some attempts" and "find (is_attempt j) attempts = Some a"
  shows "attempts = [a]" and "is_attempt j a" and "update_first (is_attempt j) f attempts = [f a]"
  using single_attempt(1) [OF assms(1,2)] assms(3) by (auto split: if_splits)

section \<open>New targets\<close>

lemma hm_values_insert_new: "hm_get m k = None \<Longrightarrow> hm_values (hm_insert k v m) = hm_values m @ [v]"
  by (induction m) (auto simp: hm_values_def hm_get_def hm_insert_def split: if_splits)

lemma knows_none: "cycle_ok c \<Longrightarrow> i \<notin> set (target_ids c) \<Longrightarrow> cycle_target c i = None"
  using knows_iff [of c i] by (auto simp: cycle_ok_alt)

lemma attempts_ok_mono:
  assumes "cycle_ok c" and "mc_attempts c' = mc_attempts c" and "set (target_ids c) \<subseteq> set (target_ids c')"
  shows "attempts_ok c'"
  using assms unfolding cycle_ok_alt attempts_ok_def by auto

lemma plan_ids:
  assumes "mc_plan c = None"
  shows "set (target_ids (c\<lparr>mc_plan := Some p\<rparr>)) = set (target_ids c) \<union> set (map ct_target_id (cp_targets p))"
    and "distinct (target_ids (c\<lparr>mc_plan := Some p\<rparr>)) \<longleftrightarrow> distinct (target_ids c) \<and>
      distinct (map ct_target_id (cp_targets p)) \<and> set (map ct_target_id (cp_targets p)) \<inter> set (target_ids c) = {}"
  using assms by (auto simp: target_ids_def cycle_targets_def split: option.split)

lemma plan_cycle_ok:
  assumes "cycle_ok c" and "mc_plan c = None" and "distinct (map ct_target_id (cp_targets p))"
    and "set (map ct_target_id (cp_targets p)) \<inter> set (target_ids c) = {}"
  shows "cycle_ok (c\<lparr>mc_plan := Some p\<rparr>)"
proof (rule cycle_okI)
  show "attempts_ok (c\<lparr>mc_plan := Some p\<rparr>)"
    using plan_ids(1) [OF assms(2)] by (intro attempts_ok_mono [OF assms(1)]) auto
qed (use assms plan_ids(2) [OF assms(2)] in \<open>simp_all add: cycle_ok_alt generated_ok_def\<close>)

lemma generated_ids:
  assumes "hm_get (mc_generated c) (ct_target_id t) = None"
  shows "set (target_ids (c\<lparr>mc_generated := hm_insert (ct_target_id t) t (mc_generated c)\<rparr>)) =
      set (target_ids c) \<union> set (map ct_target_id [t])"
    and "distinct (target_ids (c\<lparr>mc_generated := hm_insert (ct_target_id t) t (mc_generated c)\<rparr>)) \<longleftrightarrow>
      distinct (target_ids c) \<and> ct_target_id t \<notin> set (target_ids c)"
  using hm_values_insert_new [OF assms, of t] by (auto simp: target_ids_def cycle_targets_def)

lemma generated_none:
  assumes "cycle_ok c" and "i \<notin> set (target_ids c)"
  shows "hm_get (mc_generated c) i = None"
  using knows_none [OF assms] by (auto simp: cycle_target_def split: option.splits)

lemma generated_cycle_ok:
  assumes "cycle_ok c" and "ct_target_id t \<notin> set (target_ids c)"
  shows "cycle_ok (c\<lparr>mc_generated := hm_insert (ct_target_id t) t (mc_generated c)\<rparr>)"
proof (rule cycle_okI)
  note ids = generated_ids [OF generated_none [OF assms]]
  show "attempts_ok (c\<lparr>mc_generated := hm_insert (ct_target_id t) t (mc_generated c)\<rparr>)"
    using ids(1) by (intro attempts_ok_mono [OF assms(1)]) auto
  show "distinct (target_ids (c\<lparr>mc_generated := hm_insert (ct_target_id t) t (mc_generated c)\<rparr>))"
    using ids(2) assms by (simp add: cycle_ok_alt)
  show "generated_ok (c\<lparr>mc_generated := hm_insert (ct_target_id t) t (mc_generated c)\<rparr>)"
    using assms(1) by (simp add: cycle_ok_alt generated_ok_def hm.wf_insert hmk.keyed_insert)
qed

lemma measurement_ids:
  "target_ids (empty_cycle\<lparr>mc_measurement := Some p, mc_measurement_request := r\<rparr>) = map ct_target_id (mp_targets p)"
  by (simp add: target_ids_def cycle_targets_def empty_cycle_def hm_values_def)

lemma measurement_cycle_ok:
  assumes "distinct (map ct_target_id (mp_targets p))"
  shows "cycle_ok (empty_cycle\<lparr>mc_measurement := Some p, mc_measurement_request := r\<rparr>)"
  using assms measurement_ids [of r p] empty_cycle_ok
  by (simp add: cycle_ok_alt attempts_ok_def generated_ok_def empty_cycle_def)

end
