(* ===== verification/Channel_Evolution.thy ===== *)
theory Channel_Evolution
  imports Channel_Invariant
begin

text \<open>
  The invariant of the channel repository over every operation, and what an operation never takes
  back: targets, attempts, recorded outcomes, bindings and authorizations.
\<close>

section \<open>The invariant\<close>

lemma map_vals_get: "hm_get (map_vals f m) k = map_option f (hm_get m k)"
  by (simp add: map_vals_def hm_get_def map_of_map)

lemma map_vals_wf: "hm_wf (map_vals f m) \<longleftrightarrow> hm_wf m"
  by (simp add: hm_wf_def map_vals_def comp_def split_def)

lemma cycles_ok_map_vals:
  assumes ok: "cycles_ok m" and f: "\<And>c. cycle_ok c \<Longrightarrow> cycle_ok (f c)"
    and t: "\<And>c i. cycle_target (f c) i = cycle_target c i"
  shows "cycles_ok (map_vals f m)"
  unfolding cycles_ok_def map_vals_wf map_vals_get
proof (intro conjI allI impI)
  show "hm_wf m" using ok by (simp add: cycles_ok_def)
next
  fix k c assume "map_option f (hm_get m k) = Some c"
  then show "cycle_ok c" using ok f by (auto simp: cycles_ok_def)
next
  fix k c k' c' i
  assume "map_option f (hm_get m k) = Some c \<and> map_option f (hm_get m k') = Some c' \<and> fst k = fst k' \<and>
    cycle_target c i \<noteq> None \<and> cycle_target c' i \<noteq> None"
  then obtain d d' where "hm_get m k = Some d" "hm_get m k' = Some d'" "fst k = fst k'"
      "cycle_target d i \<noteq> None" "cycle_target d' i \<noteq> None"
    using t by auto
  then show "k = k'" using ok unfolding cycles_ok_def by blast
qed

theorem cycles_ok_step:
  assumes "cycles_step st m" and ok: "cycles_ok (cs_cycles st)"
  shows "cycles_ok m"
  using assms(1)
proof (cases rule: cycles_step.cases)
  case (step_plan k c p)
  have c: "cycle_ok c" using cycle_or_new_ok [OF ok step_plan(2)] .
  show ?thesis
    unfolding step_plan(1) using step_plan fresh_ids [OF ok step_plan(4,2)] plan_ids(1) [OF step_plan(3)]
    by (intro cycles_ok_extend [OF ok step_plan(2) _ step_plan(4)] plan_cycle_ok [OF c step_plan(3)]) (auto simp: fresh_targets_def)
next
  case (step_generated k c t)
  have c: "cycle_ok c" using cycle_or_new_ok [OF ok step_generated(2)] .
  have new: "ct_target_id t \<notin> set (target_ids c)" using fresh_ids [OF ok step_generated(3,2)] by simp
  show ?thesis
    unfolding step_generated(1)
    by (rule cycles_ok_extend [OF ok step_generated(2) generated_cycle_ok [OF c new] step_generated(3) generated_ids(1) [OF generated_none [OF c new]]])
next
  case (step_measurement k p r)
  have c: "cycle_or_new st k empty_cycle" using step_measurement(2) by (simp add: cycle_or_new_def)
  have d: "distinct (map ct_target_id (mp_targets p))" using step_measurement(3) by (simp add: fresh_targets_def)
  show ?thesis
    unfolding step_measurement(1)
    by (rule cycles_ok_extend [OF ok c measurement_cycle_ok [OF d] step_measurement(3)]) (simp add: measurement_ids empty_cycle_ids)
next
  case (step_claim k c t a i at w)
  have c: "cycle_ok c" using cycles_okD [OF ok step_claim(2)] .
  have "ct_target_id t \<in> set (target_ids c)" using step_claim(3) knows_iff [of c "ct_target_id t"] c by (auto simp: cycle_ok_alt)
  then have "attempts_ok (c\<lparr>mc_attempts := hm_insert (ct_target_id t) [a] (mc_attempts c)\<rparr>)"
    using step_claim(6) by (intro attempts_ok_insert [OF c]) (simp_all add: attempt_ok_def)
  then have "attempts_ok (record_claim t a w c)"
    using record_claim_attempts [OF c step_claim(4)] by (simp add: attempts_ok_def target_ids_def cycle_targets_def)
  then show ?thesis
    unfolding step_claim(1) by (intro cycles_ok_frame [OF ok step_claim(2)]) simp_all
next
  case (step_finish k c i t attempts j a o1 received)
  have c: "cycle_ok c" using cycles_okD [OF ok step_finish(2)] .
  note single = finished_single [OF c step_finish(4,5)]
  have "attempts_ok (c\<lparr>mc_attempts := hm_insert i [finished (admitted_outcome c t j o1) received a] (mc_attempts c)\<rparr>)"
    using single_attempt [OF c step_finish(4)] single(1)
    by (intro attempts_ok_insert [OF c]) (auto simp: attempt_ok_def finished_def)
  then show ?thesis
    unfolding step_finish(1) single(3) by (intro cycles_ok_frame [OF ok step_finish(2)]) simp_all
qed (use ok in \<open>auto intro!: cycles_ok_frame [OF ok] cycles_ok_map_vals
      intro: attempts_ok_same [OF cycles_okD [OF ok]] cycle_ok_frame(1) simp: target_ids_def attempts_ok_def cycle_ok_alt\<close>)

definition channel_inv :: "channel_state \<Rightarrow> bool" where
  "channel_inv st \<longleftrightarrow> cycles_ok (cs_cycles st)"

interpretation channel: invariant_machine channel_exec channel_ok channel_inv
proof unfold_locales
  fix st op
  assume "channel_inv st" and "channel_ok st op"
  then show "channel_inv (channel_exec st op)"
    using cycles_ok_step [OF channel_exec_step] by (simp add: channel_inv_def)
qed

lemma channel_inv_empty: "channel_inv channel_empty"
  by (simp add: channel_inv_def channel_empty_def cycles_ok_def)

section \<open>What is never taken back\<close>

definition attempt_le :: "channel_attempt \<Rightarrow> channel_attempt \<Rightarrow> bool" where
  "attempt_le a b \<longleftrightarrow> b = a \<or> (at_outcome a = None \<and> (\<exists>o1 received. b = finished o1 received a))"

definition send_le :: "memory_send_registration \<Rightarrow> memory_send_registration \<Rightarrow> bool" where
  "send_le r s \<longleftrightarrow> s = r \<or> (sr_send_authorized_at r = None \<and> (\<exists>now. s = r\<lparr>sr_send_authorized_at := Some now\<rparr>))"

definition cycle_le :: "memory_cycle \<Rightarrow> memory_cycle \<Rightarrow> bool" where
  "cycle_le c d \<longleftrightarrow> (\<forall>i t. cycle_target c i = Some t \<longrightarrow> cycle_target d i = Some t) \<and>
     grows (list_all2 attempt_le) (mc_attempts c) (mc_attempts d) \<and>
     grows send_le (mc_publication_send c) (mc_publication_send d) \<and>
     grows (=) (mc_publication_bindings c) (mc_publication_bindings d)"

definition cycles_le :: "channel_state \<Rightarrow> channel_state \<Rightarrow> bool" where
  "cycles_le st st' \<longleftrightarrow> grows cycle_le (cs_cycles st) (cs_cycles st')"

lemma attempt_le_refl [simp]: "attempt_le a a"
  by (simp add: attempt_le_def)

lemma attempt_le_trans: "attempt_le a b \<Longrightarrow> attempt_le b d \<Longrightarrow> attempt_le a d"
  by (auto simp: attempt_le_def finished_def)

lemma send_le_refl [simp]: "send_le r r"
  by (simp add: send_le_def)

lemma send_le_trans: "send_le a b \<Longrightarrow> send_le b d \<Longrightarrow> send_le a d"
  by (auto simp: send_le_def)

lemma attempts_le_refl [simp]: "list_all2 attempt_le xs xs"
  by (simp add: list_all2_refl)

lemma attempts_le_trans: "list_all2 attempt_le xs ys \<Longrightarrow> list_all2 attempt_le ys zs \<Longrightarrow> list_all2 attempt_le xs zs"
  by (rule list_all2_trans [OF attempt_le_trans])

lemma cycle_le_refl [simp]: "cycle_le c c"
  by (simp add: cycle_le_def grows_refl)

lemma cycle_le_trans:
  assumes "cycle_le a b" and "cycle_le b c"
  shows "cycle_le a c"
  using assms unfolding cycle_le_def
  by (blast intro: grows_trans attempts_le_trans send_le_trans)

lemma cycles_le_refl [simp]: "cycles_le st st"
  by (simp add: cycles_le_def grows_refl)

lemma cycles_le_trans: "cycles_le a b \<Longrightarrow> cycles_le b c \<Longrightarrow> cycles_le a c"
  unfolding cycles_le_def by (rule grows_trans [OF cycle_le_trans])

lemma cycle_le_empty: "cycle_le empty_cycle c"
  by (simp add: cycle_le_def empty_cycle_def cycle_target_def grows_def)

lemma cycles_le_insert:
  assumes "\<And>c. cycle_at st k c \<Longrightarrow> cycle_le c c'"
  shows "grows cycle_le (cs_cycles st) (hm_insert k c' (cs_cycles st))"
  using assms by (intro grows_insert) (simp_all add: cycle_at_def)

lemma cycle_le_new: "cycle_or_new st k c \<Longrightarrow> cycle_le c c' \<Longrightarrow> cycle_at st k d \<Longrightarrow> cycle_le d c'"
  by (auto simp: cycle_or_new_def cycle_at_def)

lemma cycle_at_eq: "cycle_at st k c \<Longrightarrow> cycle_at st k d \<Longrightarrow> d = c"
  by (simp add: cycle_at_def)

lemma cycle_le_update:
  assumes "mc_plan d = mc_plan c" and "mc_measurement d = mc_measurement c" and "mc_generated d = mc_generated c"
    and "grows (list_all2 attempt_le) (mc_attempts c) (mc_attempts d)"
    and "grows send_le (mc_publication_send c) (mc_publication_send d)"
    and "grows (=) (mc_publication_bindings c) (mc_publication_bindings d)"
  shows "cycle_le c d"
proof -
  have "cycle_target d i = cycle_target c i" for i
    unfolding cycle_target_def assms(1-3) by (rule refl)
  then show ?thesis
    using assms(4-6) by (simp add: cycle_le_def)
qed

lemma cycle_le_plan:
  assumes "mc_plan c = None" and "cycle_ok c" and "set (map ct_target_id (cp_targets p)) \<inter> set (target_ids c) = {}"
  shows "cycle_le c (c\<lparr>mc_plan := Some p\<rparr>)"
proof -
  have "plan_target (cp_targets p) i = None" if "cycle_target c i \<noteq> None" for i
    using that assms knows_iff [of c i] by (auto simp: plan_target_def find_None_iff cycle_ok_alt)
  then have "cycle_target (c\<lparr>mc_plan := Some p\<rparr>) i = Some t" if "cycle_target c i = Some t" for i t
    using that assms(1) by (auto simp: cycle_target_def split: option.splits)
  then show ?thesis
    by (simp add: cycle_le_def grows_refl)
qed

lemma cycle_le_generated:
  assumes "cycle_ok c" and "ct_target_id t \<notin> set (target_ids c)"
  shows "cycle_le c (c\<lparr>mc_generated := hm_insert (ct_target_id t) t (mc_generated c)\<rparr>)"
  using knows_none [OF assms] by (auto simp: cycle_le_def grows_refl cycle_target_def split: option.splits)

theorem cycles_le_step:
  assumes "cycles_step st m" and ok: "cycles_ok (cs_cycles st)"
  shows "grows cycle_le (cs_cycles st) m"
  using assms(1)
proof (cases rule: cycles_step.cases)
  case (step_plan k c p)
  show ?thesis
    unfolding step_plan(1)
    by (rule cycles_le_insert, rule cycle_le_new [OF step_plan(2)], rule cycle_le_plan [OF step_plan(3)
        cycle_or_new_ok [OF ok step_plan(2)] fresh_ids [OF ok step_plan(4,2)]])
next
  case (step_generated k c t)
  show ?thesis
    unfolding step_generated(1)
    using fresh_ids [OF ok step_generated(3,2)]
    by (intro cycles_le_insert, elim cycle_le_new [OF step_generated(2), rotated],
        intro cycle_le_generated cycle_or_new_ok [OF ok step_generated(2)]) simp
next
  case (step_claim k c t a i at w)
  have c: "cycle_ok c" using cycles_okD [OF ok step_claim(2)] .
  have "cycle_le c (record_claim t a w c)"
    using record_claim_attempts [OF c step_claim(4)] unattempted_none [OF c] step_claim(4)
    by (intro cycle_le_update) (auto simp: grows_refl intro!: grows_insert)
  then show ?thesis
    unfolding step_claim(1) by (intro cycles_le_insert) (metis cycle_at_eq step_claim(2))
next
  case (step_finish k c i t attempts j a o1 received)
  have c: "cycle_ok c" using cycles_okD [OF ok step_finish(2)] .
  note single = finished_single [OF c step_finish(4,5)]
  have le: "attempt_le a (finished (admitted_outcome c t j o1) received a)"
    using step_finish(6) by (auto simp: attempt_le_def)
  have "cycle_le c (c\<lparr>mc_attempts := hm_insert i [finished (admitted_outcome c t j o1) received a] (mc_attempts c)\<rparr>)"
    using step_finish(4) single(1) le by (intro cycle_le_update) (auto simp: grows_refl intro!: grows_insert)
  then show ?thesis
    unfolding step_finish(1) single(3) by (intro cycles_le_insert) (metis cycle_at_eq step_finish(2))
next
  case (step_measurement k p r)
  then show ?thesis
    unfolding step_measurement(1) by (intro cycles_le_insert) (simp add: cycle_at_def)
next
  case (step_binding k c i b)
  have "cycle_le c (c\<lparr>mc_publication_bindings := hm_insert i b (mc_publication_bindings c)\<rparr>)"
    using step_binding(3) by (intro cycle_le_update) (auto simp: grows_refl intro!: grows_insert)
  then show ?thesis
    unfolding step_binding(1) by (intro cycles_le_insert) (metis cycle_at_eq step_binding(2))
next
  case (step_register k c i r)
  have "cycle_le c (c\<lparr>mc_publication_send := hm_insert i r (mc_publication_send c)\<rparr>)"
    using step_register(3) by (intro cycle_le_update) (auto simp: grows_refl intro!: grows_insert)
  then show ?thesis
    unfolding step_register(1) by (intro cycles_le_insert) (metis cycle_at_eq step_register(2))
next
  case (step_authorize k c i r now)
  have "cycle_le c (c\<lparr>mc_publication_send := hm_insert i (r\<lparr>sr_send_authorized_at := Some now\<rparr>) (mc_publication_send c)\<rparr>)"
    using step_authorize(3,4) by (intro cycle_le_update) (auto simp: grows_refl send_le_def intro!: grows_insert)
  then show ?thesis
    unfolding step_authorize(1) by (intro cycles_le_insert) (metis cycle_at_eq step_authorize(2))
next
  case (step_withdrawal k c i w w')
  have "cycle_le c (c\<lparr>mc_withdrawals := hm_insert i w' (mc_withdrawals c)\<rparr>)"
    by (intro cycle_le_update) (simp_all add: grows_refl)
  then show ?thesis
    unfolding step_withdrawal(1) by (intro cycles_le_insert) (metis cycle_at_eq step_withdrawal(2))
next
  case (step_interrupt now)
  have "cycle_le c (c\<lparr>mc_withdrawals := map_vals (interrupt_stale now) (mc_withdrawals c)\<rparr>)" for c
    by (intro cycle_le_update) (simp_all add: grows_refl)
  then show ?thesis
    unfolding step_interrupt by (auto simp: grows_def map_vals_get)
qed (simp add: grows_refl)

lemma channel_le_exec: "channel_inv st \<Longrightarrow> channel_ok st op \<Longrightarrow> cycles_le st (channel_exec st op)"
  using cycles_le_step [OF channel_exec_step] by (simp add: channel_inv_def cycles_le_def)

theorem channel_le_run:
  "channel_inv st \<Longrightarrow> ok_ops channel_exec channel_ok st ops \<Longrightarrow> cycles_le st (run_ops channel_exec st ops)"
proof (induction ops arbitrary: st)
  case (Cons op ops)
  then show ?case
    using channel_le_exec [of st op] channel.inv_exec [of st op] cycles_le_trans by auto
qed simp

text \<open>A cycle and its target stay found under their identifier.\<close>

lemma cycle_at_le: "cycles_le st st' \<Longrightarrow> cycle_at st k c \<Longrightarrow> \<exists>d. cycle_at st' k d \<and> cycle_le c d"
  by (simp add: cycles_le_def grows_def cycle_at_def)

lemma find_cycle_iff:
  assumes ok: "channel_inv st"
  shows "find_cycle key i st = Some (k, c) \<longleftrightarrow> cycle_at st k c \<and> fst k = key \<and> cycle_target c i \<noteq> None"
proof
  note ok' = ok [unfolded channel_inv_def]
  assume a: "cycle_at st k c \<and> fst k = key \<and> cycle_target c i \<noteq> None"
  then obtain k' c' where f: "find_cycle key i st = Some (k', c')"
    using find_cycle_None [of key i st k c] by fastforce
  show "find_cycle key i st = Some (k, c)"
    using same_cycle [OF ok', of k c k' c' i] find_cycle_Some [OF ok' f] a f by simp
qed (use find_cycle_Some ok in \<open>auto simp: channel_inv_def\<close>)

lemma find_cycle_le:
  assumes "channel_inv st" and "channel_inv st'" and "cycles_le st st'" and "find_cycle key i st = Some (k, c)"
  shows "\<exists>d. find_cycle key i st' = Some (k, d) \<and> cycle_le c d"
proof -
  have c: "cycle_at st k c" "fst k = key" "cycle_target c i \<noteq> None"
    using assms(4) find_cycle_iff [OF assms(1)] by auto
  then obtain d where "cycle_at st' k d" "cycle_le c d"
    using cycle_at_le [OF assms(3)] by blast
  then show ?thesis
    using c find_cycle_iff [OF assms(2)] by (auto simp: cycle_le_def)
qed

end
