(* ===== verification/Channel_Theorems.thy ===== *)
theory Channel_Theorems
  imports Channel_Evolution
begin

text \<open>
  The guarantees of the channel repository towards the outside world: a target is handed out once,
  a rich publication is sent once, and what was recorded stays recorded.
\<close>

section \<open>Claims\<close>

definition attempted :: "project_key \<Rightarrow> uuid \<Rightarrow> channel_state \<Rightarrow> bool" where
  "attempted key i st \<longleftrightarrow> list_ex (\<lambda>(k, c). fst k = key \<and> hm_contains (mc_attempts c) i) (cs_cycles st)"

fun claims_target :: "project_key \<Rightarrow> uuid \<Rightarrow> channel_state \<Rightarrow> channel_op \<Rightarrow> bool" where
  "claims_target key i st (Claim requests scope target attempt at) \<longleftrightarrow>
     scope_key scope = Inr key \<and> target = i \<and> \<not> isl (fst (claim requests scope target attempt at st))"
| "claims_target key i st (ClaimReserved requests scope target attempt reservation at) \<longleftrightarrow>
     scope_key scope = Inr key \<and> target = i \<and>
     \<not> isl (fst (claim_reserved requests scope target attempt reservation at st))"
| "claims_target key i st _ \<longleftrightarrow> False"

lemma cycles_mem: "channel_inv st \<Longrightarrow> (k, c) \<in> set (cs_cycles st) \<longleftrightarrow> cycle_at st k c"
  unfolding cycle_at_def hm_get_def channel_inv_def cycles_ok_def hm_wf_def using map_of_eq_Some_iff by fast

lemma cycles_ex:
  assumes "channel_inv st"
  shows "list_ex (\<lambda>(k, c). P k c) (cs_cycles st) \<longleftrightarrow> (\<exists>k c. cycle_at st k c \<and> P k c)"
proof
  assume "list_ex (\<lambda>(k, c). P k c) (cs_cycles st)"
  then obtain e where e: "e \<in> set (cs_cycles st)" "(\<lambda>(k, c). P k c) e"
    unfolding list_ex_iff by blast
  obtain k c where "e = (k, c)" by (cases e)
  with e show "\<exists>k c. cycle_at st k c \<and> P k c"
    using cycles_mem [OF assms, of k c] by blast
next
  assume "\<exists>k c. cycle_at st k c \<and> P k c"
  then obtain k c where "(k, c) \<in> set (cs_cycles st)" "P k c"
    using cycles_mem [OF assms] by blast
  then show "list_ex (\<lambda>(k, c). P k c) (cs_cycles st)"
    unfolding list_ex_iff by blast
qed

lemma attempted_iff:
  "channel_inv st \<Longrightarrow>
    attempted key i st \<longleftrightarrow> (\<exists>k c. cycle_at st k c \<and> fst k = key \<and> hm_get (mc_attempts c) i \<noteq> None)"
  unfolding attempted_def hm_contains_def by (rule cycles_ex)

lemma found_target_id:
  assumes "channel_inv st" and "find_cycle key i st = Some (k, c)" and "cycle_target c i = Some t"
  shows "ct_target_id t = i"
  using assms cycle_target_id [OF cycles_okD [of st k c] assms(3)] find_cycle_iff [OF assms(1), of key i k c]
  by (simp add: channel_inv_def)

lemma claim_Inr:
  assumes ok: "channel_inv st" and res: "claim requests scope i attempt at st = (Inr (t, a), st')"
    and key: "scope_key scope = Inr key"
  shows "\<exists>k c w. find_cycle key i st = Some (k, c) \<and> cycle_target c i = Some t \<and> unattempted c i \<and>
    ct_target_id t = i \<and> st' = set_cycle k (record_claim t a w c) st"
proof -
  obtain k c w where "find_cycle key i st = Some (k, c)" "cycle_target c i = Some t" "unattempted c i"
      "st' = set_cycle k (record_claim t a w c) st"
    using res key by (auto simp: claim_def Let_def unattempted_def split: if_splits try_in_split_asm option.splits)
  then show ?thesis
    using found_target_id [OF ok] by blast
qed

lemma claim_reserved_Inr:
  assumes "claim_reserved requests scope i attempt reservation at st = (Inr x, st')"
  shows "\<exists>st1. claim requests scope i attempt at st = (Inr x, st1) \<and> cs_cycles st' = cs_cycles st1"
  using assms
  by (cases "get_target scope i st"; cases "claim requests scope i attempt at st"; cases "fst (claim requests scope i attempt at st)")
    (auto simp: claim_reserved_def Let_def split: if_splits)

lemma succeeded: "\<not> isl (fst res) \<Longrightarrow> \<exists>x y st'. res = (Inr (x, y), st')"
  by (cases res; cases "fst res") auto

text \<open>Both ways to claim, seen at the cycles.\<close>

lemma claims_target_step:
  assumes ok: "channel_inv st" and claims: "claims_target key i st op"
  shows "\<exists>k c t a w. find_cycle key i st = Some (k, c) \<and> cycle_target c i = Some t \<and> unattempted c i \<and>
    ct_target_id t = i \<and> cs_cycles (channel_exec st op) = hm_insert k (record_claim t a w c) (cs_cycles st)"
proof -
  have set: "cs_cycles (set_cycle k c st) = hm_insert k c (cs_cycles st)" for k c
    by (simp add: set_cycle_def)
  consider requests scope attempt at t a st' where "op = Claim requests scope i attempt at"
      "claim requests scope i attempt at st = (Inr (t, a), st')" "scope_key scope = Inr key"
    | requests scope attempt reservation at t a st' where "op = ClaimReserved requests scope i attempt reservation at"
      "claim_reserved requests scope i attempt reservation at st = (Inr (t, a), st')" "scope_key scope = Inr key"
    using claims by (cases op) (auto dest!: succeeded)
  then show ?thesis
  proof cases
    case 1
    then show ?thesis using claim_Inr [OF ok 1(2,3)] set by fastforce
  next
    case 2
    obtain st1 where st1: "claim requests scope i attempt at st = (Inr (t, a), st1)" "cs_cycles st' = cs_cycles st1"
      using claim_reserved_Inr [OF 2(2)] by blast
    then show ?thesis using claim_Inr [OF ok st1(1) 2(3)] 2 set by fastforce
  qed
qed

interpretation claims: one_shot channel_exec channel_ok channel_inv "claims_target key i" "attempted key i"
  for key :: project_key and i :: uuid
proof unfold_locales
  fix st op assume ok: "channel_inv st" and claims: "claims_target key i st op"
  obtain k c where c: "find_cycle key i st = Some (k, c)" "unattempted c i"
    using claims_target_step [OF ok claims] by blast
  note at = c(1) [unfolded find_cycle_iff [OF ok]]
  note cs = ok [unfolded channel_inv_def]
  have none: "hm_get (mc_attempts c) i = None"
    using c(2) unattempted_none [OF cycles_okD [OF cs]] at by blast
  show "\<not> attempted key i st"
  proof
    assume "attempted key i st"
    then obtain k' d where d: "cycle_at st k' d" "fst k' = key" "hm_get (mc_attempts d) i \<noteq> None"
      unfolding attempted_iff [OF ok] by blast
    then have "cycle_target d i \<noteq> None"
      using cycles_okD [OF cs d(1)] unfolding cycle_ok_def by blast
    then have "c = d" using same_cycle(2) [OF cs, of k c k' d i] at d(1,2) by simp
    with none d(3) show False by simp
  qed
next
  fix st op assume ok: "channel_inv st" and allowed: "channel_ok st op" and claims: "claims_target key i st op"
  obtain k c t a w where c: "find_cycle key i st = Some (k, c)" "unattempted c i" "ct_target_id t = i"
      "cs_cycles (channel_exec st op) = hm_insert k (record_claim t a w c) (cs_cycles st)"
    using claims_target_step [OF ok claims] by blast
  note at = c(1) [unfolded find_cycle_iff [OF ok]]
  have "cycle_at (channel_exec st op) k (record_claim t a w c)"
    using c(4) by (simp add: cycle_at_def)
  moreover have "hm_get (mc_attempts (record_claim t a w c)) i \<noteq> None"
    using record_claim_attempts [OF cycles_okD [OF ok [unfolded channel_inv_def] conjunct1 [OF at]], of t a w] c(2,3) by simp
  ultimately show "attempted key i (channel_exec st op)"
    using at attempted_iff [OF channel.inv_exec [OF ok allowed]] by blast
next
  fix st op assume ok: "channel_inv st" and allowed: "channel_ok st op" and "attempted key i st"
  then obtain k c where c: "cycle_at st k c" "fst k = key" "hm_get (mc_attempts c) i \<noteq> None"
    unfolding attempted_iff [OF ok] by blast
  then obtain d where d: "cycle_at (channel_exec st op) k d" "cycle_le c d"
    using cycle_at_le [OF channel_le_exec [OF ok allowed]] by blast
  then have "grows (list_all2 attempt_le) (mc_attempts c) (mc_attempts d)"
    by (simp add: cycle_le_def)
  then have "hm_get (mc_attempts d) i \<noteq> None"
    using c(3) unfolding grows_def by blast
  then show "attempted key i (channel_exec st op)"
    using c(2) d(1) attempted_iff [OF channel.inv_exec [OF ok allowed]] by blast
qed

text \<open>C2: Over every history of the channel repository, whatever plans, generated targets, measurements,
  reservations, outcomes, browsers and queues are mixed in, a target is handed out by \<open>claim\<close> or
  \<open>claim_reserved\<close> at most once: no publication is executed twice.\<close>

theorem target_claimed_at_most_once:
  assumes "channel_inv st" and "ok_ops channel_exec channel_ok st ops"
  shows "count_grants channel_exec (claims_target key i) st ops \<le> 1"
  by (rule claims.at_most_one_grant [OF assms])

section \<open>An example history\<close>

definition ex_channel_scope :: tenant_scope where
  "ex_channel_scope = tenant_scope_new (Ident 1) (Ident 2) (Some (Ident 3))"

definition ex_publish :: "uuid \<Rightarrow> channel_target" where
  "ex_publish i = \<lparr>ct_target_id = i, ct_input = Publish \<lparr>pu_source_id = 1, pu_source_version_id = 1, pu_platform = lit ''zhihu'',
     pu_placement_slot = lit ''article'', pu_account_id = 77, pu_title = lit ''t'', pu_body = lit ''b'',
     pu_body_sha256 = lit ''h''\<rparr>\<rparr>"

definition ex_plan :: channel_plan where
  "ex_plan = \<lparr>cp_plan_id = 5, cp_project_id = Ident 3, cp_cycle_id = 6, cp_input_hash = lit ''x'', cp_revision = 1,
     cp_created_at = 10, cp_targets = [ex_publish 8, ex_publish 9]\<rparr>"

definition ex_planned :: channel_state where
  "ex_planned = snd (create_plan ex_channel_scope ex_plan channel_empty)"

lemma ex_planned_inv: "channel_inv ex_planned"
proof -
  have "scope_key ex_channel_scope = Inr (1, 2, 3)"
    by code_simp
  moreover have "fresh_targets (1, 2, 3) (cp_targets ex_plan) channel_empty"
    by (simp add: fresh_targets_def ex_plan_def ex_publish_def channel_empty_def)
  ultimately have "channel_ok channel_empty (CreatePlan ex_channel_scope ex_plan)"
    by auto
  then show ?thesis
    using channel.inv_exec [OF channel_inv_empty] by (simp only: ex_planned_def channel_exec.simps(1) [symmetric])
qed

definition ex_claims :: "channel_op list" where
  "ex_claims = [Claim None ex_channel_scope 8 100 20, Claim None ex_channel_scope 8 101 21,
     Finish ex_channel_scope 8 100 \<lparr>oc_status = OsPublished, oc_detail = None, oc_occurred_at = 22, oc_raw_answer = None,
       oc_citations = [], oc_public_url = None, oc_screenshot_ref = None, oc_connector_version = None,
       oc_runner_evidence = [], oc_fixture = False\<rparr> 23,
     Claim None ex_channel_scope 8 102 24]"

lemma ex_claims_ok: "ok_ops channel_exec channel_ok st ex_claims"
  by (simp add: ex_claims_def)

lemma ex_claims_count: "count_grants channel_exec (claims_target (1, 2, 3) 8) ex_planned ex_claims = 1"
  unfolding ex_claims_def count_grants.simps channel_exec.simps claims_target.simps by code_simp

theorem target_claimed_at_most_once_witness:
  "count_grants channel_exec (claims_target (1, 2, 3) 8) ex_planned ex_claims \<le> 1 \<and>
   count_grants channel_exec (claims_target (1, 2, 3) 8) ex_planned ex_claims = 1"
  using target_claimed_at_most_once [OF ex_planned_inv ex_claims_ok] ex_claims_count by blast

end
