(* ===== verification/Channel_Flights.thy ===== *)
theory Channel_Flights
  imports Channel_Theorems
begin

text \<open>The publications of an account that were claimed and have no outcome yet.\<close>

definition cycle_flights :: "uuid \<Rightarrow> uuid \<Rightarrow> channel_scope_key \<times> memory_cycle \<Rightarrow> (channel_scope_key \<times> uuid) list" where
  "cycle_flights operator account e = (case e of (k, c) \<Rightarrow> if fst (fst k) = operator
     then map (\<lambda>t. (k, ct_target_id t)) (filter (in_flight account c) (cycle_targets c)) else [])"

definition flights :: "uuid \<Rightarrow> uuid \<Rightarrow> channel_state \<Rightarrow> (channel_scope_key \<times> uuid) list" where
  "flights operator account st = concat (map (cycle_flights operator account) (cs_cycles st))"

lemma cycle_flights_fst: "x \<in> set (cycle_flights operator account e) \<Longrightarrow> fst x = fst e"
  by (cases e) (auto simp: cycle_flights_def split: if_splits)

lemma cycle_flights_eq: "cycle_flights operator account (k, c) =
    (if fst (fst k) = operator then map (\<lambda>t. (k, ct_target_id t)) (filter (in_flight account c) (cycle_targets c)) else [])"
  by (simp add: cycle_flights_def)

definition flying :: "uuid \<Rightarrow> uuid \<Rightarrow> channel_state \<Rightarrow> channel_scope_key \<Rightarrow> uuid \<Rightarrow> bool" where
  "flying operator account st k i \<longleftrightarrow> fst (fst k) = operator \<and>
     (\<exists>c t. cycle_at st k c \<and> cycle_target c i = Some t \<and> in_flight account c t)"

lemma flights_iff:
  assumes ok: "channel_inv st"
  shows "(k, i) \<in> set (flights operator account st) \<longleftrightarrow> flying operator account st k i"
proof
  assume "(k, i) \<in> set (flights operator account st)"
  then obtain e where e: "e \<in> set (cs_cycles st)" "(k, i) \<in> set (cycle_flights operator account e)"
    unfolding flights_def set_concat set_map by blast
  obtain k' c where kc: "e = (k', c)" by (cases e)
  with e obtain t where t: "(k', c) \<in> set (cs_cycles st)" "k' = k" "fst (fst k) = operator" "t \<in> set (cycle_targets c)"
      "ct_target_id t = i" "in_flight account c t"
    by (auto simp: cycle_flights_eq split: if_splits)
  then have at: "cycle_at st k c" using cycles_mem [OF ok] by blast
  have "cycle_target c i = Some t"
    using cycle_targets_iff [OF cycles_okD [OF ok [unfolded channel_inv_def] at]] t(4,5) by simp
  then show "flying operator account st k i" using at t(3,6) unfolding flying_def by blast
next
  assume "flying operator account st k i"
  then obtain c t where c: "fst (fst k) = operator" "cycle_at st k c" "cycle_target c i = Some t" "in_flight account c t"
    unfolding flying_def by blast
  note cok = cycles_okD [OF ok [unfolded channel_inv_def] c(2)]
  have i: "ct_target_id t = i" using cycle_target_id [OF cok c(3)] .
  have "(k, c) \<in> set (cs_cycles st)" using c(2) cycles_mem [OF ok] by blast
  moreover have "t \<in> set (cycle_targets c)" using cycle_targets_iff [OF cok] c(3) i by simp
  moreover from calculation have "(k, i) \<in> set (cycle_flights operator account (k, c))"
    using c(1,4) i by (auto simp: cycle_flights_eq)
  ultimately show "(k, i) \<in> set (flights operator account st)"
    unfolding flights_def set_concat set_map by blast
qed

lemma publication_in_flight_iff: "publication_in_flight operator account st \<longleftrightarrow> flights operator account st \<noteq> []"
proof -
  have "(case e of (k, c) \<Rightarrow> fst (fst k) = operator \<and> list_ex (in_flight account c) (cycle_targets c)) \<longleftrightarrow>
      cycle_flights operator account e \<noteq> []" for e
    by (cases e) (auto simp: cycle_flights_eq list_ex_iff filter_empty_conv)
  then show ?thesis
    unfolding publication_in_flight_def flights_def list_ex_iff by simp
qed

lemma distinct_concat_entries:
  assumes "distinct (map fst m)" and "\<And>e. e \<in> set m \<Longrightarrow> distinct (f e)" and "\<And>e x. x \<in> set (f e) \<Longrightarrow> fst x = fst e"
  shows "distinct (concat (map f m))"
  using assms(1,2)
proof (induction m)
  case (Cons e m)
  have rest: "fst x \<in> fst ` set m" if "x \<in> set (concat (map f m))" for x
  proof -
    obtain e' where "e' \<in> set m" "x \<in> set (f e')" using \<open>x \<in> set (concat (map f m))\<close> by auto
    then show ?thesis using assms(3) by (metis image_eqI)
  qed
  have "x \<notin> set (concat (map f m))" if "x \<in> set (f e)" for x
    using rest [of x] assms(3) [OF that] Cons.prems(1) by auto
  then have "set (f e) \<inter> set (concat (map f m)) = {}"
    by blast
  with Cons show ?case by simp
qed simp

lemma distinct_flights:
  assumes ok: "channel_inv st"
  shows "distinct (flights operator account st)"
  unfolding flights_def
proof (rule distinct_concat_entries [OF _ _ cycle_flights_fst])
  show "distinct (map fst (cs_cycles st))"
    using ok by (simp add: channel_inv_def cycles_ok_def hm_wf_def)
next
  fix e assume e: "e \<in> set (cs_cycles st)"
  obtain k c where kc: "e = (k, c)" by (cases e)
  have "distinct (map ct_target_id (cycle_targets c))"
    using e kc cycles_mem [OF ok] cycles_okD [OF ok [unfolded channel_inv_def]] by (simp add: cycle_ok_def)
  then show "distinct (cycle_flights operator account e)"
    unfolding kc cycle_flights_eq by (auto simp: distinct_map inj_on_def)
qed

section \<open>How a step changes them\<close>

definition pending_attempts :: "channel_attempt list \<Rightarrow> bool" where
  "pending_attempts attempts \<longleftrightarrow> list_ex (\<lambda>a. at_received_at a = None) attempts"

lemma in_flight_alt: "in_flight account c t \<longleftrightarrow> is_publication (ct_input t) \<and> input_account_id (ct_input t) = account \<and>
    (\<exists>attempts. hm_get (mc_attempts c) (ct_target_id t) = Some attempts \<and> pending_attempts attempts)"
  by (auto simp: in_flight_def pending_attempts_def split: option.split)

lemma flying_insert:
  assumes ok: "channel_inv st" and m: "cs_cycles st' = hm_insert k c' (cs_cycles st)" and ok': "cycle_ok c'"
    and new: "cycle_or_new st k c" and le: "cycle_le c c'"
    and kept: "\<And>i attempts. i \<noteq> j \<Longrightarrow> hm_get (mc_attempts c') i = Some attempts \<Longrightarrow> pending_attempts attempts \<Longrightarrow>
      hm_get (mc_attempts c) i = Some attempts"
    and fly: "flying operator account st' k1 i"
  shows "flying operator account st k1 i \<or> k1 = k \<and> i = j"
proof (cases "k1 = k \<and> i \<noteq> j")
  case True
  obtain t where t: "fst (fst k) = operator" "cycle_target c' i = Some t" "in_flight account c' t"
    using fly True m by (auto simp: flying_def cycle_at_def)
  have id: "ct_target_id t = i" using cycle_target_id [OF ok' t(2)] .
  obtain attempts where a: "hm_get (mc_attempts c) i = Some attempts" "pending_attempts attempts"
    using t(3) kept [of i] True id by (auto simp: in_flight_alt)
  then have at: "cycle_at st k c" using new by (auto simp: cycle_or_new_def empty_cycle_def)
  have "cycle_target c i \<noteq> None"
    using a(1) cycles_okD [OF ok [unfolded channel_inv_def] at] unfolding cycle_ok_def by blast
  then have "cycle_target c i = Some t" using le t(2) by (auto simp: cycle_le_def)
  then have "flying operator account st k i"
    using t at a id by (auto simp: flying_def in_flight_alt)
  then show ?thesis using True by simp
next
  case False
  then show ?thesis using fly m by (auto simp: flying_def cycle_at_def)
qed

lemma flying_same:
  assumes "\<And>k d. cycle_at st' k d \<Longrightarrow> \<exists>c. cycle_at st k c \<and> mc_attempts d = mc_attempts c \<and>
      (\<forall>i. cycle_target d i = cycle_target c i)" and "flying operator account st' k i"
  shows "flying operator account st k i"
proof -
  obtain d t where d: "fst (fst k) = operator" "cycle_at st' k d" "cycle_target d i = Some t" "in_flight account d t"
    using assms(2) unfolding flying_def by blast
  obtain c where "cycle_at st k c" "mc_attempts d = mc_attempts c" "cycle_target d i = cycle_target c i"
    using assms(1) [OF d(2)] by blast
  with d show ?thesis
    unfolding flying_def in_flight_alt by auto
qed

text \<open>A step starts no flight, or claims one publication of an account that had none in the air.\<close>

theorem flying_step:
  assumes step: "cycles_step st m" and ok: "channel_inv st" and m: "cs_cycles st' = m" and ok': "channel_inv st'"
  shows "(\<forall>k i. flying operator account st' k i \<longrightarrow> flying operator account st k i) \<or>
    flights operator account st = [] \<and> (\<exists>k j. \<forall>k1 i. flying operator account st' k1 i \<longrightarrow> k1 = k \<and> i = j)"
proof -
  note le = cycles_le_step [OF step ok [unfolded channel_inv_def]]
  have one: ?thesis if e: "m = hm_insert k c' (cs_cycles st)" and new: "cycle_or_new st k c" and "cycle_le c c'"
      and "mc_attempts c' = mc_attempts c" for k c c'
  proof -
    have m': "cs_cycles st' = hm_insert k c' (cs_cycles st)" using m e by simp
    have "cycle_ok c'" using cycles_okD [of st' k c'] ok' m' by (simp add: channel_inv_def cycle_at_def)
    then have "flying operator account st k1 i" if "flying operator account st' k1 i" for k1 i
      using flying_insert [OF ok m' _ new \<open>cycle_le c c'\<close> _ that, of "i + 1"] that(1) \<open>mc_attempts c' = mc_attempts c\<close>
      by fastforce
    then show ?thesis by blast
  qed
  have upd: "cycle_le c c'" if "m = hm_insert k c' (cs_cycles st)" "cycle_at st k c" for k c c'
    using le [unfolded grows_def, rule_format, of k c] that by (simp add: cycle_at_def)
  have old: "cycle_or_new st k c" if "cycle_at st k c" for k c
    using that by (simp add: cycle_or_new_def)
  show ?thesis
    using step
  proof (cases rule: cycles_step.cases)
    case step_keep
    then show ?thesis using m by (simp add: flying_def cycle_at_def)
  next
    case (step_plan k c p)
    then show ?thesis using one [OF step_plan(1,2)] upd [OF step_plan(1)] cycle_le_empty by (auto simp: cycle_or_new_def)
  next
    case (step_generated k c t)
    then show ?thesis using one [OF step_generated(1,2)] upd [OF step_generated(1)] cycle_le_empty by (auto simp: cycle_or_new_def)
  next
    case (step_measurement k p r)
    then show ?thesis
      using one [OF step_measurement(1), of empty_cycle] cycle_le_empty by (simp add: cycle_or_new_def empty_cycle_def)
  next
    case (step_claim k c t a i at w)
    have c: "cycle_ok c" using cycles_okD [OF ok [unfolded channel_inv_def] step_claim(2)] .
    have m': "cs_cycles st' = hm_insert k (record_claim t a w c) (cs_cycles st)" using m step_claim(1) by simp
    have c': "cycle_ok (record_claim t a w c)" using cycles_okD [of st' k] ok' m' by (simp add: channel_inv_def cycle_at_def)
    have target: "cycle_target (record_claim t a w c) j = cycle_target c j" for j
      unfolding cycle_target_def record_claim_frame by (rule refl)
    have fly: "flying operator account st k1 j \<or> k1 = k \<and> j = ct_target_id t" if "flying operator account st' k1 j" for k1 j
      by (rule flying_insert [OF ok m' c' old [OF step_claim(2)] upd [OF step_claim(1,2)] _ that])
        (simp add: record_claim_attempts [OF c step_claim(4)])
    show ?thesis
    proof (cases "is_publication (ct_input t) \<and> input_account_id (ct_input t) = account \<and> fst (fst k) = operator")
      case True
      then have none: "flights operator account st = []"
        using step_claim(5) publication_in_flight_iff by blast
      then have "\<not> flying operator account st k1 j" for k1 j
        using flights_iff [OF ok, of k1 j operator account] by simp
      then show ?thesis using fly none by blast
    next
      case False
      have "\<not> flying operator account st' k (ct_target_id t)"
        using False m' target step_claim(3) by (auto simp: flying_def cycle_at_def in_flight_alt)
      then show ?thesis using fly by metis
    qed
  next
    case (step_finish k c i t attempts j a o1 received)
    have c: "cycle_ok c" using cycles_okD [OF ok [unfolded channel_inv_def] step_finish(2)] .
    note single = finished_single [OF c step_finish(4,5)]
    let ?c' = "c\<lparr>mc_attempts := hm_insert i [finished (admitted_outcome c t j o1) received a] (mc_attempts c)\<rparr>"
    have m': "m = hm_insert k ?c' (cs_cycles st)" using step_finish(1) single(3) by simp
    have c': "cycle_ok ?c'" using cycles_okD [of st' k] ok' m m' by (simp add: channel_inv_def cycle_at_def)
    have "flying operator account st k1 l" if fly: "flying operator account st' k1 l" for k1 l
    proof -
      have "\<not> (k1 = k \<and> l = i)"
        using fly m m' c cycle_target_id [OF c]
        by (auto simp: flying_def cycle_at_def in_flight_alt pending_attempts_def finished_def)
      moreover have "flying operator account st k1 l \<or> k1 = k \<and> l = i"
        by (rule flying_insert [OF ok _ c' old [OF step_finish(2)] upd [OF m' step_finish(2)] _ fly]) (use m m' in simp_all)
      ultimately show ?thesis by blast
    qed
    then show ?thesis by blast
  next
    case (step_interrupt now)
    let ?f = "\<lambda>c. c\<lparr>mc_withdrawals := map_vals (interrupt_stale now) (mc_withdrawals c)\<rparr>"
    have "\<exists>c. cycle_at st k c \<and> mc_attempts d = mc_attempts c \<and> (\<forall>i. cycle_target d i = cycle_target c i)"
      if "cycle_at st' k d" for k d
      using that m step_interrupt by (auto simp: cycle_at_def map_vals_get)
    then show ?thesis using flying_same [of st' st] by blast
  qed (use one upd old in \<open>fastforce+\<close>)
qed

end
