(* ===== verification/Channel_Outcomes.thy ===== *)
theory Channel_Outcomes
  imports Channel_Flights
begin

text \<open>
  One publication in the air per account, recorded outcomes, and the one-shot authorization of a
  rich publication.
\<close>

section \<open>One publication in the air\<close>

definition flight_inv :: "uuid \<Rightarrow> uuid \<Rightarrow> channel_state \<Rightarrow> bool" where
  "flight_inv operator account st \<longleftrightarrow> channel_inv st \<and> length (flights operator account st) \<le> 1"

lemma one_flight_iff:
  assumes ok: "channel_inv st"
  shows "length (flights operator account st) \<le> 1 \<longleftrightarrow>
    (\<exists>x. set (flights operator account st) \<subseteq> {x})"
proof -
  have "card (set (flights operator account st)) = length (flights operator account st)"
    using distinct_flights [OF ok] by (rule distinct_card)
  moreover have "(\<exists>x. set (flights operator account st) \<subseteq> {x}) \<longleftrightarrow> card (set (flights operator account st)) \<le> 1"
    by (cases "flights operator account st") (auto simp: card_le_Suc0_iff_eq)
  ultimately show ?thesis by simp
qed

interpretation flight: invariant_machine channel_exec channel_ok "flight_inv operator account"
  for operator account :: uuid
proof unfold_locales
  fix st op
  assume inv: "flight_inv operator account st" and allowed: "channel_ok st op"
  then have ok: "channel_inv st" by (simp add: flight_inv_def)
  note ok' = channel.inv_exec [OF ok allowed]
  obtain x where x: "set (flights operator account st) \<subseteq> {x}"
    using inv one_flight_iff [OF ok] by (auto simp: flight_inv_def)
  have eq: "(k, i) \<in> set (flights operator account (channel_exec st op)) \<longleftrightarrow>
      flying operator account (channel_exec st op) k i" for k i
    by (rule flights_iff [OF ok'])
  have "\<exists>y. set (flights operator account (channel_exec st op)) \<subseteq> {y}"
    using flying_step [OF channel_exec_step [OF ok [unfolded channel_inv_def] allowed] ok refl ok', of operator account]
  proof (elim disjE conjE exE)
    assume "\<forall>k i. flying operator account (channel_exec st op) k i \<longrightarrow> flying operator account st k i"
    then have "e \<in> {x}" if "e \<in> set (flights operator account (channel_exec st op))" for e
      using that x eq flights_iff [OF ok] by (cases e) blast
    then show ?thesis by blast
  next
    fix k j assume "\<forall>k1 i. flying operator account (channel_exec st op) k1 i \<longrightarrow> k1 = k \<and> i = j"
    then have "e \<in> {(k, j)}" if "e \<in> set (flights operator account (channel_exec st op))" for e
      using that eq by (cases e) blast
    then show ?thesis by blast
  qed
  then show "flight_inv operator account (channel_exec st op)"
    using ok' one_flight_iff [OF ok'] by (simp add: flight_inv_def)
qed

text \<open>C8: However many tenants, projects and cycles an operator's account serves, over every history at
  most one of its publications is claimed without a received outcome.\<close>

theorem one_publication_in_flight:
  assumes "channel_inv st" and "length (flights operator account st) \<le> 1"
    and "ok_ops channel_exec channel_ok st ops"
  shows "length (flights operator account (run_ops channel_exec st ops)) \<le> 1"
  using flight.inv_run [of operator account st ops] assms by (simp add: flight_inv_def)

definition ex_two_claims :: "channel_op list" where
  "ex_two_claims = [Claim None ex_channel_scope 8 100 20, Claim None ex_channel_scope 9 101 21]"

theorem one_publication_in_flight_witness:
  "length (flights 1 77 (run_ops channel_exec ex_planned ex_two_claims)) \<le> 1 \<and>
   flights 1 77 (run_ops channel_exec ex_planned ex_two_claims) \<noteq> []"
proof
  show "length (flights 1 77 (run_ops channel_exec ex_planned ex_two_claims)) \<le> 1"
  proof (rule one_publication_in_flight [OF ex_planned_inv])
    show "length (flights 1 77 ex_planned) \<le> 1" by code_simp
    show "ok_ops channel_exec channel_ok ex_planned ex_two_claims" by (simp add: ex_two_claims_def)
  qed
  show "flights 1 77 (run_ops channel_exec ex_planned ex_two_claims) \<noteq> []"
    unfolding ex_two_claims_def run_ops.simps channel_exec.simps by code_simp
qed

section \<open>Recorded outcomes\<close>

lemma get_target_Inr:
  assumes "channel_inv st"
  shows "get_target scope i st = Inr v \<longleftrightarrow> (\<exists>key k c t. scope_key scope = Inr key \<and> find_cycle key i st = Some (k, c) \<and>
    cycle_target c i = Some t \<and> v = \<lparr>tv_target = t,
      tv_attempts = (case hm_get (mc_attempts c) i of None \<Rightarrow> [] | Some attempts \<Rightarrow> attempts)\<rparr>)"
proof (cases "scope_key scope")
  case (Inr key)
  show ?thesis
  proof (cases "find_cycle key i st")
    case (Some e)
    obtain k c where "e = (k, c)" by (cases e)
    with Inr Some show ?thesis
      by (cases "cycle_target c i") (auto simp: get_target_def)
  qed (simp add: get_target_def Inr)
qed (simp add: get_target_def)

lemma recorded_le: "attempt_le a b \<Longrightarrow> at_outcome a \<noteq> None \<Longrightarrow> b = a"
  by (auto simp: attempt_le_def)

lemma recorded_in:
  assumes "list_all2 attempt_le xs ys" and "a \<in> set xs" and "at_outcome a \<noteq> None"
  shows "a \<in> set ys"
  using assms(1,2)
proof (induction rule: list_all2_induct)
  case (Cons x xs y ys)
  then show ?case using recorded_le [OF _ assms(3)] by auto
qed simp

text \<open>C12: Once the outcome of an attempt is recorded, every later history of the repository leaves the
  target as it is and the attempt with exactly that outcome among its attempts.\<close>

theorem recorded_outcomes_are_final:
  assumes ok: "channel_inv st" and ops: "ok_ops channel_exec channel_ok st ops"
    and v: "get_target scope i st = Inr v" and a: "a \<in> set (tv_attempts v)" "at_outcome a \<noteq> None"
  shows "\<exists>w. get_target scope i (run_ops channel_exec st ops) = Inr w \<and> tv_target w = tv_target v \<and>
    a \<in> set (tv_attempts w)"
proof -
  obtain key k c t where c: "scope_key scope = Inr key" "find_cycle key i st = Some (k, c)" "cycle_target c i = Some t"
      "v = \<lparr>tv_target = t, tv_attempts = (case hm_get (mc_attempts c) i of None \<Rightarrow> [] | Some attempts \<Rightarrow> attempts)\<rparr>"
    using v get_target_Inr [OF ok] by blast
  obtain d where d: "find_cycle key i (run_ops channel_exec st ops) = Some (k, d)" "cycle_le c d"
    using find_cycle_le [OF ok channel.inv_run [OF ok ops] channel_le_run [OF ok ops] c(2)] by blast
  obtain xs where xs: "hm_get (mc_attempts c) i = Some xs" "a \<in> set xs"
    using a(1) c(4) by (auto split: option.splits)
  obtain ys where ys: "hm_get (mc_attempts d) i = Some ys" "list_all2 attempt_le xs ys"
    using d(2) xs(1) unfolding cycle_le_def grows_def by blast
  have "cycle_target d i = Some t"
    using d(2) c(3) unfolding cycle_le_def by blast
  then show ?thesis
    using get_target_Inr [OF channel.inv_run [OF ok ops]] c(1,4) d(1) ys(1) recorded_in [OF ys(2) xs(2) a(2)] by auto
qed

definition ex_outcome :: "channel_outcome_status \<Rightarrow> channel_outcome" where
  "ex_outcome s = \<lparr>oc_status = s, oc_detail = None, oc_occurred_at = 22, oc_raw_answer = None, oc_citations = [],
     oc_public_url = None, oc_screenshot_ref = None, oc_connector_version = None, oc_runner_evidence = [], oc_fixture = False\<rparr>"

definition ex_attempt :: channel_attempt where
  "ex_attempt = \<lparr>at_attempt_id = 100, at_target_id = 8, at_claimed_at = 20, at_outcome = Some (ex_outcome OsPublished),
     at_received_at = Some 23\<rparr>"

definition ex_published :: channel_state where
  "ex_published = run_ops channel_exec ex_planned ex_claims"

lemma ex_published_inv: "channel_inv ex_published"
  unfolding ex_published_def by (rule channel.inv_run [OF ex_planned_inv ex_claims_ok])

lemma ex_published_target: "get_target ex_channel_scope 8 ex_published = Inr \<lparr>tv_target = ex_publish 8, tv_attempts = [ex_attempt]\<rparr>"
  unfolding ex_published_def ex_claims_def run_ops.simps channel_exec.simps by code_simp

definition ex_late :: "channel_op list" where
  "ex_late = [Finish ex_channel_scope 8 100 (ex_outcome OsFailed) 30, Claim None ex_channel_scope 9 103 31]"

theorem recorded_outcomes_are_final_witness:
  "\<exists>w. get_target ex_channel_scope 8 (run_ops channel_exec ex_published ex_late) = Inr w \<and> tv_target w = ex_publish 8 \<and>
     ex_attempt \<in> set (tv_attempts w)"
  using recorded_outcomes_are_final [OF ex_published_inv _ ex_published_target, of ex_late ex_attempt]
  by (simp add: ex_late_def ex_attempt_def)

section \<open>One send of a rich publication\<close>

fun grants_send :: "project_key \<Rightarrow> uuid \<Rightarrow> uuid \<Rightarrow> channel_state \<Rightarrow> channel_op \<Rightarrow> bool" where
  "grants_send key i a st (AuthorizeSend cd services scope x media now) \<longleftrightarrow>
     scope_key scope = Inr key \<and> au_target_id x = i \<and> au_attempt_id x = a \<and>
     (case fst (authorize_publication_send cd services scope x media now st) of
        Some (Inr (Granted _)) \<Rightarrow> True | _ \<Rightarrow> False)"
| "grants_send key i a st _ \<longleftrightarrow> False"

definition send_consumed :: "project_key \<Rightarrow> uuid \<Rightarrow> uuid \<Rightarrow> channel_state \<Rightarrow> bool" where
  "send_consumed key i a st \<longleftrightarrow> (case find_cycle key i st of None \<Rightarrow> False | Some (k, c) \<Rightarrow> send_authorized c a)"

lemma send_authorized_iff:
  "send_authorized c a \<longleftrightarrow> (\<exists>r. hm_get (mc_publication_send c) a = Some r \<and> sr_send_authorized_at r \<noteq> None)"
  by (simp add: send_authorized_def split: option.split)

lemma send_authorized_le:
  assumes "cycle_le c d" and "send_authorized c a"
  shows "send_authorized d a"
proof -
  obtain r where r: "hm_get (mc_publication_send c) a = Some r" "sr_send_authorized_at r \<noteq> None"
    using assms(2) send_authorized_iff by blast
  obtain s where "hm_get (mc_publication_send d) a = Some s" "send_le r s"
    using assms(1) r(1) unfolding cycle_le_def grows_def by blast
  then show ?thesis
    using r(2) send_authorized_iff [of d a] by (auto simp: send_le_def)
qed

lemma authorize_granted:
  assumes "authorize_rich_send cd scope x b verified now st = (Some (Inr (Granted g)), st')"
    and "scope_key scope = Inr key"
  shows "\<exists>k c r. find_cycle key (au_target_id x) st = Some (k, c) \<and>
    hm_get (mc_publication_send c) (au_attempt_id x) = Some r \<and> sr_send_authorized_at r = None \<and>
    st' = set_cycle k (c\<lparr>mc_publication_send := hm_insert (au_attempt_id x)
      (r\<lparr>sr_send_authorized_at := Some now\<rparr>) (mc_publication_send c)\<rparr>) st"
  using assms unfolding authorize_rich_send_def Let_def
  by (auto split: option.splits sum.splits if_splits prod.splits channel_target_input.splits)

lemma grants_send_step:
  assumes "grants_send key i a st op"
  shows "\<exists>k c r now. find_cycle key i st = Some (k, c) \<and> hm_get (mc_publication_send c) a = Some r \<and>
    sr_send_authorized_at r = None \<and> channel_exec st op = set_cycle k (c\<lparr>mc_publication_send := hm_insert a
      (r\<lparr>sr_send_authorized_at := Some now\<rparr>) (mc_publication_send c)\<rparr>) st"
proof -
  obtain cd services scope x media now g st' where op: "op = AuthorizeSend cd services scope x media now"
      "scope_key scope = Inr key" "au_target_id x = i" "au_attempt_id x = a"
      "authorize_publication_send cd services scope x media now st = (Some (Inr (Granted g)), st')"
    using assms by (cases op) (auto split: option.splits sum.splits publication_send_decision.splits, metis prod.collapse)
  obtain b verified where "authorize_rich_send cd scope x b verified now st = (Some (Inr (Granted g)), st')"
    using op(5) unfolding authorize_publication_send_def by (auto split: sum.splits)
  from authorize_granted [OF this op(2)] show ?thesis
    using op by auto
qed

interpretation sends: one_shot channel_exec channel_ok channel_inv "grants_send key i a" "send_consumed key i a"
  for key :: project_key and i a :: uuid
proof unfold_locales
  fix st op assume "channel_inv st" and "grants_send key i a st op"
  then show "\<not> send_consumed key i a st"
    using grants_send_step by (fastforce simp: send_consumed_def send_authorized_def)
next
  fix st op assume ok: "channel_inv st" and allowed: "channel_ok st op" and grants: "grants_send key i a st op"
  obtain k c r now where c: "find_cycle key i st = Some (k, c)" "channel_exec st op = set_cycle k
      (c\<lparr>mc_publication_send := hm_insert a (r\<lparr>sr_send_authorized_at := Some now\<rparr>) (mc_publication_send c)\<rparr>) st"
    using grants_send_step [OF grants] by blast
  obtain d where "find_cycle key i (channel_exec st op) = Some (k, d)"
    using find_cycle_le [OF ok channel.inv_exec [OF ok allowed] channel_le_exec [OF ok allowed] c(1)] by blast
  moreover from this have "d = c\<lparr>mc_publication_send := hm_insert a (r\<lparr>sr_send_authorized_at := Some now\<rparr>) (mc_publication_send c)\<rparr>"
    using find_cycle_iff [OF channel.inv_exec [OF ok allowed], of key i k d] c(2) by (simp add: cycle_at_def set_cycle_def)
  ultimately show "send_consumed key i a (channel_exec st op)"
    by (simp add: send_consumed_def send_authorized_def)
next
  fix st op assume ok: "channel_inv st" and allowed: "channel_ok st op" and "send_consumed key i a st"
  then obtain k c where c: "find_cycle key i st = Some (k, c)" "send_authorized c a"
    by (auto simp: send_consumed_def split: option.splits)
  then show "send_consumed key i a (channel_exec st op)"
    using find_cycle_le [OF ok channel.inv_exec [OF ok allowed] channel_le_exec [OF ok allowed] c(1)] send_authorized_le
    by (auto simp: send_consumed_def)
qed

text \<open>C9: Over every history the one-shot permission to send the rich publication of an attempt is granted at
  most once, however many callbacks ask for it.\<close>

theorem rich_send_granted_at_most_once:
  assumes "channel_inv st" and "ok_ops channel_exec channel_ok st ops"
  shows "count_grants channel_exec (grants_send key i a) st ops \<le> 1"
  by (rule sends.at_most_one_grant [OF assms])

end
