(* ===== verification/Channel_Rich.thy ===== *)
theory Channel_Rich
  imports Channel_Outcomes
begin

text \<open>
  What the ledger says of a rich publication: nothing is recorded as published before its send was
  authorized, and nothing as verified by a readback of its text.
\<close>

section \<open>Where an outcome comes from\<close>

definition admitted_at :: "memory_cycle \<Rightarrow> uuid \<Rightarrow> channel_attempt \<Rightarrow> bool" where
  "admitted_at c i a \<longleftrightarrow> (\<forall>t o1. cycle_target c i = Some t \<and> is_rich (ct_input t) \<and> at_outcome a = Some o1 \<longrightarrow>
     oc_status o1 \<noteq> OsVerified \<and> (oc_status o1 = OsPublished \<longrightarrow> send_authorized c (at_attempt_id a)))"

definition rich_ok :: "memory_cycle \<Rightarrow> bool" where
  "rich_ok c \<longleftrightarrow> (\<forall>i attempts a. hm_get (mc_attempts c) i = Some attempts \<and> a \<in> set attempts \<longrightarrow> admitted_at c i a)"

lemma admitted_outcome_ok:
  "is_rich (ct_input t) \<Longrightarrow> oc_status (admitted_outcome c t j o1) \<noteq> OsVerified"
  "is_rich (ct_input t) \<Longrightarrow> oc_status (admitted_outcome c t j o1) = OsPublished \<Longrightarrow> send_authorized c j"
  by (auto simp: admitted_outcome_def split: if_splits)

lemma admitted_le:
  assumes "cycle_le c d" and "cycle_target c i \<noteq> None" and "admitted_at c i a"
  shows "admitted_at d i a"
  using assms send_authorized_le [OF assms(1)] unfolding admitted_at_def cycle_le_def by fastforce

lemma rich_ok_step:
  assumes ok: "cycle_ok c" and rich: "rich_ok c" and le: "cycle_le c d"
    and new: "\<And>i attempts a. hm_get (mc_attempts d) i = Some attempts \<Longrightarrow> a \<in> set attempts \<Longrightarrow>
      hm_get (mc_attempts c) i = Some attempts \<or> admitted_at d i a"
  shows "rich_ok d"
  unfolding rich_ok_def
proof (intro allI impI)
  fix i attempts a assume a: "hm_get (mc_attempts d) i = Some attempts \<and> a \<in> set attempts"
  show "admitted_at d i a"
  proof (cases "hm_get (mc_attempts c) i = Some attempts")
    case True
    then have "cycle_target c i \<noteq> None" using ok unfolding cycle_ok_def by blast
    moreover have "admitted_at c i a" using rich True a unfolding rich_ok_def by blast
    ultimately show ?thesis using admitted_le [OF le] by blast
  next
    case False
    then show ?thesis using new a by blast
  qed
qed

definition cycles_rich :: "channel_state \<Rightarrow> bool" where
  "cycles_rich st \<longleftrightarrow> (\<forall>k c. cycle_at st k c \<longrightarrow> rich_ok c)"

lemma empty_rich: "rich_ok empty_cycle"
  by (simp add: rich_ok_def empty_cycle_def)

lemma cycles_rich_step:
  assumes step: "cycles_step st m" and ok: "channel_inv st" and rich: "cycles_rich st" and m: "cs_cycles st' = m"
  shows "cycles_rich st'"
proof -
  note le = cycles_le_step [OF step ok [unfolded channel_inv_def]]
  note cok = cycles_okD [OF ok [unfolded channel_inv_def]]
  have one: "cycles_rich st'" if e: "m = hm_insert k d (cs_cycles st)" and "rich_ok d" for k d
    using rich that m by (auto simp: cycles_rich_def cycle_at_def split: if_splits)
  have upd: "cycle_le c d" if "m = hm_insert k d (cs_cycles st)" "cycle_at st k c" for k c d
    using le [unfolded grows_def, rule_format, of k c] that by (simp add: cycle_at_def)
  have old: "cycle_or_new st k c" if "cycle_at st k c" for k c
    using that by (simp add: cycle_or_new_def)
  have same: "cycles_rich st'" if e: "m = hm_insert k d (cs_cycles st)" and c: "cycle_or_new st k c"
      and a: "mc_attempts d = mc_attempts c" for k c d
  proof (cases "cycle_at st k c")
    case True
    then show ?thesis
      using rich_ok_step [OF cok [OF True] _ upd [OF e True]] rich a by (intro one [OF e]) (auto simp: cycles_rich_def)
  next
    case False
    then have "mc_attempts d = []" using c a by (simp add: cycle_or_new_def empty_cycle_def)
    then show ?thesis by (intro one [OF e]) (simp add: rich_ok_def)
  qed
  show ?thesis
    using step
  proof (cases rule: cycles_step.cases)
    case step_keep
    then show ?thesis using rich m by (simp add: cycles_rich_def cycle_at_def)
  next
    case (step_measurement k p r)
    then show ?thesis using same [OF step_measurement(1), of empty_cycle] by (simp add: cycle_or_new_def empty_cycle_def)
  next
    case (step_claim k c t a i at w)
    have "rich_ok (record_claim t a w c)"
    proof (rule rich_ok_step [OF cok [OF step_claim(2)] _ upd [OF step_claim(1,2)]])
      show "rich_ok c" using rich step_claim(2) by (simp add: cycles_rich_def)
    next
      fix j attempts b assume "hm_get (mc_attempts (record_claim t a w c)) j = Some attempts" "b \<in> set attempts"
      then show "hm_get (mc_attempts c) j = Some attempts \<or> admitted_at (record_claim t a w c) j b"
        using record_claim_attempts [OF cok [OF step_claim(2)] step_claim(4), of a w] step_claim(6)
        by (auto simp: admitted_at_def split: if_splits)
    qed
    then show ?thesis by (rule one [OF step_claim(1)])
  next
    case (step_finish k c i t attempts j a o1 received)
    note single = finished_single [OF cok [OF step_finish(2)] step_finish(4,5)]
    let ?d = "c\<lparr>mc_attempts := hm_insert i [finished (admitted_outcome c t j o1) received a] (mc_attempts c)\<rparr>"
    have e: "m = hm_insert k ?d (cs_cycles st)" using step_finish(1) single(3) by simp
    have sa: "send_authorized ?d j = send_authorized c j" by (simp add: send_authorized_def)
    have "rich_ok ?d"
    proof (rule rich_ok_step [OF cok [OF step_finish(2)] _ upd [OF e step_finish(2)]])
      show "rich_ok c" using rich step_finish(2) by (simp add: cycles_rich_def)
    next
      fix l xs b assume b: "hm_get (mc_attempts ?d) l = Some xs" "b \<in> set xs"
      have "admitted_at ?d i (finished (admitted_outcome c t j o1) received a)"
        using admitted_outcome_ok [of t c j o1] step_finish(3) single(2) sa
        by (auto simp: admitted_at_def finished_def is_attempt_def)
      then show "hm_get (mc_attempts c) l = Some xs \<or> admitted_at ?d l b"
        using b by (auto split: if_splits)
    qed
    then show ?thesis by (rule one [OF e])
  next
    case (step_interrupt now)
    have "rich_ok (c\<lparr>mc_withdrawals := w\<rparr>) = rich_ok c" for c w
      by (simp add: rich_ok_def admitted_at_def send_authorized_def)
    then show ?thesis using rich m step_interrupt by (auto simp: cycles_rich_def cycle_at_def map_vals_get)
  next
    case (step_plan k c p)
    show ?thesis by (rule same [OF step_plan(1,2)]) simp
  next
    case (step_generated k c t)
    show ?thesis by (rule same [OF step_generated(1,2)]) simp
  next
    case (step_binding k c i b)
    show ?thesis by (rule same [OF step_binding(1) old [OF step_binding(2)]]) simp
  next
    case (step_register k c i r)
    show ?thesis by (rule same [OF step_register(1) old [OF step_register(2)]]) simp
  next
    case (step_authorize k c i r now)
    show ?thesis by (rule same [OF step_authorize(1) old [OF step_authorize(2)]]) simp
  next
    case (step_withdrawal k c i w w')
    show ?thesis by (rule same [OF step_withdrawal(1) old [OF step_withdrawal(2)]]) simp
  qed
qed

interpretation rich: invariant_machine channel_exec channel_ok "\<lambda>st. channel_inv st \<and> cycles_rich st"
proof unfold_locales
  fix st op
  assume inv: "channel_inv st \<and> cycles_rich st" and allowed: "channel_ok st op"
  then show "channel_inv (channel_exec st op) \<and> cycles_rich (channel_exec st op)"
    using channel.inv_exec cycles_rich_step [OF channel_exec_step _ _ refl] by (simp add: channel_inv_def)
qed

text \<open>C11: From the empty repository on, whatever a runner reports, the recorded outcome of a rich publication is
  never Verified, and it is Published only if the one-shot send of that very attempt was authorized.\<close>

theorem rich_publication_never_unauthorized:
  assumes ops: "ok_ops channel_exec channel_ok channel_empty ops"
    and key: "scope_key scope = Inr key"
    and v: "get_target scope i (run_ops channel_exec channel_empty ops) = Inr v" and r: "is_rich (ct_input (tv_target v))"
    and a: "a \<in> set (tv_attempts v)" "at_outcome a = Some o1"
  shows "oc_status o1 \<noteq> OsVerified \<and> (oc_status o1 = OsPublished \<longrightarrow>
    send_consumed key i (at_attempt_id a) (run_ops channel_exec channel_empty ops))"
proof -
  let ?st = "run_ops channel_exec channel_empty ops"
  have "channel_inv channel_empty \<and> cycles_rich channel_empty"
    using channel_inv_empty by (simp add: cycles_rich_def cycle_at_def channel_empty_def)
  note inv = rich.inv_run [OF this ops]
  then obtain k c t where c: "find_cycle key i ?st = Some (k, c)" "cycle_target c i = Some t" "tv_target v = t"
      "tv_attempts v = (case hm_get (mc_attempts c) i of None \<Rightarrow> [] | Some attempts \<Rightarrow> attempts)"
    using get_target_Inr [of ?st scope i v] v key by auto
  have "rich_ok c"
    using inv c(1) find_cycle_iff [of ?st key i k c] by (auto simp: cycles_rich_def)
  then have "admitted_at c i a"
    using a(1) c(4) unfolding rich_ok_def by (auto split: option.splits)
  then show ?thesis
    using a(2) r c(1-3) by (auto simp: admitted_at_def send_consumed_def)
qed

end
