(* ===== verification/Channel_Example.thy ===== *)
theory Channel_Example
  imports Channel_Rich
begin

text \<open>
  A complete history of one rich publication: its generated target, the claim, the encrypted binding,
  the registered session, two callbacks that ask for the send, and the outcome. The hash is a constant.
\<close>

definition ex_codecs :: codecs where
  "ex_codecs = \<lparr>cd_uuid = (\<lambda>i. [unat i]), cd_sha256 = (\<lambda>bs. replicate 32 0), cd_datetime = (\<lambda>s. None),
     cd_datetime_json = (\<lambda>j. None), cd_parse_json = (\<lambda>s. None), cd_json_len = (\<lambda>j. 0),
     cd_payload_json = (\<lambda>p. Inr []), cd_urls = \<lparr>url_parse = (\<lambda>s. None), url_join = (\<lambda>u s. None)\<rparr>\<rparr>"

definition ex_document :: structured_document where
  "ex_document = \<lparr>sd_title = lit ''t'', sd_blocks = [\<lparr>cb_block_id = 1, cb_kind = BlockParagraph, cb_text = lit ''b'',
     cb_citation_ids = [], cb_items = [], cb_rich = None\<rparr>], sd_schema_version = 2\<rparr>"

definition ex_markdown :: str where
  "ex_markdown = lit ''# t'' @ [10, 10] @ lit ''b''"

definition ex_hash :: str where
  "ex_hash = replicate 64 48"

definition ex_payload :: rich_publication_payload where
  "ex_payload = \<lparr>rp_schema_version = 2, rp_format = rich_markdown_format, rp_content_revision_id = 11,
     rp_policy_version = rich_channel_variant_policy, rp_document = ex_document, rp_media = []\<rparr>"

definition ex_variant_id :: uuid where
  "ex_variant_id = identity_of ex_codecs []"

definition ex_variant :: channel_variant where
  "ex_variant = \<lparr>cv_variant_id = ex_variant_id, cv_content_revision_id = 11, cv_platform_id = lit ''zhihu'',
     cv_placement_slot = lit ''article'', cv_policy_version = rich_channel_variant_policy, cv_title = lit ''t'',
     cv_markdown = ex_markdown, cv_payload_hash = ex_hash, cv_evidence = [], cv_rich_payload = Some ex_payload\<rparr>"

definition ex_bundle :: publication_bundle where
  "ex_bundle = \<lparr>pb_revision = \<lparr>cr_revision_id = 11, cr_asset_id = 12, cr_revision = 1, cr_base_revision_id = None,
       cr_derived_from_revision_id = None, cr_document = ex_document, cr_markdown = ex_markdown, cr_evidence = [],
       cr_quotes = [], cr_findings = [], cr_created_at = 0\<rparr>,
     pb_variant = ex_variant,
     pb_intent = \<lparr>pi_intent_id = 13, pi_project_id = Ident 3, pi_channel_target_id = 14, pi_variant_id = ex_variant_id,
       pi_content_revision_id = 11, pi_platform_id = lit ''zhihu'', pi_placement_slot = lit ''article'', pi_account_id = 77,
       pi_payload_hash = ex_hash, pi_logical_key = [], pi_verification = IntentUnverified,
       pi_verification_evidence_id = None, pi_created_at = 0\<rparr>,
     pb_origin = CoverageTarget \<lparr>dt_target_id = 14, dt_manifest_id = 15, dt_ordinal = 0, dt_document_item_id = 16,
       dt_content_revision_id = Some 11, dt_platform_id = lit ''zhihu'', dt_placement_slot = lit ''article'',
       dt_variant_id = Some ex_variant_id, dt_account_id = Some 77, dt_publication_intent_id = Some 13,
       dt_status = DistReady, dt_reason = None, dt_version = 1\<rparr>,
     pb_command = \<lparr>pc_command_id = 40, pc_intent_id = 13, pc_target_id = 14, pc_payload_hash = ex_hash, pc_fixture = False\<rparr>\<rparr>"

definition ex_rich_target :: channel_target where
  "ex_rich_target = \<lparr>ct_target_id = 40, ct_input = GeneratedPublish \<lparr>gp_content_revision_id = 11, gp_variant_id = ex_variant_id,
     gp_publication_intent_id = 13, gp_distribution_target_id = 14, gp_origin_request_id = None, gp_platform = lit ''zhihu'',
     gp_placement_slot = lit ''article'', gp_account_id = 77, gp_title = lit ''t'', gp_body = ex_markdown,
     gp_body_sha256 = ex_hash, gp_payload_hash = ex_hash, gp_evidence = [], gp_rich_payload = Some ex_payload\<rparr>\<rparr>"

definition ex_services :: send_services where
  "ex_services = \<lparr>ss_hold_project = (\<lambda>s p. Inr ()), ss_early_bundle = (\<lambda>s i. Inr ex_bundle),
     ss_bundle = (\<lambda>s i. Inr ex_bundle), ss_bytes = (\<lambda>s k. Inr None)\<rparr>"

definition ex_registration :: publication_send_registration where
  "ex_registration = \<lparr>rs_target_id = 40, rs_attempt_id = 41, rs_account_id = 77, rs_runner_session_id = 42,
     rs_encrypted_binding_sha256 = ex_hash, rs_send_not_after = 1000\<rparr>"

definition ex_request :: publication_send_request where
  "ex_request = \<lparr>au_target_id = 40, au_attempt_id = 41, au_account_id = 77, au_runner_session_id = 42,
     au_publication_intent_id = 13, au_payload_hash = ex_hash, au_encrypted_binding_sha256 = ex_hash\<rparr>"

definition ex_send :: "instant \<Rightarrow> channel_op" where
  "ex_send now = AuthorizeSend ex_codecs ex_services ex_channel_scope ex_request \<lparr>ms_bindings = [], ms_by_object = []\<rparr> now"

section \<open>Its steps\<close>

lemma ex_hex: "hex_encode (replicate 32 0) = ex_hash"
  by code_simp

lemma ex_sha: "sha256_hex ex_codecs bs = ex_hash"
  by (simp add: sha256_hex_def ex_codecs_def ex_hex)

lemma ex_identity: "identity_of ex_codecs parts = ex_variant_id"
  by (simp add: ex_variant_id_def identity_of_def ex_codecs_def)

lemma ex_document_valid: "validate_document urls [] ex_document = Inr ()"
  by (simp add: validate_document_def ex_document_def validate_block_def lit_def trim_def is_whitespace_def byte_len_def
      utf8_width_def max_nodes_def max_text_bytes_def saturating_add_def)

lemma ex_document_markdown: "document_markdown show_uuid ex_document = Some ex_markdown"
  by (simp add: document_markdown_def expect_ok_def render_rich_markdown_def ex_document_def ex_markdown_def
      block_markdown_def lit_def markdown_punctuation_def trim_end_def is_whitespace_def)

lemma ex_payload_valid: "validate_rich_publication_payload ex_codecs ex_variant = Some (Inr ())"
proof -
  have "validate_rich_media ex_payload = Inr ()"
    by (simp add: validate_rich_media_def ex_payload_def ex_document_def document_media_references_def hm_values_def)
  moreover have "rich_payload_hash ex_codecs ex_payload t m = Inr ex_hash" for t m
    by (simp add: rich_payload_hash_def ex_codecs_def digest_def sha256_hex_def ex_hex)
  moreover have "rp_document ex_payload = ex_document" "sd_schema_version ex_document = 2" "sd_title ex_document = lit ''t''"
    by (simp_all add: ex_payload_def ex_document_def)
  ultimately show ?thesis
    using ex_document_valid ex_document_markdown ex_identity
    by (simp add: validate_rich_publication_payload_def ex_variant_def ex_payload_def)
qed

lemma ex_origin_valid: "validate_origin ex_codecs ex_bundle = Some (Inr ())"
proof -
  have "validate_origin_variant ex_codecs ex_bundle = Some (Inr ())"
    using ex_payload_valid by (simp add: validate_origin_variant_def ex_bundle_def ex_variant_def ex_payload_def)
  then show ?thesis
    by (simp add: validate_origin_def expected_origin_def ex_bundle_def ex_variant_def)
qed

definition ex_attempt_open :: channel_attempt where
  "ex_attempt_open = \<lparr>at_attempt_id = 41, at_target_id = 40, at_claimed_at = 20, at_outcome = None, at_received_at = None\<rparr>"

definition ex_cycle :: "instant option \<Rightarrow> memory_cycle" where
  "ex_cycle sent = \<lparr>mc_plan = None, mc_measurement = None, mc_measurement_request = None,
     mc_generated = [(40, ex_rich_target)], mc_attempts = [(40, [ex_attempt_open])], mc_publication_bindings = [(41, [7])],
     mc_withdrawals = [], mc_publication_send = [(41, \<lparr>sr_session_id = 42, sr_deadline = 1000, sr_binding_sha256 = ex_hash,
       sr_send_authorized_at = sent\<rparr>)]\<rparr>"

definition ex_ready :: "instant option \<Rightarrow> channel_state" where
  "ex_ready sent = channel_empty\<lparr>cs_cycles := [(((1, 2, 3), CycleOwner 6), ex_cycle sent)]\<rparr>"

lemma ex_scope_key: "scope_key ex_channel_scope = Inr (1, 2, 3)"
  by code_simp

lemma ex_project: "require_publication_project ex_channel_scope = Inr (Ident 3)"
  by code_simp

lemma ex_prepare: "run_ops channel_exec channel_empty [InsertGenerated ex_channel_scope 6 40 ex_rich_target,
    Claim None ex_channel_scope 40 41 20, StoreBinding ex_channel_scope 40 41 [7],
    RegisterSend ex_codecs ex_services ex_channel_scope ex_registration 30] = ex_ready None"
  by (simp add: insert_generated_target_def claim_def store_publication_binding_def register_publication_send_def
      register_rich_send_def ex_scope_key ex_project ex_services_def ex_registration_def same_registration_def registration_window_def
      ex_rich_target_def find_cycle_def cycle_target_def cycle_targets_def project_targets_def set_cycle_def hm_insert_def hm_get_def
      channel_empty_def empty_cycle_def publication_in_flight_def in_flight_def record_claim_def claim_withdrawal_row_def
      target_is_publication_def find_attempt_def is_attempt_def ex_ready_def ex_cycle_def ex_attempt_open_def hm_values_def
      secret_sha256_def ex_sha is_nil_def minutes_def seconds_def Let_def)

lemma ex_find: "find_cycle (1, 2, 3) 40 (ex_ready sent) = Some (((1, 2, 3), CycleOwner 6), ex_cycle sent)"
  by (simp add: find_cycle_def ex_ready_def ex_cycle_def cycle_target_def hm_get_def)

lemma ex_authorize: "authorize_publication_send ex_codecs ex_services ex_channel_scope ex_request m now (ex_ready sent) =
   (if sent \<noteq> None then (Some (Inr AlreadyConsumed), ex_ready sent)
    else if now > 1000 \<or> now < 20 then (Some (Inl (conflict (lit ''publication send authorization expired''))), ex_ready sent)
    else (Some (Inr (Granted \<lparr>sg_attempt_id = 41, sg_runner_session_id = 42, sg_payload_hash = ex_hash,
            sg_send_not_after = 1000\<rparr>)), ex_ready (Some now)))"
proof -
  have "verify_actual_bytes ex_codecs ex_services ex_channel_scope ex_bundle = Inr []"
    by (simp add: verify_actual_bytes_def ex_bundle_def ex_variant_def ex_payload_def)
  moreover have "guard_validate m ex_channel_scope [] = Inr []"
    by (simp add: guard_validate_def require_media_project_def ex_channel_scope_def tenant_scope_new_def)
  moreover have "authorize_rich_send ex_codecs ex_channel_scope ex_request ex_bundle [] now (ex_ready sent) = 
   (if sent \<noteq> None then (Some (Inr AlreadyConsumed), ex_ready sent)
    else if now > 1000 \<or> now < 20 then (Some (Inl (conflict (lit ''publication send authorization expired''))), ex_ready sent)
    else (Some (Inr (Granted \<lparr>sg_attempt_id = 41, sg_runner_session_id = 42, sg_payload_hash = ex_hash,
            sg_send_not_after = 1000\<rparr>)), ex_ready (Some now)))"
    unfolding authorize_rich_send_def Let_def
    using ex_origin_valid ex_payload_valid
    by (simp add: ex_scope_key ex_request_def ex_find)
      (simp add: ex_request_def ex_cycle_def ex_ready_def cycle_target_def hm_get_def find_attempt_def is_attempt_def ex_attempt_open_def
        attempt_agrees_def frozen_intent_agrees_def secret_sha256_def ex_sha ex_rich_target_def ex_bundle_def ex_variant_def
        ex_payload_def origin_agrees_def media_granted_def set_cycle_def hm_insert_def channel_empty_def)
  ultimately show ?thesis
    by (simp add: authorize_publication_send_def ex_services_def ex_project ex_request_def)
qed

lemma ex_exec_send:
  "channel_exec (ex_ready None) (ex_send 40) = ex_ready (Some 40)"
  "channel_exec (ex_ready (Some 40)) (ex_send 41) = ex_ready (Some 40)"
  by (simp_all add: ex_send_def ex_authorize)

lemma ex_grants_send:
  "grants_send (1, 2, 3) 40 41 (ex_ready None) (ex_send 40)"
  "\<not> grants_send (1, 2, 3) 40 41 (ex_ready (Some 40)) (ex_send 41)"
  by (simp_all add: ex_send_def ex_authorize ex_scope_key) (simp_all add: ex_request_def)

section \<open>The whole history\<close>

definition ex_prepare_ops :: "channel_op list" where
  "ex_prepare_ops = [InsertGenerated ex_channel_scope 6 40 ex_rich_target, Claim None ex_channel_scope 40 41 20,
     StoreBinding ex_channel_scope 40 41 [7], RegisterSend ex_codecs ex_services ex_channel_scope ex_registration 30]"

definition ex_rich_ops :: "channel_op list" where
  "ex_rich_ops = ex_prepare_ops @ [ex_send 40, ex_send 41, Finish ex_channel_scope 40 41 (ex_outcome OsPublished) 50]"

lemma ex_rich_ok: "ok_ops channel_exec channel_ok st ex_rich_ops"
  by (simp add: ex_rich_ops_def ex_prepare_ops_def ex_send_def)

lemma ex_rich_prepared: "run_ops channel_exec channel_empty ex_prepare_ops = ex_ready None"
  unfolding ex_prepare_ops_def by (rule ex_prepare)

lemma count_grants_append:
  "count_grants exec p s (xs @ ys) = count_grants exec p s xs + count_grants exec p (run_ops exec s xs) ys"
  by (induction xs arbitrary: s) auto

lemma ex_rich_count: "count_grants channel_exec (grants_send (1, 2, 3) 40 41) channel_empty ex_rich_ops = 1"
proof -
  have "count_grants channel_exec (grants_send (1, 2, 3) 40 41) st ex_prepare_ops = 0" for st
    by (simp add: ex_prepare_ops_def)
  then show ?thesis
    unfolding ex_rich_ops_def count_grants_append ex_rich_prepared
    by (simp del: channel_exec.simps grants_send.simps add: ex_exec_send ex_grants_send)
       (simp)
qed

theorem rich_send_granted_at_most_once_witness:
  "count_grants channel_exec (grants_send (1, 2, 3) 40 41) channel_empty ex_rich_ops \<le> 1 \<and>
   count_grants channel_exec (grants_send (1, 2, 3) 40 41) channel_empty ex_rich_ops = 1"
  using rich_send_granted_at_most_once [OF channel_inv_empty ex_rich_ok] ex_rich_count by blast

definition ex_rich_attempt :: channel_attempt where
  "ex_rich_attempt = \<lparr>at_attempt_id = 41, at_target_id = 40, at_claimed_at = 20, at_outcome = Some (ex_outcome OsPublished),
     at_received_at = Some 50\<rparr>"

lemma ex_finish: "get_target ex_channel_scope 40 (channel_exec (ex_ready (Some 40))
    (Finish ex_channel_scope 40 41 (ex_outcome OsPublished) 50)) = Inr \<lparr>tv_target = ex_rich_target, tv_attempts = [ex_rich_attempt]\<rparr>"
  by (simp add: get_target_def finish_def ex_scope_key ex_find)
    (simp add: ex_cycle_def ex_ready_def channel_empty_def cycle_target_def hm_get_def hm_insert_def is_attempt_def set_cycle_def
      ex_attempt_open_def admitted_outcome_def send_authorized_def find_cycle_def ex_rich_attempt_def ex_outcome_def Let_def)

lemma ex_rich_view: "get_target ex_channel_scope 40 (run_ops channel_exec channel_empty ex_rich_ops) =
    Inr \<lparr>tv_target = ex_rich_target, tv_attempts = [ex_rich_attempt]\<rparr>"
  unfolding ex_rich_ops_def run_ops_append ex_rich_prepared
  by (simp del: channel_exec.simps add: ex_exec_send ex_finish)

theorem rich_publication_never_unauthorized_witness:
  "oc_status (ex_outcome OsPublished) \<noteq> OsVerified \<and>
   send_consumed (1, 2, 3) 40 41 (run_ops channel_exec channel_empty ex_rich_ops)"
proof -
  have "at_attempt_id ex_rich_attempt = 41" by (simp add: ex_rich_attempt_def)
  then show ?thesis
    using rich_publication_never_unauthorized [OF ex_rich_ok ex_scope_key ex_rich_view, of ex_rich_attempt "ex_outcome OsPublished"]
    by (simp add: ex_rich_attempt_def ex_rich_target_def ex_outcome_def)
qed

end
