(* ===== verification/Channel_Dispatch.thy ===== *)
theory Channel_Dispatch
  imports Channel_Example
begin

text \<open>
  The dispatcher (\<open>crates/app/src/dispatch.rs\<close>): one tick reads the pending targets page by page behind
  a cursor, while every other process keeps working on the same repository between two pages.
\<close>

section \<open>One tick\<close>

text \<open>
  The cursor after a page: \<open>after = Some(candidate.target_id)\<close> for each candidate in turn.
\<close>

definition page_cursor :: "uuid option \<Rightarrow> channel_dispatch_candidate list \<Rightarrow> uuid option" where
  "page_cursor after candidates = fold (\<lambda>candidate _. Some (dc_target_id candidate)) candidates after"

text \<open>
  The loop of a tick over the pages of pending targets. \<open>others\<close> are the operations that the executed
  candidates, the runners and the other processes perform between one page and the next; the
  result lists the candidates in the order in which they are handed to \<open>execute_channel_target\<close>. \<open>None\<close>
  stands for a loop that is still running when the fuel is spent.
\<close>

fun dispatch_pending :: "nat \<Rightarrow> instant \<Rightarrow> channel_op list list \<Rightarrow> uuid option \<Rightarrow> channel_state \<Rightarrow>
    (channel_dispatch_candidate list \<times> channel_state) option" where
  "dispatch_pending 0 due_at others after st = None"
| "dispatch_pending (Suc fuel) due_at others after st =
     (case scan_pending after due_at 100 st of
        Inl _ \<Rightarrow> Some ([], st)
      | Inr candidates \<Rightarrow>
          if length candidates < 100 then Some (candidates, st)
          else map_option (apfst ((@) candidates))
            (dispatch_pending fuel due_at (tl others) (page_cursor after candidates)
               (run_ops channel_exec st (case others of [] \<Rightarrow> [] | ops # _ \<Rightarrow> ops))))"

section \<open>Targets and candidates\<close>

definition all_target_ids :: "channel_state \<Rightarrow> uuid list" where
  "all_target_ids st = concat (map (\<lambda>e. target_ids (snd e)) (cs_cycles st))"

definition pending_candidates :: "instant \<Rightarrow> channel_state \<Rightarrow> channel_dispatch_candidate list" where
  "pending_candidates due_at st = concat (map (cycle_candidates None due_at) (cs_cycles st))"

fun beyond :: "uuid option \<Rightarrow> uuid \<Rightarrow> bool" where
  "beyond None i \<longleftrightarrow> True"
| "beyond (Some a) i \<longleftrightarrow> a < i"

lemma beyond_trans: "beyond after j \<Longrightarrow> j < i \<Longrightarrow> beyond after i"
  by (cases after) auto

lemma pending_beyond: "pending_target after due_at c t \<longleftrightarrow> beyond after (ct_target_id t) \<and> pending_target None due_at c t"
  by (cases after) (auto simp: pending_target_def)

lemma candidates_beyond:
  "cycle_candidates after due_at e = filter (\<lambda>d. beyond after (dc_target_id d)) (cycle_candidates None due_at e)"
proof -
  have "filter (pending_target after due_at c) ts = filter (\<lambda>t. beyond after (ct_target_id t)) (filter (pending_target None due_at c) ts)"
    for c ts unfolding filter_filter by (rule filter_cong) (auto simp: pending_beyond [of after])
  then show ?thesis
    by (cases e) (simp add: cycle_candidates_def filter_map comp_def)
qed

lemma scan_pending_page:
  "0 < limit \<Longrightarrow> limit \<le> 1000 \<Longrightarrow> scan_pending after due_at limit st =
     Inr (take limit (sort_key dc_target_id (filter (\<lambda>d. beyond after (dc_target_id d)) (pending_candidates due_at st))))"
  by (simp add: scan_pending_def pending_candidates_def filter_concat candidates_beyond [of after, abs_def] comp_def)

lemma candidate_ids: "map dc_target_id (cycle_candidates None due_at e) =
    map ct_target_id (filter (pending_target None due_at (snd e)) (cycle_targets (snd e)))"
  by (cases e) (simp add: cycle_candidates_def)

lemma candidates_distinct:
  assumes "distinct (all_target_ids st)"
  shows "distinct (map dc_target_id (pending_candidates due_at st))"
    and "set (map dc_target_id (pending_candidates due_at st)) \<subseteq> set (all_target_ids st)"
proof -
  have sub: "set (map dc_target_id (concat (map (cycle_candidates None due_at) es))) \<subseteq>
      set (concat (map (\<lambda>e. target_ids (snd e)) es))" for es
  proof (induction es)
    case (Cons e es)
    have "set (map dc_target_id (cycle_candidates None due_at e)) \<subseteq> set (target_ids (snd e))"
      unfolding candidate_ids by (auto simp: target_ids_def)
    with Cons show ?case by auto
  qed simp
  show "set (map dc_target_id (pending_candidates due_at st)) \<subseteq> set (all_target_ids st)"
    unfolding pending_candidates_def all_target_ids_def by (rule sub)
  have "distinct (concat (map (\<lambda>e. target_ids (snd e)) es)) \<Longrightarrow>
      distinct (map dc_target_id (concat (map (cycle_candidates None due_at) es)))" for es
  proof (induction es)
    case (Cons e es)
    have "distinct (map dc_target_id (cycle_candidates None due_at e))"
      using Cons.prems unfolding candidate_ids by (simp add: target_ids_def distinct_map_filter)
    moreover have "set (map dc_target_id (cycle_candidates None due_at e)) \<subseteq> set (target_ids (snd e))"
      unfolding candidate_ids by (auto simp: target_ids_def)
    ultimately show ?case
      using Cons sub [of es] by (simp only: list.map concat.simps map_append distinct_append) fast
  qed simp
  then show "distinct (map dc_target_id (pending_candidates due_at st))"
    using assms unfolding pending_candidates_def all_target_ids_def .
qed

section \<open>Identifiers only grow\<close>

lemma distinct_concat_keyed:
  assumes "distinct (map fst m)" and "\<And>k c. (k, c) \<in> set m \<Longrightarrow> distinct (f c)"
    and "\<And>k c k' c' i. (k, c) \<in> set m \<Longrightarrow> (k', c') \<in> set m \<Longrightarrow> i \<in> set (f c) \<Longrightarrow> i \<in> set (f c') \<Longrightarrow> k = k'"
  shows "distinct (concat (map (\<lambda>e. f (snd e)) m))"
  using assms
proof (induction m)
  case (Cons e m)
  obtain k c where e: "e = (k, c)" by (cases e)
  have "set (f c) \<inter> set (concat (map (\<lambda>e. f (snd e)) m)) = {}"
  proof (rule ccontr)
    assume "set (f c) \<inter> set (concat (map (\<lambda>e. f (snd e)) m)) \<noteq> {}"
    then obtain i k' c' where "i \<in> set (f c)" "(k', c') \<in> set m" "i \<in> set (f c')"
      by (auto simp: set_concat)
    then have "k = k'" "k' \<in> fst ` set m"
      using Cons.prems(3) [of k c k' c' i] e by force+
    then show False using Cons.prems(1) e by simp
  qed
  moreover have "distinct (f c)" using Cons.prems(2) [of k c] e by simp
  moreover have "distinct (concat (map (\<lambda>e. f (snd e)) m))"
  proof (rule Cons.IH)
    show "distinct (map fst m)" using Cons.prems(1) by simp
    show "\<And>k c. (k, c) \<in> set m \<Longrightarrow> distinct (f c)" using Cons.prems(2) by (meson list.set_intros(2))
    show "\<And>k c k' c' i. (k, c) \<in> set m \<Longrightarrow> (k', c') \<in> set m \<Longrightarrow> i \<in> set (f c) \<Longrightarrow> i \<in> set (f c') \<Longrightarrow> k = k'"
      using Cons.prems(3) by (meson list.set_intros(2))
  qed
  ultimately show ?case using e by simp
qed simp

lemma all_target_ids_iff:
  assumes "channel_inv st"
  shows "i \<in> set (all_target_ids st) \<longleftrightarrow> (\<exists>k c. cycle_at st k c \<and> i \<in> set (target_ids c))"
proof
  assume "i \<in> set (all_target_ids st)"
  then obtain e where "e \<in> set (cs_cycles st)" "i \<in> set (target_ids (snd e))"
    unfolding all_target_ids_def set_concat set_map by blast
  then show "\<exists>k c. cycle_at st k c \<and> i \<in> set (target_ids c)"
    using cycles_mem [OF assms, of "fst e" "snd e"] by auto
next
  assume "\<exists>k c. cycle_at st k c \<and> i \<in> set (target_ids c)"
  then obtain k c where "(k, c) \<in> set (cs_cycles st)" "i \<in> set (target_ids c)"
    using cycles_mem [OF assms] by blast
  then show "i \<in> set (all_target_ids st)"
    unfolding all_target_ids_def by force
qed

lemma cycle_at_ok: "channel_inv st \<Longrightarrow> cycle_at st k c \<Longrightarrow> cycle_ok c"
  unfolding channel_inv_def by (rule cycles_okD)

lemma target_ids_le:
  assumes "cycle_ok c" and "cycle_ok d" and "cycle_le c d" and "i \<in> set (target_ids c)"
  shows "i \<in> set (target_ids d)"
  using assms knows_iff [of c i] knows_iff [of d i] unfolding cycle_ok_alt cycle_le_def by blast

lemma ids_grow:
  assumes inv: "channel_inv st" "channel_inv st'" and le: "cycles_le st st'"
  shows "set (all_target_ids st) \<subseteq> set (all_target_ids st')"
proof
  fix i assume "i \<in> set (all_target_ids st)"
  then obtain k c where c: "cycle_at st k c" "i \<in> set (target_ids c)"
    using all_target_ids_iff [OF inv(1)] by blast
  then obtain d where d: "cycle_at st' k d" "cycle_le c d"
    using cycle_at_le [OF le] by blast
  then have "i \<in> set (target_ids d)"
    using target_ids_le [OF cycle_at_ok [OF inv(1) c(1)] cycle_at_ok [OF inv(2) d(1)]] c(2) by blast
  then show "i \<in> set (all_target_ids st')"
    using all_target_ids_iff [OF inv(2)] d(1) by blast
qed

lemma distinct_concat_same:
  assumes "distinct (concat (map f es))" and "a \<in> set es" "b \<in> set es" and "i \<in> set (f a)" "i \<in> set (f b)"
  shows "a = b"
  using assms by (induction es) auto

lemma unique_ids:
  assumes inv: "channel_inv st" and "distinct (all_target_ids st)"
    and "cycle_at st k c" "cycle_at st k' c'" "i \<in> set (target_ids c)" "i \<in> set (target_ids c')"
  shows "k = k'"
proof -
  have "(k, c) \<in> set (cs_cycles st)" "(k', c') \<in> set (cs_cycles st)"
    using assms(3,4) cycles_mem [OF inv] by blast+
  then have "(k, c) = (k', c')"
    using distinct_concat_same [OF assms(2) [unfolded all_target_ids_def], of "(k, c)" "(k', c')" i] assms(5,6) by simp
  then show ?thesis by simp
qed

lemma ids_distinct_before:
  assumes inv: "channel_inv st" "channel_inv st'" and le: "cycles_le st st'" and d: "distinct (all_target_ids st')"
  shows "distinct (all_target_ids st)"
  unfolding all_target_ids_def
proof (rule distinct_concat_keyed)
  show "distinct (map fst (cs_cycles st))"
    using inv(1) by (simp add: channel_inv_def cycles_ok_def hm_wf_def)
  show "distinct (target_ids c)" if "(k, c) \<in> set (cs_cycles st)" for k c
    using that cycles_mem [OF inv(1)] cycle_at_ok [OF inv(1)] by (simp add: cycle_ok_alt)
  fix k c k' c' i
  assume "(k, c) \<in> set (cs_cycles st)" "(k', c') \<in> set (cs_cycles st)" and i: "i \<in> set (target_ids c)" "i \<in> set (target_ids c')"
  then have at: "cycle_at st k c" "cycle_at st k' c'" using cycles_mem [OF inv(1)] by blast+
  obtain e where e: "cycle_at st' k e" "cycle_le c e" using cycle_at_le [OF le at(1)] by blast
  obtain e' where e': "cycle_at st' k' e'" "cycle_le c' e'" using cycle_at_le [OF le at(2)] by blast
  show "k = k'"
  proof (rule unique_ids [OF inv(2) d e(1) e'(1)])
    show "i \<in> set (target_ids e)"
      by (rule target_ids_le [OF cycle_at_ok [OF inv(1) at(1)] cycle_at_ok [OF inv(2) e(1)] e(2) i(1)])
    show "i \<in> set (target_ids e')"
      by (rule target_ids_le [OF cycle_at_ok [OF inv(1) at(2)] cycle_at_ok [OF inv(2) e'(1)] e'(2) i(2)])
  qed
qed

section \<open>A page\<close>

lemma page_cursor_last: "page_cursor after candidates = (if candidates = [] then after else Some (dc_target_id (last candidates)))"
  by (induction candidates rule: rev_induct) (simp_all add: page_cursor_def)

lemma take_drop_cases: "x \<in> set xs \<Longrightarrow> x \<in> set (take n xs) \<or> x \<in> set (drop n xs)"
  by (metis Un_iff append_take_drop_id set_append)

text \<open>Every candidate behind the cursor is on the page or behind the cursor of the next page.\<close>

lemma page_step:
  assumes d: "distinct (map dc_target_id C)" and page: "page = take n (sort_key dc_target_id (filter (\<lambda>d. beyond after (dc_target_id d)) C))"
  shows "\<And>x. x \<in> set page \<Longrightarrow> x \<in> set C \<and> beyond after (dc_target_id x) \<and> \<not> beyond (page_cursor after page) (dc_target_id x)"
    and "\<And>x. x \<in> set C \<Longrightarrow> beyond after (dc_target_id x) \<Longrightarrow> x \<notin> set page \<Longrightarrow>
      length page = n \<and> beyond (page_cursor after page) (dc_target_id x)"
    and "distinct (map dc_target_id page)"
    and "\<And>i. beyond (page_cursor after page) i \<Longrightarrow> beyond after i"
proof -
  let ?L = "sort_key dc_target_id (filter (\<lambda>d. beyond after (dc_target_id d)) C)"
  have "mset (map dc_target_id ?L) = mset (map dc_target_id (filter (\<lambda>d. beyond after (dc_target_id d)) C))"
    by simp
  then have dl: "distinct (map dc_target_id ?L)"
    using distinct_map_filter [OF d, of "\<lambda>d. beyond after (dc_target_id d)"] mset_eq_imp_distinct_iff by blast
  then have L: "sorted_wrt (<) (map dc_target_id ?L)"
    using sorted_sort_key [of dc_target_id] by (simp add: strict_sorted_iff)
  show "distinct (map dc_target_id page)"
    using dl unfolding page take_map [symmetric] by (rule distinct_take)
  have in_page: "x \<in> set C \<and> beyond after (dc_target_id x)" if "x \<in> set page" for x
    using in_set_takeD [OF that [unfolded page]] by simp
  have last: "dc_target_id x \<le> dc_target_id (last page)" if "x \<in> set page" for x
  proof -
    have s: "sorted (map dc_target_id page)"
      unfolding page take_map [symmetric] by (rule sorted_wrt_take) simp
    from that obtain m where m: "m < length page" "x = page ! m" by (metis in_set_conv_nth)
    then have "map dc_target_id page ! m \<le> map dc_target_id page ! (length page - 1)"
      by (intro sorted_nth_mono [OF s]) simp_all
    then show ?thesis
      using m by (cases "page = []") (simp_all add: last_conv_nth)
  qed
  show "x \<in> set C \<and> beyond after (dc_target_id x) \<and> \<not> beyond (page_cursor after page) (dc_target_id x)"
    if "x \<in> set page" for x
    using in_page [OF that] last [OF that] that by (auto simp: page_cursor_last)
  show "length page = n \<and> beyond (page_cursor after page) (dc_target_id x)"
    if x: "x \<in> set C" "beyond after (dc_target_id x)" "x \<notin> set page" for x
  proof -
    have drop: "x \<in> set (drop n ?L)"
      using take_drop_cases [of x ?L n] x page by simp
    then have n: "length page = n"
      unfolding page by (cases "n \<le> length ?L") simp_all
    have "dc_target_id y < dc_target_id x" if "y \<in> set page" for y
    proof -
      have "sorted_wrt (\<lambda>a b. dc_target_id a < dc_target_id b) (take n ?L @ drop n ?L)"
        using L by (simp add: sorted_wrt_map)
      then show ?thesis
        using that drop unfolding page sorted_wrt_append by blast
    qed
    then have "beyond (page_cursor after page) (dc_target_id x)"
      using x(2) by (simp add: page_cursor_last)
    then show ?thesis using n by simp
  qed
  show "beyond after i" if "beyond (page_cursor after page) i" for i
  proof (cases "page = []")
    case False
    then have "beyond after (dc_target_id (last page))" using in_page by simp
    moreover have "dc_target_id (last page) < i"
      using that False by (simp add: page_cursor_last)
    ultimately show ?thesis by (rule beyond_trans)
  qed (use that in \<open>simp add: page_cursor_last\<close>)
qed

text \<open>A full page uses up a hundred identifiers.\<close>

lemma page_uses:
  assumes "finite S" and page: "distinct (map dc_target_id page)" "length page = 100"
    and ids: "\<And>x. x \<in> set page \<Longrightarrow> dc_target_id x \<in> S \<and> beyond after (dc_target_id x) \<and>
      \<not> beyond (page_cursor after page) (dc_target_id x)"
    and further: "\<And>i. beyond (page_cursor after page) i \<Longrightarrow> beyond after i"
  shows "card {i \<in> S. beyond (page_cursor after page) i} + 100 \<le> card {i \<in> S. beyond after i}"
proof -
  let ?P = "dc_target_id ` set page"
  have card: "card ?P = 100"
    using page distinct_card [of "map dc_target_id page"] by simp
  have "{i \<in> S. beyond (page_cursor after page) i} \<inter> ?P = {}" using ids by blast
  moreover have "{i \<in> S. beyond (page_cursor after page) i} \<union> ?P \<subseteq> {i \<in> S. beyond after i}"
    using ids further by blast
  ultimately show ?thesis
    using assms(1) card card_Un_disjoint [of "{i \<in> S. beyond (page_cursor after page) i}" ?P]
      card_mono [of "{i \<in> S. beyond after i}" "{i \<in> S. beyond (page_cursor after page) i} \<union> ?P"] by simp
qed

section \<open>The tick visits every pending target\<close>

text \<open>The operations between the first \<open>m\<close> pages and the rest.\<close>

lemma others_split: "concat others = (case others of [] \<Rightarrow> [] | ops # _ \<Rightarrow> ops) @ concat (tl others)"
  by (cases others) simp_all

text \<open>A candidate that every page of the tick finds pending.\<close>

definition still_pending :: "instant \<Rightarrow> channel_op list list \<Rightarrow> channel_state \<Rightarrow> channel_dispatch_candidate \<Rightarrow> bool" where
  "still_pending due_at others st x \<longleftrightarrow>
     (\<forall>m\<le>length others. x \<in> set (pending_candidates due_at (run_ops channel_exec st (concat (take m others)))))"

lemma still_pending_now: "still_pending due_at others st x \<Longrightarrow> x \<in> set (pending_candidates due_at st)"
  unfolding still_pending_def by (metis concat.simps(1) le0 run_ops.simps(1) take0)

lemma still_pending_later:
  assumes "still_pending due_at others st x"
  shows "still_pending due_at (tl others) (run_ops channel_exec st (case others of [] \<Rightarrow> [] | ops # _ \<Rightarrow> ops)) x"
proof (cases others)
  case Nil
  then show ?thesis using assms by (simp add: still_pending_def)
next
  case (Cons ops rest)
  have "x \<in> set (pending_candidates due_at (run_ops channel_exec st (concat (take (Suc m) others))))" if "m \<le> length rest" for m
    using assms that Cons unfolding still_pending_def by (metis Suc_le_mono length_Cons)
  then show ?thesis
    using Cons unfolding still_pending_def by (simp add: run_ops_append)
qed

lemma tick_visits:
  assumes "channel_inv st" and "ok_ops channel_exec channel_ok st (concat others)"
    and "distinct (all_target_ids (run_ops channel_exec st (concat others)))"
    and "card {i \<in> set (all_target_ids (run_ops channel_exec st (concat others))). beyond after i} < 100 * fuel"
  shows "\<exists>ds st'. dispatch_pending fuel due_at others after st = Some (ds, st') \<and>
    (\<forall>x. still_pending due_at others st x \<and> beyond after (dc_target_id x) \<longrightarrow> x \<in> set ds) \<and>
    distinct (map dc_target_id ds) \<and> (\<forall>d\<in>set ds. beyond after (dc_target_id d))"
  using assms
proof (induction fuel arbitrary: others after st)
  case (Suc fuel)
  let ?F = "run_ops channel_exec st (concat others)"
  let ?ops = "case others of [] \<Rightarrow> [] | ops # _ \<Rightarrow> ops"
  let ?st = "run_ops channel_exec st ?ops"
  note inv = Suc.prems(1)
  have okF: "ok_ops channel_exec channel_ok st ?ops" "ok_ops channel_exec channel_ok ?st (concat (tl others))"
    using Suc.prems(2) unfolding others_split [of others] ok_ops_append by blast+
  have F: "?F = run_ops channel_exec ?st (concat (tl others))"
    unfolding others_split [of others] run_ops_append ..
  have invF: "channel_inv ?F" by (rule channel.inv_run [OF inv Suc.prems(2)])
  have le: "cycles_le st ?F" by (rule channel_le_run [OF inv Suc.prems(2)])
  have d: "distinct (all_target_ids st)" by (rule ids_distinct_before [OF inv invF le Suc.prems(3)])
  let ?C = "pending_candidates due_at st"
  define page where "page = take 100 (sort_key dc_target_id (filter (\<lambda>d. beyond after (dc_target_id d)) ?C))"
  have scan: "scan_pending after due_at 100 st = Inr page"
    by (simp add: scan_pending_page page_def)
  note C = candidates_distinct [OF d, of due_at]
  note step = page_step [OF C(1) page_def]
  have ids: "dc_target_id y \<in> set (all_target_ids ?F)" if "y \<in> set page" for y
    using step(1) [OF that] C(2) ids_grow [OF inv invF le] by auto
  show ?case
  proof (cases "length page < 100")
    case True
    then have "x \<in> set page" if "still_pending due_at others st x" "beyond after (dc_target_id x)" for x
      using step(2) [OF still_pending_now [OF that(1)] that(2)] by auto
    then show ?thesis using True step(1,3) by (auto simp: scan)
  next
    case False
    then have full: "length page = 100" by (simp add: page_def)
    have "card {i \<in> set (all_target_ids ?F). beyond (page_cursor after page) i} + 100 \<le>
        card {i \<in> set (all_target_ids ?F). beyond after i}"
      using step(1,4) ids by (intro page_uses [OF _ step(3) full]) auto
    then have fuel: "card {i \<in> set (all_target_ids (run_ops channel_exec ?st (concat (tl others)))).
        beyond (page_cursor after page) i} < 100 * fuel"
      using Suc.prems(4) unfolding F by simp
    obtain ds st' where ds: "dispatch_pending fuel due_at (tl others) (page_cursor after page) ?st = Some (ds, st')"
      "\<And>x. still_pending due_at (tl others) ?st x \<Longrightarrow> beyond (page_cursor after page) (dc_target_id x) \<Longrightarrow> x \<in> set ds"
      "distinct (map dc_target_id ds)" "\<And>d. d \<in> set ds \<Longrightarrow> beyond (page_cursor after page) (dc_target_id d)"
      using Suc.IH [OF channel.inv_run [OF inv okF(1)] okF(2) Suc.prems(3) [unfolded F] fuel] by blast
    have "dispatch_pending (Suc fuel) due_at others after st = Some (page @ ds, st')"
      using ds(1) full by (simp add: scan)
    moreover have "x \<in> set (page @ ds)" if "still_pending due_at others st x" "beyond after (dc_target_id x)" for x
      using step(2) [OF still_pending_now [OF that(1)] that(2)] ds(2) still_pending_later [OF that(1)] by auto
    moreover have "dc_target_id y \<noteq> dc_target_id z" if "y \<in> set page" "z \<in> set ds" for y z
      using step(1) [OF that(1)] ds(4) [OF that(2)] by auto
    then have "distinct (map dc_target_id (page @ ds))"
      using step(3) ds(3) by fastforce
    moreover have "\<forall>d\<in>set (page @ ds). beyond after (dc_target_id d)"
      using step(1,4) ds(4) by auto
    ultimately show ?thesis by blast
  qed
qed simp

text \<open>C10: Whatever the executed candidates, the runners and the other processes do to the repository in the
  meantime, a tick of the dispatcher ends, within one page per hundred targets, having handed every
  target that stays pending through it to execution, and no target twice.\<close>

theorem every_pending_target_is_dispatched:
  assumes "channel_inv st" and "ok_ops channel_exec channel_ok st (concat others)"
    and "distinct (all_target_ids (run_ops channel_exec st (concat others)))"
    and "length (all_target_ids (run_ops channel_exec st (concat others))) < 100 * fuel"
  shows "\<exists>ds st'. dispatch_pending fuel due_at others None st = Some (ds, st') \<and> distinct (map dc_target_id ds) \<and>
    (\<forall>x. still_pending due_at others st x \<longrightarrow> x \<in> set ds)"
proof -
  have "card {i \<in> set (all_target_ids (run_ops channel_exec st (concat others))). beyond None i} < 100 * fuel"
    using card_length [of "all_target_ids (run_ops channel_exec st (concat others))"] assms(4) by simp
  from tick_visits [OF assms(1-3) this, of due_at] show ?thesis
    by fastforce
qed

definition ex_candidate :: channel_dispatch_candidate where
  "ex_candidate = \<lparr>dc_scope = tenant_scope_new (Ident 1) (Ident 2) (Some (Ident 3)), dc_target_id = 9\<rparr>"

definition ex_others :: "channel_op list list" where
  "ex_others = [[Claim None ex_channel_scope 8 100 20]]"

lemma ex_others_facts:
  "let claimed = run_ops channel_exec ex_planned (concat ex_others) in
   all_target_ids claimed = [8, 9] \<and>
   pending_candidates 20 ex_planned = [\<lparr>dc_scope = tenant_scope_new (Ident 1) (Ident 2) (Some (Ident 3)), dc_target_id = 8\<rparr>,
     \<lparr>dc_scope = tenant_scope_new (Ident 1) (Ident 2) (Some (Ident 3)), dc_target_id = 9\<rparr>] \<and>
   pending_candidates 20 claimed = [ex_candidate]"
  unfolding ex_others_def concat.simps append.simps run_ops.simps channel_exec.simps by code_simp

theorem every_pending_target_is_dispatched_witness:
  "\<exists>ds st'. dispatch_pending 1 20 ex_others None ex_planned = Some (ds, st') \<and> ex_candidate \<in> set ds"
proof -
  let ?claimed = "run_ops channel_exec ex_planned (concat ex_others)"
  have ids: "all_target_ids ?claimed = [8, 9]"
    and p: "ex_candidate \<in> set (pending_candidates 20 ex_planned)" "ex_candidate \<in> set (pending_candidates 20 ?claimed)"
    using ex_others_facts by (simp_all add: Let_def ex_candidate_def)
  have ok: "ok_ops channel_exec channel_ok ex_planned (concat ex_others)"
    by (simp add: ex_others_def)
  have "still_pending 20 ex_others ex_planned ex_candidate"
    unfolding still_pending_def
  proof (intro allI impI)
    fix m assume "m \<le> length ex_others"
    then have "m = 0 \<or> take m ex_others = ex_others" by (cases m) (simp_all add: ex_others_def)
    then show "ex_candidate \<in> set (pending_candidates 20 (run_ops channel_exec ex_planned (concat (take m ex_others))))"
      using p by auto
  qed
  moreover have "length (all_target_ids ?claimed) < 100 * 1" "distinct (all_target_ids ?claimed)"
    unfolding ids by simp_all
  ultimately show ?thesis
    using every_pending_target_is_dispatched [OF ex_planned_inv ok, of 1 20] by blast
qed

end
