(* ===== verification/Channel_Board.thy ===== *)
theory Channel_Board
  imports Channel_Dispatch
begin

text \<open>
  What the channel repository promises to its clients, without cycles, plans, hash maps or ledgers: a
  board of targets per project, each open, claimed under one attempt or settled with an outcome. Every
  operation of the repository is one step of the board.
\<close>

section \<open>The board\<close>

datatype phase = Open | Claimed uuid | Settled uuid channel_outcome

type_synonym board = "project_key \<Rightarrow> uuid \<Rightarrow> (channel_target \<times> phase) option"

text \<open>An account of an operator is busy while a publication of it is claimed, in whatever project.\<close>

definition busy :: "board \<Rightarrow> uuid \<Rightarrow> uuid \<Rightarrow> bool" where
  "busy b operator account \<longleftrightarrow> (\<exists>key i t a. fst key = operator \<and> b key i = Some (t, Claimed a) \<and>
     is_publication (ct_input t) \<and> input_account_id (ct_input t) = account)"

definition put :: "project_key \<Rightarrow> uuid \<Rightarrow> channel_target \<times> phase \<Rightarrow> board \<Rightarrow> board" where
  "put key i v b = (\<lambda>key' i'. if key' = key \<and> i' = i then Some v else b key' i')"

definition publish :: "project_key \<Rightarrow> channel_target list \<Rightarrow> board \<Rightarrow> board" where
  "publish key ts b = (\<lambda>key' i. if key' = key
     then (case plan_target ts i of None \<Rightarrow> b key' i | Some t \<Rightarrow> Some (t, Open)) else b key' i)"

inductive board_step :: "board \<Rightarrow> board \<Rightarrow> bool" where
  board_keep: "board_step b b"
| board_publish: "distinct (map ct_target_id ts) \<Longrightarrow> (\<And>t. t \<in> set ts \<Longrightarrow> b key (ct_target_id t) = None) \<Longrightarrow>
    board_step b (publish key ts b)"
| board_claim: "b key i = Some (t, Open) \<Longrightarrow>
    (is_publication (ct_input t) \<Longrightarrow> \<not> busy b (fst key) (input_account_id (ct_input t))) \<Longrightarrow>
    board_step b (put key i (t, Claimed a) b)"
| board_settle: "b key i = Some (t, Claimed a) \<Longrightarrow> \<not> (is_rich (ct_input t) \<and> oc_status outcome = OsVerified) \<Longrightarrow>
    board_step b (put key i (t, Settled a outcome) b)"

section \<open>The board of a repository\<close>

definition phase_of :: "channel_attempt list option \<Rightarrow> phase" where
  "phase_of attempts = (case attempts of None \<Rightarrow> Open | Some [] \<Rightarrow> Open
     | Some (a # _) \<Rightarrow> (case at_outcome a of None \<Rightarrow> Claimed (at_attempt_id a)
         | Some o1 \<Rightarrow> Settled (at_attempt_id a) o1))"

definition entry_of :: "memory_cycle \<Rightarrow> uuid \<Rightarrow> (channel_target \<times> phase) option" where
  "entry_of c i = map_option (\<lambda>t. (t, phase_of (hm_get (mc_attempts c) i))) (cycle_target c i)"

definition board_of :: "channel_state \<Rightarrow> board" where
  "board_of st = (\<lambda>key i. case find_cycle key i st of None \<Rightarrow> None | Some (_, c) \<Rightarrow> entry_of c i)"

lemma phase_of_simps [simp]:
  "phase_of None = Open" "at_outcome a = None \<Longrightarrow> phase_of (Some [a]) = Claimed (at_attempt_id a)"
  "at_outcome a = Some o1 \<Longrightarrow> phase_of (Some [a]) = Settled (at_attempt_id a) o1"
  by (simp_all add: phase_of_def)

lemma entry_of_None [simp]: "entry_of c i = None \<longleftrightarrow> cycle_target c i = None"
  by (simp add: entry_of_def)

lemma board_at:
  assumes "channel_inv st" and "cycle_at st k c" and "cycle_target c i \<noteq> None"
  shows "board_of st (fst k) i = entry_of c i"
  using assms find_cycle_iff [OF assms(1), of "fst k" i k c] by (simp add: board_of_def)

lemma board_entry:
  assumes "channel_inv st"
  shows "board_of st key i = Some e \<longleftrightarrow> (\<exists>k c. cycle_at st k c \<and> fst k = key \<and> entry_of c i = Some e)"
proof
  assume "board_of st key i = Some e"
  then obtain k c where "find_cycle key i st = Some (k, c)" "entry_of c i = Some e"
    by (auto simp: board_of_def split: option.splits)
  then show "\<exists>k c. cycle_at st k c \<and> fst k = key \<and> entry_of c i = Some e"
    using find_cycle_iff [OF assms] by blast
next
  assume "\<exists>k c. cycle_at st k c \<and> fst k = key \<and> entry_of c i = Some e"
  then obtain k c where "cycle_at st k c" "fst k = key" "entry_of c i = Some e" by blast
  then show "board_of st key i = Some e"
    using board_at [OF assms, of k c i] entry_of_None [of c i] by simp
qed

lemma cycle_target_cong:
  "mc_plan d = mc_plan c \<Longrightarrow> mc_measurement d = mc_measurement c \<Longrightarrow> mc_generated d = mc_generated c \<Longrightarrow>
    cycle_target d = cycle_target c"
  by (rule ext) (simp only: cycle_target_def)

lemma board_none:
  assumes "channel_inv st"
  shows "board_of st key i = None \<longleftrightarrow> (\<forall>k c. cycle_at st k c \<and> fst k = key \<longrightarrow> cycle_target c i = None)"
proof
  assume none: "board_of st key i = None"
  show "\<forall>k c. cycle_at st k c \<and> fst k = key \<longrightarrow> cycle_target c i = None"
  proof (intro allI impI)
    fix k c assume "cycle_at st k c \<and> fst k = key"
    then show "cycle_target c i = None"
      using board_at [OF assms, of k c i] none entry_of_None [of c i] by fastforce
  qed
next
  assume all: "\<forall>k c. cycle_at st k c \<and> fst k = key \<longrightarrow> cycle_target c i = None"
  show "board_of st key i = None"
  proof (cases "find_cycle key i st")
    case (Some p)
    then have "cycle_at st (fst p) (snd p)" "fst (fst p) = key" "cycle_target (snd p) i \<noteq> None"
      using find_cycle_iff [OF assms, of key i "fst p" "snd p"] by simp_all
    then have False using all [rule_format, of "fst p" "snd p"] by simp
    then show ?thesis ..
  qed (simp add: board_of_def)
qed

section \<open>Replacing one cycle\<close>

lemma board_insert:
  assumes inv: "channel_inv st" "channel_inv st'" and m: "cs_cycles st' = hm_insert k c' (cs_cycles st)"
    and c: "cycle_or_new st k c" and keep: "\<And>i. cycle_target c i \<noteq> None \<Longrightarrow> cycle_target c' i \<noteq> None"
  shows "board_of st' key i = (if key = fst k \<and> cycle_target c' i \<noteq> None then entry_of c' i else board_of st key i)"
proof (cases "key = fst k \<and> cycle_target c' i \<noteq> None")
  case True
  have "cycle_at st' k c'" by (simp add: cycle_at_def m)
  then show ?thesis using True board_at [OF inv(2)] by simp
next
  case False
  have at: "cycle_at st' k1 d \<longleftrightarrow> (if k1 = k then d = c' else cycle_at st k1 d)" for k1 d
    unfolding cycle_at_def m by auto
  have new: "cycle_target c' i = None" if "key = fst k" using False that by simp
  have old: "cycle_target d i = None" if "key = fst k" "cycle_at st k d" for d
  proof -
    have "d = c" using that(2) c by (auto simp: cycle_or_new_def cycle_at_def)
    then show ?thesis using keep [of i] new [OF that(1)] by blast
  qed
  have "board_of st' key i = Some e \<longleftrightarrow> board_of st key i = Some e" for e
    unfolding board_entry [OF inv(1)] board_entry [OF inv(2)] at
    by (metis entry_of_None new old option.distinct(1))
  then have "board_of st' key i = board_of st key i"
    by (metis not_None_eq)
  then show ?thesis using False by (simp only: if_False)
qed

text \<open>A cycle whose targets and attempts stay leaves the board as it is.\<close>

lemma board_same:
  assumes inv: "channel_inv st" "channel_inv st'" and m: "cs_cycles st' = hm_insert k c' (cs_cycles st)"
    and c: "cycle_at st k c" and t: "cycle_target c' = cycle_target c" and a: "mc_attempts c' = mc_attempts c"
  shows "board_of st' = board_of st"
proof (intro ext)
  fix key i
  have "entry_of c' i = entry_of c i" by (simp add: entry_of_def t a)
  then show "board_of st' key i = board_of st key i"
    using board_insert [OF inv m, of c key i] c t board_at [OF inv(1) c, of i] by (auto simp: cycle_or_new_def)
qed

text \<open>New targets without attempts appear open.\<close>

lemma board_extend:
  assumes inv: "channel_inv st" "channel_inv st'" and m: "cs_cycles st' = hm_insert k c' (cs_cycles st)"
    and c: "cycle_or_new st k c" and fresh: "fresh_targets (fst k) ts st"
    and t: "\<And>i. cycle_target c' i = (case plan_target ts i of None \<Rightarrow> cycle_target c i | Some t \<Rightarrow> Some t)"
    and a: "mc_attempts c' = mc_attempts c"
  shows "board_step (board_of st) (board_of st')"
proof -
  have ok: "cycle_ok c" using cycle_or_new_ok [OF inv(1) [unfolded channel_inv_def] c] .
  have none: "cycle_target c i = None \<and> hm_get (mc_attempts c) i = None" if p: "plan_target ts i = Some t1" for i t1
  proof -
    have t1: "t1 \<in> set ts" "ct_target_id t1 = i"
      using find_SomeD [OF p [unfolded plan_target_def]] by simp_all
    have "i \<notin> set (target_ids c)"
      using fresh_ids [OF inv(1) [unfolded channel_inv_def] fresh c] t1 by auto
    then show ?thesis
      using knows_none [OF ok] ok unfolding cycle_ok_alt attempts_ok_def by (metis option.exhaust)
  qed
  have "board_of st' = publish (fst k) ts (board_of st)"
  proof (intro ext)
    fix key i
    have ins: "board_of st' key i = (if key = fst k \<and> cycle_target c' i \<noteq> None then entry_of c' i else board_of st key i)"
      by (rule board_insert [OF inv m c]) (simp add: t split: option.split)
    show "board_of st' key i = publish (fst k) ts (board_of st) key i"
    proof (cases "plan_target ts i")
      case None
      have "entry_of c i = board_of st (fst k) i" if "cycle_target c i \<noteq> None"
      proof -
        have "cycle_at st k c"
          using c that by (auto simp: cycle_or_new_def empty_cycle_def cycle_target_def)
        then show ?thesis using board_at [OF inv(1) _ that] by simp
      qed
      then show ?thesis
        using None unfolding ins by (auto simp: publish_def t a entry_of_def)
    next
      case (Some t1)
      then show ?thesis
        using none [OF Some] unfolding ins by (simp add: publish_def t a entry_of_def)
    qed
  qed
  moreover have "board_of st (fst k) (ct_target_id t1) = None" if "t1 \<in> set ts" for t1
    unfolding board_none [OF inv(1)] using freshD [OF fresh that] by blast
  ultimately show ?thesis
    using fresh by (auto simp: fresh_targets_def intro: board_publish)
qed

section \<open>Claims and outcomes\<close>

lemma board_put:
  assumes inv: "channel_inv st" "channel_inv st'" and m: "cs_cycles st' = hm_insert k c' (cs_cycles st)"
    and c: "cycle_at st k c" and t: "cycle_target c' = cycle_target c" "cycle_target c i = Some t"
    and a: "mc_attempts c' = hm_insert i [a] (mc_attempts c)"
  shows "board_of st' = put (fst k) i (t, phase_of (Some [a])) (board_of st)"
proof (intro ext)
  fix key j
  have ins: "board_of st' key j = (if key = fst k \<and> cycle_target c j \<noteq> None then entry_of c' j else board_of st key j)"
    using board_insert [OF inv m, of c key j] c t(1) by (simp add: cycle_or_new_def)
  have "entry_of c' j = entry_of c j" if "j \<noteq> i" using that by (simp add: entry_of_def t(1) a)
  moreover have "entry_of c' i = Some (t, phase_of (Some [a]))" by (simp add: entry_of_def t a)
  ultimately show "board_of st' key j = put (fst k) i (t, phase_of (Some [a])) (board_of st) key j"
    using ins t(2) board_at [OF inv(1) c, of j] by (auto simp: put_def)
qed

text \<open>The claims of the board are the publications that are in flight.\<close>

lemma busy_board:
  assumes inv: "channel_inv st" and "busy (board_of st) operator account"
  shows "publication_in_flight operator account st"
proof -
  obtain key i t a where b: "fst key = operator" "board_of st key i = Some (t, Claimed a)" "is_publication (ct_input t)"
      "input_account_id (ct_input t) = account"
    using assms(2) unfolding busy_def by blast
  then obtain k c where c: "cycle_at st k c" "fst k = key" "entry_of c i = Some (t, Claimed a)"
    unfolding board_entry [OF inv] by blast
  then have t: "cycle_target c i = Some t" and p: "phase_of (hm_get (mc_attempts c) i) = Claimed a"
    by (auto simp: entry_of_def)
  note ok = cycle_at_ok [OF inv c(1)]
  have i: "ct_target_id t = i" by (rule cycle_target_id [OF ok t])
  obtain x where x: "hm_get (mc_attempts c) i = Some [x]" "attempt_ok i x"
  proof (cases "hm_get (mc_attempts c) i")
    case None
    then show ?thesis using p by simp
  next
    case (Some xs)
    then show ?thesis
      using ok that unfolding cycle_ok_alt attempts_ok_def by blast
  qed
  then have "at_received_at x = None"
    using p by (cases "at_outcome x") (simp_all add: attempt_ok_def)
  then have "in_flight account c t"
    using b(3,4) x(1) i by (simp add: in_flight_def)
  then have "flying operator account st k i"
    using c t b(1) unfolding flying_def by blast
  then have "(k, i) \<in> set (flights operator account st)"
    unfolding flights_iff [OF inv] .
  then show ?thesis
    unfolding publication_in_flight_iff by (cases "flights operator account st") simp_all
qed

section \<open>The refinement\<close>

lemma board_refines_step:
  assumes "cycles_step st (cs_cycles st')" and inv: "channel_inv st" and inv': "channel_inv st'"
  shows "board_step (board_of st) (board_of st')"
  using assms(1)
proof (cases rule: cycles_step.cases)
  case step_keep
  then have "board_of st' = board_of st" by (simp add: board_of_def find_cycle_def)
  then show ?thesis by (simp add: board_keep)
next
  case (step_plan k c p)
  have ok: "cycle_ok c" using cycle_or_new_ok [OF inv [unfolded channel_inv_def] step_plan(2)] .
  have none: "cycle_target c i = None" if "plan_target (cp_targets p) i = Some t" for i t
    using find_SomeD [OF that [unfolded plan_target_def]] fresh_ids [OF inv [unfolded channel_inv_def] step_plan(4,2)]
    by (intro knows_none [OF ok]) auto
  have "cycle_target (c\<lparr>mc_plan := Some p\<rparr>) i =
      (case plan_target (cp_targets p) i of None \<Rightarrow> cycle_target c i | Some t \<Rightarrow> Some t)" for i
  proof (cases "plan_target (cp_targets p) i")
    case (Some t)
    then show ?thesis using none [OF Some] by (auto simp: cycle_target_def split: option.splits)
  qed (simp add: cycle_target_def step_plan(3) split: option.split)
  then show ?thesis
    by (intro board_extend [OF inv inv' step_plan(1,2,4)]) simp_all
next
  case (step_generated k c t)
  have ok: "cycle_ok c" using cycle_or_new_ok [OF inv [unfolded channel_inv_def] step_generated(2)] .
  have "cycle_target (c\<lparr>mc_generated := hm_insert (ct_target_id t) t (mc_generated c)\<rparr>) i =
      (case plan_target [t] i of None \<Rightarrow> cycle_target c i | Some t \<Rightarrow> Some t)" for i
    by (auto simp: cycle_target_def plan_target_def split: option.splits)
  then show ?thesis
    by (intro board_extend [OF inv inv' step_generated(1,2,3)]) simp_all
next
  case (step_measurement k p r)
  have c: "cycle_or_new st k empty_cycle" using step_measurement(2) by (simp add: cycle_or_new_def)
  show ?thesis
    by (rule board_extend [OF inv inv' step_measurement(1) c step_measurement(3)])
       (simp_all add: cycle_target_def empty_cycle_def split: option.split)
next
  case (step_claim k c t a j at w)
  note ok = cycle_at_ok [OF inv step_claim(2)]
  have att: "mc_attempts (record_claim t a w c) = hm_insert (ct_target_id t) [a] (mc_attempts c)"
    by (rule record_claim_attempts [OF ok step_claim(4)])
  have "cycle_target (record_claim t a w c) = cycle_target c"
    by (rule cycle_target_cong) simp_all
  from board_put [OF inv inv' step_claim(1,2) this step_claim(3) att]
  have "board_of st' = put (fst k) (ct_target_id t) (t, Claimed j) (board_of st)"
    using step_claim(6) by simp
  moreover have "board_of st (fst k) (ct_target_id t) = Some (t, Open)"
    using board_at [OF inv step_claim(2), of "ct_target_id t"] step_claim(3,4) unattempted_none [OF ok]
    by (simp add: entry_of_def)
  moreover have "\<not> busy (board_of st) (fst (fst k)) (input_account_id (ct_input t))" if "is_publication (ct_input t)"
    using step_claim(5) [OF that] busy_board [OF inv] by blast
  ultimately show ?thesis by (simp add: board_claim)
next
  case (step_finish k c i t attempts j a o1 received)
  note ok = cycle_at_ok [OF inv step_finish(2)]
  note single = finished_single [OF ok step_finish(4,5)]
  let ?c = "c\<lparr>mc_attempts := hm_insert i [finished (admitted_outcome c t j o1) received a] (mc_attempts c)\<rparr>"
  have "cycle_target ?c = cycle_target c" by (rule cycle_target_cong) simp_all
  from board_put [OF inv inv' step_finish(1) [unfolded single(3)] step_finish(2) this step_finish(3), of "finished (admitted_outcome c t j o1) received a"]
  have "board_of st' = put (fst k) i (t, Settled (at_attempt_id a) (admitted_outcome c t j o1)) (board_of st)"
    by (simp add: finished_def)
  moreover have "board_of st (fst k) i = Some (t, Claimed (at_attempt_id a))"
    using board_at [OF inv step_finish(2), of i] step_finish(3,4,6) single(1) by (simp add: entry_of_def)
  moreover have "\<not> (is_rich (ct_input t) \<and> oc_status (admitted_outcome c t j o1) = OsVerified)"
    by (auto simp: admitted_outcome_def)
  ultimately show ?thesis by (simp add: board_settle)
next
  case (step_interrupt now)
  have at: "cycle_at st' k d \<longleftrightarrow> (\<exists>c. cycle_at st k c \<and> d = c\<lparr>mc_withdrawals := map_vals (interrupt_stale now) (mc_withdrawals c)\<rparr>)" for k d
    by (auto simp: cycle_at_def step_interrupt map_vals_get)
  have same: "entry_of (c\<lparr>mc_withdrawals := w\<rparr>) i = entry_of c i" for c w i
    by (simp add: entry_of_def cycle_target_cong [of "c\<lparr>mc_withdrawals := w\<rparr>" c])
  have "board_of st' key i = Some e \<longleftrightarrow> board_of st key i = Some e" for key i e
    unfolding board_entry [OF inv] board_entry [OF inv'] at using same by metis
  then have "board_of st' = board_of st"
    by (intro ext) (metis not_None_eq)
  then show ?thesis by (simp add: board_keep)
next
  case (step_binding k c i b)
  have "board_of st' = board_of st"
    by (rule board_same [OF inv inv' step_binding(1,2)], rule cycle_target_cong) simp_all
  then show ?thesis by (simp add: board_keep)
next
  case (step_register k c i r)
  have "board_of st' = board_of st"
    by (rule board_same [OF inv inv' step_register(1,2)], rule cycle_target_cong) simp_all
  then show ?thesis by (simp add: board_keep)
next
  case (step_authorize k c i r now)
  have "board_of st' = board_of st"
    by (rule board_same [OF inv inv' step_authorize(1,2)], rule cycle_target_cong) simp_all
  then show ?thesis by (simp add: board_keep)
next
  case (step_withdrawal k c i w w')
  have "board_of st' = board_of st"
    by (rule board_same [OF inv inv' step_withdrawal(1,2)], rule cycle_target_cong) simp_all
  then show ?thesis by (simp add: board_keep)
qed

text \<open>What the board guarantees by itself: an account has at most one claimed publication.\<close>

definition occupies :: "board \<Rightarrow> project_key \<Rightarrow> uuid \<Rightarrow> channel_target \<Rightarrow> bool" where
  "occupies b key i t \<longleftrightarrow> is_publication (ct_input t) \<and> (\<exists>a. b key i = Some (t, Claimed a))"

definition exclusive :: "board \<Rightarrow> bool" where
  "exclusive b \<longleftrightarrow> (\<forall>key i t key' i' t'. occupies b key i t \<and> occupies b key' i' t' \<and> fst key = fst key' \<and>
     input_account_id (ct_input t) = input_account_id (ct_input t') \<longrightarrow> key = key' \<and> i = i')"

lemma exclusiveD:
  "exclusive b \<Longrightarrow> occupies b key i t \<Longrightarrow> occupies b key' i' t' \<Longrightarrow> fst key = fst key' \<Longrightarrow>
    input_account_id (ct_input t) = input_account_id (ct_input t') \<Longrightarrow> key = key' \<and> i = i'"
  unfolding exclusive_def by blast

lemma exclusive_mono: "exclusive b \<Longrightarrow> (\<And>key i t. occupies b' key i t \<Longrightarrow> occupies b key i t) \<Longrightarrow> exclusive b'"
  unfolding exclusive_def by blast

lemma occupies_busy:
  "occupies b key i t \<Longrightarrow> fst key = operator \<Longrightarrow> input_account_id (ct_input t) = account \<Longrightarrow> busy b operator account"
  unfolding occupies_def busy_def by blast

lemma occupies_claim:
  "occupies (put key i (t, Claimed a) b) key' i' t' \<longleftrightarrow>
     (if key' = key \<and> i' = i then t' = t \<and> is_publication (ct_input t) else occupies b key' i' t')"
  by (auto simp: occupies_def put_def)

lemma board_stays_exclusive: "board_step b b' \<Longrightarrow> exclusive b \<Longrightarrow> exclusive b'"
proof (induction rule: board_step.induct)
  case (board_publish ts b key)
  have "occupies (publish key ts b) key' i t \<Longrightarrow> occupies b key' i t" for key' i t
    by (auto simp: occupies_def publish_def split: if_splits option.splits)
  with board_publish(3) show ?case by (rule exclusive_mono)
next
  case (board_claim b key i t a)
  let ?b = "put key i (t, Claimed a) b"
  have free: "\<not> (occupies b key' i' t' \<and> fst key' = fst key \<and> input_account_id (ct_input t') = input_account_id (ct_input t))"
    if "is_publication (ct_input t)" for key' i' t'
    using board_claim(2) [OF that] occupies_busy by blast
  show ?case
    unfolding exclusive_def
  proof (intro allI impI, elim conjE)
    fix key1 i1 t1 key2 i2 t2
    assume "occupies ?b key1 i1 t1" "occupies ?b key2 i2 t2" and same: "fst key1 = fst key2"
      "input_account_id (ct_input t1) = input_account_id (ct_input t2)"
    then consider "key1 = key" "i1 = i" "key2 = key" "i2 = i" | "occupies b key1 i1 t1" "occupies b key2 i2 t2"
      | "key1 = key" "t1 = t" "is_publication (ct_input t)" "occupies b key2 i2 t2"
      | "key2 = key" "t2 = t" "is_publication (ct_input t)" "occupies b key1 i1 t1"
      unfolding occupies_claim by (metis (full_types))
    then show "key1 = key2 \<and> i1 = i2"
    proof cases
      case 2
      then show ?thesis using exclusiveD [OF board_claim(3)] same by blast
    next
      case 3
      then show ?thesis using free [of key2 i2 t2] same by simp
    next
      case 4
      then show ?thesis using free [of key1 i1 t1] same by simp
    qed simp
  qed
next
  case (board_settle b key i t a outcome)
  have "occupies (put key i (t, Settled a outcome) b) key' i' t' \<Longrightarrow> occupies b key' i' t'" for key' i' t'
    by (auto simp: occupies_def put_def split: if_splits)
  with board_settle(3) show ?case by (rule exclusive_mono)
qed

text \<open>C3: The channel repository implements the board: from the empty board on, every operation of every
  history is one step of it, so that targets only appear open, are claimed once and only while their
  account is free, and are settled once.\<close>

theorem repository_refines_board:
  assumes "ok_ops channel_exec channel_ok channel_empty (ops @ [op])"
  shows "board_step\<^sup>*\<^sup>* (\<lambda>_ _. None) (board_of (run_ops channel_exec channel_empty ops)) \<and>
    board_step (board_of (run_ops channel_exec channel_empty ops)) (board_of (run_ops channel_exec channel_empty (ops @ [op])))"
proof -
  have step: "board_step (board_of st) (board_of (channel_exec st op))" if "channel_inv st" "channel_ok st op" for st op
    using board_refines_step [OF channel_exec_step [OF that(1) [unfolded channel_inv_def] that(2)] that(1) channel.inv_exec [OF that]] .
  have run: "board_step\<^sup>*\<^sup>* (board_of st) (board_of (run_ops channel_exec st ops))"
    if "channel_inv st" "ok_ops channel_exec channel_ok st ops" for st ops
    using that
  proof (induction ops arbitrary: st)
    case (Cons op ops)
    then show ?case
      using step [of st op] channel.inv_exec [of st op] converse_rtranclp_into_rtranclp [of board_step] by simp
  qed simp
  have ok: "ok_ops channel_exec channel_ok channel_empty ops" "channel_ok (run_ops channel_exec channel_empty ops) op"
    using assms by (simp_all add: ok_ops_append)
  have "board_of channel_empty = (\<lambda>_ _. None)"
    by (intro ext) (simp add: board_of_def find_cycle_def channel_empty_def)
  then show ?thesis
    using run [OF channel_inv_empty ok(1)] step [OF channel.inv_run [OF channel_inv_empty ok(1)] ok(2)]
    by (simp add: run_ops_append)
qed

lemma ex_plan_ok: "channel_ok channel_empty (CreatePlan ex_channel_scope ex_plan)"
proof -
  have "scope_key ex_channel_scope = Inr (1, 2, 3)"
    by (rule ex_scope_key)
  moreover have "fresh_targets (1, 2, 3) (cp_targets ex_plan) channel_empty"
    by (simp add: fresh_targets_def ex_plan_def ex_publish_def channel_empty_def)
  ultimately show ?thesis by auto
qed

theorem repository_refines_board_witness:
  "board_step (board_of ex_planned) (board_of (channel_exec ex_planned (Claim None ex_channel_scope 8 100 20))) \<and>
   board_of ex_planned (1, 2, 3) 8 = Some (ex_publish 8, Open) \<and>
   board_of (channel_exec ex_planned (Claim None ex_channel_scope 8 100 20)) (1, 2, 3) 8 = Some (ex_publish 8, Claimed 100)"
proof (intro conjI)
  have "ok_ops channel_exec channel_ok channel_empty ([CreatePlan ex_channel_scope ex_plan] @ [Claim None ex_channel_scope 8 100 20])"
    using ex_plan_ok by simp
  from repository_refines_board [OF this]
  show "board_step (board_of ex_planned) (board_of (channel_exec ex_planned (Claim None ex_channel_scope 8 100 20)))"
    by (simp add: ex_planned_def)
  show "board_of ex_planned (1, 2, 3) 8 = Some (ex_publish 8, Open)"
    by code_simp
  show "board_of (channel_exec ex_planned (Claim None ex_channel_scope 8 100 20)) (1, 2, 3) 8 = Some (ex_publish 8, Claimed 100)"
    unfolding channel_exec.simps by code_simp
qed

section \<open>Well-formed views\<close>

text \<open>C40: Whatever the history, the view of a target is well formed: it carries the identifier it was asked for,
  has at most one attempt, and each attempt names that target and has a receipt exactly when it has an
  outcome.\<close>

theorem target_views_are_well_formed:
  assumes ops: "ok_ops channel_exec channel_ok channel_empty ops"
    and v: "get_target scope i (run_ops channel_exec channel_empty ops) = Inr v"
  shows "ct_target_id (tv_target v) = i \<and> length (tv_attempts v) \<le> 1 \<and>
    list_all (\<lambda>a. at_target_id a = i \<and> (at_received_at a = None \<longleftrightarrow> at_outcome a = None)) (tv_attempts v)"
proof -
  let ?st = "run_ops channel_exec channel_empty ops"
  have inv: "channel_inv ?st" by (rule channel.inv_run [OF channel_inv_empty ops])
  obtain key k c t where c: "find_cycle key i ?st = Some (k, c)" "cycle_target c i = Some t"
      "v = \<lparr>tv_target = t, tv_attempts = (case hm_get (mc_attempts c) i of None \<Rightarrow> [] | Some attempts \<Rightarrow> attempts)\<rparr>"
    using v get_target_Inr [OF inv] by blast
  have ok: "cycle_ok c"
    using c(1) find_cycle_iff [OF inv] cycle_at_ok [OF inv] by blast
  have "ct_target_id t = i" by (rule cycle_target_id [OF ok c(2)])
  moreover have "length xs \<le> 1 \<and> list_all (\<lambda>a. at_target_id a = i \<and> (at_received_at a = None \<longleftrightarrow> at_outcome a = None)) xs"
    if "hm_get (mc_attempts c) i = Some xs" for xs
    using ok that unfolding cycle_ok_alt attempts_ok_def attempt_ok_def by fastforce
  ultimately show ?thesis
    using c(3) by (auto split: option.split)
qed

theorem target_views_are_well_formed_witness:
  "ct_target_id (ex_publish 8) = 8 \<and> length [ex_attempt] \<le> 1 \<and> at_target_id ex_attempt = 8"
proof -
  have "ok_ops channel_exec channel_ok channel_empty (CreatePlan ex_channel_scope ex_plan # ex_claims)"
    using ex_plan_ok ex_claims_ok by simp
  moreover have "get_target ex_channel_scope 8 (run_ops channel_exec channel_empty (CreatePlan ex_channel_scope ex_plan # ex_claims)) =
      Inr \<lparr>tv_target = ex_publish 8, tv_attempts = [ex_attempt]\<rparr>"
    using ex_published_target by (simp add: ex_published_def ex_planned_def)
  ultimately show ?thesis
    using target_views_are_well_formed [of "CreatePlan ex_channel_scope ex_plan # ex_claims" ex_channel_scope 8
      "\<lparr>tv_target = ex_publish 8, tv_attempts = [ex_attempt]\<rparr>"] by simp
qed

end
