(* ===== verification/Auth.thy ===== *)
theory Auth
  imports Publication_Types Machines
begin

text \<open>
  Authentication (\<open>accounts/auth.rs\<close>, \<open>projects/appearance.rs\<close>): roles, users, memberships and sessions,
  and \<open>MemoryAuthRepository\<close> with every operation of \<open>AuthRepository\<close>. The Argon2 functions and the bytes
  of the random number generator are parameters; SHA-256 is that of \<open>codecs\<close>.
\<close>

section \<open>Texts\<close>

definition ascii_lower :: "nat \<Rightarrow> nat" where
  "ascii_lower c = (if is_ascii_uppercase c then c + 32 else c)"

definition ascii_upper :: "nat \<Rightarrow> nat" where
  "ascii_upper c = (if 97 \<le> c \<and> c \<le> 122 then c - 32 else c)"

definition normalize_host :: "str \<Rightarrow> str" where
  "normalize_host host = map ascii_lower (rev (dropWhile (\<lambda>c. c = 46) (rev (trim host))))"

definition normalize_email :: "str \<Rightarrow> str result" where
  "normalize_email email =
     (let e = map ascii_lower (trim email) in
      if e = [] \<or> byte_len e > 320 \<or> 64 \<notin> set e
      then Inl (invalid_request (lit ''email must be a valid address'')) else Inr e)"

definition validate_account_text :: "str \<Rightarrow> str \<Rightarrow> nat \<Rightarrow> str result" where
  "validate_account_text field value limit =
     (let v = trim value in
      if v = [] then Inl (invalid_request (field @ lit '' must not be empty''))
      else if length v > limit then Inl (invalid_request (field @ lit '' must be at most '' @ show_nat limit @ lit '' characters''))
      else Inr v)"

section \<open>Roles, users, memberships\<close>

datatype role = CustomerAdmin | CustomerMember | CustomerReadOnly | OperatorRole | ResourceAdmin | OemAdmin

fun role_as_str :: "role \<Rightarrow> str" where
  "role_as_str CustomerAdmin = lit ''customer_admin''"
| "role_as_str CustomerMember = lit ''customer_member''"
| "role_as_str CustomerReadOnly = lit ''customer_read_only''"
| "role_as_str OperatorRole = lit ''operator''"
| "role_as_str ResourceAdmin = lit ''resource_admin''"
| "role_as_str OemAdmin = lit ''oem_admin''"

definition role_parse :: "str \<Rightarrow> role result" where
  "role_parse value =
     (if value = lit ''customer_admin'' then Inr CustomerAdmin
      else if value = lit ''customer_member'' then Inr CustomerMember
      else if value = lit ''customer_read_only'' then Inr CustomerReadOnly
      else if value = lit ''operator'' then Inr OperatorRole
      else if value = lit ''resource_admin'' then Inr ResourceAdmin
      else if value = lit ''oem_admin'' then Inr OemAdmin
      else Inl (app_error_new Internal (lit ''invalid role in database: '' @ value)))"

definition can_write :: "role \<Rightarrow> bool" where
  "can_write r \<longleftrightarrow> r \<noteq> CustomerReadOnly"

record operator_record =
  or_id :: operator_id
  or_slug :: str
  or_display_name :: str
  or_created_at :: instant
  or_updated_at :: instant

definition operator_new :: "draws \<Rightarrow> operator_id \<Rightarrow> str \<Rightarrow> str \<Rightarrow> operator_record result" where
  "operator_new d i slug display_name =
     rbind (validate_account_text (lit ''slug'') slug 100) (\<lambda>slug'.
     rbind (validate_account_text (lit ''display_name'') display_name 200) (\<lambda>name.
       Inr \<lparr>or_id = i, or_slug = slug', or_display_name = name, or_created_at = now_at d 0, or_updated_at = now_at d 0\<rparr>))"

text \<open>What Argon2 provides: hashing under a drawn salt, and verification, \<open>None\<close> when the stored hash does not
  parse.\<close>

record argon =
  ar_hash :: "str \<Rightarrow> str option"
  ar_verify :: "str \<Rightarrow> str \<Rightarrow> bool option"

record user =
  us_id :: uuid
  us_operator_id :: operator_id
  us_email :: str
  us_display_name :: str
  us_active :: bool
  us_created_at :: instant
  us_updated_at :: instant
  us_password_hash :: str

definition hash_password :: "argon \<Rightarrow> str \<Rightarrow> str result" where
  "hash_password ar password = ok_or (ar_hash ar password) (app_error_new Internal (lit ''password hashing failed''))"

definition user_new :: "argon \<Rightarrow> draws \<Rightarrow> uuid \<Rightarrow> operator_id \<Rightarrow> str \<Rightarrow> str \<Rightarrow> str \<Rightarrow> user result" where
  "user_new ar d i operator email display_name password =
     rbind (normalize_email email) (\<lambda>e.
     rbind (validate_account_text (lit ''display_name'') display_name 200) (\<lambda>name.
     if password = [] then Inl (invalid_request (lit ''password must not be empty''))
     else rbind (hash_password ar password) (\<lambda>h.
       Inr \<lparr>us_id = i, us_operator_id = operator, us_email = e, us_display_name = name, us_active = True,
            us_created_at = now_at d 0, us_updated_at = now_at d 0, us_password_hash = h\<rparr>)))"

definition user_from_password_hash :: "uuid \<Rightarrow> operator_id \<Rightarrow> str \<Rightarrow> str \<Rightarrow> bool \<Rightarrow> str \<Rightarrow> instant \<Rightarrow> instant \<Rightarrow> user result" where
  "user_from_password_hash i operator email display_name active h created updated =
     rbind (normalize_email email) (\<lambda>e.
     rbind (validate_account_text (lit ''display_name'') display_name 200) (\<lambda>name.
       Inr \<lparr>us_id = i, us_operator_id = operator, us_email = e, us_display_name = name, us_active = active,
            us_created_at = created, us_updated_at = updated, us_password_hash = h\<rparr>))"

definition verify_password :: "argon \<Rightarrow> user \<Rightarrow> str \<Rightarrow> bool" where
  "verify_password ar u password \<longleftrightarrow> (case ar_verify ar (us_password_hash u) password of None \<Rightarrow> False | Some b \<Rightarrow> b)"

record membership =
  me_membership_id :: uuid
  mb_user_id :: uuid
  mb_operator_id :: operator_id
  mb_tenant_id :: tenant_id
  mb_tenant_slug :: str
  mb_tenant_display_name :: str
  mb_role :: role
  mb_active :: bool
  mb_created_at :: instant
  mb_updated_at :: instant

definition membership_new :: "draws \<Rightarrow> uuid \<Rightarrow> operator_id \<Rightarrow> tenant_id \<Rightarrow> role \<Rightarrow> membership" where
  "membership_new d u operator tenant r =
     \<lparr>me_membership_id = uuid_at d 0, mb_user_id = u, mb_operator_id = operator, mb_tenant_id = tenant, mb_tenant_slug = [],
      mb_tenant_display_name = [], mb_role = r, mb_active = True, mb_created_at = now_at d 0, mb_updated_at = now_at d 0\<rparr>"

section \<open>Sessions\<close>

record session =
  se_id :: uuid
  se_operator_id :: operator_id
  se_user_id :: uuid
  se_created_at :: instant
  se_expires_at :: "instant option"
  se_revoked_at :: "instant option"
  se_csrf_token :: str
  se_token_hash :: str

record session_credentials =
  sc_session :: session
  sc_token :: str

definition random_token :: "8 word list \<Rightarrow> str" where
  "random_token bytes = hex_encode bytes"

definition hash_token :: "codecs \<Rightarrow> str \<Rightarrow> str" where
  "hash_token cd token = sha256_hex cd (utf8_bytes token)"

text \<open>\<open>random i\<close> are the 32 bytes of the \<open>i\<close>-th call of \<open>OsRng::fill_bytes\<close>.\<close>

definition session_new :: "codecs \<Rightarrow> (nat \<Rightarrow> 8 word list) \<Rightarrow> draws \<Rightarrow> operator_id \<Rightarrow> uuid \<Rightarrow> int \<Rightarrow> session_credentials" where
  "session_new cd random d operator u ttl =
     (let now = now_at d 0; token = random_token (random 0) in
      \<lparr>sc_session = \<lparr>se_id = uuid_at d 0, se_operator_id = operator, se_user_id = u, se_created_at = now,
         se_expires_at = Some (now + ttl), se_revoked_at = None, se_csrf_token = random_token (random 1),
         se_token_hash = hash_token cd token\<rparr>,
       sc_token = token\<rparr>)"

definition session_persistent :: "codecs \<Rightarrow> (nat \<Rightarrow> 8 word list) \<Rightarrow> draws \<Rightarrow> operator_id \<Rightarrow> uuid \<Rightarrow> session_credentials" where
  "session_persistent cd random d operator u =
     (let c = session_new cd random d operator u 0 in c\<lparr>sc_session := (sc_session c)\<lparr>se_expires_at := None\<rparr>\<rparr>)"

definition session_is_active_at :: "session \<Rightarrow> instant \<Rightarrow> bool" where
  "session_is_active_at s now \<longleftrightarrow> se_revoked_at s = None \<and>
     (case se_expires_at s of None \<Rightarrow> True | Some expiry \<Rightarrow> expiry > now)"

section \<open>Appearance\<close>

record operator_appearance =
  oa_display_name :: str
  oa_logo_url :: "str option"
  oa_primary_color :: str
  oa_default_locale :: str
  oa_revision :: i64

definition appearance_for_operator :: "operator_record \<Rightarrow> operator_appearance" where
  "appearance_for_operator o1 = \<lparr>oa_display_name = or_display_name o1, oa_logo_url = None,
     oa_primary_color = lit ''#2563EB'', oa_default_locale = lit ''zh-CN'', oa_revision = 1\<rparr>"

record appearance_update =
  ua_display_name :: str
  ua_primary_color :: str
  ua_default_locale :: str

definition is_ascii_hexdigit :: "nat \<Rightarrow> bool" where
  "is_ascii_hexdigit c \<longleftrightarrow> is_ascii_digit c \<or> (65 \<le> c \<and> c \<le> 70) \<or> (97 \<le> c \<and> c \<le> 102)"

definition validate_appearance_update :: "appearance_update \<Rightarrow> appearance_update result" where
  "validate_appearance_update u =
     (let name = trim (ua_display_name u) in
      if name = [] \<or> length name > 200 \<or> list_ex is_control name
      then Inl (invalid_request (lit ''display_name must contain 1'' @ [8211] @ lit ''200 printable characters''))
      else if \<not> starts_with (lit ''#'') (ua_primary_color u) \<or> byte_len (ua_primary_color u) \<noteq> 7 \<or>
         \<not> list_all is_ascii_hexdigit (utf8_bytes (tl (ua_primary_color u)))
      then Inl (invalid_request (lit ''primary_color must be a six-digit hexadecimal color''))
      else if ua_default_locale u \<notin> {lit ''zh-CN'', lit ''en''}
      then Inl (invalid_request (lit ''default_locale must be zh-CN or en''))
      else Inr (u\<lparr>ua_display_name := name, ua_primary_color := map ascii_upper (ua_primary_color u)\<rparr>))"

section \<open>The repository\<close>

record auth_data =
  ad_operators :: "(operator_id, operator_record) hash_map"
  ad_appearances :: "(operator_id, operator_appearance) hash_map"
  ad_host_operators :: "(str, operator_id) hash_map"
  ad_users :: "(uuid, user) hash_map"
  ad_memberships :: "membership list"
  ad_sessions :: "(uuid, session) hash_map"

definition auth_empty :: auth_data where
  "auth_empty = \<lparr>ad_operators = [], ad_appearances = [], ad_host_operators = [], ad_users = [], ad_memberships = [],
     ad_sessions = []\<rparr>"

text \<open>The loop over the hosts writes as it goes: a refused host leaves the earlier ones inserted.\<close>

fun insert_hosts :: "operator_id \<Rightarrow> str list \<Rightarrow> auth_data \<Rightarrow> unit result \<times> auth_data" where
  "insert_hosts i [] st = (Inr (), st)"
| "insert_hosts i (host # hosts) st =
     (let h = normalize_host host in
      if h = [] \<or> hm_contains (ad_host_operators st) h
      then (Inl (conflict (lit ''operator host already exists'')), st)
      else insert_hosts i hosts (st\<lparr>ad_host_operators := hm_insert h i (ad_host_operators st)\<rparr>))"

definition insert_operator :: "operator_record \<Rightarrow> str list \<Rightarrow> auth_data \<Rightarrow> unit result \<times> auth_data" where
  "insert_operator o1 hosts st =
     (if hm_contains (ad_operators st) (or_id o1) then (Inl (conflict (lit ''operator already exists'')), st)
      else case insert_hosts (or_id o1) hosts st of
        (Inl e, st1) \<Rightarrow> (Inl e, st1)
      | (Inr _, st1) \<Rightarrow> (Inr (), st1\<lparr>ad_operators := hm_insert (or_id o1) o1 (ad_operators st1)\<rparr>))"

text \<open>The map is written before the returned old value is looked at.\<close>

definition insert_user :: "user \<Rightarrow> auth_data \<Rightarrow> unit result \<times> auth_data" where
  "insert_user u st =
     (if list_ex (\<lambda>c. us_operator_id c = us_operator_id u \<and> us_email c = us_email u) (hm_values (ad_users st))
      then (Inl (conflict (lit ''user email already exists for operator'')), st)
      else
        let replaced = hm_get (ad_users st) (us_id u); st1 = st\<lparr>ad_users := hm_insert (us_id u) u (ad_users st)\<rparr> in
        if replaced \<noteq> None then (Inl (conflict (lit ''user already exists'')), st1) else (Inr (), st1))"

definition insert_membership :: "membership \<Rightarrow> auth_data \<Rightarrow> unit result \<times> auth_data" where
  "insert_membership m st =
     (if \<not> hm_contains (ad_users st) (mb_user_id m) \<or> \<not> hm_contains (ad_operators st) (mb_operator_id m)
      then (Inl (invalid_request (lit ''membership references an unknown identity'')), st)
      else if list_ex (\<lambda>c. mb_user_id c = mb_user_id m \<and> mb_operator_id c = mb_operator_id m \<and>
          mb_tenant_id c = mb_tenant_id m) (ad_memberships st)
      then (Inl (conflict (lit ''membership already exists'')), st)
      else (Inr (), st\<lparr>ad_memberships := ad_memberships st @ [m]\<rparr>))"

definition operator_for_host :: "str \<Rightarrow> auth_data \<Rightarrow> operator_record option result" where
  "operator_for_host host st = Inr (case hm_get (ad_host_operators st) (normalize_host host) of
     None \<Rightarrow> None | Some i \<Rightarrow> hm_get (ad_operators st) i)"

definition current_appearance :: "operator_record \<Rightarrow> auth_data \<Rightarrow> operator_id \<Rightarrow> operator_appearance" where
  "current_appearance o1 st i = (case hm_get (ad_appearances st) i of None \<Rightarrow> appearance_for_operator o1 | Some a \<Rightarrow> a)"

definition get_operator_appearance :: "operator_id \<Rightarrow> auth_data \<Rightarrow> operator_appearance option result" where
  "get_operator_appearance i st = Inr (map_option (\<lambda>o1. current_appearance o1 st i) (hm_get (ad_operators st) i))"

definition update_operator_appearance :: "operator_id \<Rightarrow> i64 \<Rightarrow> appearance_update \<Rightarrow> auth_data \<Rightarrow>
    operator_appearance result \<times> auth_data" where
  "update_operator_appearance i expected update st =
     try_in st (validate_appearance_update update) (\<lambda>u.
     if sint expected < 1 \<or> expected = 9223372036854775807
     then (Inl (invalid_request (lit ''invalid appearance revision'')), st)
     else try_in st (ok_or (hm_get (ad_operators st) i) (not_found (lit ''operator is not configured''))) (\<lambda>o1.
       let current = current_appearance o1 st i in
       if oa_revision current \<noteq> expected then (Inl (conflict (lit ''operator appearance revision changed'')), st)
       else
         let a = \<lparr>oa_display_name = ua_display_name u, oa_logo_url = None, oa_primary_color = ua_primary_color u,
                  oa_default_locale = ua_default_locale u, oa_revision = oa_revision current + 1\<rparr>
         in (Inr a, st\<lparr>ad_operators := hm_insert i (o1\<lparr>or_display_name := oa_display_name a\<rparr>) (ad_operators st),
                       ad_appearances := hm_insert i a (ad_appearances st)\<rparr>)))"

record login_identity =
  li_operator :: operator_record
  li_user :: user
  li_memberships :: "membership list"

definition memberships_of :: "uuid \<Rightarrow> operator_id \<Rightarrow> auth_data \<Rightarrow> membership list" where
  "memberships_of u operator st =
     filter (\<lambda>m. mb_user_id m = u \<and> mb_operator_id m = operator \<and> mb_active m) (ad_memberships st)"

text \<open>\<open>joined\<close> says that the blocking task of the password check came back.\<close>

definition authenticate :: "argon \<Rightarrow> bool \<Rightarrow> operator_id \<Rightarrow> str \<Rightarrow> str \<Rightarrow> auth_data \<Rightarrow> login_identity option result" where
  "authenticate ar joined operator email password st =
     rbind (normalize_email email) (\<lambda>normalized.
     case find (\<lambda>u. us_operator_id u = operator \<and> us_email u = normalized \<and> us_active u) (hm_values (ad_users st)) of
       None \<Rightarrow> Inr None
     | Some u \<Rightarrow> (case hm_get (ad_operators st) operator of
         None \<Rightarrow> Inr None
       | Some o1 \<Rightarrow>
           let memberships = memberships_of (us_id u) operator st in
           if memberships = [] then Inr None
           else if \<not> joined then Inl (app_error_new Internal (lit ''password verification failed''))
           else if \<not> verify_password ar u password then Inr None
           else Inr (Some \<lparr>li_operator = o1, li_user = u, li_memberships = memberships\<rparr>)))"

definition find_session :: "codecs \<Rightarrow> operator_id \<Rightarrow> str \<Rightarrow> auth_data \<Rightarrow> session option result" where
  "find_session cd operator token st = Inr (find (\<lambda>s. se_operator_id s = operator \<and> se_token_hash s = hash_token cd token)
     (hm_values (ad_sessions st)))"

definition find_user :: "operator_id \<Rightarrow> uuid \<Rightarrow> auth_data \<Rightarrow> user option result" where
  "find_user operator i st = Inr (case hm_get (ad_users st) i of None \<Rightarrow> None
     | Some u \<Rightarrow> if us_operator_id u = operator then Some u else None)"

definition live_user :: "operator_id \<Rightarrow> uuid \<Rightarrow> auth_data \<Rightarrow> bool" where
  "live_user operator i st \<longleftrightarrow> (case hm_get (ad_users st) i of None \<Rightarrow> False
     | Some u \<Rightarrow> us_operator_id u = operator \<and> us_active u)"

definition create_session :: "codecs \<Rightarrow> (nat \<Rightarrow> 8 word list) \<Rightarrow> draws \<Rightarrow> operator_id \<Rightarrow> uuid \<Rightarrow> int \<Rightarrow> auth_data \<Rightarrow>
    session_credentials result \<times> auth_data" where
  "create_session cd random d operator i ttl st =
     (if \<not> live_user operator i st then (Inl (unauthorized (lit ''user does not exist'')), st)
      else let c = session_new cd random d operator i ttl in
        (Inr c, st\<lparr>ad_sessions := hm_insert (se_id (sc_session c)) (sc_session c) (ad_sessions st)\<rparr>))"

definition create_persistent_session :: "codecs \<Rightarrow> (nat \<Rightarrow> 8 word list) \<Rightarrow> draws \<Rightarrow> operator_id \<Rightarrow> uuid \<Rightarrow> auth_data \<Rightarrow>
    session_credentials result \<times> auth_data" where
  "create_persistent_session cd random d operator i st =
     (if \<not> live_user operator i st then (Inl (unauthorized (lit ''user does not exist'')), st)
      else let c = session_persistent cd random d operator i in
        (Inr c, st\<lparr>ad_sessions := hm_insert (se_id (sc_session c)) (sc_session c) (ad_sessions st)\<rparr>))"

definition revoke_session :: "draws \<Rightarrow> operator_id \<Rightarrow> uuid \<Rightarrow> auth_data \<Rightarrow> unit result \<times> auth_data" where
  "revoke_session d operator i st =
     (Inr (), case hm_get (ad_sessions st) i of
        None \<Rightarrow> st
      | Some s \<Rightarrow> if se_operator_id s = operator
          then st\<lparr>ad_sessions := hm_insert i (s\<lparr>se_revoked_at := Some (now_at d 0)\<rparr>) (ad_sessions st)\<rparr> else st)"

end
