(* ===== verification/Auth_Theorems.thy ===== *)
theory Auth_Theorems
  imports Auth
begin

text \<open>Revocation is final, and a login succeeds exactly for a verified, active member.\<close>

section \<open>Histories\<close>

datatype auth_op =
    InsertOperator operator_record "str list"
  | InsertUser user
  | InsertMembership membership
  | UpdateAppearance operator_id i64 appearance_update
  | CreateSession codecs "nat \<Rightarrow> 8 word list" draws operator_id uuid int
  | CreatePersistent codecs "nat \<Rightarrow> 8 word list" draws operator_id uuid
  | RevokeSession draws operator_id uuid

fun auth_exec :: "auth_data \<Rightarrow> auth_op \<Rightarrow> auth_data" where
  "auth_exec st (InsertOperator o1 hosts) = snd (insert_operator o1 hosts st)"
| "auth_exec st (InsertUser u) = snd (insert_user u st)"
| "auth_exec st (InsertMembership m) = snd (insert_membership m st)"
| "auth_exec st (UpdateAppearance i expected update) = snd (update_operator_appearance i expected update st)"
| "auth_exec st (CreateSession cd random d operator i ttl) = snd (create_session cd random d operator i ttl st)"
| "auth_exec st (CreatePersistent cd random d operator i) = snd (create_persistent_session cd random d operator i st)"
| "auth_exec st (RevokeSession d operator i) = snd (revoke_session d operator i st)"

text \<open>A session identifier drawn by \<open>Uuid::new_v4\<close> is not in use.\<close>

fun auth_ok :: "auth_data \<Rightarrow> auth_op \<Rightarrow> bool" where
  "auth_ok st (CreateSession cd random d operator i ttl) \<longleftrightarrow> \<not> hm_contains (ad_sessions st) (uuid_at d 0)"
| "auth_ok st (CreatePersistent cd random d operator i) \<longleftrightarrow> \<not> hm_contains (ad_sessions st) (uuid_at d 0)"
| "auth_ok st _ \<longleftrightarrow> True"

section \<open>Invariant\<close>

definition emails_unique :: "(uuid, user) hash_map \<Rightarrow> bool" where
  "emails_unique m \<longleftrightarrow> (\<forall>i u j v. hm_get m i = Some u \<and> hm_get m j = Some v \<and>
     us_operator_id u = us_operator_id v \<and> us_email u = us_email v \<longrightarrow> i = j)"

lemma emails_uniqueD:
  "emails_unique m \<Longrightarrow> hm_get m i = Some u \<Longrightarrow> hm_get m j = Some v \<Longrightarrow> us_operator_id u = us_operator_id v \<Longrightarrow>
    us_email u = us_email v \<Longrightarrow> i = j"
  unfolding emails_unique_def by blast

definition auth_inv :: "auth_data \<Rightarrow> bool" where
  "auth_inv st \<longleftrightarrow> hm_wf (ad_users st) \<and> hm_keyed us_id (ad_users st) \<and> emails_unique (ad_users st) \<and>
     hm_wf (ad_sessions st) \<and> hm_keyed se_id (ad_sessions st)"

lemma insert_hosts_frame:
  "ad_users (snd (insert_hosts i hosts st)) = ad_users st" "ad_sessions (snd (insert_hosts i hosts st)) = ad_sessions st"
  by (induction hosts arbitrary: st) (simp_all add: Let_def)

lemma insert_operator_frame:
  "ad_users (snd (insert_operator o1 hosts st)) = ad_users st"
  "ad_sessions (snd (insert_operator o1 hosts st)) = ad_sessions st"
  using insert_hosts_frame [of "or_id o1" hosts st]
  by (cases "insert_hosts (or_id o1) hosts st"; simp add: insert_operator_def split: sum.split)+

lemma insert_membership_frame:
  "ad_users (snd (insert_membership m st)) = ad_users st" "ad_sessions (snd (insert_membership m st)) = ad_sessions st"
  by (simp_all add: insert_membership_def)

lemma update_appearance_frame:
  "ad_users (snd (update_operator_appearance i expected update st)) = ad_users st"
  "ad_sessions (snd (update_operator_appearance i expected update st)) = ad_sessions st"
  by (simp_all add: update_operator_appearance_def try_in_def Let_def split: sum.split)

lemma insert_user_sessions: "ad_sessions (snd (insert_user u st)) = ad_sessions st"
  by (simp add: insert_user_def Let_def)

lemma session_new_fields:
  "se_id (sc_session (session_new cd random d operator i ttl)) = uuid_at d 0"
  "se_id (sc_session (session_persistent cd random d operator i)) = uuid_at d 0"
  by (simp_all add: session_new_def session_persistent_def Let_def)

lemma create_users:
  "ad_users (snd (create_session cd random d operator i ttl st)) = ad_users st"
  "ad_users (snd (create_persistent_session cd random d operator i st)) = ad_users st"
  "ad_users (snd (revoke_session d operator i st)) = ad_users st"
  by (simp_all add: create_session_def create_persistent_session_def revoke_session_def Let_def split: option.split)

lemmas auth_frame = insert_operator_frame insert_membership_frame update_appearance_frame insert_user_sessions create_users

lemma emails_unique_insert:
  assumes "emails_unique m" and "hm_wf m"
    and new: "\<not> list_ex (\<lambda>c. us_operator_id c = us_operator_id u \<and> us_email c = us_email u) (hm_values m)"
  shows "emails_unique (hm_insert (us_id u) u m)"
proof -
  have no: "\<not> (us_operator_id v = us_operator_id u \<and> us_email v = us_email u)" if "hm_get m j = Some v" for j v
    using new hm.vals_iff [OF assms(2), of v] that by (auto simp: list_ex_iff)
  show ?thesis
    unfolding emails_unique_def
  proof (intro allI impI, elim conjE)
    fix i v j w
    assume "hm_get (hm_insert (us_id u) u m) i = Some v" "hm_get (hm_insert (us_id u) u m) j = Some w"
      and same: "us_operator_id v = us_operator_id w" "us_email v = us_email w"
    then consider "i = us_id u" "j = us_id u" | "v = u" "hm_get m j = Some w" | "w = u" "hm_get m i = Some v"
      | "hm_get m i = Some v" "hm_get m j = Some w"
      unfolding hm.lookup_insert by (metis option.inject)
    then show "i = j"
    proof cases
      case 2
      then show ?thesis using no [OF 2(2)] same by simp
    next
      case 3
      then show ?thesis using no [OF 3(2)] same by simp
    next
      case 4
      then show ?thesis using assms(1) same unfolding emails_unique_def by blast
    qed simp
  qed
qed

lemma session_keyed_insert: "hm_keyed key m \<Longrightarrow> key v = k \<Longrightarrow> hm_keyed key (hm_insert k v m)"
  by (auto simp: hmk.keyed_def split: if_splits)

lemma insert_user_inv: "auth_inv st \<Longrightarrow> auth_inv (snd (insert_user u st))"
  by (auto simp: auth_inv_def insert_user_def Let_def intro: emails_unique_insert session_keyed_insert)

lemma session_ops_inv:
  assumes "auth_inv st"
  shows "auth_inv (snd (create_session cd random d operator i ttl st))"
    and "auth_inv (snd (create_persistent_session cd random d operator i st))"
    and "auth_inv (snd (revoke_session d operator i st))"
proof -
  have "se_id s = i" if "hm_get (ad_sessions st) i = Some s" for s
    using assms that by (simp add: auth_inv_def hmk.keyed_def)
  then show "auth_inv (snd (create_session cd random d operator i ttl st))"
    and "auth_inv (snd (create_persistent_session cd random d operator i st))"
    and "auth_inv (snd (revoke_session d operator i st))"
    using assms
    by (auto simp: auth_inv_def create_session_def create_persistent_session_def revoke_session_def Let_def
        intro!: session_keyed_insert split: option.split)
qed

interpretation auth: invariant_machine auth_exec auth_ok auth_inv
proof unfold_locales
  fix st op
  assume inv: "auth_inv st" and "auth_ok st op"
  show "auth_inv (auth_exec st op)"
  proof (cases op)
    case (InsertUser u)
    then show ?thesis using insert_user_inv [OF inv] by simp
  qed (use inv session_ops_inv [OF inv] in \<open>simp_all add: auth_inv_def auth_frame\<close>)
qed

lemma auth_inv_empty: "auth_inv auth_empty"
  by (simp add: auth_inv_def auth_empty_def hmk.keyed_empty emails_unique_def)

section \<open>Appearance\<close>

lemma starts_with_hash: "starts_with (lit ''#'') s \<longleftrightarrow> s \<noteq> [] \<and> hd s = 35"
  by (cases s) (auto simp: starts_with_def lit_def)

text \<open>Accepted are exactly a printable name of 1 to 200 characters, a hash sign with six hexadecimal digits
  and one of the two locales; the name is stored trimmed and the color in upper case.\<close>

lemma validate_appearance_exact:
  "validate_appearance_update u = Inr v \<longleftrightarrow>
    (let name = trim (ua_display_name u); color = ua_primary_color u in
     name \<noteq> [] \<and> length name \<le> 200 \<and> (\<forall>c\<in>set name. \<not> is_control c) \<and>
     color \<noteq> [] \<and> hd color = 35 \<and> byte_len color = 7 \<and> (\<forall>b\<in>set (utf8_bytes (tl color)). is_ascii_hexdigit b) \<and>
     ua_default_locale u \<in> {lit ''zh-CN'', lit ''en''} \<and>
     v = u\<lparr>ua_display_name := name, ua_primary_color := map ascii_upper color\<rparr>)"
  unfolding validate_appearance_update_def Let_def starts_with_hash list_ex_iff list_all_iff by auto

text \<open>An accepted update against the current revision replaces the appearance under the next revision and
  renames the operator; any other update changes nothing.\<close>

lemma update_appearance_effect:
  assumes u: "validate_appearance_update update = Inr u" and o1: "hm_get (ad_operators st) i = Some o1"
    and current: "oa_revision (current_appearance o1 st i) = expected" and range: "1 \<le> sint expected" "expected \<noteq> 9223372036854775807"
  defines "a \<equiv> \<lparr>oa_display_name = ua_display_name u, oa_logo_url = None, oa_primary_color = ua_primary_color u,
    oa_default_locale = ua_default_locale u, oa_revision = expected + 1\<rparr>"
  shows "fst (update_operator_appearance i expected update st) = Inr a"
    and "hm_get (ad_appearances (snd (update_operator_appearance i expected update st))) i = Some a"
    and "hm_get (ad_operators (snd (update_operator_appearance i expected update st))) i =
      Some (o1\<lparr>or_display_name := ua_display_name u\<rparr>)"
  using assms by (simp_all add: update_operator_appearance_def try_in_def Let_def)

lemma update_appearance_refused:
  "fst (update_operator_appearance i expected update st) = Inl e \<Longrightarrow>
    snd (update_operator_appearance i expected update st) = st"
  by (auto simp: update_operator_appearance_def try_in_def Let_def split: sum.splits if_splits)

section \<open>Revocation\<close>

text \<open>A stored session keeps its owner and stays revoked.\<close>

definition session_le :: "session \<Rightarrow> session \<Rightarrow> bool" where
  "session_le s s' \<longleftrightarrow> se_operator_id s' = se_operator_id s \<and> (se_revoked_at s \<noteq> None \<longrightarrow> se_revoked_at s' \<noteq> None)"

lemma session_le_trans: "session_le a b \<Longrightarrow> session_le b c \<Longrightarrow> session_le a c"
  by (auto simp: session_le_def)

lemma sessions_le_exec:
  assumes "auth_ok st op"
  shows "grows session_le (ad_sessions st) (ad_sessions (auth_exec st op))"
proof (cases op)
  case (CreateSession cd random d operator i ttl)
  then show ?thesis
    using assms by (auto simp: create_session_def Let_def session_new_fields hm_contains_def session_le_def grows_refl
        intro!: grows_insert)
next
  case (CreatePersistent cd random d operator i)
  then show ?thesis
    using assms by (auto simp: create_persistent_session_def Let_def session_new_fields hm_contains_def session_le_def grows_refl
        intro!: grows_insert)
next
  case (RevokeSession d operator i)
  then show ?thesis
    by (auto simp: revoke_session_def session_le_def grows_refl intro!: grows_insert split: option.split)
qed (simp_all add: auth_frame grows_refl session_le_def)

lemma sessions_le_run:
  "ok_ops auth_exec auth_ok st ops \<Longrightarrow> grows session_le (ad_sessions st) (ad_sessions (run_ops auth_exec st ops))"
proof (induction ops arbitrary: st)
  case (Cons op ops)
  have first: "grows session_le (ad_sessions st) (ad_sessions (auth_exec st op))"
    using Cons.prems by (intro sessions_le_exec) simp
  have rest: "grows session_le (ad_sessions (auth_exec st op)) (ad_sessions (run_ops auth_exec (auth_exec st op) ops))"
    using Cons by simp
  show ?case
    unfolding run_ops.simps by (rule grows_trans [OF _ first rest]) (rule session_le_trans)
qed (simp add: grows_refl session_le_def)

lemma found_session:
  assumes "auth_inv st" and "find_session cd operator token st = Inr (Some s)"
  shows "hm_get (ad_sessions st) (se_id s) = Some s" and "se_operator_id s = operator" and "se_token_hash s = hash_token cd token"
proof -
  have "find (\<lambda>s. se_operator_id s = operator \<and> se_token_hash s = hash_token cd token) (hm_values (ad_sessions st)) = Some s"
    using assms(2) by (simp add: find_session_def)
  note s = find_SomeD [OF this]
  then show "hm_get (ad_sessions st) (se_id s) = Some s"
    using assms(1) hmk.keyed_vals [of "ad_sessions st" se_id s] unfolding auth_inv_def by blast
  show "se_operator_id s = operator" "se_token_hash s = hash_token cd token"
    using s by simp_all
qed

text \<open>C14: Once an operator has revoked a session, no later history makes it active again: whoever finds it
  by a token, in whatever later state and at whatever time, finds it revoked, and finds it only under the
  operator that owns it.\<close>

theorem revoked_session_is_never_active:
  assumes "auth_inv st" and "hm_get (ad_sessions st) i = Some s" and "se_operator_id s = operator"
    and "ok_ops auth_exec auth_ok (snd (revoke_session d operator i st)) ops"
    and "find_session cd asking token (run_ops auth_exec (snd (revoke_session d operator i st)) ops) = Inr (Some s')"
    and "se_id s' = i"
  shows "\<not> session_is_active_at s' now \<and> asking = operator"
proof -
  let ?st = "snd (revoke_session d operator i st)"
  let ?later = "run_ops auth_exec ?st ops"
  have inv: "auth_inv ?later"
    using auth.inv_run [OF session_ops_inv(3) [OF assms(1)] assms(4)] .
  have "hm_get (ad_sessions ?st) i = Some (s\<lparr>se_revoked_at := Some (now_at d 0)\<rparr>)"
    using assms(2,3) by (simp add: revoke_session_def)
  then obtain t where t: "hm_get (ad_sessions ?later) i = Some t" "session_le (s\<lparr>se_revoked_at := Some (now_at d 0)\<rparr>) t"
    using sessions_le_run [OF assms(4)] unfolding grows_def by blast
  have "t = s'"
    using t(1) found_session(1) [OF inv assms(5)] assms(6) by simp
  then show ?thesis
    using t(2) found_session(2) [OF inv assms(5)] assms(3) by (simp add: session_le_def session_is_active_at_def)
qed

section \<open>Login\<close>

lemma find_unique: "x \<in> set xs \<Longrightarrow> P x \<Longrightarrow> (\<And>y. y \<in> set xs \<Longrightarrow> P y \<Longrightarrow> y = x) \<Longrightarrow> find P xs = Some x"
proof (induction xs)
  case (Cons a xs)
  show ?case
  proof (cases "P a")
    case True
    have "a = x" by (rule Cons.prems(3) [OF _ True]) simp
    then show ?thesis using True by simp
  next
    case False
    then have "x \<in> set xs" using Cons.prems(1,2) by (metis set_ConsD)
    moreover have "find P xs = Some x" if "x \<in> set xs"
      by (rule Cons.IH [OF that Cons.prems(2)], rule Cons.prems(3)) simp_all
    ultimately show ?thesis using False by simp
  qed
qed simp

text \<open>C15: In every reachable state, and whatever the iteration order of the user map, a login returns an
  identity exactly for the active user of that operator with that normalized address whose password
  verifies and who has an active membership there; the identity carries exactly those memberships.\<close>

theorem authentication_is_exact:
  assumes "ok_ops auth_exec auth_ok auth_empty ops" and "st = run_ops auth_exec auth_empty ops"
  shows "authenticate ar True operator email password st = Inr (Some identity) \<longleftrightarrow>
    normalize_email email = Inr (us_email (li_user identity)) \<and>
    li_user identity \<in> set (hm_values (ad_users st)) \<and> us_operator_id (li_user identity) = operator \<and>
    us_active (li_user identity) \<and> hm_get (ad_operators st) operator = Some (li_operator identity) \<and>
    li_memberships identity = memberships_of (us_id (li_user identity)) operator st \<and> li_memberships identity \<noteq> [] \<and>
    verify_password ar (li_user identity) password" (is "?login \<longleftrightarrow> ?exact")
proof
  assume ?login
  then show ?exact
    by (auto simp: authenticate_def rbind_def Let_def dest!: find_SomeD split: sum.splits option.splits if_splits)
next
  assume exact: ?exact
  have inv: "auth_inv st" using auth.inv_run [OF auth_inv_empty assms(1)] assms(2) by simp
  then have unique: "emails_unique (ad_users st)" by (simp add: auth_inv_def)
  let ?u = "li_user identity"
  have owner: "us_operator_id ?u = operator" using exact by blast
  have "find (\<lambda>u. us_operator_id u = operator \<and> us_email u = us_email ?u \<and> us_active u) (hm_values (ad_users st)) = Some ?u"
  proof (rule find_unique)
    fix v assume v: "v \<in> set (hm_values (ad_users st))" "us_operator_id v = operator \<and> us_email v = us_email ?u \<and> us_active v"
    have stored: "hm_get (ad_users st) (us_id v) = Some v" "hm_get (ad_users st) (us_id ?u) = Some ?u"
      using v(1) exact inv hmk.keyed_vals [of "ad_users st" us_id] unfolding auth_inv_def by blast+
    have "us_id v = us_id ?u"
      by (rule emails_uniqueD [OF unique stored trans [OF conjunct1 [OF v(2)] owner [symmetric]]
          conjunct1 [OF conjunct2 [OF v(2)]]])
    then show "v = ?u" using stored by (metis option.inject)
  next
    show "?u \<in> set (hm_values (ad_users st))" using exact by blast
    show "us_operator_id ?u = operator \<and> us_email ?u = us_email ?u \<and> us_active ?u" using exact by blast
  qed
  then show ?login
    using exact by (cases identity) (simp add: authenticate_def Let_def)
qed

section \<open>An example\<close>

definition ex_auth_codecs :: codecs where
  "ex_auth_codecs = \<lparr>cd_uuid = (\<lambda>i. []), cd_sha256 = map of_nat, cd_datetime = (\<lambda>s. None),
     cd_datetime_json = (\<lambda>j. None), cd_parse_json = (\<lambda>s. None), cd_json_len = (\<lambda>j. 0),
     cd_payload_json = (\<lambda>p. Inr []), cd_urls = \<lparr>url_parse = (\<lambda>s. None), url_join = (\<lambda>u s. None)\<rparr>\<rparr>"

definition ex_argon :: argon where
  "ex_argon = \<lparr>ar_hash = Some, ar_verify = (\<lambda>h p. Some (h = p))\<rparr>"

definition ex_login_draws :: "uuid \<Rightarrow> instant \<Rightarrow> draws" where
  "ex_login_draws i t = \<lparr>uuid_at = (\<lambda>_. i), now_at = (\<lambda>_. t)\<rparr>"

definition ex_random :: "8 word \<Rightarrow> nat \<Rightarrow> 8 word list" where
  "ex_random b = (\<lambda>i. [b, of_nat i])"

definition ex_user :: user where
  "ex_user = \<lparr>us_id = 5, us_operator_id = Ident 1, us_email = lit ''a@b'', us_display_name = lit ''a'', us_active = True,
     us_created_at = 0, us_updated_at = 0, us_password_hash = lit ''pw''\<rparr>"

definition ex_operator :: operator_record where
  "ex_operator = \<lparr>or_id = Ident 1, or_slug = lit ''o'', or_display_name = lit ''o'', or_created_at = 0, or_updated_at = 0\<rparr>"

definition ex_membership :: membership where
  "ex_membership = membership_new (ex_login_draws 6 1) 5 (Ident 1) (Ident 2) CustomerAdmin"

definition ex_appearance :: appearance_update where
  "ex_appearance = \<lparr>ua_display_name = lit ''  Example Operator  '', ua_primary_color = lit ''#abc123'', ua_default_locale = lit ''en''\<rparr>"

definition ex_auth_ops :: "auth_op list" where
  "ex_auth_ops = [InsertOperator ex_operator [lit ''H.''], InsertUser ex_user, InsertMembership ex_membership,
     UpdateAppearance (Ident 1) 1 ex_appearance,
     CreateSession ex_auth_codecs (ex_random 7) (ex_login_draws 9 10) (Ident 1) 5 1000]"

definition ex_auth :: auth_data where
  "ex_auth = run_ops auth_exec auth_empty ex_auth_ops"

definition ex_session :: session where
  "ex_session = \<lparr>se_id = 9, se_operator_id = Ident 1, se_user_id = 5, se_created_at = 10, se_expires_at = Some 1010,
     se_revoked_at = None, se_csrf_token = lit ''0701'', se_token_hash = hash_token ex_auth_codecs (lit ''0700'')\<rparr>"

definition ex_later :: "auth_op list" where
  "ex_later = [UpdateAppearance (Ident 1) 2 (ex_appearance\<lparr>ua_primary_color := lit ''#000000''\<rparr>),
     CreateSession ex_auth_codecs (ex_random 8) (ex_login_draws 10 30) (Ident 1) 5 1000]"

definition ex_revoked :: auth_data where
  "ex_revoked = run_ops auth_exec (snd (revoke_session (ex_login_draws 0 20) (Ident 1) 9 ex_auth)) ex_later"

lemma ex_auth_ok: "ok_ops auth_exec auth_ok auth_empty ex_auth_ops"
  by code_simp

lemma ex_auth_inv: "auth_inv ex_auth"
  unfolding ex_auth_def by (rule auth.inv_run [OF auth_inv_empty ex_auth_ok])

text \<open>The cases of the test \<open>validates_color_locale_and_name\<close>, and the update in the history.\<close>

lemma ex_appearance_cases:
  "validate_appearance_update ex_appearance = Inr (ex_appearance\<lparr>ua_display_name := lit ''Example Operator'', ua_primary_color := lit ''#ABC123''\<rparr>)"
  "\<forall>color\<in>set [lit ''red'', lit ''#12345G'', lit ''#12345600'', lit ''url(foo)''].
     validate_appearance_update (ex_appearance\<lparr>ua_primary_color := color\<rparr>) = Inl (invalid_request (lit ''primary_color must be a six-digit hexadecimal color''))"
  "validate_appearance_update (ex_appearance\<lparr>ua_default_locale := lit ''fr''\<rparr>) = Inl (invalid_request (lit ''default_locale must be zh-CN or en''))"
  "validate_appearance_update (ex_appearance\<lparr>ua_display_name := lit ''Bad'' @ [10] @ lit ''Name''\<rparr>) =
     Inl (invalid_request (lit ''display_name must contain 1'' @ [8211] @ lit ''200 printable characters''))"
  by code_simp+

lemma ex_appearance_stored:
  "get_operator_appearance (Ident 1) ex_auth = Inr (Some \<lparr>oa_display_name = lit ''Example Operator'', oa_logo_url = None,
     oa_primary_color = lit ''#ABC123'', oa_default_locale = lit ''en'', oa_revision = 2\<rparr>)"
  "map_option oa_primary_color (hm_get (ad_appearances ex_revoked) (Ident 1)) = Some (lit ''#000000'')"
  by code_simp+

lemma ex_auth_facts:
  "hm_get (ad_sessions ex_auth) 9 = Some ex_session"
  "ok_ops auth_exec auth_ok (snd (revoke_session (ex_login_draws 0 20) (Ident 1) 9 ex_auth)) ex_later"
  "find_session ex_auth_codecs (Ident 1) (lit ''0700'') ex_revoked = Inr (Some (ex_session\<lparr>se_revoked_at := Some 20\<rparr>))"
  by code_simp+

theorem revoked_session_is_never_active_witness:
  "session_is_active_at ex_session 50 \<and> \<not> session_is_active_at (ex_session\<lparr>se_revoked_at := Some 20\<rparr>) 50"
proof
  show "session_is_active_at ex_session 50" by (simp add: session_is_active_at_def ex_session_def)
  have "se_operator_id ex_session = Ident 1" "se_id (ex_session\<lparr>se_revoked_at := Some 20\<rparr>) = 9"
    by (simp_all add: ex_session_def)
  from revoked_session_is_never_active [OF ex_auth_inv ex_auth_facts(1) this(1) ex_auth_facts(2)
      ex_auth_facts(3) [unfolded ex_revoked_def] this(2), of 50]
  show "\<not> session_is_active_at (ex_session\<lparr>se_revoked_at := Some 20\<rparr>) 50" ..
qed

definition ex_identity :: login_identity where
  "ex_identity = \<lparr>li_operator = ex_operator\<lparr>or_display_name := lit ''Example Operator''\<rparr>, li_user = ex_user, li_memberships = [ex_membership]\<rparr>"

lemma ex_login_facts:
  "normalize_email (lit '' A@b'') = Inr (us_email ex_user) \<and> ad_memberships ex_auth = [ex_membership] \<and>
   hm_values (ad_users ex_auth) = [ex_user] \<and> hm_get (ad_operators ex_auth) (Ident 1) = Some (ex_operator\<lparr>or_display_name := lit ''Example Operator''\<rparr>) \<and>
   memberships_of 5 (Ident 1) ex_auth = [ex_membership] \<and> verify_password ex_argon ex_user (lit ''pw'')"
  by code_simp

theorem authentication_is_exact_witness:
  "authenticate ex_argon True (Ident 1) (lit '' A@b'') (lit ''pw'') ex_auth = Inr (Some ex_identity)"
  using authentication_is_exact [OF ex_auth_ok ex_auth_def, of ex_argon "Ident 1" "lit '' A@b''" "lit ''pw''" ex_identity]
    ex_login_facts
  by (simp add: ex_identity_def ex_user_def)

text \<open>A refused insertion of a user under a used identifier has replaced the stored user.\<close>

theorem refused_user_replaces_the_stored_one:
  assumes "hm_get (ad_users st) (us_id u) = Some old"
    and "\<not> list_ex (\<lambda>c. us_operator_id c = us_operator_id u \<and> us_email c = us_email u) (hm_values (ad_users st))"
  shows "fst (insert_user u st) = Inl (conflict (lit ''user already exists''))"
    and "hm_get (ad_users (snd (insert_user u st))) (us_id u) = Some u"
  using assms by (simp_all add: insert_user_def)

end
