(* ===== verification/Distribution.thy ===== *)
theory Distribution
  imports Publication_Types Machines
begin

text \<open>
  Frozen second-stage coverage (\<open>publishing/distribution.rs\<close>): the manifest that crosses the documents of a
  closed content execution with the platform placements, the cells of that product, and the deterministic
  preparation of channel variants, publication intents and outbox commands. The types of the document
  manifest and of the content execution are those of \<open>knowledge/mod.rs\<close> and \<open>content/mod.rs\<close>.
\<close>

section \<open>Document manifests and content executions\<close>

datatype document_manifest_state = ManifestAwaitingKnowledge | ManifestPlanning | ManifestReady | ManifestClosed

datatype document_manifest_item_state = ItemPlanned | ItemBlocked | ItemDeferred | ItemNotApplicable

record document_manifest_item =
  di_document_manifest_item_id :: uuid
  di_manifest_id :: uuid
  di_knowledge_release_id :: uuid
  di_document_key :: str
  di_content_type :: str
  di_product_id :: "uuid option"
  di_market :: str
  di_language :: str
  di_state :: document_manifest_item_state
  di_block_reason :: "str option"
  di_dependency_hash :: str
  di_source_version_refs :: "uuid list"

record document_manifest_coverage =
  dmc_total :: u64
  dmc_planned :: u64
  dmc_blocked :: u64
  dmc_deferred :: u64
  dmc_not_applicable :: u64

record document_manifest =
  dom_manifest_id :: uuid
  dom_operator_id :: operator_id
  dom_tenant_id :: tenant_id
  dom_project_id :: project_id
  dom_revision :: i32
  dom_knowledge_release_id :: uuid
  dom_planner_version :: str
  dom_state :: document_manifest_state
  dom_sealed :: bool
  dom_expected_count :: "i64 option"
  dom_scope_hash :: str
  dom_items :: "document_manifest_item list"
  dom_coverage :: document_manifest_coverage

record content_create_document =
  cc_key :: str
  cc_content_type :: str
  cc_title :: "str option"
  cc_instructions :: "str option"

record content_create_request =
  cq_request_id :: uuid
  cq_topic :: str
  cq_source_version_ids :: "uuid list"
  cq_documents :: "content_create_document list"
  cq_language :: str
  cq_market :: "str option"
  cq_audience :: "str option"

datatype content_execution_origin = OriginCycle uuid | OriginOnDemand content_create_request

fun origin_cycle_id :: "content_execution_origin \<Rightarrow> uuid option" where
  "origin_cycle_id (OriginCycle cycle) = Some cycle"
| "origin_cycle_id (OriginOnDemand _) = None"

datatype content_execution_status = ExecutionRunning | ExecutionClosed | ExecutionCancelled

datatype content_item_status =
    ContentPending | ContentPrepared | ContentDrafted | ContentNeedsRepair | ContentReady | ContentBlocked
  | ContentDeferred | ContentNotApplicable | ContentCancelled

record content_coverage =
  cg_total :: u64
  cg_ready :: u64
  cg_blocked :: u64
  cg_deferred :: u64
  cg_not_applicable :: u64
  cg_cancelled :: u64
  cg_incomplete :: u64

record content_handoff_item =
  hi_item_id :: uuid
  hi_document_key :: str
  hi_status :: content_item_status
  hi_reason :: "str option"
  hi_revision_id :: "uuid option"

record content_handoff =
  ch_handoff_id :: uuid
  ch_execution_id :: uuid
  ch_revision :: i32
  ch_supersedes_handoff_id :: "uuid option"
  ch_coverage :: content_coverage
  ch_items :: "content_handoff_item list"
  ch_created_at :: instant

record content_execution =
  cx_execution_id :: uuid
  cx_project_id :: project_id
  cx_origin :: content_execution_origin
  cx_manifest_id :: uuid
  cx_manifest_revision :: i32
  cx_policy_version :: str
  cx_input_hash :: str
  cx_status :: content_execution_status
  cx_expected_count :: u64
  cx_coverage :: content_coverage
  cx_handoff_id :: "uuid option"

section \<open>Distribution manifests\<close>

record platform_placement =
  pp_platform_id :: str
  pp_placement_slot :: str
  pp_capability_version :: str
  pp_supported_formats :: "str list"
  pp_unavailable_reason :: "str option"
  pp_fixture :: bool

record distribution_document =
  dd_document_item_id :: uuid
  dd_document_key :: str
  dd_content_type :: str
  dd_status :: content_item_status
  dd_reason :: "str option"
  dd_content_revision_id :: "uuid option"

record distribution_manifest =
  dm_manifest_id :: uuid
  dm_project_id :: project_id
  dm_cycle_id :: uuid
  dm_revision :: i32
  dm_document_manifest_id :: uuid
  dm_document_manifest_revision :: i32
  dm_content_execution_id :: uuid
  dm_content_handoff_id :: uuid
  dm_platform_scope :: "platform_placement list"
  dm_document_roster :: "distribution_document list"
  dm_input_hash :: str
  dm_expected_count :: u64
  dm_sealed_at :: instant
  dm_expansion_cursor :: u64
  dm_complete :: bool

record freeze_input =
  fd_cycle_id :: uuid
  fd_revision :: i32
  fd_document_manifest :: document_manifest
  fd_content_execution :: content_execution
  fd_content_handoff :: content_handoff
  fd_placements :: "platform_placement list"
  fd_sealed_at :: instant

text \<open>\<open>serde_json::to_string\<close> of the frozen tuple, \<open>None\<close> where serialization fails.\<close>

type_synonym frozen_json = "document_manifest \<Rightarrow> distribution_document list \<Rightarrow> platform_placement list \<Rightarrow> str \<Rightarrow>
  content_handoff \<Rightarrow> str option"

definition show_i32 :: "i32 \<Rightarrow> str" where
  "show_i32 w = (if sint w < 0 then lit ''-'' @ show_nat (nat (- sint w)) else show_nat (nat (sint w)))"

definition check_dist_scope :: "tenant_scope \<Rightarrow> project_id \<Rightarrow> unit result" where
  "check_dist_scope scope project =
     (if ts_project_id scope = Some project then Inr ()
      else Inl (forbidden (lit ''distribution requires project scope'')))"

definition closed_roster :: "freeze_input \<Rightarrow> bool" where
  "closed_roster input =
     (let doc = fd_document_manifest input; execution = fd_content_execution input; handoff = fd_content_handoff input;
          n = length (dom_items doc) in
      dom_sealed doc \<and> dom_expected_count doc = Some (of_nat n) \<and> 0 < sint (fd_revision input) \<and> fd_placements input \<noteq> [] \<and>
      cx_project_id execution = dom_project_id doc \<and> origin_cycle_id (cx_origin execution) = Some (fd_cycle_id input) \<and>
      cx_manifest_id execution = dom_manifest_id doc \<and> cx_manifest_revision execution = dom_revision doc \<and>
      cx_status execution = ExecutionClosed \<and> cx_expected_count execution = of_nat n \<and>
      cx_handoff_id execution = Some (ch_handoff_id handoff) \<and> ch_execution_id handoff = cx_execution_id execution \<and>
      cg_total (ch_coverage handoff) = of_nat n \<and> length (ch_items handoff) = n)"

definition count_status :: "content_item_status \<Rightarrow> content_handoff_item list \<Rightarrow> u64" where
  "count_status s items = of_nat (length (filter (\<lambda>i. hi_status i = s) items))"

definition coverage_matches :: "content_execution \<Rightarrow> content_handoff \<Rightarrow> bool" where
  "coverage_matches execution handoff =
     (let c = ch_coverage handoff; items = ch_items handoff in
      c = cx_coverage execution \<and> cg_incomplete c = 0 \<and>
      count_status ContentReady items = cg_ready c \<and> count_status ContentBlocked items = cg_blocked c \<and>
      count_status ContentDeferred items = cg_deferred c \<and> count_status ContentNotApplicable items = cg_not_applicable c \<and>
      count_status ContentCancelled items = cg_cancelled c)"

fun check_placements :: "(str \<times> str) list \<Rightarrow> platform_placement list \<Rightarrow> unit result" where
  "check_placements seen [] = Inr ()"
| "check_placements seen (p # ps) =
     (if trim (pp_platform_id p) = [] \<or> trim (pp_placement_slot p) = [] \<or> trim (pp_capability_version p) = [] \<or>
         (pp_platform_id p, pp_placement_slot p) \<in> set seen
      then Inl (invalid_request (lit ''invalid or duplicate platform placement''))
      else check_placements ((pp_platform_id p, pp_placement_slot p) # seen) ps)"

text \<open>\<open>String\<close> compares by bytes.\<close>

fun bytes_leq :: "nat list \<Rightarrow> nat list \<Rightarrow> bool" where
  "bytes_leq [] ys = True"
| "bytes_leq (x # xs) [] = False"
| "bytes_leq (x # xs) (y # ys) = (x < y \<or> x = y \<and> bytes_leq xs ys)"

definition placement_leq :: "platform_placement \<Rightarrow> platform_placement \<Rightarrow> bool" where
  "placement_leq a b =
     (if pp_platform_id a = pp_platform_id b
      then bytes_leq (utf8_bytes (pp_placement_slot a)) (utf8_bytes (pp_placement_slot b))
      else bytes_leq (utf8_bytes (pp_platform_id a)) (utf8_bytes (pp_platform_id b)))"

text \<open>\<open>sort_by\<close> is stable: a new element goes before the first one it does not come after.\<close>

fun insert_placement :: "platform_placement \<Rightarrow> platform_placement list \<Rightarrow> platform_placement list" where
  "insert_placement p [] = [p]"
| "insert_placement p (q # qs) = (if placement_leq p q then p # q # qs else q # insert_placement p qs)"

definition sort_placements :: "platform_placement list \<Rightarrow> platform_placement list" where
  "sort_placements ps = foldr insert_placement ps []"

fun index_handoff :: "(uuid, content_handoff_item) hash_map \<Rightarrow> content_handoff_item list \<Rightarrow>
    (uuid, content_handoff_item) hash_map result" where
  "index_handoff m [] = Inr m"
| "index_handoff m (item # items) =
     (if hm_contains m (hi_item_id item)
      then Inl (invalid_request (lit ''handoff repeats document identity''))
      else index_handoff (hm_insert (hi_item_id item) item m) items)"

fun roster_loop :: "(uuid, content_handoff_item) hash_map \<Rightarrow> document_manifest_item list \<Rightarrow>
    distribution_document list result" where
  "roster_loop m [] = Inr []"
| "roster_loop m (planned # rest) =
     rbind (ok_or (hm_get m (di_document_manifest_item_id planned))
             (invalid_request (lit ''handoff misses planned document''))) (\<lambda>item.
     if hi_document_key item \<noteq> di_document_key planned \<or> (hi_status item = ContentReady) \<noteq> (hi_revision_id item \<noteq> None)
     then Inl (invalid_request (lit ''handoff item is inconsistent''))
     else rbind (roster_loop (hm_remove (di_document_manifest_item_id planned) m) rest) (\<lambda>docs.
       Inr (\<lparr>dd_document_item_id = hi_item_id item, dd_document_key = hi_document_key item,
             dd_content_type = di_content_type planned, dd_status = hi_status item, dd_reason = hi_reason item,
             dd_content_revision_id = hi_revision_id item\<rparr> # docs)))"

definition checked_mul_u64 :: "nat \<Rightarrow> nat \<Rightarrow> u64 option" where
  "checked_mul_u64 a b = (if a * b < 2 ^ 64 then Some (of_nat (a * b)) else None)"

definition freeze_distribution :: "codecs \<Rightarrow> frozen_json \<Rightarrow> tenant_scope \<Rightarrow> freeze_input \<Rightarrow> distribution_manifest result" where
  "freeze_distribution cd frozen_json scope input =
     (let doc = fd_document_manifest input; execution = fd_content_execution input; handoff = fd_content_handoff input in
      rbind (check_dist_scope scope (dom_project_id doc)) (\<lambda>_.
      if ts_operator_id scope \<noteq> dom_operator_id doc \<or> ts_tenant_id scope \<noteq> dom_tenant_id doc
      then Inl (forbidden (lit ''document manifest is outside tenant scope''))
      else if \<not> closed_roster input
      then Inl (invalid_request (lit ''distribution inputs are not a closed matching roster''))
      else if \<not> coverage_matches execution handoff
      then Inl (invalid_request (lit ''handoff coverage does not match terminal item states''))
      else rbind (check_placements [] (fd_placements input)) (\<lambda>_.
        let placements = sort_placements (fd_placements input) in
        rbind (index_handoff [] (ch_items handoff)) (\<lambda>by_id.
        rbind (roster_loop by_id (dom_items doc)) (\<lambda>roster.
        rbind (ok_or (checked_mul_u64 (length roster) (length placements))
                (invalid_request (lit ''distribution coverage exceeds capacity''))) (\<lambda>expected.
        let manifest_id = identity_of cd [storage_key (cd_uuid cd) scope, cd_uuid cd (fd_cycle_id input),
              show_i32 (fd_revision input), cd_uuid cd (dom_manifest_id doc), show_i32 (dom_revision doc)] in
        rbind (ok_or (frozen_json doc roster placements (cx_input_hash execution) handoff)
                (invalid_request (lit ''distribution inputs cannot be serialized''))) (\<lambda>frozen.
        Inr \<lparr>dm_manifest_id = manifest_id, dm_project_id = dom_project_id doc, dm_cycle_id = fd_cycle_id input,
             dm_revision = fd_revision input, dm_document_manifest_id = dom_manifest_id doc,
             dm_document_manifest_revision = dom_revision doc, dm_content_execution_id = cx_execution_id execution,
             dm_content_handoff_id = ch_handoff_id handoff, dm_platform_scope = placements,
             dm_document_roster = roster, dm_input_hash = digest cd [storage_key (cd_uuid cd) scope, frozen],
             dm_expected_count = expected, dm_sealed_at = fd_sealed_at input, dm_expansion_cursor = 0,
             dm_complete = (expected = 0)\<rparr>)))))))"

section \<open>Coverage cells\<close>

definition cell_status :: "distribution_document \<Rightarrow> platform_placement \<Rightarrow> distribution_target_status \<times> str option" where
  "cell_status document placement = (case dd_status document of
       ContentBlocked \<Rightarrow> (DistBlocked, dd_reason document)
     | ContentDeferred \<Rightarrow> (DistDeferred, dd_reason document)
     | ContentNotApplicable \<Rightarrow> (DistNotApplicable, dd_reason document)
     | ContentCancelled \<Rightarrow> (DistCancelled, dd_reason document)
     | ContentReady \<Rightarrow> (case pp_unavailable_reason placement of
           Some reason \<Rightarrow> (DistDeferred, Some reason)
         | None \<Rightarrow> if dd_content_type document \<notin> set (pp_supported_formats placement)
             then (DistNotApplicable, Some (lit ''unsupported_format'')) else (DistPending, None))
     | _ \<Rightarrow> (DistDeferred, Some (lit ''content_not_ready'')))"

definition cell_of :: "codecs \<Rightarrow> distribution_manifest \<Rightarrow> u64 \<Rightarrow> distribution_document \<Rightarrow> platform_placement \<Rightarrow> distribution_target" where
  "cell_of cd m ordinal document placement =
     \<lparr>dt_target_id = identity_of cd [cd_uuid cd (dm_manifest_id m), cd_uuid cd (dd_document_item_id document),
        pp_platform_id placement, pp_placement_slot placement],
      dt_manifest_id = dm_manifest_id m, dt_ordinal = ordinal, dt_document_item_id = dd_document_item_id document,
      dt_content_revision_id = dd_content_revision_id document, dt_platform_id = pp_platform_id placement,
      dt_placement_slot = pp_placement_slot placement, dt_variant_id = None, dt_account_id = None,
      dt_publication_intent_id = None, dt_status = fst (cell_status document placement),
      dt_reason = snd (cell_status document placement), dt_version = 1\<rparr>"

text \<open>Division by an empty scope and an index past the roster panic.\<close>

definition distribution_cell :: "codecs \<Rightarrow> distribution_manifest \<Rightarrow> u64 \<Rightarrow> distribution_target option" where
  "distribution_cell cd m ordinal =
     (let width = length (dm_platform_scope m); n = unat ordinal in
      if width = 0 \<or> n div width \<ge> length (dm_document_roster m) then None
      else Some (cell_of cd m ordinal (dm_document_roster m ! (n div width)) (dm_platform_scope m ! (n mod width))))"

end
