(* ===== verification/Distribution_Prepare.thy ===== *)
theory Distribution_Prepare
  imports Distribution Channel_Evidence
begin

text \<open>
  The deterministic preparation of channel variants, plain and rich, and of the logical publication: its
  identity does not mention cycle or coverage target (\<open>publishing/distribution.rs\<close>).
\<close>

definition channel_variant_policy :: str where
  "channel_variant_policy = lit ''deterministic-markdown-v1''"

definition short_post_slot :: str where
  "short_post_slot = lit ''short_post''"

definition variant_identity :: "codecs \<Rightarrow> uuid \<Rightarrow> str \<Rightarrow> str \<Rightarrow> str \<Rightarrow> str \<Rightarrow> uuid" where
  "variant_identity cd revision platform slot policy payload_hash =
     identity_of cd [cd_uuid cd revision, platform, slot, policy, payload_hash]"

section \<open>Plain variants\<close>

definition prepare_versioned_variant :: "codecs \<Rightarrow> content_revision \<Rightarrow> platform_placement \<Rightarrow> str \<Rightarrow> channel_variant outcome" where
  "prepare_versioned_variant cd revision placement policy =
     obind (Some (validate_document (cd_urls cd) (cr_evidence revision) (cr_document revision))) (\<lambda>_.
     if document_media_references (cr_document revision) \<noteq> []
     then Some (Inl (invalid_request (lit ''media publication requires a media-capable channel adapter'')))
     else obind (map_option Inr (document_markdown (cd_uuid cd) (cr_document revision))) (\<lambda>full.
     if cr_markdown revision \<noteq> full
     then Some (Inl (invalid_request (lit ''content revision markdown is inconsistent'')))
     else obind (if pp_placement_slot placement = short_post_slot
                 then map_option Inr (markdown_body (cd_uuid cd) (cr_document revision))
                 else Some (Inr (cr_markdown revision))) (\<lambda>markdown.
       let title = sd_title (cr_document revision);
           payload_hash = digest cd [title, markdown]
       in Some (Inr \<lparr>cv_variant_id = variant_identity cd (cr_revision_id revision) (pp_platform_id placement)
              (pp_placement_slot placement) policy payload_hash,
            cv_content_revision_id = cr_revision_id revision, cv_platform_id = pp_platform_id placement,
            cv_placement_slot = pp_placement_slot placement, cv_policy_version = policy, cv_title = title,
            cv_markdown = markdown, cv_payload_hash = payload_hash, cv_evidence = cr_evidence revision,
            cv_rich_payload = None\<rparr>))))"

definition prepare_variant :: "codecs \<Rightarrow> content_revision \<Rightarrow> platform_placement \<Rightarrow> channel_variant outcome" where
  "prepare_variant cd revision placement =
     (if requires_rich_publication (cr_document revision)
      then Some (Inl (invalid_request (lit ''existing publication outbox cannot publish rich content'')))
      else prepare_versioned_variant cd revision placement channel_variant_policy)"

section \<open>Rich variants\<close>

definition prepare_rich_variant_with_media :: "codecs \<Rightarrow> content_revision \<Rightarrow> platform_placement \<Rightarrow>
    publication_media_item list \<Rightarrow> channel_variant outcome" where
  "prepare_rich_variant_with_media cd revision placement media =
     (if sd_schema_version (cr_document revision) \<noteq> 2 \<or> rich_markdown_format \<notin> set (pp_supported_formats placement)
      then Some (Inl (invalid_request (lit ''rich content requires an explicitly supported rich publication format'')))
      else obind (Some (validate_document (cd_urls cd) (cr_evidence revision) (cr_document revision))) (\<lambda>_.
      obind (map_option Inr (document_markdown (cd_uuid cd) (cr_document revision))) (\<lambda>full.
      if cr_markdown revision \<noteq> full
      then Some (Inl (invalid_request (lit ''content revision markdown is inconsistent'')))
      else
        let title = sd_title (cr_document revision);
            payload = \<lparr>rp_schema_version = 2, rp_format = rich_markdown_format,
              rp_content_revision_id = cr_revision_id revision, rp_policy_version = rich_channel_variant_policy,
              rp_document = cr_document revision, rp_media = media\<rparr>
        in obind (Some (validate_rich_media payload)) (\<lambda>_.
           obind (Some (rich_payload_hash cd payload title (cr_markdown revision))) (\<lambda>payload_hash.
             Some (Inr \<lparr>cv_variant_id = variant_identity cd (cr_revision_id revision) (pp_platform_id placement)
                  (pp_placement_slot placement) rich_channel_variant_policy payload_hash,
                cv_content_revision_id = cr_revision_id revision, cv_platform_id = pp_platform_id placement,
                cv_placement_slot = pp_placement_slot placement, cv_policy_version = rich_channel_variant_policy,
                cv_title = title, cv_markdown = cr_markdown revision, cv_payload_hash = payload_hash,
                cv_evidence = cr_evidence revision, cv_rich_payload = Some payload\<rparr>))))))"

definition prepare_rich_variant :: "codecs \<Rightarrow> content_revision \<Rightarrow> platform_placement \<Rightarrow> channel_variant outcome" where
  "prepare_rich_variant cd revision placement =
     (if document_media_references (cr_document revision) \<noteq> []
      then Some (Inl (invalid_request (lit ''media publication requires scoped active media bindings'')))
      else prepare_rich_variant_with_media cd revision placement [])"

definition binding_active_in :: "tenant_scope \<Rightarrow> content_media_binding \<Rightarrow> bool" where
  "binding_active_in scope b \<longleftrightarrow> mb_operator_id b = ts_operator_id scope \<and> mb_tenant_id b = ts_tenant_id scope \<and>
     Some (mb_project_id b) = ts_project_id scope \<and> mb_state b = BindingActive \<and> mb_withdrawn_at b = None \<and>
     \<not> is_nil (mb_binding_id b)"

fun index_bindings :: "tenant_scope \<Rightarrow> (media_object_key, content_media_binding) hash_map \<Rightarrow>
    content_media_binding list \<Rightarrow> (media_object_key, content_media_binding) hash_map result" where
  "index_bindings scope m [] = Inr m"
| "index_bindings scope m (b # bs) =
     (if \<not> binding_active_in scope b
      then Inl (forbidden (lit ''media binding is not active in project''))
      else rbind (validate_image (mb_image b)) (\<lambda>_.
        if hm_contains m (vi_key (mb_image b))
        then Inl (invalid_request (lit ''duplicate media binding''))
        else index_bindings scope (hm_insert (vi_key (mb_image b)) b m) bs))"

definition media_item_of :: "content_media_binding \<Rightarrow> media_object_key \<Rightarrow> media_reference \<Rightarrow> publication_media_item" where
  "media_item_of b object reference =
     \<lparr>pm_binding_id = mb_binding_id b, pm_object = object, pm_media_type = vi_media_type (mb_image b),
      pm_byte_len = vi_byte_len (mb_image b), pm_width = vi_width (mb_image b), pm_height = vi_height (mb_image b),
      pm_alt = mr_alt reference, pm_caption = mr_caption reference, pm_role = RoleImage\<rparr>"

text \<open>The media in document order, and the set of the objects used.\<close>

fun media_items :: "(media_object_key, content_media_binding) hash_map \<Rightarrow> media_object_key list \<Rightarrow>
    media_reference list \<Rightarrow> (publication_media_item list \<times> media_object_key list) result" where
  "media_items by_key used [] = Inr ([], used)"
| "media_items by_key used (reference # rest) =
     (let object = \<lparr>mk_object_id = mr_object_id reference, mk_object_version = mr_object_version reference,
                    mk_sha256 = mr_sha256 reference\<rparr> in
      rbind (validate_media_key object) (\<lambda>_.
      rbind (ok_or (hm_get by_key object)
               (invalid_request (lit ''media binding missing or media identity differs''))) (\<lambda>b.
      rbind (media_items by_key (List.insert object used) rest) (\<lambda>r.
        Inr (media_item_of b object reference # fst r, snd r)))))"

definition prepare_rich_variant_authorized :: "codecs \<Rightarrow> content_revision \<Rightarrow> platform_placement \<Rightarrow> tenant_scope \<Rightarrow>
    content_media_binding list \<Rightarrow> channel_variant outcome" where
  "prepare_rich_variant_authorized cd revision placement scope bindings =
     (if ts_project_id scope = None
      then Some (Inl (forbidden (lit ''rich publication requires project scope'')))
      else obind (Some (index_bindings scope [] bindings)) (\<lambda>by_key.
        obind (Some (media_items by_key [] (document_media_references (cr_document revision)))) (\<lambda>r.
          if length (snd r) \<noteq> length by_key
          then Some (Inl (invalid_request (lit ''media binding is not referenced by publication'')))
          else prepare_rich_variant_with_media cd revision placement (fst r))))"

section \<open>Logical publications\<close>

definition publication_logical_key :: "codecs \<Rightarrow> tenant_scope \<Rightarrow> str \<Rightarrow> str \<Rightarrow> channel_variant \<Rightarrow> uuid \<Rightarrow> str" where
  "publication_logical_key cd scope platform slot v account =
     digest cd [storage_key (cd_uuid cd) scope, cd_uuid cd (cv_content_revision_id v), cd_uuid cd (cv_variant_id v),
       platform, slot, cd_uuid cd account, cv_payload_hash v]"

definition command_identity :: "codecs \<Rightarrow> uuid \<Rightarrow> uuid" where
  "command_identity cd intent_id = identity_of cd [cd_uuid cd intent_id, lit ''publish'']"

definition prepare_publication_identity :: "codecs \<Rightarrow> tenant_scope \<Rightarrow> project_id \<Rightarrow> str \<Rightarrow> str \<Rightarrow> uuid \<Rightarrow> channel_variant \<Rightarrow>
    uuid \<Rightarrow> bool \<Rightarrow> instant \<Rightarrow> publication_intent \<times> publication_command" where
  "prepare_publication_identity cd scope project platform slot origin v account fixture at =
     (let logical_key = publication_logical_key cd scope platform slot v account;
          intent_id = identity_of cd [logical_key] in
      (\<lparr>pi_intent_id = intent_id, pi_project_id = project, pi_channel_target_id = origin,
        pi_variant_id = cv_variant_id v, pi_content_revision_id = cv_content_revision_id v, pi_platform_id = platform,
        pi_placement_slot = slot, pi_account_id = account, pi_payload_hash = cv_payload_hash v,
        pi_logical_key = logical_key, pi_verification = IntentUnverified, pi_verification_evidence_id = None,
        pi_created_at = at\<rparr>,
       \<lparr>pc_command_id = command_identity cd intent_id, pc_intent_id = intent_id, pc_target_id = origin,
        pc_payload_hash = cv_payload_hash v, pc_fixture = fixture\<rparr>))"

definition prepare_publication_intent :: "codecs \<Rightarrow> tenant_scope \<Rightarrow> distribution_manifest \<Rightarrow> distribution_target \<Rightarrow>
    channel_variant \<Rightarrow> uuid \<Rightarrow> instant \<Rightarrow> publication_intent \<times> publication_command" where
  "prepare_publication_intent cd scope m t v account at =
     prepare_publication_identity cd scope (dm_project_id m) (dt_platform_id t) (dt_placement_slot t) (dt_target_id t) v
       account (list_ex (\<lambda>p. pp_platform_id p = dt_platform_id t \<and> pp_placement_slot p = dt_placement_slot t \<and> pp_fixture p)
         (dm_platform_scope m)) at"

definition prepare_request_publication_intent :: "codecs \<Rightarrow> tenant_scope \<Rightarrow> content_distribution_request \<Rightarrow>
    channel_variant \<Rightarrow> instant \<Rightarrow> (publication_intent \<times> publication_command) result" where
  "prepare_request_publication_intent cd scope request v at =
     rbind (ok_or (ts_project_id (dr_scope request)) (forbidden (lit ''project scope required''))) (\<lambda>project.
     rbind (check_dist_scope scope project) (\<lambda>_.
     if dr_scope request \<noteq> scope \<or> dr_content_revision_id request \<noteq> cv_content_revision_id v \<or>
        dr_platform_id request \<noteq> cv_platform_id v \<or> dr_placement_slot request \<noteq> cv_placement_slot v
     then Inl (conflict (lit ''request variant binding differs''))
     else Inr (prepare_publication_identity cd scope project (dr_platform_id request) (dr_placement_slot request) 0 v
                 (dr_account_id request) False at)))"

section \<open>Report evidence\<close>

text \<open>The receipt keeps its times; its identity is that of the coverage target it is reported for.\<close>

definition target_publication_evidence :: "codecs \<Rightarrow> uuid \<Rightarrow> uuid \<Rightarrow> uuid \<Rightarrow> str \<Rightarrow> instant \<Rightarrow> instant \<Rightarrow>
    report_evidence_reference" where
  "target_publication_evidence cd target intent source kind occurred received =
     \<lparr>re_evidence_id = identity_of cd [lit ''distribution-target-evidence-v1'', cd_uuid cd target, cd_uuid cd intent,
        cd_uuid cd source, kind],
      re_kind = kind, re_resource_id = target,
      re_resource_version = Some (lit ''intent:'' @ cd_uuid cd intent @ lit '':receipt:'' @ cd_uuid cd source),
      re_occurred_at = Some occurred, re_received_at = Some received,
      re_summary = (if kind = lit ''public_verification''
        then lit ''Verified public readback of the associated publication intent''
        else lit ''Published receipt of the associated publication intent'')\<rparr>"

end
