(* ===== verification/Distribution_Repository.thy ===== *)
theory Distribution_Repository
  imports Distribution_Prepare
begin

text \<open>
  \<open>MemoryDistributionRepository\<close> (\<open>publishing/distribution.rs\<close>): every operation of the repository that freezes
  manifests, expands them into coverage targets, and materializes targets and requests as logical
  publications with one outbox command each.
\<close>

section \<open>State\<close>

record target_version =
  tv_recorded_at :: instant
  tv_target :: distribution_target

record dist_state =
  ds_manifests :: "(str \<times> uuid, distribution_manifest) hash_map"
  ds_histories :: "(str \<times> uuid, target_version list) hash_map"
  ds_intents :: "(str \<times> str, publication_intent) hash_map"
  ds_variants :: "(str \<times> uuid, channel_variant) hash_map"
  ds_revisions :: "(str \<times> uuid, content_revision) hash_map"
  ds_commands :: "(str \<times> uuid, publication_command) hash_map"
  ds_requests :: "(str \<times> uuid, content_distribution_request) hash_map"

definition dist_empty :: dist_state where
  "dist_empty = \<lparr>ds_manifests = [], ds_histories = [], ds_intents = [], ds_variants = [], ds_revisions = [],
     ds_commands = [], ds_requests = []\<rparr>"

text \<open>The question mark in a method that owns the state and may panic.\<close>

definition try_out :: "'s \<Rightarrow> 'a outcome \<Rightarrow> ('a \<Rightarrow> 'b outcome \<times> 's) \<Rightarrow> 'b outcome \<times> 's" where
  "try_out st m k = (case m of None \<Rightarrow> (None, st) | Some (Inl e) \<Rightarrow> (Some (Inl e), st) | Some (Inr x) \<Rightarrow> k x)"

definition owner_key :: "codecs \<Rightarrow> tenant_scope \<Rightarrow> str" where
  "owner_key cd scope = storage_key (cd_uuid cd) scope"

definition scoped_manifest :: "codecs \<Rightarrow> dist_state \<Rightarrow> tenant_scope \<Rightarrow> uuid \<Rightarrow> distribution_manifest result" where
  "scoped_manifest cd st scope i =
     rbind (ok_or (hm_get (ds_manifests st) (owner_key cd scope, i)) (not_found (lit ''distribution manifest not found''))) (\<lambda>m.
     rbind (check_dist_scope scope (dm_project_id m)) (\<lambda>_. Inr m))"

definition recorded_at :: "instant \<Rightarrow> target_version list \<Rightarrow> instant" where
  "recorded_at now history = (if history = [] then now else max now (tv_recorded_at (last history) + 1))"

definition history_of :: "dist_state \<Rightarrow> str \<times> uuid \<Rightarrow> target_version list" where
  "history_of st key = (case hm_get (ds_histories st) key of None \<Rightarrow> [] | Some h \<Rightarrow> h)"

definition push_version :: "str \<times> uuid \<Rightarrow> instant \<Rightarrow> distribution_target \<Rightarrow> dist_state \<Rightarrow> dist_state" where
  "push_version key now t st =
     (let h = history_of st key in
      st\<lparr>ds_histories := hm_insert key (h @ [\<lparr>tv_recorded_at = recorded_at now h, tv_target = t\<rparr>]) (ds_histories st)\<rparr>)"

text \<open>\<open>entry(k).or_insert(v)\<close>.\<close>

definition or_insert :: "'k \<Rightarrow> 'v \<Rightarrow> ('k, 'v) hash_map \<Rightarrow> ('k, 'v) hash_map" where
  "or_insert k v m = (if hm_contains m k then m else hm_insert k v m)"

definition find_intent :: "str \<Rightarrow> uuid \<Rightarrow> dist_state \<Rightarrow> publication_intent option" where
  "find_intent owner i st =
     map_option snd (find (\<lambda>e. fst (fst e) = owner \<and> pi_intent_id (snd e) = i) (ds_intents st))"

definition find_command :: "str \<Rightarrow> uuid \<Rightarrow> dist_state \<Rightarrow> publication_command option" where
  "find_command owner i st =
     map_option snd (find (\<lambda>e. fst (fst e) = owner \<and> pc_intent_id (snd e) = i) (ds_commands st))"

text \<open>
  \<open>HashMap::iter\<close> visits every entry once, in an order that is not specified and that may be another one each
  time, as the map grows. A read that iterates over a map takes the order of this call as an argument.
\<close>

type_synonym stored_manifest = "(str \<times> uuid) \<times> distribution_manifest"
type_synonym stored_history = "(str \<times> uuid) \<times> target_version list"

record map_order =
  mo_manifests :: "stored_manifest list \<Rightarrow> stored_manifest list"
  mo_histories :: "stored_history list \<Rightarrow> stored_history list"

definition order_ok :: "map_order \<Rightarrow> bool" where
  "order_ok ord \<longleftrightarrow> (\<forall>m. mset (mo_manifests ord m) = mset m) \<and> (\<forall>h. mset (mo_histories ord h) = mset h)"

definition insertion_order :: map_order where
  "insertion_order = \<lparr>mo_manifests = (\<lambda>m. m), mo_histories = (\<lambda>h. h)\<rparr>"

lemma insertion_order_ok [simp]: "order_ok insertion_order"
  by (simp add: order_ok_def insertion_order_def)

section \<open>Freezing and reading\<close>

definition freeze :: "codecs \<Rightarrow> frozen_json \<Rightarrow> draws \<Rightarrow> tenant_scope \<Rightarrow> freeze_input \<Rightarrow> dist_state \<Rightarrow>
    distribution_manifest outcome \<times> dist_state" where
  "freeze cd frozen_json d scope input st =
     try_out st (Some (freeze_distribution cd frozen_json scope input)) (\<lambda>m.
       let key = (owner_key cd scope, dm_manifest_id m) in
       case hm_get (ds_manifests st) key of
         Some old \<Rightarrow> if dm_input_hash old \<noteq> dm_input_hash m
           then (Some (Inl (conflict (lit ''frozen distribution inputs differ''))), st) else (Some (Inr old), st)
       | None \<Rightarrow> let m' = m\<lparr>dm_sealed_at := now_at d 0\<rparr> in
           (Some (Inr m'), st\<lparr>ds_manifests := hm_insert key m' (ds_manifests st)\<rparr>))"

definition get_dist_target :: "codecs \<Rightarrow> tenant_scope \<Rightarrow> uuid \<Rightarrow> uuid \<Rightarrow> dist_state \<Rightarrow> distribution_target result" where
  "get_dist_target cd scope manifest target st =
     rbind (scoped_manifest cd st scope manifest) (\<lambda>_.
       let h = history_of st (owner_key cd scope, target) in
       if h = [] \<or> dt_manifest_id (tv_target (last h)) \<noteq> manifest
       then Inl (not_found (lit ''distribution target not found'')) else Inr (tv_target (last h)))"

definition latest_for_cycle :: "codecs \<Rightarrow> tenant_scope \<Rightarrow> uuid \<Rightarrow> map_order \<Rightarrow> dist_state \<Rightarrow> distribution_manifest option result" where
  "latest_for_cycle cd scope cycle ord st =
     Inr (max_by_key (\<lambda>m. sint (dm_revision m)) (map snd (filter (\<lambda>e. fst (fst e) = owner_key cd scope \<and>
       ts_project_id scope = Some (dm_project_id (snd e)) \<and> dm_cycle_id (snd e) = cycle) (mo_manifests ord (ds_manifests st)))))"

definition version_at :: "instant \<Rightarrow> target_version list \<Rightarrow> target_version option" where
  "version_at at history = find (\<lambda>v. tv_recorded_at v \<le> at) (rev history)"

definition targets_at :: "str \<Rightarrow> uuid \<Rightarrow> instant \<Rightarrow> map_order \<Rightarrow> dist_state \<Rightarrow> distribution_target list" where
  "targets_at owner manifest at ord st =
     sort_key dt_ordinal (map tv_target (filter (\<lambda>v. dt_manifest_id (tv_target v) = manifest)
       (List.map_filter (\<lambda>e. version_at at (snd e)) (filter (\<lambda>e. fst (fst e) = owner) (mo_histories ord (ds_histories st))))))"

definition covered_prefix :: "u64 \<Rightarrow> distribution_target list \<Rightarrow> u64" where
  "covered_prefix expected targets =
     of_nat (length (takeWhile (\<lambda>(i, t). of_nat i = dt_ordinal t)
       (List.enumerate 0 (takeWhile (\<lambda>t. dt_ordinal t < expected) targets))))"

record distribution_snapshot =
  sn_manifest :: distribution_manifest
  sn_targets :: "distribution_target list"
  sn_as_of :: instant

definition as_of :: "codecs \<Rightarrow> tenant_scope \<Rightarrow> uuid \<Rightarrow> instant \<Rightarrow> map_order \<Rightarrow> dist_state \<Rightarrow> distribution_snapshot result" where
  "as_of cd scope i at ord st =
     rbind (scoped_manifest cd st scope i) (\<lambda>m.
     if at < dm_sealed_at m then Inl (not_found (lit ''manifest was not frozen at cutoff''))
     else let targets = targets_at (owner_key cd scope) i at ord st;
              cursor = covered_prefix (dm_expected_count m) targets
          in Inr \<lparr>sn_manifest = m\<lparr>dm_expansion_cursor := cursor, dm_complete := (cursor = dm_expected_count m)\<rparr>,
                  sn_targets = targets, sn_as_of = at\<rparr>)"

record distribution_cycle_inputs =
  ci_manifest :: "distribution_manifest option"
  ci_targets :: "distribution_target list"
  ci_temporally_complete :: bool

text \<open>The source releases the lock between choosing the manifest and reading its snapshot. Operations that run in
  between, with a cutoff that has passed, do not change the snapshot (\<open>report_cutoff_is_immutable\<close>).\<close>

definition dist_cycle_inputs :: "codecs \<Rightarrow> tenant_scope \<Rightarrow> uuid \<Rightarrow> instant \<Rightarrow> map_order \<Rightarrow> dist_state \<Rightarrow> distribution_cycle_inputs result" where
  "dist_cycle_inputs cd scope cycle at ord st =
     (case max_by_key (\<lambda>m. sint (dm_revision m)) (map snd (filter (\<lambda>e. fst (fst e) = owner_key cd scope \<and>
         ts_project_id scope = Some (dm_project_id (snd e)) \<and> dm_cycle_id (snd e) = cycle \<and> dm_sealed_at (snd e) \<le> at)
         (mo_manifests ord (ds_manifests st)))) of
       Some m \<Rightarrow> rbind (as_of cd scope (dm_manifest_id m) at ord st) (\<lambda>s.
         Inr \<lparr>ci_manifest = Some (sn_manifest s), ci_targets = sn_targets s,
              ci_temporally_complete = (of_nat (length (sn_targets s)) = dm_expected_count m)\<rparr>)
     | None \<Rightarrow> Inr \<lparr>ci_manifest = None, ci_targets = [], ci_temporally_complete = False\<rparr>)"

record distribution_target_page =
  tp_manifest_id :: uuid
  tp_rows :: "distribution_target list"
  tp_next_ordinal :: "u64 option"
  tp_expected_count :: u64

definition list_dist_targets :: "codecs \<Rightarrow> tenant_scope \<Rightarrow> uuid \<Rightarrow> u64 option \<Rightarrow> nat \<Rightarrow> map_order \<Rightarrow> dist_state \<Rightarrow>
    distribution_target_page result" where
  "list_dist_targets cd scope i after limit ord st =
     (if limit = 0 then Inl (invalid_request (lit ''target page limit must be positive''))
      else rbind (scoped_manifest cd st scope i) (\<lambda>m.
        let latest = List.map_filter (\<lambda>e. if snd e = [] then None else Some (last (snd e)))
              (filter (\<lambda>e. fst (fst e) = owner_key cd scope) (mo_histories ord (ds_histories st)));
            matching = filter (\<lambda>v. dt_manifest_id (tv_target v) = i \<and>
              (case after of None \<Rightarrow> True | Some cursor \<Rightarrow> dt_ordinal (tv_target v) > cursor)) latest;
            targets = take limit (sort_key dt_ordinal (map tv_target matching));
            next = (if targets = [] then None
              else let n = dt_ordinal (last targets) in if n + 1 < dm_expansion_cursor m then Some n else None)
        in Inr \<lparr>tp_manifest_id = i, tp_rows = targets, tp_next_ordinal = next, tp_expected_count = dm_expected_count m\<rparr>))"

section \<open>Expansion\<close>

record distribution_expansion_page =
  ep_manifest_id :: uuid
  ep_cursor :: u64
  ep_next_cursor :: u64
  ep_rows :: "distribution_target list"

text \<open>The cells from an ordinal on; \<open>None\<close> where one panics.\<close>

fun cells_from :: "codecs \<Rightarrow> distribution_manifest \<Rightarrow> u64 \<Rightarrow> nat \<Rightarrow> distribution_target list option" where
  "cells_from cd m ordinal 0 = Some []"
| "cells_from cd m ordinal (Suc n) = (case distribution_cell cd m ordinal of None \<Rightarrow> None
     | Some c \<Rightarrow> map_option (\<lambda>cs. c # cs) (cells_from cd m (ordinal + 1) n))"

definition expansion_page :: "codecs \<Rightarrow> tenant_scope \<Rightarrow> uuid \<Rightarrow> u64 \<Rightarrow> nat \<Rightarrow> dist_state \<Rightarrow> distribution_expansion_page outcome" where
  "expansion_page cd scope i cursor limit st =
     obind (Some (scoped_manifest cd st scope i)) (\<lambda>m.
     if limit = 0 \<or> cursor > dm_expected_count m
     then Some (Inl (invalid_request (lit ''invalid expansion cursor or page limit'')))
     else let upto = min (saturating_add (unat cursor) limit) (unat (dm_expected_count m)) in
       obind (map_option Inr (cells_from cd m cursor (upto - unat cursor))) (\<lambda>rows.
         Some (Inr \<lparr>ep_manifest_id = i, ep_cursor = cursor, ep_next_cursor = of_nat upto, ep_rows = rows\<rparr>)))"

fun rows_differ :: "codecs \<Rightarrow> distribution_manifest \<Rightarrow> u64 \<Rightarrow> distribution_target list \<Rightarrow> bool option" where
  "rows_differ cd m ordinal [] = Some False"
| "rows_differ cd m ordinal (row # rows) = (case distribution_cell cd m ordinal of None \<Rightarrow> None
     | Some c \<Rightarrow> if row \<noteq> c then Some True else rows_differ cd m (ordinal + 1) rows)"

definition first_version_is :: "dist_state \<Rightarrow> str \<Rightarrow> distribution_target \<Rightarrow> bool" where
  "first_version_is st owner row \<longleftrightarrow>
     (let h = history_of st (owner, dt_target_id row) in h \<noteq> [] \<and> tv_target (hd h) = row)"

text \<open>The clock is read once for each row, from its \<open>i\<close>-th reading on.\<close>

fun push_rows :: "draws \<Rightarrow> nat \<Rightarrow> str \<Rightarrow> distribution_target list \<Rightarrow> dist_state \<Rightarrow> dist_state" where
  "push_rows d i owner [] st = st"
| "push_rows d i owner (row # rows) st =
     push_rows d (Suc i) owner rows (push_version (owner, dt_target_id row) (now_at d i) row st)"

definition commit_expansion_page :: "codecs \<Rightarrow> draws \<Rightarrow> tenant_scope \<Rightarrow> uuid \<Rightarrow> u64 \<Rightarrow> distribution_target list \<Rightarrow> dist_state \<Rightarrow>
    distribution_manifest outcome \<times> dist_state" where
  "commit_expansion_page cd d scope i expected rows st =
     (if rows = [] then (Some (Inl (invalid_request (lit ''expansion page is empty''))), st)
      else try_out st (Some (scoped_manifest cd st scope i)) (\<lambda>m.
      let owner = owner_key cd scope; n = unat expected + length rows; changed = rows_differ cd m expected rows in
      if n \<ge> 2 ^ 64 then (Some (Inl (invalid_request (lit ''expansion cursor overflow''))), st)
      else if n > unat (dm_expected_count m)
      then (Some (Inl (conflict (lit ''expansion rows do not match frozen roster''))), st)
      else if changed = None then (None, st)
      else if changed = Some True
      then (Some (Inl (conflict (lit ''expansion rows do not match frozen roster''))), st)
      else if dm_expansion_cursor m \<noteq> expected then
        (if n \<le> unat (dm_expansion_cursor m) \<and> list_all (first_version_is st owner) rows
         then (Some (Inr m), st) else (Some (Inl (conflict (lit ''expansion cursor changed''))), st))
      else let m' = m\<lparr>dm_expansion_cursor := of_nat n, dm_complete := (of_nat n = dm_expected_count m)\<rparr>;
               st1 = push_rows d 0 owner rows st
           in (Some (Inr m'), st1\<lparr>ds_manifests := hm_insert (owner, i) m' (ds_manifests st1)\<rparr>)))"

end
