(* ===== verification/Distribution_Materialize.thy ===== *)
theory Distribution_Materialize
  imports Distribution_Repository
begin

text \<open>
  Materialization (\<open>publishing/distribution.rs\<close>): a coverage target, or an accepted request, becomes a logical
  publication. A publication that exists already is reused and gets no second command.
\<close>

datatype distribution_deferral = DeferSourceUnavailable | DeferSourceChanged | DeferContentUnsupported

fun deferral_code :: "distribution_deferral \<Rightarrow> str" where
  "deferral_code DeferSourceUnavailable = lit ''source_unavailable''"
| "deferral_code DeferSourceChanged = lit ''source_changed''"
| "deferral_code DeferContentUnsupported = lit ''content_unsupported''"

record prepared_distribution =
  pd_manifest_id :: uuid
  pd_target_id :: uuid
  pd_revision :: "content_revision option"
  pd_account_id :: "uuid option"
  pd_defer_reason :: "distribution_deferral option"

record materialized_distribution =
  md_target :: distribution_target
  md_variant :: "channel_variant option"
  md_intent :: "publication_intent option"
  md_publication_commands :: "publication_command list"

definition publishable_status :: "distribution_target_status \<Rightarrow> bool" where
  "publishable_status s \<longleftrightarrow> s \<in> {DistPending, DistDeferred, DistReady, DistReusedUnknown, DistReusedVerified}"

definition resumable_reason :: "str option \<Rightarrow> bool" where
  "resumable_reason r \<longleftrightarrow> r \<in> {Some (lit ''account_unassigned''), Some (lit ''source_unavailable''),
     Some (lit ''source_changed''), Some (lit ''content_unsupported'')}"

text \<open>A changed target is a new version of it; an unchanged one is not recorded again.\<close>

definition record_target :: "str \<times> uuid \<Rightarrow> instant \<Rightarrow> distribution_target \<Rightarrow> distribution_target \<Rightarrow> dist_state \<Rightarrow>
    distribution_target \<times> dist_state" where
  "record_target key now old t st =
     (if t = old then (t, st)
      else let t' = t\<lparr>dt_version := dt_version t + 1\<rparr> in (t', push_version key now t' st))"

definition defer_target :: "str \<times> uuid \<Rightarrow> instant \<Rightarrow> distribution_deferral \<Rightarrow> distribution_target \<Rightarrow> dist_state \<Rightarrow>
    materialized_distribution \<times> dist_state" where
  "defer_target key now reason old st =
     (let owner = fst key;
          r = record_target key now old (old\<lparr>dt_status := DistDeferred, dt_reason := Some (deferral_code reason)\<rparr>) st
      in (\<lparr>md_target = fst r,
           md_variant = (case dt_variant_id old of None \<Rightarrow> None | Some v \<Rightarrow> hm_get (ds_variants (snd r)) (owner, v)),
           md_intent = (case dt_publication_intent_id old of None \<Rightarrow> None | Some i \<Rightarrow> find_intent owner i (snd r)),
           md_publication_commands = []\<rparr>, snd r))"

definition unassign_target :: "str \<times> uuid \<Rightarrow> instant \<Rightarrow> distribution_target \<Rightarrow> dist_state \<Rightarrow>
    materialized_distribution outcome \<times> dist_state" where
  "unassign_target key now old st =
     (if dt_publication_intent_id old \<noteq> None
      then (Some (Inl (conflict (lit ''assigned intent cannot be unassigned''))), st)
      else let r = record_target key now old
             (old\<lparr>dt_status := DistDeferred, dt_reason := Some (lit ''account_unassigned'')\<rparr>) st
        in (Some (Inr \<lparr>md_target = fst r, md_variant = None, md_intent = None, md_publication_commands = []\<rparr>), snd r))"

section \<open>Logical publications\<close>

definition withdrawn_origin :: "dist_state \<Rightarrow> str \<Rightarrow> uuid \<Rightarrow> bool" where
  "withdrawn_origin st owner intent \<longleftrightarrow> (case hm_get (ds_requests st) (owner, intent) of None \<Rightarrow> False
     | Some r \<Rightarrow> dr_withdraw_after_publish r)"

definition payload_changed :: "dist_state \<Rightarrow> str \<Rightarrow> content_revision \<Rightarrow> channel_variant \<Rightarrow> bool" where
  "payload_changed st owner revision v \<longleftrightarrow>
     (case hm_get (ds_revisions st) (owner, cr_revision_id revision) of None \<Rightarrow> False | Some r \<Rightarrow> r \<noteq> revision) \<or>
     (case hm_get (ds_variants st) (owner, cv_variant_id v) of None \<Rightarrow> False | Some w \<Rightarrow> w \<noteq> v)"

text \<open>The command and the intent of a publication that is new, and the payload unless it is stored.\<close>

definition store_publication :: "str \<Rightarrow> bool \<Rightarrow> publication_intent \<Rightarrow> publication_command \<Rightarrow> channel_variant \<Rightarrow>
    content_revision \<Rightarrow> dist_state \<Rightarrow> dist_state" where
  "store_publication owner fresh intent command v revision st =
     st\<lparr>ds_commands := (if fresh then hm_insert (owner, pc_command_id command) command (ds_commands st) else ds_commands st),
        ds_intents := (if fresh then hm_insert (owner, pi_logical_key intent) intent (ds_intents st) else ds_intents st),
        ds_variants := or_insert (owner, cv_variant_id v) v (ds_variants st),
        ds_revisions := or_insert (owner, cr_revision_id revision) revision (ds_revisions st)\<rparr>"

definition reuse_status :: "publication_intent option \<Rightarrow> distribution_target \<Rightarrow> distribution_target_status" where
  "reuse_status previous old = (case previous of
       None \<Rightarrow> DistReady
     | Some prior \<Rightarrow>
         if pi_verification prior = IntentVerified then DistReusedVerified
         else if pi_verification prior = IntentUnknown then DistReusedUnknown
         else if pi_channel_target_id prior = dt_target_id old
         then (if dt_status old = DistDeferred then DistReady else dt_status old)
         else DistReusedUnknown)"

text \<open>From the prepared variant on. The clock is read for the intent, and again for the version.\<close>

definition publish_target :: "codecs \<Rightarrow> draws \<Rightarrow> tenant_scope \<Rightarrow> uuid \<Rightarrow> distribution_manifest \<Rightarrow> distribution_target \<Rightarrow>
    content_revision \<Rightarrow> channel_variant \<Rightarrow> uuid \<Rightarrow> dist_state \<Rightarrow> materialized_distribution outcome \<times> dist_state" where
  "publish_target cd d scope target m old revision v account st =
     (let owner = owner_key cd scope in
      if payload_changed st owner revision v
      then (Some (Inl (conflict (lit ''immutable content revision or channel variant changed''))), st)
      else
        let prepared = prepare_publication_intent cd scope m old v account (now_at d 0);
            candidate = fst prepared; command = snd prepared;
            previous = hm_get (ds_intents st) (owner, pi_logical_key candidate) in
        if (case previous of None \<Rightarrow> False | Some i \<Rightarrow> withdrawn_origin st owner (pi_intent_id i))
        then (Some (Inl (conflict (lit ''logical publication withdrawal policy differs''))), st)
        else
          let intent = (case previous of None \<Rightarrow> candidate | Some i \<Rightarrow> i) in
          if (case dt_publication_intent_id old of None \<Rightarrow> False
              | Some bound \<Rightarrow> bound \<noteq> pi_intent_id intent \<or> dt_account_id old \<noteq> Some account)
          then (Some (Inl (conflict (lit ''target is already bound to another intent''))), st)
          else
            let st1 = store_publication owner (previous = None) intent command v revision st;
                r = record_target (owner, target) (now_at d 1) old
                  (old\<lparr>dt_variant_id := Some (cv_variant_id v), dt_account_id := Some account,
                       dt_publication_intent_id := Some (pi_intent_id intent), dt_status := reuse_status previous old,
                       dt_reason := None\<rparr>) st1
            in (Some (Inr \<lparr>md_target = fst r, md_variant = Some v, md_intent = Some intent,
                  md_publication_commands = (if previous = None then [command] else [])\<rparr>), snd r))"

definition prepare_target_variant :: "codecs \<Rightarrow> tenant_scope \<Rightarrow> platform_placement \<Rightarrow> content_revision \<Rightarrow>
    content_media_binding list \<Rightarrow> channel_variant outcome" where
  "prepare_target_variant cd scope placement revision bindings =
     (if requires_rich_publication (cr_document revision)
      then prepare_rich_variant_authorized cd revision placement scope bindings
      else if bindings \<noteq> []
      then Some (Inl (invalid_request (lit ''plain publication cannot contain rich media bindings'')))
      else prepare_variant cd revision placement)"

definition find_placement :: "distribution_manifest \<Rightarrow> distribution_target \<Rightarrow> platform_placement option" where
  "find_placement m t = find (\<lambda>p. pp_platform_id p = dt_platform_id t \<and> pp_placement_slot p = dt_placement_slot t)
     (dm_platform_scope m)"

definition materialize_rich :: "codecs \<Rightarrow> draws \<Rightarrow> tenant_scope \<Rightarrow> prepared_distribution \<Rightarrow> content_media_binding list \<Rightarrow>
    dist_state \<Rightarrow> materialized_distribution outcome \<times> dist_state" where
  "materialize_rich cd d scope prepared bindings st =
     try_out st (Some (scoped_manifest cd st scope (pd_manifest_id prepared))) (\<lambda>m.
     let key = (owner_key cd scope, pd_target_id prepared) in
     try_out st (Some (ok_or (hm_get (ds_histories st) key)
                   (not_found (lit ''distribution target not found'')))) (\<lambda>history.
     if history = [] then (None, st)
     else let old = tv_target (last history) in
     if dt_manifest_id old \<noteq> dm_manifest_id m
     then (Some (Inl (not_found (lit ''target belongs to another manifest''))), st)
     else if \<not> publishable_status (dt_status old)
     then (Some (Inl (conflict (lit ''target is not publishable''))), st)
     else try_out st (map_option Inr (find_placement m old)) (\<lambda>placement.
     case pd_defer_reason prepared of
       Some reason \<Rightarrow> (let r = defer_target key (now_at d 0) reason old st in (Some (Inr (fst r)), snd r))
     | None \<Rightarrow>
     if dt_status old = DistDeferred \<and> \<not> resumable_reason (dt_reason old)
     then (Some (Inl (conflict (lit ''target is deferred by capability or content''))), st)
     else case pd_account_id prepared of
       None \<Rightarrow> unassign_target key (now_at d 0) old st
     | Some account \<Rightarrow>
     try_out st (Some (ok_or (pd_revision prepared) (invalid_request (lit ''content revision required'')))) (\<lambda>revision.
     if Some (cr_revision_id revision) \<noteq> dt_content_revision_id old
     then (Some (Inl (conflict (lit ''content revision differs from frozen handoff''))), st)
     else try_out st (prepare_target_variant cd scope placement revision bindings) (\<lambda>v.
       publish_target cd d scope (pd_target_id prepared) m old revision v account st)))))"

definition materialize :: "codecs \<Rightarrow> draws \<Rightarrow> tenant_scope \<Rightarrow> prepared_distribution \<Rightarrow> dist_state \<Rightarrow>
    materialized_distribution outcome \<times> dist_state" where
  "materialize cd d scope prepared st =
     (if (case pd_revision prepared of None \<Rightarrow> False | Some r \<Rightarrow> requires_rich_publication (cr_document r))
      then (Some (Inl (invalid_request (lit ''rich distribution requires explicit media authorization''))), st)
      else materialize_rich cd d scope prepared [] st)"

section \<open>Requests\<close>

definition materialize_prepared_request :: "codecs \<Rightarrow> draws \<Rightarrow> tenant_scope \<Rightarrow> content_distribution_request \<Rightarrow>
    content_revision \<Rightarrow> channel_variant \<Rightarrow> dist_state \<Rightarrow> publication_intent outcome \<times> dist_state" where
  "materialize_prepared_request cd d scope request revision v st =
     try_out st (Some (prepare_request_publication_intent cd scope request v (now_at d 0))) (\<lambda>(candidate, command).
       let owner = owner_key cd scope;
           prior = hm_get (ds_intents st) (owner, pi_logical_key candidate);
           intent = (case prior of None \<Rightarrow> candidate | Some i \<Rightarrow> i) in
       if prior \<noteq> None \<and> withdrawn_origin st owner (pi_intent_id intent) \<noteq> dr_withdraw_after_publish request
       then (Some (Inl (conflict (lit ''logical publication withdrawal policy differs''))), st)
       else if pi_intent_id intent \<noteq> pi_intent_id candidate \<or> pi_account_id intent \<noteq> dr_account_id request \<or>
         pi_variant_id intent \<noteq> cv_variant_id v \<or>
         (case dr_publication_intent_id request of None \<Rightarrow> False | Some i \<Rightarrow> i \<noteq> pi_intent_id intent)
       then (Some (Inl (conflict (lit ''logical publication differs from request''))), st)
       else if payload_changed st owner revision v
       then (Some (Inl (conflict (lit ''immutable publication payload differs''))), st)
       else
         let st1 = store_publication owner (prior = None) intent command v revision st
         in (Some (Inr intent),
             if is_nil (pi_channel_target_id intent)
             then st1\<lparr>ds_requests := or_insert (owner, pi_intent_id intent)
                    (request\<lparr>dr_publication_intent_id := Some (pi_intent_id intent)\<rparr>) (ds_requests st1)\<rparr>
             else st1))"

definition request_placement :: "content_distribution_request \<Rightarrow> str \<Rightarrow> str list \<Rightarrow> platform_placement" where
  "request_placement request version formats =
     \<lparr>pp_platform_id = dr_platform_id request, pp_placement_slot = dr_placement_slot request,
      pp_capability_version = version, pp_supported_formats = formats, pp_unavailable_reason = None, pp_fixture = False\<rparr>"

definition ineligible_revision :: "tenant_scope \<Rightarrow> content_distribution_request \<Rightarrow> content_revision \<Rightarrow> bool" where
  "ineligible_revision scope request revision \<longleftrightarrow> dr_scope request \<noteq> scope \<or>
     dr_content_revision_id request \<noteq> cr_revision_id revision \<or> dr_content_asset_id request \<noteq> cr_asset_id revision \<or>
     list_ex cf_blocking (cr_findings revision) \<or> cr_evidence revision = []"

definition materialize_request_origin :: "codecs \<Rightarrow> draws \<Rightarrow> tenant_scope \<Rightarrow> content_distribution_request \<Rightarrow>
    content_revision \<Rightarrow> dist_state \<Rightarrow> publication_intent outcome \<times> dist_state" where
  "materialize_request_origin cd d scope request revision st =
     (if ineligible_revision scope request revision
      then (Some (Inl (conflict (lit ''request revision is not eligible''))), st)
      else if dr_format request \<noteq> text_distribution_format
      then (Some (Inl (conflict (lit ''publication format is not supported''))), st)
      else try_out st (prepare_variant cd revision
          (request_placement request (lit ''request-text-v1'') [dr_format request])) (\<lambda>v.
        materialize_prepared_request cd d scope request revision v st))"

definition rich_distribution_format :: str where
  "rich_distribution_format = lit ''rich_markdown.v2''"

definition materialize_rich_request_origin :: "codecs \<Rightarrow> draws \<Rightarrow> tenant_scope \<Rightarrow> content_distribution_request \<Rightarrow>
    content_revision \<Rightarrow> content_media_binding list \<Rightarrow> dist_state \<Rightarrow> publication_intent outcome \<times> dist_state" where
  "materialize_rich_request_origin cd d scope request revision bindings st =
     (if ineligible_revision scope request revision \<or> dr_format request \<noteq> rich_distribution_format
      then (Some (Inl (conflict (lit ''rich request revision is not eligible''))), st)
      else try_out st (prepare_rich_variant_authorized cd revision
          (request_placement request (lit ''request-rich-v2'') [rich_markdown_format]) scope bindings) (\<lambda>v.
        materialize_prepared_request cd d scope request revision v st))"

section \<open>Verification and reading back\<close>

definition record_intent_verification :: "codecs \<Rightarrow> tenant_scope \<Rightarrow> uuid \<Rightarrow> intent_verification \<Rightarrow> uuid \<Rightarrow> dist_state \<Rightarrow>
    publication_intent outcome \<times> dist_state" where
  "record_intent_verification cd scope i verification evidence st =
     (if is_nil evidence \<or> verification = IntentUnverified
      then (Some (Inl (invalid_request (lit ''receipt evidence and a resolved verification state are required''))), st)
      else
        let owner = owner_key cd scope in
        try_out st (Some (ok_or (find_intent owner i st) (not_found (lit ''publication intent not found'')))) (\<lambda>intent.
        try_out st (Some (check_dist_scope scope (pi_project_id intent))) (\<lambda>_.
        if pi_verification intent = IntentVerified \<and> verification = IntentUnknown
        then (Some (Inl (conflict (lit ''verified asset cannot revert to unknown''))), st)
        else let intent' = intent\<lparr>pi_verification := verification, pi_verification_evidence_id := Some evidence\<rparr> in
          (Some (Inr intent'),
           st\<lparr>ds_intents := update_first (\<lambda>e. fst (fst e) = owner \<and> pi_intent_id (snd e) = i)
                (\<lambda>e. (fst e, intent')) (ds_intents st)\<rparr>))))"

definition publication_origin_of :: "dist_state \<Rightarrow> str \<Rightarrow> publication_intent \<Rightarrow> publication_command \<Rightarrow> publication_origin result" where
  "publication_origin_of st owner intent command =
     (if is_nil (pc_target_id command)
      then rbind (ok_or (hm_get (ds_requests st) (owner, pi_intent_id intent))
                    (not_found (lit ''distribution request not found''))) (\<lambda>r. Inr (ContentRequest r))
      else let h = history_of st (owner, pc_target_id command) in
        if h = [] then Inl (not_found (lit ''distribution target not found'')) else Inr (CoverageTarget (tv_target (last h))))"

definition get_publication_bundle :: "codecs \<Rightarrow> tenant_scope \<Rightarrow> uuid \<Rightarrow> dist_state \<Rightarrow> publication_bundle outcome" where
  "get_publication_bundle cd scope i st =
     (let owner = owner_key cd scope in
      obind (Some (ok_or (find_intent owner i st) (not_found (lit ''publication intent not found'')))) (\<lambda>intent.
      obind (Some (ok_or (hm_get (ds_variants st) (owner, pi_variant_id intent))
                     (not_found (lit ''publication variant not found'')))) (\<lambda>v.
      obind (Some (ok_or (hm_get (ds_revisions st) (owner, pi_content_revision_id intent))
                     (not_found (lit ''content revision not found'')))) (\<lambda>revision.
      obind (Some (ok_or (find_command owner i st) (not_found (lit ''publication command not found'')))) (\<lambda>command.
      obind (Some (publication_origin_of st owner intent command)) (\<lambda>origin.
        let bundle = \<lparr>pb_revision = revision, pb_variant = v, pb_intent = intent, pb_origin = origin, pb_command = command\<rparr>
        in obind (validate_origin cd bundle) (\<lambda>_. Some (Inr bundle))))))))"

definition publication_commands :: "codecs \<Rightarrow> tenant_scope \<Rightarrow> dist_state \<Rightarrow> publication_command list" where
  "publication_commands cd scope st =
     sort_key pc_command_id (map snd (filter (\<lambda>e. fst (fst e) = owner_key cd scope) (ds_commands st)))"

end
