(* ===== verification/Distribution_Steps.thy ===== *)
theory Distribution_Steps
  imports Distribution_Materialize
begin

text \<open>
  Histories of the distribution repository: its operations, the few kinds of steps they make on the state,
  and the proof that every operation makes one of them. Invariants are then shown for the steps.
\<close>

section \<open>Operations\<close>

datatype dist_op =
    DistFreeze frozen_json draws tenant_scope freeze_input
  | DistCommit draws tenant_scope uuid u64 "distribution_target list"
  | DistMaterialize draws tenant_scope prepared_distribution
  | DistMaterializeRich draws tenant_scope prepared_distribution "content_media_binding list"
  | DistRequest draws tenant_scope content_distribution_request content_revision
  | DistRichRequest draws tenant_scope content_distribution_request content_revision "content_media_binding list"
  | DistVerify draws tenant_scope uuid intent_verification uuid

fun dist_exec :: "codecs \<Rightarrow> dist_state \<Rightarrow> dist_op \<Rightarrow> dist_state" where
  "dist_exec cd st (DistFreeze fj d scope input) = snd (freeze cd fj d scope input st)"
| "dist_exec cd st (DistCommit d scope i expected rows) = snd (commit_expansion_page cd d scope i expected rows st)"
| "dist_exec cd st (DistMaterialize d scope prepared) = snd (materialize cd d scope prepared st)"
| "dist_exec cd st (DistMaterializeRich d scope prepared bindings) = snd (materialize_rich cd d scope prepared bindings st)"
| "dist_exec cd st (DistRequest d scope request revision) = snd (materialize_request_origin cd d scope request revision st)"
| "dist_exec cd st (DistRichRequest d scope request revision bindings) =
     snd (materialize_rich_request_origin cd d scope request revision bindings st)"
| "dist_exec cd st (DistVerify d scope i verification evidence) =
     snd (record_intent_verification cd scope i verification evidence st)"

fun dist_draws :: "dist_op \<Rightarrow> draws" where
  "dist_draws (DistFreeze fj d scope input) = d"
| "dist_draws (DistCommit d scope i expected rows) = d"
| "dist_draws (DistMaterialize d scope prepared) = d"
| "dist_draws (DistMaterializeRich d scope prepared bindings) = d"
| "dist_draws (DistRequest d scope request revision) = d"
| "dist_draws (DistRichRequest d scope request revision bindings) = d"
| "dist_draws (DistVerify d scope i verification evidence) = d"

section \<open>Steps\<close>

definition prepared_from :: "codecs \<Rightarrow> channel_variant \<Rightarrow> content_revision \<Rightarrow> platform_placement \<Rightarrow> bool" where
  "prepared_from cd v revision placement \<longleftrightarrow>
     prepare_variant cd revision placement = Some (Inr v) \<or>
     (\<exists>media. prepare_rich_variant_with_media cd revision placement media = Some (Inr v))"

inductive dist_step :: "codecs \<Rightarrow> draws \<Rightarrow> dist_state \<Rightarrow> dist_state \<Rightarrow> bool" for cd d where
  stay: "dist_step cd d st st"
| frozen: "freeze_distribution cd fj scope input = Inr m \<Longrightarrow>
    hm_get (ds_manifests st) (owner_key cd scope, dm_manifest_id m) = None \<Longrightarrow>
    dist_step cd d st (st\<lparr>ds_manifests := hm_insert (owner_key cd scope, dm_manifest_id m)
      (m\<lparr>dm_sealed_at := now_at d 0\<rparr>) (ds_manifests st)\<rparr>)"
| expanded: "hm_get (ds_manifests st) (owner, i) = Some m \<Longrightarrow>
    rows_differ cd m (dm_expansion_cursor m) rows = Some False \<Longrightarrow>
    unat (dm_expansion_cursor m) + length rows \<le> unat (dm_expected_count m) \<Longrightarrow>
    c = dm_expansion_cursor m + of_nat (length rows) \<Longrightarrow>
    dist_step cd d st ((push_rows d 0 owner rows st)\<lparr>ds_manifests := hm_insert (owner, i)
      (m\<lparr>dm_expansion_cursor := c, dm_complete := (c = dm_expected_count m)\<rparr>) (ds_manifests st)\<rparr>)"
| revised: "hm_get (ds_histories st) key = Some h \<Longrightarrow> h \<noteq> [] \<Longrightarrow> old = tv_target (last h) \<Longrightarrow>
    dist_step cd d st (push_version key (now_at d n) (old\<lparr>dt_status := s, dt_reason := r, dt_version := w\<rparr>) st)"
| published: "hm_get (ds_manifests st) (owner_key cd scope, i) = Some m \<Longrightarrow> ts_project_id scope = Some (dm_project_id m) \<Longrightarrow>
    hm_get (ds_histories st) (owner_key cd scope, target) = Some h \<Longrightarrow> h \<noteq> [] \<Longrightarrow>
    old = tv_target (last h) \<Longrightarrow> dt_content_revision_id old = Some (cr_revision_id revision) \<Longrightarrow>
    pp_platform_id placement = dt_platform_id old \<Longrightarrow> pp_placement_slot placement = dt_placement_slot old \<Longrightarrow>
    prepared_from cd v revision placement \<Longrightarrow>
    publish_target cd d scope target m old revision v account st = (Some (Inr md), st') \<Longrightarrow>
    dist_step cd d st st'"
| requested: "dr_content_revision_id request = cr_revision_id revision \<Longrightarrow> pp_platform_id placement = dr_platform_id request \<Longrightarrow>
    pp_placement_slot placement = dr_placement_slot request \<Longrightarrow> prepared_from cd v revision placement \<Longrightarrow>
    materialize_prepared_request cd d scope request revision v st = (Some (Inr intent), st') \<Longrightarrow>
    dist_step cd d st st'"
| verified: "record_intent_verification cd scope i verification evidence st = (Some (Inr intent), st') \<Longrightarrow>
    dist_step cd d st st'"

lemma try_out_simps [simp]:
  "try_out st None k = (None, st)" "try_out st (Some (Inl e)) k = (Some (Inl e), st)" "try_out st (Some (Inr x)) k = k x"
  by (simp_all add: try_out_def)

lemma try_out_cases:
  obtains "snd (try_out st m k) = st" | x where "m = Some (Inr x)" "try_out st m k = k x"
proof (cases m)
  case (Some a)
  then show ?thesis using that by (cases a) simp_all
qed (use that in simp)

lemma scoped_manifest_Inr:
  "scoped_manifest cd st scope i = Inr m \<longleftrightarrow>
    hm_get (ds_manifests st) (owner_key cd scope, i) = Some m \<and> ts_project_id scope = Some (dm_project_id m)"
  by (auto simp: scoped_manifest_def rbind_eq_Inr check_dist_scope_def)

section \<open>Frames\<close>

lemma push_version_manifests [simp]: "ds_manifests (push_version key now t st) = ds_manifests st"
  by (simp add: push_version_def Let_def)

lemma push_rows_manifests [simp]: "ds_manifests (push_rows d i owner rows st) = ds_manifests st"
  by (induction rows arbitrary: i st) (simp_all add: push_version_def Let_def)

lemma record_target_manifests [simp]: "ds_manifests (snd (record_target key now t old st)) = ds_manifests st"
  by (simp add: record_target_def Let_def)

lemma store_publication_frame [simp]:
  "ds_histories (store_publication owner fresh i c v r st) = ds_histories st"
  "ds_manifests (store_publication owner fresh i c v r st) = ds_manifests st"
  "ds_requests (store_publication owner fresh i c v r st) = ds_requests st"
  by (simp_all add: store_publication_def)

section \<open>Every operation is a step\<close>

lemma freeze_step: "dist_step cd d st (snd (freeze cd fj d scope input st))"
  by (auto simp: freeze_def try_out_def Let_def intro: dist_step.intros split: sum.split option.split)

lemma commit_step: "dist_step cd d st (snd (commit_expansion_page cd d scope i expected rows st))"
  unfolding commit_expansion_page_def
  by (auto simp: try_out_def Let_def scoped_manifest_Inr intro: dist_step.stay dist_step.expanded split: sum.split)

lemma record_target_step:
  assumes "hm_get (ds_histories st) key = Some h" and "h \<noteq> []" and "old = tv_target (last h)"
  shows "dist_step cd d st (snd (record_target key (now_at d n) old (old\<lparr>dt_status := s, dt_reason := r\<rparr>) st))"
proof -
  have "dist_step cd d st (push_version key (now_at d n) (old\<lparr>dt_status := s, dt_reason := r, dt_version := dt_version old + 1\<rparr>) st)"
    by (rule dist_step.revised [OF assms])
  then show ?thesis
    by (simp add: record_target_def Let_def stay)
qed

lemma publish_keeps:
  "snd (publish_target cd d scope target m old revision v account st) = st \<or>
    (\<exists>md. fst (publish_target cd d scope target m old revision v account st) = Some (Inr md))"
  by (simp add: publish_target_def Let_def)

lemma prepared_request_keeps:
  "snd (materialize_prepared_request cd d scope request revision v st) = st \<or>
    (\<exists>i. fst (materialize_prepared_request cd d scope request revision v st) = Some (Inr i))"
  by (auto simp: materialize_prepared_request_def try_out_def Let_def split: sum.split)

lemma verification_keeps:
  "snd (record_intent_verification cd scope i verification evidence st) = st \<or>
    (\<exists>x. fst (record_intent_verification cd scope i verification evidence st) = Some (Inr x))"
  by (auto simp: record_intent_verification_def try_out_def Let_def split: sum.split)

lemma obind_eq_Some_Inr: "obind m k = Some (Inr x) \<longleftrightarrow> (\<exists>y. m = Some (Inr y) \<and> k y = Some (Inr x))"
  by (auto simp: obind_def split: option.splits sum.splits)

lemma authorized_is_prepared:
  "prepare_rich_variant_authorized cd revision placement scope bindings = Some (Inr v) \<Longrightarrow>
    \<exists>media. prepare_rich_variant_with_media cd revision placement media = Some (Inr v)"
  by (auto simp: prepare_rich_variant_authorized_def obind_eq_Some_Inr split: if_splits)

lemma target_variant_is_prepared:
  "prepare_target_variant cd scope placement revision bindings = Some (Inr v) \<Longrightarrow> prepared_from cd v revision placement"
  by (auto simp: prepare_target_variant_def prepared_from_def dest: authorized_is_prepared split: if_splits)

text \<open>An error or a panic of a question mark leaves the state as it is.\<close>

lemma try_out_step:
  "(\<And>x. m = Some (Inr x) \<Longrightarrow> dist_step cd d st (snd (k x))) \<Longrightarrow> dist_step cd d st (snd (try_out st m k))"
  by (rule try_out_cases [of st m k]) (simp_all add: stay)

lemma materialize_rich_step: "dist_step cd d st (snd (materialize_rich cd d scope prepared bindings st))"
proof -
  let ?key = "(owner_key cd scope, pd_target_id prepared)"
  have publish: "dist_step cd d st (snd (publish_target cd d scope (pd_target_id prepared) m (tv_target (last h)) revision v account st))"
    if "scoped_manifest cd st scope (pd_manifest_id prepared) = Inr m" "hm_get (ds_histories st) ?key = Some h" "h \<noteq> []"
      "find_placement m (tv_target (last h)) = Some placement"
      "Some (cr_revision_id revision) = dt_content_revision_id (tv_target (last h))"
      "prepare_target_variant cd scope placement revision bindings = Some (Inr v)" for m h placement revision v account
  proof -
    let ?p = "publish_target cd d scope (pd_target_id prepared) m (tv_target (last h)) revision v account st"
    have placement: "pp_platform_id placement = dt_platform_id (tv_target (last h))"
      "pp_placement_slot placement = dt_placement_slot (tv_target (last h))"
      using that(4) by (auto simp: find_placement_def dest: find_SomeD)
    have manifest: "hm_get (ds_manifests st) (owner_key cd scope, pd_manifest_id prepared) = Some m"
      "ts_project_id scope = Some (dm_project_id m)"
      using that(1) by (simp_all add: scoped_manifest_Inr)
    note step = dist_step.published [OF manifest that(2,3) refl that(5) [symmetric] placement target_variant_is_prepared [OF that(6)]]
    show ?thesis
      using publish_keeps [of cd d scope "pd_target_id prepared" m "tv_target (last h)" revision v account st]
        step [of d account _ "snd ?p"] by (metis prod.collapse stay)
  qed
  note revise = record_target_step [OF _ _ refl]
  show ?thesis
    unfolding materialize_rich_def Let_def
    by (auto intro!: try_out_step publish revise simp: stay defer_target_def unassign_target_def Let_def split: option.split)
      simp_all
qed

lemma materialize_step: "dist_step cd d st (snd (materialize cd d scope prepared st))"
  using materialize_rich_step by (simp add: materialize_def stay)

lemma prepared_request_step:
  assumes "dr_content_revision_id request = cr_revision_id revision" and "pp_platform_id placement = dr_platform_id request"
    and "pp_placement_slot placement = dr_placement_slot request" and "prepared_from cd v revision placement"
  shows "dist_step cd d st (snd (materialize_prepared_request cd d scope request revision v st))"
  using prepared_request_keeps [of cd d scope request revision v st] dist_step.requested [OF assms]
  by (metis prod.collapse stay)

lemma request_step: "dist_step cd d st (snd (materialize_request_origin cd d scope request revision st))"
  unfolding materialize_request_origin_def
  by (auto intro!: try_out_step prepared_request_step [of request revision
      "request_placement request (lit ''request-text-v1'') [dr_format request]"]
      simp: stay ineligible_revision_def request_placement_def prepared_from_def)

lemma verification_step: "dist_step cd d st (snd (record_intent_verification cd scope i verification evidence st))"
  using verification_keeps [of cd scope i verification evidence st] dist_step.verified
  by (metis prod.collapse stay)

lemma rich_request_step: "dist_step cd d st (snd (materialize_rich_request_origin cd d scope request revision bindings st))"
  unfolding materialize_rich_request_origin_def
  by (auto intro!: try_out_step prepared_request_step [of request revision
      "request_placement request (lit ''request-rich-v2'') [rich_markdown_format]"]
      simp: stay ineligible_revision_def request_placement_def prepared_from_def dest: authorized_is_prepared)

text \<open>Every operation makes one of the steps.\<close>

theorem exec_is_step: "dist_step cd (dist_draws op) st (dist_exec cd st op)"
  by (cases op) (simp_all add: freeze_step commit_step materialize_step materialize_rich_step request_step
      rich_request_step verification_step)

end
