(* ===== verification/Distribution_Coverage.thy ===== *)
theory Distribution_Coverage
  imports Distribution_Steps
begin

text \<open>
  Coverage: a frozen manifest enumerates the product of its roster and its placements, and the cells below
  its cursor are exactly the recorded targets.
\<close>

section \<open>Frozen manifests\<close>

definition manifest_ok :: "distribution_manifest \<Rightarrow> bool" where
  "manifest_ok m \<longleftrightarrow> distinct (map (\<lambda>p. (pp_platform_id p, pp_placement_slot p)) (dm_platform_scope m)) \<and>
     distinct (map dd_document_item_id (dm_document_roster m)) \<and>
     unat (dm_expected_count m) = length (dm_document_roster m) * length (dm_platform_scope m) \<and>
     dm_expansion_cursor m \<le> dm_expected_count m \<and> dm_complete m = (dm_expansion_cursor m = dm_expected_count m)"

lemma unat_of_nat_u64: "n < 2 ^ 64 \<Longrightarrow> unat (of_nat n :: u64) = n"
  by (simp add: unat_of_nat)

lemma check_placements_distinct:
  "check_placements seen ps = Inr () \<Longrightarrow> distinct (map (\<lambda>p. (pp_platform_id p, pp_placement_slot p)) ps) \<and>
    (\<forall>p\<in>set ps. (pp_platform_id p, pp_placement_slot p) \<notin> set seen)"
proof (induction ps arbitrary: seen)
  case (Cons p ps)
  from Cons.prems have "(pp_platform_id p, pp_placement_slot p) \<notin> set seen"
    and "check_placements ((pp_platform_id p, pp_placement_slot p) # seen) ps = Inr ()"
    by (auto split: if_splits)
  with Cons.IH [of "(pp_platform_id p, pp_placement_slot p) # seen"] show ?case by auto
qed simp

lemma mset_insert_placement: "mset (insert_placement p qs) = add_mset p (mset qs)"
  by (induction qs) auto

lemma mset_sort_placements: "mset (sort_placements ps) = mset ps"
  unfolding sort_placements_def by (induction ps) (simp_all add: mset_insert_placement)

lemma index_handoff_keyed:
  "index_handoff m items = Inr m' \<Longrightarrow> hm_wf m \<Longrightarrow> hm_keyed hi_item_id m \<Longrightarrow> hm_wf m' \<and> hm_keyed hi_item_id m'"
  by (induction items arbitrary: m) (auto simp: hmk.keyed_insert split: if_splits)

lemma roster_loop_ids:
  "roster_loop m planned = Inr docs \<Longrightarrow> hm_wf m \<Longrightarrow> hm_keyed hi_item_id m \<Longrightarrow>
    distinct (map dd_document_item_id docs) \<and> (\<forall>d\<in>set docs. hm_get m (dd_document_item_id d) \<noteq> None)"
proof (induction planned arbitrary: m docs)
  case (Cons p ps)
  let ?i = "di_document_manifest_item_id p"
  from Cons.prems(1) obtain item rest where item: "hm_get m ?i = Some item"
    and rest: "roster_loop (hm_remove ?i m) ps = Inr rest"
    and docs: "docs = \<lparr>dd_document_item_id = hi_item_id item, dd_document_key = hi_document_key item,
        dd_content_type = di_content_type p, dd_status = hi_status item, dd_reason = hi_reason item,
        dd_content_revision_id = hi_revision_id item\<rparr> # rest"
    by (auto simp: rbind_eq_Inr split: if_splits)
  have "hi_item_id item = ?i"
    using Cons.prems(3) item by (simp add: hmk.keyed_def)
  moreover have "distinct (map dd_document_item_id rest) \<and> (\<forall>d\<in>set rest. hm_get (hm_remove ?i m) (dd_document_item_id d) \<noteq> None)"
    using Cons.IH [OF rest] Cons.prems(2,3) by (simp add: hmk.keyed_remove)
  ultimately show ?case
    using docs item Cons.prems(2) by (auto simp: hm.lookup_remove split: if_splits)
qed simp

lemma frozen_manifest_ok:
  assumes "freeze_distribution cd fj scope input = Inr m"
  shows "manifest_ok m" and "dm_expansion_cursor m = 0"
proof -
  from assms obtain placements by_id roster expected where
    placements: "check_placements [] (fd_placements input) = Inr ()" "placements = sort_placements (fd_placements input)"
    and roster: "index_handoff [] (ch_items (fd_content_handoff input)) = Inr by_id"
      "roster_loop by_id (dom_items (fd_document_manifest input)) = Inr roster"
    and expected: "checked_mul_u64 (length roster) (length placements) = Some expected"
    and m: "dm_platform_scope m = placements" "dm_document_roster m = roster" "dm_expected_count m = expected"
      "dm_expansion_cursor m = 0" "dm_complete m = (expected = 0)"
    by (auto simp: freeze_distribution_def Let_def rbind_eq_Inr split: if_splits)
  have scope: "distinct (map (\<lambda>p. (pp_platform_id p, pp_placement_slot p)) placements)"
    using check_placements_distinct [OF placements(1)] placements(2) mset_sort_placements
    by (metis mset_map mset_eq_imp_distinct_iff)
  have docs: "distinct (map dd_document_item_id roster)"
    using index_handoff_keyed [OF roster(1)] roster_loop_ids [OF roster(2)] by (simp add: hmk.keyed_empty)
  have count: "unat expected = length roster * length placements"
    using expected by (auto simp del: of_nat_mult simp: checked_mul_u64_def unat_of_nat_u64 split: if_splits)
  show "manifest_ok m" "dm_expansion_cursor m = 0"
    unfolding manifest_ok_def m using scope docs count by auto
qed

section \<open>Cells\<close>

definition cell_key :: "distribution_target \<Rightarrow> uuid \<times> uuid \<times> str \<times> str" where
  "cell_key t = (dt_manifest_id t, dt_document_item_id t, dt_platform_id t, dt_placement_slot t)"

text \<open>The part of a target that no later version changes.\<close>

definition same_cell :: "distribution_target \<Rightarrow> distribution_target \<Rightarrow> bool" where
  "same_cell a b \<longleftrightarrow> dt_target_id a = dt_target_id b \<and> dt_ordinal a = dt_ordinal b \<and> cell_key a = cell_key b \<and>
     dt_content_revision_id a = dt_content_revision_id b"

lemma same_cell_refl [simp]: "same_cell t t"
  by (simp add: same_cell_def)

lemma same_cell_trans: "same_cell a b \<Longrightarrow> same_cell b c \<Longrightarrow> same_cell a c"
  by (simp add: same_cell_def)

lemma distribution_cell_fields:
  assumes "distribution_cell cd m n = Some t"
  shows "dt_ordinal t = n" and "dt_manifest_id t = dm_manifest_id m"
    and "0 < length (dm_platform_scope m)"
    and "unat n div length (dm_platform_scope m) < length (dm_document_roster m)"
    and "dt_document_item_id t = dd_document_item_id (dm_document_roster m ! (unat n div length (dm_platform_scope m)))"
    and "(dt_platform_id t, dt_placement_slot t) = (\<lambda>p. (pp_platform_id p, pp_placement_slot p))
      (dm_platform_scope m ! (unat n mod length (dm_platform_scope m)))"
    and "dt_publication_intent_id t = None"
  using assms by (auto simp: distribution_cell_def cell_of_def Let_def split: if_splits)

lemma cell_exists:
  assumes "manifest_ok m" and "n < dm_expected_count m"
  shows "\<exists>t. distribution_cell cd m n = Some t"
proof -
  have "unat n < length (dm_document_roster m) * length (dm_platform_scope m)"
    using assms unfolding manifest_ok_def by (simp add: word_less_nat_alt)
  then have "0 < length (dm_platform_scope m)" "unat n div length (dm_platform_scope m) < length (dm_document_roster m)"
    by (auto simp: less_mult_imp_div_less intro: gr0I)
  then show ?thesis by (simp add: distribution_cell_def Let_def)
qed

lemma cell_injective:
  assumes "manifest_ok m" and a: "distribution_cell cd m n = Some a" and b: "distribution_cell cd m n' = Some b"
    and "cell_key a = cell_key b"
  shows "n = n'"
proof -
  let ?w = "length (dm_platform_scope m)"
  note fa = distribution_cell_fields [OF a] and fb = distribution_cell_fields [OF b]
  have docs: "distinct (map dd_document_item_id (dm_document_roster m))"
    and scope: "distinct (map (\<lambda>p. (pp_platform_id p, pp_placement_slot p)) (dm_platform_scope m))"
    using assms(1) by (simp_all add: manifest_ok_def)
  have "map dd_document_item_id (dm_document_roster m) ! (unat n div ?w) =
      map dd_document_item_id (dm_document_roster m) ! (unat n' div ?w)"
    using fa(4,5) fb(4,5) assms(4) by (simp add: cell_key_def)
  then have q: "unat n div ?w = unat n' div ?w"
    using nth_eq_iff_index_eq [OF docs] fa(4) fb(4) by simp
  have "map (\<lambda>p. (pp_platform_id p, pp_placement_slot p)) (dm_platform_scope m) ! (unat n mod ?w) =
      map (\<lambda>p. (pp_platform_id p, pp_placement_slot p)) (dm_platform_scope m) ! (unat n' mod ?w)"
    using fa(3,6) fb(6) assms(4) by (simp add: cell_key_def)
  then have r: "unat n mod ?w = unat n' mod ?w"
    using nth_eq_iff_index_eq [OF scope] fa(3) by simp
  have "unat n = unat n'"
    using q r by (metis div_mult_mod_eq)
  then show ?thesis by (simp add: word_unat_eq_iff)
qed

section \<open>Recorded targets\<close>

definition recorded :: "dist_state \<Rightarrow> str \<times> uuid \<Rightarrow> distribution_target list" where
  "recorded st key = map tv_target (history_of st key)"

lemma push_version_recorded:
  "recorded (push_version key now t st) key' = recorded st key' @ (if key' = key then [t] else [])"
  by (auto simp: recorded_def history_of_def push_version_def Let_def split: option.split)

lemma push_rows_recorded:
  "recorded (push_rows d i owner rows st) key =
    recorded st key @ (if fst key = owner then filter (\<lambda>r. dt_target_id r = snd key) rows else [])"
  by (induction rows arbitrary: i st) (auto simp: push_version_recorded prod_eq_iff)

text \<open>SHA-256 gave no two cells of a history the same identifier.\<close>

definition cells_unique :: "dist_state \<Rightarrow> bool" where
  "cells_unique st \<longleftrightarrow> (\<forall>key. \<forall>a\<in>set (recorded st key). \<forall>b\<in>set (recorded st key). cell_key a = cell_key b)"

definition histories_ok :: "dist_state \<Rightarrow> bool" where
  "histories_ok st \<longleftrightarrow> hm_wf (ds_histories st) \<and> (\<forall>key. hm_get (ds_histories st) key \<noteq> Some [])"

definition manifests_ok :: "dist_state \<Rightarrow> bool" where
  "manifests_ok st \<longleftrightarrow> (\<forall>owner i m. hm_get (ds_manifests st) (owner, i) = Some m \<longrightarrow> dm_manifest_id m = i \<and> manifest_ok m)"

text \<open>The history of a target begins with a cell below the cursor of its manifest, and stays with it.\<close>

definition begins_with_cell :: "codecs \<Rightarrow> dist_state \<Rightarrow> str \<Rightarrow> uuid \<Rightarrow> distribution_target \<Rightarrow> bool" where
  "begins_with_cell cd st owner k t \<longleftrightarrow> dt_target_id t = k \<and> (\<forall>u\<in>set (recorded st (owner, k)). same_cell u t) \<and>
     (\<exists>m n. hm_get (ds_manifests st) (owner, dt_manifest_id t) = Some m \<and> n < dm_expansion_cursor m \<and>
       distribution_cell cd m n = Some t)"

definition targets_ok :: "codecs \<Rightarrow> dist_state \<Rightarrow> bool" where
  "targets_ok cd st \<longleftrightarrow> (\<forall>owner k. recorded st (owner, k) \<noteq> [] \<longrightarrow>
     begins_with_cell cd st owner k (hd (recorded st (owner, k))))"

definition cells_recorded :: "codecs \<Rightarrow> dist_state \<Rightarrow> bool" where
  "cells_recorded cd st \<longleftrightarrow> (\<forall>owner i m n. hm_get (ds_manifests st) (owner, i) = Some m \<and> n < dm_expansion_cursor m \<longrightarrow>
     (\<exists>t. distribution_cell cd m n = Some t \<and> recorded st (owner, dt_target_id t) \<noteq> [] \<and>
       hd (recorded st (owner, dt_target_id t)) = t))"

definition coverage_inv :: "codecs \<Rightarrow> dist_state \<Rightarrow> bool" where
  "coverage_inv cd st \<longleftrightarrow> histories_ok st \<and> manifests_ok st \<and> targets_ok cd st \<and> cells_recorded cd st"

lemma coverage_manifest: "coverage_inv cd st \<Longrightarrow> hm_get (ds_manifests st) (owner, i) = Some m \<Longrightarrow> dm_manifest_id m = i \<and> manifest_ok m"
  by (simp add: coverage_inv_def manifests_ok_def)

lemma coverage_recorded:
  assumes "coverage_inv cd st" and "recorded st (owner, k) \<noteq> []"
  obtains m n where "dt_target_id (hd (recorded st (owner, k))) = k"
    and "\<forall>u\<in>set (recorded st (owner, k)). same_cell u (hd (recorded st (owner, k)))"
    and "hm_get (ds_manifests st) (owner, dt_manifest_id (hd (recorded st (owner, k)))) = Some m"
    and "n < dm_expansion_cursor m" and "distribution_cell cd m n = Some (hd (recorded st (owner, k)))"
  using assms unfolding coverage_inv_def targets_ok_def begins_with_cell_def by blast

lemma coverage_cell:
  assumes "coverage_inv cd st" and "hm_get (ds_manifests st) (owner, i) = Some m" and "n < dm_expansion_cursor m"
  obtains t where "distribution_cell cd m n = Some t" and "recorded st (owner, dt_target_id t) \<noteq> []"
    and "hd (recorded st (owner, dt_target_id t)) = t"
  using assms unfolding coverage_inv_def cells_recorded_def by blast

lemma coverage_empty: "coverage_inv cd dist_empty"
  by (simp add: coverage_inv_def histories_ok_def manifests_ok_def targets_ok_def cells_recorded_def dist_empty_def
      recorded_def history_of_def)

text \<open>Steps that only add versions of recorded targets.\<close>

definition revises :: "dist_state \<Rightarrow> dist_state \<Rightarrow> bool" where
  "revises st st' \<longleftrightarrow> ds_manifests st' = ds_manifests st \<and> histories_ok st' \<and>
     (\<forall>key. \<exists>us. recorded st' key = recorded st key @ us \<and>
       (\<forall>u\<in>set us. recorded st key \<noteq> [] \<and> same_cell u (last (recorded st key))))"

lemma revises_hd:
  assumes "revises st st'"
  shows "recorded st' key \<noteq> [] \<longleftrightarrow> recorded st key \<noteq> []" and "recorded st key \<noteq> [] \<Longrightarrow> hd (recorded st' key) = hd (recorded st key)"
    and "u \<in> set (recorded st' key) \<Longrightarrow> u \<in> set (recorded st key) \<or> recorded st key \<noteq> [] \<and> same_cell u (last (recorded st key))"
proof -
  obtain us where us: "recorded st' key = recorded st key @ us"
    "\<forall>u\<in>set us. recorded st key \<noteq> [] \<and> same_cell u (last (recorded st key))"
    using assms unfolding revises_def by blast
  show "recorded st' key \<noteq> [] \<longleftrightarrow> recorded st key \<noteq> []"
    using us by (cases us) auto
  show "hd (recorded st' key) = hd (recorded st key)" if "recorded st key \<noteq> []"
    using us that by simp
  show "u \<in> set (recorded st key) \<or> recorded st key \<noteq> [] \<and> same_cell u (last (recorded st key))"
    if "u \<in> set (recorded st' key)"
    using us that by auto
qed

lemma revises_coverage:
  assumes inv: "coverage_inv cd st" and rev: "revises st st'"
  shows "coverage_inv cd st'"
proof -
  note hd = revises_hd [OF rev]
  have manifests: "ds_manifests st' = ds_manifests st" using rev by (simp add: revises_def)
  have "begins_with_cell cd st' owner k (hd (recorded st' (owner, k)))" if "recorded st' (owner, k) \<noteq> []" for owner k
  proof -
    have ne: "recorded st (owner, k) \<noteq> []" using that hd(1) by blast
    have t: "begins_with_cell cd st owner k (hd (recorded st (owner, k)))"
      using inv ne by (simp add: coverage_inv_def targets_ok_def)
    have "same_cell u (hd (recorded st (owner, k)))" if "u \<in> set (recorded st' (owner, k))" for u
      using hd(3) [OF that] t same_cell_trans last_in_set [OF ne] unfolding begins_with_cell_def by blast
    then show ?thesis
      using t unfolding begins_with_cell_def hd(2) [OF ne] manifests by blast
  qed
  moreover have "cells_recorded cd st'"
    using inv hd(1,2) unfolding coverage_inv_def cells_recorded_def manifests by metis
  ultimately show ?thesis
    using inv rev unfolding coverage_inv_def targets_ok_def manifests_ok_def manifests revises_def by blast
qed

section \<open>Every step keeps the coverage\<close>

lemma recorded_cong: "ds_histories a = ds_histories b \<Longrightarrow> recorded a = recorded b"
  by (rule ext) (simp add: recorded_def history_of_def)

lemma revises_if_same: "histories_ok st \<Longrightarrow> ds_manifests st' = ds_manifests st \<Longrightarrow> ds_histories st' = ds_histories st \<Longrightarrow> revises st st'"
  using recorded_cong [of st' st] by (simp add: revises_def histories_ok_def)

lemma push_version_revises:
  assumes "histories_ok st" and "hm_get (ds_histories st) key = Some h" and "same_cell t (tv_target (last h))"
    and "ds_manifests st' = ds_manifests st" and "ds_histories st' = ds_histories (push_version key now t st)"
  shows "revises st st'"
proof -
  have h: "h \<noteq> []" "recorded st key = map tv_target h"
    using assms(1,2) by (auto simp: histories_ok_def recorded_def history_of_def simp del: split_paired_All)
  have ok: "histories_ok st'"
    using assms(1,5) unfolding histories_ok_def
    by (auto simp: push_version_def Let_def simp del: split_paired_All)
  have "\<exists>us. recorded st' key' = recorded st key' @ us \<and>
      (\<forall>u\<in>set us. recorded st key' \<noteq> [] \<and> same_cell u (last (recorded st key')))" for key'
    using recorded_cong [OF assms(5)] h assms(3)
    by (intro exI [of _ "if key' = key then [t] else []"]) (simp add: push_version_recorded last_map)
  then show ?thesis
    using assms(4) ok by (simp add: revises_def)
qed

lemma publish_target_shape:
  assumes "publish_target cd d scope target m old revision v account st = (Some (Inr md), st')"
  shows "ds_manifests st' = ds_manifests st" and "same_cell (md_target md) old"
    and "ds_histories st' = ds_histories st \<or>
      ds_histories st' = ds_histories (push_version (owner_key cd scope, target) (now_at d 1) (md_target md) st)"
  using assms
  by (auto simp: publish_target_def Let_def record_target_def same_cell_def cell_key_def push_version_def history_of_def
      split: if_splits)

lemma requested_frame:
  assumes "materialize_prepared_request cd d scope request revision v st = (Some (Inr intent), st')"
  shows "ds_manifests st' = ds_manifests st" "ds_histories st' = ds_histories st"
  using assms by (auto simp: materialize_prepared_request_def try_out_def Let_def split: sum.splits if_splits)

lemma verified_frame:
  assumes "record_intent_verification cd scope i verification evidence st = (Some (Inr intent), st')"
  shows "ds_manifests st' = ds_manifests st" "ds_histories st' = ds_histories st"
  using assms by (auto simp: record_intent_verification_def try_out_def Let_def split: sum.splits if_splits)

lemma rows_are_cells:
  "rows_differ cd m n rows = Some False \<Longrightarrow> j < length rows \<Longrightarrow> distribution_cell cd m (n + of_nat j) = Some (rows ! j)"
proof (induction rows arbitrary: n j)
  case (Cons r rows)
  then have "rows_differ cd m (n + 1) rows = Some False" "distribution_cell cd m n = Some r"
    by (auto split: option.splits if_splits)
  then show ?case
    using Cons.IH [of "n + 1" "j - 1"] Cons.prems(2) by (cases j) (simp_all add: ac_simps)
qed simp

lemma distribution_cell_cursor [simp]:
  "distribution_cell cd (m\<lparr>dm_expansion_cursor := c, dm_complete := b\<rparr>) n = distribution_cell cd m n"
  by (simp add: distribution_cell_def cell_of_def Let_def)

lemma frozen_coverage:
  assumes inv: "coverage_inv cd st" and m: "freeze_distribution cd fj scope input = Inr m"
    and new: "hm_get (ds_manifests st) (owner, dm_manifest_id m) = None"
    and st': "st' = st\<lparr>ds_manifests := hm_insert (owner, dm_manifest_id m) (m\<lparr>dm_sealed_at := now\<rparr>) (ds_manifests st)\<rparr>"
  shows "coverage_inv cd st'"
proof -
  have histories: "ds_histories st' = ds_histories st" by (simp add: st')
  have same: "recorded st' = recorded st" by (rule recorded_cong [OF histories])
  have cursor: "dm_expansion_cursor (m\<lparr>dm_sealed_at := now\<rparr>) = 0"
    using frozen_manifest_ok(2) [OF m] by simp
  have ok: "manifests_ok st'"
    using inv frozen_manifest_ok(1) [OF m] by (auto simp: coverage_inv_def manifests_ok_def manifest_ok_def st')
  have "begins_with_cell cd st' o' k t" if "begins_with_cell cd st o' k t" for o' k t
  proof -
    from that obtain x n where x: "hm_get (ds_manifests st) (o', dt_manifest_id t) = Some x" "n < dm_expansion_cursor x"
      "distribution_cell cd x n = Some t" unfolding begins_with_cell_def by blast
    then have "hm_get (ds_manifests st') (o', dt_manifest_id t) = Some x"
      using new by (auto simp: st')
    then show ?thesis using that x unfolding begins_with_cell_def same by blast
  qed
  moreover have "cells_recorded cd st'"
    using inv cursor unfolding coverage_inv_def cells_recorded_def same by (auto simp: st')
  ultimately show ?thesis
    using inv ok unfolding coverage_inv_def targets_ok_def same by (simp add: histories_ok_def histories)
qed

lemma push_version_histories_ok: "histories_ok st \<Longrightarrow> histories_ok (push_version key now t st)"
  by (auto simp: histories_ok_def push_version_def Let_def simp del: split_paired_All)

lemma push_rows_histories_ok: "histories_ok st \<Longrightarrow> histories_ok (push_rows d n owner rows st)"
  by (induction rows arbitrary: n st) (simp_all add: push_version_histories_ok)

text \<open>A page of cells from the cursor on.\<close>

lemma page_unat:
  fixes c expected :: u64
  assumes "unat c + len \<le> unat expected" and "j \<le> len"
  shows "unat (c + of_nat j) = unat c + j"
proof -
  have "unat c + j < 2 ^ 64" using assms unsigned_less [of expected, where 'a = nat] by simp
  then have "unat (of_nat (unat c + j) :: u64) = unat c + j" by (rule unat_of_nat_u64)
  then show ?thesis by simp
qed

definition page_unique :: "dist_state \<Rightarrow> str \<Rightarrow> distribution_target list \<Rightarrow> bool" where
  "page_unique st owner rows \<longleftrightarrow> (\<forall>k. \<forall>a\<in>set (recorded st (owner, k)) \<union> {r\<in>set rows. dt_target_id r = k}.
     \<forall>b\<in>set rows. dt_target_id b = k \<longrightarrow> cell_key a = cell_key b)"

definition next_page :: "codecs \<Rightarrow> dist_state \<Rightarrow> str \<Rightarrow> uuid \<Rightarrow> distribution_manifest \<Rightarrow> distribution_target list \<Rightarrow> bool" where
  "next_page cd st owner i m rows \<longleftrightarrow> coverage_inv cd st \<and> hm_get (ds_manifests st) (owner, i) = Some m \<and>
     rows_differ cd m (dm_expansion_cursor m) rows = Some False \<and>
     unat (dm_expansion_cursor m) + length rows \<le> unat (dm_expected_count m) \<and> page_unique st owner rows"

lemma next_page_facts:
  assumes "next_page cd st owner i m rows"
  shows "coverage_inv cd st" and "hm_get (ds_manifests st) (owner, i) = Some m" and "dm_manifest_id m = i" and "manifest_ok m"
    and "j < length rows \<Longrightarrow> distribution_cell cd m (dm_expansion_cursor m + of_nat j) = Some (rows ! j)"
    and "j \<le> length rows \<Longrightarrow> unat (dm_expansion_cursor m + of_nat j) = unat (dm_expansion_cursor m) + j"
    and "unat (dm_expansion_cursor m) + length rows \<le> unat (dm_expected_count m)"
proof -
  note page = assms [unfolded next_page_def]
  show "coverage_inv cd st" "hm_get (ds_manifests st) (owner, i) = Some m"
    "unat (dm_expansion_cursor m) + length rows \<le> unat (dm_expected_count m)"
    using page by simp_all
  show "dm_manifest_id m = i" "manifest_ok m"
    using coverage_manifest [of cd st owner i m] page by simp_all
  show "distribution_cell cd m (dm_expansion_cursor m + of_nat j) = Some (rows ! j)" if "j < length rows"
    using rows_are_cells [of cd m "dm_expansion_cursor m" rows j] page that by simp
  show "unat (dm_expansion_cursor m + of_nat j) = unat (dm_expansion_cursor m) + j" if "j \<le> length rows"
    using page_unat [of "dm_expansion_cursor m" "length rows" "dm_expected_count m" j] page that by simp
qed

lemma next_page_unique:
  assumes "next_page cd st owner i m rows" and "dt_target_id b = k" and "b \<in> set rows"
    and "a \<in> set (recorded st (owner, k)) \<or> a \<in> set rows \<and> dt_target_id a = k"
  shows "cell_key a = cell_key b"
proof -
  have "page_unique st owner rows" using assms(1) by (simp add: next_page_def)
  then show ?thesis using assms(2-4) unfolding page_unique_def by blast
qed

lemma next_page_position:
  assumes "next_page cd st owner i m rows" and "j < length rows" and "distribution_cell cd m n = Some t"
    and "cell_key t = cell_key (rows ! j)"
  shows "n = dm_expansion_cursor m + of_nat j"
  using cell_injective [OF next_page_facts(4) [OF assms(1)] assms(3) next_page_facts(5) [OF assms(1,2)] assms(4)] .

lemma next_page_fresh:
  assumes page: "next_page cd st owner i m rows" and r: "j < length rows"
  shows "recorded st (owner, dt_target_id (rows ! j)) = []"
proof (rule ccontr)
  let ?k = "dt_target_id (rows ! j)" and ?c = "dm_expansion_cursor m"
  assume ne: "recorded st (owner, ?k) \<noteq> []"
  note facts = next_page_facts [OF page]
  let ?t = "hd (recorded st (owner, ?k))"
  obtain x n where t: "hm_get (ds_manifests st) (owner, dt_manifest_id ?t) = Some x" "n < dm_expansion_cursor x"
    "distribution_cell cd x n = Some ?t" using coverage_recorded [OF facts(1) ne] by blast
  have key: "cell_key ?t = cell_key (rows ! j)"
    by (rule next_page_unique [OF page refl nth_mem [OF r]], rule disjI1) (rule hd_in_set [OF ne])
  then have "dt_manifest_id ?t = i"
    using distribution_cell_fields(2) [OF facts(5) [OF r]] facts(3) by (simp add: cell_key_def)
  then have "x = m" using t(1) facts(2) by simp
  then have "n = ?c + of_nat j" "n < ?c" using next_page_position [OF page r _ key] t(2,3) by simp_all
  then show False using facts(6) [of j] r by (simp add: word_less_nat_alt)
qed

lemma next_page_alone:
  assumes page: "next_page cd st owner i m rows" and "r \<in> set rows" and j: "j < length rows"
    and same: "dt_target_id r = dt_target_id (rows ! j)"
  shows "r = rows ! j"
proof -
  note facts = next_page_facts [OF page]
  obtain j' where j': "j' < length rows" "r = rows ! j'" using assms(2) by (auto simp: in_set_conv_nth)
  have "cell_key (rows ! j') = cell_key (rows ! j)"
    using next_page_unique [OF page refl, of "rows ! j" r] j j' same by simp
  then have "dm_expansion_cursor m + of_nat j' = dm_expansion_cursor m + of_nat j"
    using next_page_position [OF page j facts(5) [OF j'(1)]] by simp
  then have "unat (dm_expansion_cursor m + of_nat j') = unat (dm_expansion_cursor m + of_nat j)" by simp
  then show ?thesis using facts(6) [of j'] facts(6) [of j] j j' by simp
qed

lemma next_page_only:
  assumes page: "next_page cd st owner i m rows" and j: "j < length rows"
    and k: "k = dt_target_id (rows ! j)" and us: "us = recorded st (owner, k) @ filter (\<lambda>r. dt_target_id r = k) rows"
  shows "us \<noteq> []" and "hd us = rows ! j" and "u \<in> set us \<Longrightarrow> u = rows ! j"
proof -
  have us': "us = filter (\<lambda>r. dt_target_id r = k) rows" using next_page_fresh [OF page j] k us by simp
  then show "us \<noteq> []" using j k by (auto simp: filter_empty_conv)
  show all: "u = rows ! j" if "u \<in> set us" for u
    using next_page_alone [OF page _ j] that us' k by simp
  show "hd us = rows ! j" by (rule all) (rule hd_in_set, fact)
qed

lemma expanded_coverage:
  assumes page: "next_page cd st owner i m rows" and c: "c = dm_expansion_cursor m + of_nat (length rows)"
    and manifests: "ds_manifests st' = hm_insert (owner, i)
      (m\<lparr>dm_expansion_cursor := c, dm_complete := (c = dm_expected_count m)\<rparr>) (ds_manifests st)"
    and recorded': "\<And>key. recorded st' key = recorded st key @
      (if fst key = owner then filter (\<lambda>r. dt_target_id r = snd key) rows else [])"
    and "histories_ok st'"
  shows "coverage_inv cd st'"
proof -
  let ?m = "m\<lparr>dm_expansion_cursor := c, dm_complete := (c = dm_expected_count m)\<rparr>"
  note facts = next_page_facts [OF page]
  have c_unat: "unat c = unat (dm_expansion_cursor m) + length rows" using facts(6) [of "length rows"] c by simp
  have later: "\<exists>x'. hm_get (ds_manifests st') key = Some x' \<and> n < dm_expansion_cursor x' \<and>
      distribution_cell cd x' n = distribution_cell cd x n"
    if "hm_get (ds_manifests st) key = Some x" "n < dm_expansion_cursor x" for key x n
    using that facts(2) c_unat by (cases "key = (owner, i)") (simp_all add: manifests word_less_nat_alt)
  have begins: "begins_with_cell cd st' o' k (hd (recorded st' (o', k)))" if ne: "recorded st' (o', k) \<noteq> []" for o' k
  proof (cases "\<exists>j < length rows. o' = owner \<and> k = dt_target_id (rows ! j)")
    case True
    then obtain j where j: "j < length rows" "k = dt_target_id (rows ! j)" and o: "o' = owner" by blast
    have us: "recorded st' (o', k) = recorded st (owner, k) @ filter (\<lambda>r. dt_target_id r = k) rows"
      by (simp add: recorded' o)
    note only = next_page_only [OF page j us]
    have "dm_expansion_cursor m + of_nat j < c" using facts(6) [of j] j(1) c_unat by (simp add: word_less_nat_alt)
    moreover have "hm_get (ds_manifests st') (o', dt_manifest_id (rows ! j)) = Some ?m"
      using distribution_cell_fields(2) [OF facts(5) [OF j(1)]] facts(3) o by (simp add: manifests)
    ultimately show ?thesis
      unfolding begins_with_cell_def only(2) using j only(3) facts(5) [OF j(1)] by fastforce
  next
    case False
    then have same: "recorded st' (o', k) = recorded st (o', k)"
      by (auto simp: recorded' filter_empty_conv in_set_conv_nth)
    then have "recorded st (o', k) \<noteq> []" using ne by simp
    from coverage_recorded [OF facts(1) this] obtain x n where t: "dt_target_id (hd (recorded st (o', k))) = k"
      "\<forall>u\<in>set (recorded st (o', k)). same_cell u (hd (recorded st (o', k)))"
      "hm_get (ds_manifests st) (o', dt_manifest_id (hd (recorded st (o', k)))) = Some x"
      "n < dm_expansion_cursor x" "distribution_cell cd x n = Some (hd (recorded st (o', k)))" .
    obtain x' where "hm_get (ds_manifests st') (o', dt_manifest_id (hd (recorded st (o', k)))) = Some x'"
      "n < dm_expansion_cursor x'" "distribution_cell cd x' n = distribution_cell cd x n"
      using later [OF t(3,4)] by blast
    then show ?thesis
      unfolding begins_with_cell_def same using t by auto
  qed
  have "\<exists>t. distribution_cell cd x n = Some t \<and> recorded st' (o', dt_target_id t) \<noteq> [] \<and>
      hd (recorded st' (o', dt_target_id t)) = t"
    if x: "hm_get (ds_manifests st') (o', i') = Some x" "n < dm_expansion_cursor x" for o' i' x n
  proof (cases "\<exists>y. hm_get (ds_manifests st) (o', i') = Some y \<and> n < dm_expansion_cursor y \<and>
      distribution_cell cd x n = distribution_cell cd y n")
    case True
    then obtain y where y: "hm_get (ds_manifests st) (o', i') = Some y" "n < dm_expansion_cursor y"
      "distribution_cell cd x n = distribution_cell cd y n" by blast
    from coverage_cell [OF facts(1) y(1,2)] obtain t where t: "distribution_cell cd y n = Some t"
      "recorded st (o', dt_target_id t) \<noteq> []" "hd (recorded st (o', dt_target_id t)) = t" .
    then show ?thesis using y(3) by (intro exI [of _ t]) (simp add: recorded')
  next
    case False
    then have new: "o' = owner" "x = ?m" "\<not> n < dm_expansion_cursor m"
      using x facts(2) by (auto simp: manifests split: if_splits)
    define j where "j = unat n - unat (dm_expansion_cursor m)"
    have j: "j < length rows" "n = dm_expansion_cursor m + of_nat j"
      using new x(2) c_unat facts(6) [of j] unfolding j_def by (simp_all add: word_less_nat_alt word_unat_eq_iff)
    note only = next_page_only [OF page j(1) refl refl]
    show ?thesis
      using only facts(5) [OF j(1)] new j(2) by (intro exI [of _ "rows ! j"]) (simp add: recorded')
  qed
  then have "cells_recorded cd st'" unfolding cells_recorded_def by blast
  moreover have "targets_ok cd st'" using begins by (simp add: targets_ok_def)
  moreover have "manifest_ok ?m"
    using facts(4,7) c_unat by (simp add: manifest_ok_def word_le_nat_alt)
  then have "manifests_ok st'"
    using facts(1,3) unfolding coverage_inv_def manifests_ok_def by (auto simp: manifests split: if_splits)
  ultimately show ?thesis
    using assms(5) by (simp add: coverage_inv_def)
qed

lemma expanded_next_page:
  assumes inv: "coverage_inv cd st" and unique: "cells_unique st'"
    and page: "hm_get (ds_manifests st) (owner, i) = Some m" "rows_differ cd m (dm_expansion_cursor m) rows = Some False"
      "unat (dm_expansion_cursor m) + length rows \<le> unat (dm_expected_count m)"
    and recorded': "\<And>key. recorded st' key = recorded st key @
      (if fst key = owner then filter (\<lambda>r. dt_target_id r = snd key) rows else [])"
  shows "next_page cd st owner i m rows"
proof -
  have "page_unique st owner rows"
    unfolding page_unique_def
  proof (intro allI ballI impI)
    fix k a b
    assume "a \<in> set (recorded st (owner, k)) \<union> {r \<in> set rows. dt_target_id r = k}" "b \<in> set rows" "dt_target_id b = k"
    then have "a \<in> set (recorded st' (owner, k))" "b \<in> set (recorded st' (owner, k))" by (auto simp: recorded')
    then show "cell_key a = cell_key b" using unique unfolding cells_unique_def by blast
  qed
  then show ?thesis using inv page by (simp add: next_page_def)
qed

text \<open>A step keeps the coverage, unless it gave two cells of a history the same identifier.\<close>

lemma step_coverage:
  assumes inv: "coverage_inv cd st" and step: "dist_step cd d st st'" and unique: "cells_unique st'"
  shows "coverage_inv cd st'"
proof -
  have ok: "histories_ok st" using inv by (simp add: coverage_inv_def)
  from step show ?thesis
  proof cases
    case (frozen fj scope input m)
    show ?thesis by (rule frozen_coverage [OF inv frozen(2,3,1)])
  next
    case (expanded owner i m rows c)
    let ?pushed = "push_rows d 0 owner rows st"
    have recorded': "recorded st' key = recorded st key @ (if fst key = owner then filter (\<lambda>r. dt_target_id r = snd key) rows else [])" for key
      using recorded_cong [of st' ?pushed] expanded(1) by (simp add: push_rows_recorded)
    have "next_page cd st owner i m rows" by (rule expanded_next_page [OF inv unique expanded(2-4) recorded'])
    from expanded_coverage [OF this expanded(5) _ recorded'] show ?thesis
      using expanded(1) push_rows_histories_ok [OF ok, of d 0 owner rows] by (simp add: histories_ok_def)
  next
    case (revised key h old n s r w)
    then show ?thesis
      by (intro revises_coverage [OF inv] push_version_revises [OF ok revised(2)]) (simp_all add: same_cell_def cell_key_def)
  next
    case (published scope i m target h old revision placement v account md)
    note shape = publish_target_shape [OF published(10)]
    show ?thesis
      using shape(3)
    proof
      assume "ds_histories st' = ds_histories st"
      then show ?thesis by (intro revises_coverage [OF inv] revises_if_same [OF ok shape(1)])
    next
      assume "ds_histories st' = ds_histories (push_version (owner_key cd scope, target) (now_at d 1) (md_target md) st)"
      then show ?thesis
        using shape(1,2) published(3,5) by (intro revises_coverage [OF inv] push_version_revises [OF ok]) simp_all
    qed
  next
    case (requested request revision placement v scope intent)
    then show ?thesis
      by (intro revises_coverage [OF inv] revises_if_same [OF ok]) (simp_all add: requested_frame)
  next
    case (verified scope i verification evidence intent)
    then show ?thesis
      by (intro revises_coverage [OF inv] revises_if_same [OF ok]) (simp_all add: verified_frame)
  qed (use inv in simp)
qed

section \<open>The coverage list\<close>

text \<open>The last versions of the recorded targets of a manifest, as \<open>list_targets\<close> collects them.\<close>

definition latest_targets :: "codecs \<Rightarrow> tenant_scope \<Rightarrow> uuid \<Rightarrow> dist_state \<Rightarrow> distribution_target list" where
  "latest_targets cd scope i st = map tv_target (filter (\<lambda>v. dt_manifest_id (tv_target v) = i)
     (List.map_filter (\<lambda>e. if snd e = [] then None else Some (last (snd e)))
       (filter (\<lambda>e. fst (fst e) = owner_key cd scope) (ds_histories st))))"

lemma latest_targets_conv:
  assumes "histories_ok st"
  shows "latest_targets cd scope i st = map (\<lambda>e. tv_target (last (snd e)))
    (filter (\<lambda>e. fst (fst e) = owner_key cd scope \<and> dt_manifest_id (tv_target (last (snd e))) = i) (ds_histories st))"
proof -
  have "snd e \<noteq> []" if "e \<in> set (ds_histories st)" for e
    using assms that by (auto simp: histories_ok_def hm_wf_def hm_get_def simp del: split_paired_All)
      (metis map_of_is_SomeI prod.collapse)
  then have "map tv_target (filter (\<lambda>v. dt_manifest_id (tv_target v) = i)
     (List.map_filter (\<lambda>e. if snd e = [] then None else Some (last (snd e))) (filter (\<lambda>e. fst (fst e) = owner_key cd scope) es))) =
    map (\<lambda>e. tv_target (last (snd e)))
     (filter (\<lambda>e. fst (fst e) = owner_key cd scope \<and> dt_manifest_id (tv_target (last (snd e))) = i) es)"
    if "set es \<subseteq> set (ds_histories st)" for es
    using that by (induction es) (simp_all add: List.map_filter_def del: split_paired_Ex split_paired_All)
  then show ?thesis by (simp add: latest_targets_def)
qed

lemma history_entry:
  assumes "histories_ok st"
  shows "e \<in> set (ds_histories st) \<longleftrightarrow> hm_get (ds_histories st) (fst e) = Some (snd e)"
proof -
  have "distinct (map fst (ds_histories st))" using assms by (simp add: histories_ok_def hm_wf_def)
  from map_of_eq_Some_iff [OF this, of "fst e" "snd e"] show ?thesis by (simp add: hm_get_def)
qed

lemma recorded_last:
  "hm_get (ds_histories st) key = Some h \<Longrightarrow> h \<noteq> [] \<Longrightarrow>
    recorded st key \<noteq> [] \<and> last (recorded st key) = tv_target (last h)"
  by (simp add: recorded_def history_of_def last_map)

lemma recorded_last_cell:
  assumes inv: "coverage_inv cd st" and ne: "recorded st (owner, k) \<noteq> []" and t: "t = last (recorded st (owner, k))"
  obtains m c where "hm_get (ds_manifests st) (owner, dt_manifest_id t) = Some m" and "dt_ordinal t < dm_expansion_cursor m"
    and "distribution_cell cd m (dt_ordinal t) = Some c" and "same_cell t c" and "dt_target_id c = k"
proof -
  from coverage_recorded [OF inv ne] obtain m n where c: "dt_target_id (hd (recorded st (owner, k))) = k"
    "\<forall>u\<in>set (recorded st (owner, k)). same_cell u (hd (recorded st (owner, k)))"
    "hm_get (ds_manifests st) (owner, dt_manifest_id (hd (recorded st (owner, k)))) = Some m" "n < dm_expansion_cursor m"
    "distribution_cell cd m n = Some (hd (recorded st (owner, k)))" .
  have same: "same_cell t (hd (recorded st (owner, k)))" using c(2) last_in_set [OF ne] t by simp
  then have "dt_ordinal t = n" "dt_manifest_id t = dt_manifest_id (hd (recorded st (owner, k)))"
    using distribution_cell_fields(1) [OF c(5)] by (simp_all add: same_cell_def cell_key_def)
  with c same show thesis by (intro that [of m "hd (recorded st (owner, k))"]) simp_all
qed

lemma latest_targets_cells:
  assumes inv: "coverage_inv cd st" and m: "hm_get (ds_manifests st) (owner_key cd scope, i) = Some m"
  shows "distinct (map dt_ordinal (latest_targets cd scope i st))"
    and "t \<in> set (latest_targets cd scope i st) \<Longrightarrow> dt_ordinal t < dm_expansion_cursor m \<and>
      (\<exists>c. distribution_cell cd m (dt_ordinal t) = Some c \<and> same_cell t c)"
    and "n < dm_expansion_cursor m \<Longrightarrow> n \<in> dt_ordinal ` set (latest_targets cd scope i st)"
proof -
  have ok: "histories_ok st" using inv by (simp add: coverage_inv_def)
  let ?t = "\<lambda>e. tv_target (last (snd e)) :: distribution_target"
  let ?es = "filter (\<lambda>e. fst (fst e) = owner_key cd scope \<and> dt_manifest_id (?t e) = i) (ds_histories st)"
  have entry: "dt_ordinal (?t e) < dm_expansion_cursor m \<and>
      (\<exists>c. distribution_cell cd m (dt_ordinal (?t e)) = Some c \<and> same_cell (?t e) c \<and> fst e = (owner_key cd scope, dt_target_id c))"
    if e: "e \<in> set ?es" for e
  proof -
    have get: "hm_get (ds_histories st) (fst e) = Some (snd e)" using e history_entry [OF ok, of e] by simp
    then have "snd e \<noteq> []" using ok unfolding histories_ok_def by metis
    note last = recorded_last [OF get this]
    have key: "fst e = (owner_key cd scope, snd (fst e))" using e by (simp add: prod_eq_iff)
    from last have ne: "recorded st (owner_key cd scope, snd (fst e)) \<noteq> []"
      and t: "?t e = last (recorded st (owner_key cd scope, snd (fst e)))"
      by (metis key)+
    from recorded_last_cell [OF inv ne t] obtain x c where
      "hm_get (ds_manifests st) (owner_key cd scope, dt_manifest_id (?t e)) = Some x" "dt_ordinal (?t e) < dm_expansion_cursor x"
      "distribution_cell cd x (dt_ordinal (?t e)) = Some c" "same_cell (?t e) c" "dt_target_id c = snd (fst e)" .
    then show ?thesis using e m key by auto
  qed
  have "inj_on (\<lambda>e. dt_ordinal (?t e)) (set ?es)"
  proof (rule inj_onI)
    fix e e'
    assume es: "e \<in> set ?es" "e' \<in> set ?es" and same: "dt_ordinal (?t e) = dt_ordinal (?t e')"
    have "fst e = fst e'" using entry [OF es(1)] entry [OF es(2)] same by auto
    moreover have "hm_get (ds_histories st) (fst e) = Some (snd e)" "hm_get (ds_histories st) (fst e') = Some (snd e')"
      using es history_entry [OF ok] by simp_all
    ultimately show "e = e'" by (metis option.inject prod_eqI)
  qed
  moreover have "distinct ?es"
    using ok by (simp add: histories_ok_def hm_wf_def distinct_map)
  ultimately show "distinct (map dt_ordinal (latest_targets cd scope i st))"
    unfolding latest_targets_conv [OF ok] by (simp add: distinct_map comp_def)
  show "dt_ordinal t < dm_expansion_cursor m \<and> (\<exists>c. distribution_cell cd m (dt_ordinal t) = Some c \<and> same_cell t c)"
    if "t \<in> set (latest_targets cd scope i st)"
    using that entry unfolding latest_targets_conv [OF ok] by fastforce
  show "n \<in> dt_ordinal ` set (latest_targets cd scope i st)" if n: "n < dm_expansion_cursor m"
  proof -
    from coverage_cell [OF inv m n] obtain t where t: "distribution_cell cd m n = Some t"
      "recorded st (owner_key cd scope, dt_target_id t) \<noteq> []" "hd (recorded st (owner_key cd scope, dt_target_id t)) = t" .
    then obtain h where h: "hm_get (ds_histories st) (owner_key cd scope, dt_target_id t) = Some h" "h \<noteq> []"
      by (auto simp: recorded_def history_of_def split: option.splits)
    have last: "last (recorded st (owner_key cd scope, dt_target_id t)) = tv_target (last h)"
      using recorded_last [OF h] by simp
    have "\<forall>u\<in>set (recorded st (owner_key cd scope, dt_target_id t)). same_cell u t"
      using coverage_recorded [OF inv t(2)] t(3) by metis
    then have same: "same_cell (tv_target (last h)) t" using last last_in_set [OF t(2)] by metis
    have "dt_ordinal (tv_target (last h)) = n" "dt_manifest_id (tv_target (last h)) = i"
      using same distribution_cell_fields(1,2) [OF t(1)] coverage_manifest [OF inv m] by (simp_all add: same_cell_def cell_key_def)
    moreover have "((owner_key cd scope, dt_target_id t), h) \<in> set (ds_histories st)"
      using h(1) history_entry [OF ok, of "((owner_key cd scope, dt_target_id t), h)"] by simp
    ultimately show ?thesis
      unfolding latest_targets_conv [OF ok] by (force simp: image_iff)
  qed
qed

lemma words_below:
  fixes c :: u64
  shows "distinct (map of_nat [0..<unat c] :: u64 list)" and "sorted (map of_nat [0..<unat c] :: u64 list)"
    and "set (map of_nat [0..<unat c]) = {n. n < c}"
proof -
  have small: "unat (of_nat j :: u64) = j" if "j < unat c" for j
    using that unsigned_less [of c, where 'a = nat] by (intro unat_of_nat_u64) simp
  show "distinct (map of_nat [0..<unat c] :: u64 list)"
    unfolding distinct_map by (auto simp: inj_on_def) (metis small)
  show "sorted (map of_nat [0..<unat c] :: u64 list)"
    unfolding sorted_iff_nth_mono by (auto simp: word_le_nat_alt small)
  show "set (map of_nat [0..<unat c]) = {n. n < c}"
  proof (intro equalityI subsetI)
    fix n assume "n \<in> {n. n < c}"
    then show "n \<in> set (map of_nat [0..<unat c])"
      by (auto simp: word_less_nat_alt intro!: image_eqI [of _ _ "unat n"])
  qed (auto simp: word_less_nat_alt small)
qed

text \<open>The same in the order in which the map yields them.\<close>

definition listed_targets :: "codecs \<Rightarrow> tenant_scope \<Rightarrow> uuid \<Rightarrow> map_order \<Rightarrow> dist_state \<Rightarrow> distribution_target list" where
  "listed_targets cd scope i ord st = map tv_target (filter (\<lambda>v. dt_manifest_id (tv_target v) = i)
     (List.map_filter (\<lambda>e. if snd e = [] then None else Some (last (snd e)))
       (filter (\<lambda>e. fst (fst e) = owner_key cd scope) (mo_histories ord (ds_histories st)))))"

lemma mset_map_filter: "mset xs = mset ys \<Longrightarrow> mset (List.map_filter f xs) = mset (List.map_filter f ys)"
  by (simp add: List.map_filter_def)

lemma listed_targets_mset:
  assumes "order_ok ord"
  shows "mset (listed_targets cd scope i ord st) = mset (latest_targets cd scope i st)"
proof -
  have "mset (mo_histories ord (ds_histories st)) = mset (ds_histories st)" using assms by (simp add: order_ok_def)
  then have "mset (List.map_filter f (filter P (mo_histories ord (ds_histories st)))) = mset (List.map_filter f (filter P (ds_histories st)))"
    for P and f :: "stored_history \<Rightarrow> target_version option"
    by (intro mset_map_filter) simp
  then show ?thesis by (simp add: listed_targets_def latest_targets_def)
qed

lemma coverage_list:
  assumes inv: "coverage_inv cd st" and m: "scoped_manifest cd st scope i = Inr m" and limit: "0 < limit" "unat (dm_expansion_cursor m) \<le> limit"
    and ord: "order_ok ord" and page: "list_dist_targets cd scope i None limit ord st = Inr page"
  shows "map dt_ordinal (tp_rows page) = map of_nat [0..<unat (dm_expansion_cursor m)]" and "tp_next_ordinal page = None"
    and "t \<in> set (tp_rows page) \<Longrightarrow> \<exists>c. distribution_cell cd m (dt_ordinal t) = Some c \<and> same_cell t c"
proof -
  let ?xs = "listed_targets cd scope i ord st" and ?c = "dm_expansion_cursor m"
  have get: "hm_get (ds_manifests st) (owner_key cd scope, i) = Some m" using m by (simp add: scoped_manifest_Inr)
  have listed: "mset ?xs = mset (latest_targets cd scope i st)" by (rule listed_targets_mset [OF ord])
  have "mset (map dt_ordinal ?xs) = mset (map dt_ordinal (latest_targets cd scope i st))" using listed by simp
  then have distinct: "distinct (map dt_ordinal ?xs)"
    using latest_targets_cells(1) [OF inv get] by (metis mset_eq_imp_distinct_iff)
  have same: "set ?xs = set (latest_targets cd scope i st)" by (rule mset_eq_setD [OF listed])
  note cells = distinct latest_targets_cells(2,3) [OF inv get, folded same]
  have rows: "tp_rows page = take limit (sort_key dt_ordinal ?xs)"
    and nxt: "tp_next_ordinal page = (if tp_rows page = [] then None
      else let n = dt_ordinal (last (tp_rows page)) in if n + 1 < ?c then Some n else None)"
    using page m limit(1) by (auto simp: list_dist_targets_def listed_targets_def Let_def)
  have "set (map dt_ordinal ?xs) = {n. n < ?c}" using cells(2,3) by auto
  then have ordinals: "map dt_ordinal (sort_key dt_ordinal ?xs) = map of_nat [0..<unat ?c]"
    using words_below [of ?c] cells(1) by (intro sorted_distinct_set_unique) (simp_all add: distinct_map)
  have "length (sort_key dt_ordinal ?xs) = unat ?c"
    using arg_cong [OF ordinals, of length] by simp
  then have all: "tp_rows page = sort_key dt_ordinal ?xs" using rows limit(2) by simp
  then show map: "map dt_ordinal (tp_rows page) = map of_nat [0..<unat ?c]" using ordinals by simp
  show "\<exists>c. distribution_cell cd m (dt_ordinal t) = Some c \<and> same_cell t c" if "t \<in> set (tp_rows page)"
    using that cells(2) by (simp add: all)
  show "tp_next_ordinal page = None"
  proof (cases "tp_rows page = []")
    case False
    then have pos: "0 < unat ?c" using map by (cases "unat ?c") auto
    have "dt_ordinal (last (tp_rows page)) = of_nat (unat ?c - 1)"
      using arg_cong [OF map, of last] False pos by (simp add: last_map)
    then have "dt_ordinal (last (tp_rows page)) + 1 = of_nat (Suc (unat ?c - 1))" by simp
    also have "\<dots> = ?c" using pos by simp
    finally show ?thesis using nxt by simp
  qed (simp add: nxt)
qed

section \<open>Histories\<close>

definition cells_ok :: "codecs \<Rightarrow> dist_state \<Rightarrow> dist_op \<Rightarrow> bool" where
  "cells_ok cd st op \<longleftrightarrow> cells_unique (dist_exec cd st op)"

interpretation coverage: invariant_machine "dist_exec cd" "cells_ok cd" "coverage_inv cd" for cd
  by unfold_locales (auto simp: cells_ok_def intro: step_coverage exec_is_step)

text \<open>Two versions of targets of one manifest with one ordinal belong to one target.\<close>

lemma recorded_ordinal:
  assumes inv: "coverage_inv cd st" and m: "hm_get (ds_manifests st) (owner, i) = Some m"
    and u: "u \<in> set (recorded st (owner, k))" "dt_manifest_id u = i"
    and v: "v \<in> set (recorded st (owner, k'))" "dt_manifest_id v = i" and same: "dt_ordinal u = dt_ordinal v"
  shows "k = k'"
proof -
  have cell: "\<exists>c. distribution_cell cd m (dt_ordinal w) = Some c \<and> dt_target_id c = l"
    if w: "w \<in> set (recorded st (owner, l))" "dt_manifest_id w = i" for w l
  proof -
    let ?c = "hd (recorded st (owner, l))"
    have ne: "recorded st (owner, l) \<noteq> []" using w(1) by auto
    obtain x n where c: "dt_target_id ?c = l" "same_cell w ?c" "hm_get (ds_manifests st) (owner, dt_manifest_id ?c) = Some x"
      "distribution_cell cd x n = Some ?c"
      using coverage_recorded [OF inv ne] w(1) by metis
    have "dt_manifest_id ?c = i" "dt_ordinal ?c = dt_ordinal w" using c(2) w(2) by (simp_all add: same_cell_def cell_key_def)
    then show ?thesis using c m distribution_cell_fields(1) [OF c(4)] by auto
  qed
  show ?thesis using cell [OF u] cell [OF v] same by auto
qed

end
