(* ===== verification/Distribution_Publications.thy ===== *)
theory Distribution_Publications
  imports Distribution_Coverage
begin

text \<open>
  Logical publications: every stored intent keeps one command, its frozen payload and its origin, so that it
  reads back as a consistent bundle; nothing stored about it but its verification ever changes.
\<close>

section \<open>Prepared variants are valid\<close>

definition variant_valid :: "codecs \<Rightarrow> channel_variant \<Rightarrow> content_revision \<Rightarrow> bool" where
  "variant_valid cd v revision \<longleftrightarrow> cv_content_revision_id v = cr_revision_id revision \<and>
     (\<forall>b. pb_variant b = v \<and> pb_revision b = revision \<longrightarrow> validate_origin_variant cd b = Some (Inr ()))"

lemma obind_Inr [simp]: "obind (Some (Inr x)) k = k x"
  by (simp add: obind_def)

lemma plain_variant_valid:
  assumes "prepare_variant cd revision placement = Some (Inr v)"
  shows "variant_valid cd v revision \<and> cv_platform_id v = pp_platform_id placement \<and> cv_placement_slot v = pp_placement_slot placement"
proof -
  from assms have plain: "\<not> requires_rich_publication (cr_document revision)"
    and v: "prepare_versioned_variant cd revision placement channel_variant_policy = Some (Inr v)"
    by (simp_all add: prepare_variant_def split: if_splits)
  from v have "cv_rich_payload v = None" "cv_content_revision_id v = cr_revision_id revision"
    "cv_platform_id v = pp_platform_id placement" "cv_placement_slot v = pp_placement_slot placement"
    "cv_title v = sd_title (cr_document revision)"
    "cv_placement_slot v = short_post_slot \<Longrightarrow> markdown_body (cd_uuid cd) (cr_document revision) = Some (cv_markdown v)"
    by (auto simp: prepare_versioned_variant_def obind_eq_Some_Inr Let_def split: if_splits)
  then show ?thesis
    using plain by (simp add: variant_valid_def validate_origin_variant_def Let_def short_post_slot_def)
qed

lemma rich_variant_valid:
  assumes "prepare_rich_variant_with_media cd revision placement media = Some (Inr v)"
  shows "variant_valid cd v revision \<and> cv_platform_id v = pp_platform_id placement \<and> cv_placement_slot v = pp_placement_slot placement"
proof -
  let ?payload = "\<lparr>rp_schema_version = 2, rp_format = rich_markdown_format,
    rp_content_revision_id = cr_revision_id revision, rp_policy_version = rich_channel_variant_policy,
    rp_document = cr_document revision, rp_media = media\<rparr>"
  from assms have checks: "sd_schema_version (cr_document revision) = 2"
    "validate_document (cd_urls cd) (cr_evidence revision) (cr_document revision) = Inr ()"
    "document_markdown (cd_uuid cd) (cr_document revision) = Some (cr_markdown revision)"
    "validate_rich_media ?payload = Inr ()"
    "rich_payload_hash cd ?payload (sd_title (cr_document revision)) (cr_markdown revision) = Inr (cv_payload_hash v)"
    and v: "v = \<lparr>cv_variant_id = variant_identity cd (cr_revision_id revision) (pp_platform_id placement)
        (pp_placement_slot placement) rich_channel_variant_policy (cv_payload_hash v),
      cv_content_revision_id = cr_revision_id revision, cv_platform_id = pp_platform_id placement,
      cv_placement_slot = pp_placement_slot placement, cv_policy_version = rich_channel_variant_policy,
      cv_title = sd_title (cr_document revision), cv_markdown = cr_markdown revision, cv_payload_hash = cv_payload_hash v,
      cv_evidence = cr_evidence revision, cv_rich_payload = Some ?payload\<rparr>"
    by (auto simp: prepare_rich_variant_with_media_def obind_eq_Some_Inr Let_def split: if_splits)
  have fields: "cv_variant_id v = variant_identity cd (cr_revision_id revision) (pp_platform_id placement)
        (pp_placement_slot placement) rich_channel_variant_policy (cv_payload_hash v)"
    "cv_content_revision_id v = cr_revision_id revision" "cv_platform_id v = pp_platform_id placement"
    "cv_placement_slot v = pp_placement_slot placement" "cv_policy_version v = rich_channel_variant_policy"
    "cv_title v = sd_title (cr_document revision)" "cv_markdown v = cr_markdown revision"
    "cv_evidence v = cr_evidence revision" "cv_rich_payload v = Some ?payload"
    by (subst v, simp)+
  have "validate_rich_publication_payload cd v = Some (Inr ())"
    using checks by (simp add: validate_rich_publication_payload_def fields variant_identity_def)
  then show ?thesis
    by (simp add: variant_valid_def validate_origin_variant_def Let_def fields)
qed

lemma prepared_variant_valid:
  "prepared_from cd v revision placement \<Longrightarrow>
    variant_valid cd v revision \<and> cv_platform_id v = pp_platform_id placement \<and> cv_placement_slot v = pp_placement_slot placement"
  unfolding prepared_from_def using plain_variant_valid rich_variant_valid by blast

section \<open>Identifiers\<close>

text \<open>SHA-256 yields 32 bytes, and the version bits keep an identifier from being nil.\<close>

definition sha_ok :: "codecs \<Rightarrow> bool" where
  "sha_ok cd \<longleftrightarrow> (\<forall>bs. length (cd_sha256 cd bs) = 32)"

lemma horner_sum_pos: "x \<in> set xs \<Longrightarrow> uint x \<noteq> 0 \<Longrightarrow> 0 < horner_sum uint (256::int) xs"
proof (induction xs)
  case (Cons y ys)
  have "0 \<le> horner_sum uint (256::int) ys" by (induction ys) simp_all
  moreover have "0 < uint y \<or> uint y = 0 \<and> 0 < horner_sum uint (256::int) ys"
    using Cons by (auto simp: less_le)
  ultimately show ?case by auto
qed simp

lemma horner_sum_less: "horner_sum uint (256::int) (xs :: 8 word list) < 256 ^ length xs"
proof (induction xs)
  case (Cons y ys)
  have "uint y < 256" using unsigned_less [of y, where 'a = int] by simp
  then show ?case using Cons by simp
qed simp

lemma identity_not_nil:
  assumes "sha_ok cd"
  shows "identity_of cd parts \<noteq> 0"
proof -
  let ?b = "take 16 (cd_sha256 cd (digest_input parts))"
  let ?c = "?b[6 := or (and (?b ! 6) 0x0F) 0x50]"
  let ?d = "?c[8 := or (and (?c ! 8) 0x3F) 0x80]"
  have len: "length ?b = 16" using assms by (simp add: sha_ok_def)
  have "?d ! 6 = or (and (?b ! 6) 0x0F) 0x50" using len by simp
  moreover have "bit (or (and (?b ! 6) 0x0F) 0x50 :: 8 word) 6"
    by (simp add: bit_simps)
  ultimately have "?d ! 6 \<noteq> 0" by auto
  moreover have "?d ! 6 \<in> set (rev ?d)" using len nth_mem [of 6 ?d] by (simp del: nth_list_update_neq)
  ultimately have pos: "0 < horner_sum uint (256::int) (rev ?d)"
    by (intro horner_sum_pos [of "?d ! 6"]) (simp_all add: uint_0_iff)
  have "horner_sum uint (256::int) (rev ?d) < 256 ^ 16" using horner_sum_less [of "rev ?d"] len by simp
  then have "(word_of_int (horner_sum uint 256 (rev ?d)) :: uuid) \<noteq> 0"
    using pos by (simp add: word_of_int_eq_0_iff zdvd_not_zless)
  then show ?thesis
    by (simp add: identity_of_def Let_def word_rcat_def)
qed

section \<open>Invariant\<close>

definition intent_parts :: "codecs \<Rightarrow> str \<Rightarrow> publication_intent \<Rightarrow> str list" where
  "intent_parts cd owner i = [owner, cd_uuid cd (pi_content_revision_id i), cd_uuid cd (pi_variant_id i), pi_platform_id i,
     pi_placement_slot i, cd_uuid cd (pi_account_id i), pi_payload_hash i]"

definition target_parts :: "codecs \<Rightarrow> str \<Rightarrow> distribution_target \<Rightarrow> channel_variant \<Rightarrow> uuid \<Rightarrow> str list" where
  "target_parts cd owner t v account = [owner, cd_uuid cd (cv_content_revision_id v), cd_uuid cd (cv_variant_id v),
     dt_platform_id t, dt_placement_slot t, cd_uuid cd account, cv_payload_hash v]"

text \<open>The inputs of the logical keys: those of the stored intents, and those of the bound targets.\<close>

definition stored_parts :: "codecs \<Rightarrow> str \<Rightarrow> dist_state \<Rightarrow> str list set" where
  "stored_parts cd owner st =
     {intent_parts cd owner i | lk i. hm_get (ds_intents st) (owner, lk) = Some i} \<union>
     {target_parts cd owner t v a | k t v a. t \<in> set (recorded st (owner, k)) \<and> dt_account_id t = Some a \<and>
       dt_variant_id t = Some (cv_variant_id v) \<and> hm_get (ds_variants st) (owner, cv_variant_id v) = Some v}"

text \<open>SHA-256 gave no two stored values the same digest.\<close>

definition no_collision :: "codecs \<Rightarrow> dist_state \<Rightarrow> bool" where
  "no_collision cd st \<longleftrightarrow> cells_unique st \<and> (\<forall>owner. inj_on (digest cd) (stored_parts cd owner st) \<and>
     (\<forall>lk i lk' i'. hm_get (ds_intents st) (owner, lk) = Some i \<and> hm_get (ds_intents st) (owner, lk') = Some i' \<and>
       (pi_intent_id i = pi_intent_id i' \<or> command_identity cd (pi_intent_id i) = command_identity cd (pi_intent_id i')) \<longrightarrow>
       lk = lk'))"

definition intent_keyed :: "codecs \<Rightarrow> str \<Rightarrow> str \<Rightarrow> publication_intent \<Rightarrow> bool" where
  "intent_keyed cd owner lk i \<longleftrightarrow> pi_logical_key i = lk \<and> lk = digest cd (intent_parts cd owner i) \<and>
     pi_intent_id i = identity_of cd [lk]"

definition command_of :: "codecs \<Rightarrow> publication_intent \<Rightarrow> publication_command \<Rightarrow> bool" where
  "command_of cd i c \<longleftrightarrow> pc_command_id c = command_identity cd (pi_intent_id i) \<and> pc_intent_id c = pi_intent_id i \<and>
     pc_target_id c = pi_channel_target_id i \<and> pc_payload_hash c = pi_payload_hash i"

definition payload_of :: "codecs \<Rightarrow> publication_intent \<Rightarrow> channel_variant \<Rightarrow> content_revision \<Rightarrow> bool" where
  "payload_of cd i v r \<longleftrightarrow> cv_variant_id v = pi_variant_id i \<and> cr_revision_id r = pi_content_revision_id i \<and>
     cv_platform_id v = pi_platform_id i \<and> cv_placement_slot v = pi_placement_slot i \<and> cv_payload_hash v = pi_payload_hash i \<and>
     variant_valid cd v r"

definition target_of :: "publication_intent \<Rightarrow> distribution_target \<Rightarrow> bool" where
  "target_of i t \<longleftrightarrow> dt_publication_intent_id t = Some (pi_intent_id i) \<and> dt_variant_id t = Some (pi_variant_id i) \<and>
     dt_content_revision_id t = Some (pi_content_revision_id i) \<and> dt_account_id t = Some (pi_account_id i)"

definition request_of :: "publication_intent \<Rightarrow> content_distribution_request \<Rightarrow> bool" where
  "request_of i q \<longleftrightarrow> dr_publication_intent_id q = Some (pi_intent_id i) \<and> ts_project_id (dr_scope q) = Some (pi_project_id i) \<and>
     dr_content_revision_id q = pi_content_revision_id i \<and> dr_account_id q = pi_account_id i \<and>
     dr_platform_id q = pi_platform_id i \<and> dr_placement_slot q = pi_placement_slot i"

definition origin_stored :: "dist_state \<Rightarrow> str \<Rightarrow> publication_intent \<Rightarrow> bool" where
  "origin_stored st owner i \<longleftrightarrow>
     (if pi_channel_target_id i = 0
      then \<exists>q. hm_get (ds_requests st) (owner, pi_intent_id i) = Some q \<and> request_of i q
      else recorded st (owner, pi_channel_target_id i) \<noteq> [] \<and> target_of i (last (recorded st (owner, pi_channel_target_id i))))"

definition intent_stored :: "codecs \<Rightarrow> dist_state \<Rightarrow> str \<Rightarrow> str \<Rightarrow> publication_intent \<Rightarrow> bool" where
  "intent_stored cd st owner lk i \<longleftrightarrow> intent_keyed cd owner lk i \<and>
     (\<exists>c. hm_get (ds_commands st) (owner, command_identity cd (pi_intent_id i)) = Some c \<and> command_of cd i c) \<and>
     (\<exists>v r. hm_get (ds_variants st) (owner, pi_variant_id i) = Some v \<and>
        hm_get (ds_revisions st) (owner, pi_content_revision_id i) = Some r \<and> payload_of cd i v r) \<and>
     origin_stored st owner i"

definition commands_ok :: "codecs \<Rightarrow> dist_state \<Rightarrow> bool" where
  "commands_ok cd st \<longleftrightarrow> (\<forall>owner cid c. hm_get (ds_commands st) (owner, cid) = Some c \<longrightarrow>
     cid = command_identity cd (pc_intent_id c) \<and>
     (\<exists>lk i. hm_get (ds_intents st) (owner, lk) = Some i \<and> pi_intent_id i = pc_intent_id c))"

definition requests_ok :: "dist_state \<Rightarrow> bool" where
  "requests_ok st \<longleftrightarrow> (\<forall>owner i q. hm_get (ds_requests st) (owner, i) = Some q \<longrightarrow>
     (\<exists>lk p. hm_get (ds_intents st) (owner, lk) = Some p \<and> pi_intent_id p = i))"

definition intents_ok :: "codecs \<Rightarrow> dist_state \<Rightarrow> bool" where
  "intents_ok cd st \<longleftrightarrow> (\<forall>owner lk i. hm_get (ds_intents st) (owner, lk) = Some i \<longrightarrow> intent_stored cd st owner lk i)"

definition dist_inv :: "codecs \<Rightarrow> dist_state \<Rightarrow> bool" where
  "dist_inv cd st \<longleftrightarrow> coverage_inv cd st \<and> no_collision cd st \<and> hm_wf (ds_intents st) \<and> hm_wf (ds_commands st) \<and>
     commands_ok cd st \<and> requests_ok st \<and> intents_ok cd st"

lemma dist_inv_empty: "dist_inv cd dist_empty"
  unfolding dist_inv_def no_collision_def commands_ok_def requests_ok_def intents_ok_def
  using coverage_empty by (simp add: cells_unique_def dist_empty_def recorded_def history_of_def stored_parts_def)

lemma same_intent:
  assumes "no_collision cd st" and "hm_get (ds_intents st) (owner, lk) = Some i" and "hm_get (ds_intents st) (owner, lk') = Some i'"
    and "pi_intent_id i = pi_intent_id i' \<or> command_identity cd (pi_intent_id i) = command_identity cd (pi_intent_id i')"
  shows "lk = lk'" and "i = i'"
proof -
  show "lk = lk'" using assms unfolding no_collision_def by blast
  then show "i = i'" using assms(2,3) by simp
qed

section \<open>Steps that leave the publications alone\<close>

definition same_binding :: "distribution_target \<Rightarrow> distribution_target \<Rightarrow> bool" where
  "same_binding a b \<longleftrightarrow> dt_publication_intent_id a = dt_publication_intent_id b \<and> dt_variant_id a = dt_variant_id b \<and>
     dt_content_revision_id a = dt_content_revision_id b \<and> dt_account_id a = dt_account_id b"

definition keeps_targets :: "dist_state \<Rightarrow> dist_state \<Rightarrow> bool" where
  "keeps_targets st st' \<longleftrightarrow> (\<forall>owner k. recorded st (owner, k) \<noteq> [] \<longrightarrow> recorded st' (owner, k) \<noteq> [] \<and>
     same_binding (last (recorded st' (owner, k))) (last (recorded st (owner, k))))"

lemma keeps_targets_same: "ds_histories st' = ds_histories st \<Longrightarrow> keeps_targets st st'"
  using recorded_cong [of st' st] by (simp add: keeps_targets_def same_binding_def)

lemma origin_stored_keeps:
  "origin_stored st owner i \<Longrightarrow> keeps_targets st st' \<Longrightarrow> ds_requests st' = ds_requests st \<Longrightarrow> origin_stored st' owner i"
  unfolding origin_stored_def keeps_targets_def same_binding_def target_of_def by (auto split: if_splits)

lemma publications_kept:
  assumes inv: "dist_inv cd st" and "coverage_inv cd st'" and "no_collision cd st'" and targets: "keeps_targets st st'"
    and same: "ds_intents st' = ds_intents st" "ds_commands st' = ds_commands st" "ds_variants st' = ds_variants st"
      "ds_revisions st' = ds_revisions st" "ds_requests st' = ds_requests st"
  shows "dist_inv cd st'"
proof -
  have "intent_stored cd st' owner lk i" if "intent_stored cd st owner lk i" for owner lk i
    using that origin_stored_keeps [OF _ targets same(5)] unfolding intent_stored_def same by blast
  then show ?thesis
    using assms unfolding dist_inv_def commands_ok_def requests_ok_def intents_ok_def same by blast
qed

end
