(* ===== verification/Distribution_Ledger.thy ===== *)
theory Distribution_Ledger
  imports Distribution_Publications
begin

text \<open>Every step of the repository keeps the invariant of the logical publications.\<close>

section \<open>Storing a publication\<close>

lemma or_insert_get: "hm_get (or_insert k v m) k' = (if k' = k \<and> hm_get m k = None then Some v else hm_get m k')"
  by (auto simp: or_insert_def hm_contains_def)

lemma or_insert_keeps: "hm_get m k' = Some x \<Longrightarrow> hm_get (or_insert k v m) k' = Some x"
  by (auto simp: or_insert_get)

lemma or_insert_same: "(\<And>w. hm_get m k = Some w \<Longrightarrow> w = v) \<Longrightarrow> hm_get (or_insert k v m) k = Some v"
  by (cases "hm_get m k") (auto simp: or_insert_get)

lemma payload_unchanged:
  assumes "\<not> payload_changed st owner revision v"
  shows "hm_get (or_insert (owner, cv_variant_id v) v (ds_variants st)) (owner, cv_variant_id v) = Some v"
    and "hm_get (or_insert (owner, cr_revision_id revision) revision (ds_revisions st)) (owner, cr_revision_id revision) = Some revision"
  using assms by (auto simp: payload_changed_def intro!: or_insert_same split: option.splits)

lemma publication_stored:
  assumes inv: "dist_inv cd st" and after: "coverage_inv cd st'" "no_collision cd st'" "requests_ok st'"
    and fresh: "fresh = (hm_get (ds_intents st) (owner, pi_logical_key intent) = None)"
    and intents: "ds_intents st' = (if fresh then hm_insert (owner, pi_logical_key intent) intent (ds_intents st) else ds_intents st)"
    and commands: "ds_commands st' = (if fresh then hm_insert (owner, pc_command_id command) command (ds_commands st) else ds_commands st)"
    and variants: "ds_variants st' = or_insert (owner, cv_variant_id v) v (ds_variants st)"
    and revisions: "ds_revisions st' = or_insert (owner, cr_revision_id r) r (ds_revisions st)"
    and payload: "\<not> payload_changed st owner r v"
    and command: "fresh \<Longrightarrow> command_of cd intent command"
    and new: "fresh \<Longrightarrow> intent_keyed cd owner (pi_logical_key intent) intent \<and> payload_of cd intent v r \<and> origin_stored st' owner intent"
    and old: "\<And>o' lk i. hm_get (ds_intents st) (o', lk) = Some i \<Longrightarrow> origin_stored st' o' i"
  shows "dist_inv cd st'"
proof -
  note before = inv [unfolded dist_inv_def]
  have kept: "hm_get (ds_intents st') key = Some i" if "hm_get (ds_intents st) key = Some i" for key i
    using that fresh intents by auto
  have stored: "intent_stored cd st' o' lk i" if i: "hm_get (ds_intents st) (o', lk) = Some i" for o' lk i
  proof -
    have was: "intent_stored cd st o' lk i" using before i by (simp add: intents_ok_def)
    then obtain c where c: "hm_get (ds_commands st) (o', command_identity cd (pi_intent_id i)) = Some c" "command_of cd i c"
      unfolding intent_stored_def by blast
    have "(o', command_identity cd (pi_intent_id i)) \<noteq> (owner, pc_command_id command)" if f: fresh
    proof
      assume same: "(o', command_identity cd (pi_intent_id i)) = (owner, pc_command_id command)"
      have "hm_get (ds_intents st') (owner, pi_logical_key intent) = Some intent" using f intents by simp
      then have "lk = pi_logical_key intent"
        using same_intent(1) [OF after(2), of owner lk i "pi_logical_key intent" intent] kept [OF i] same command [OF f]
        by (simp add: command_of_def)
      then show False using i same f fresh by simp
    qed
    then have "hm_get (ds_commands st') (o', command_identity cd (pi_intent_id i)) = Some c" using c(1) commands by auto
    moreover obtain w q where "hm_get (ds_variants st') (o', pi_variant_id i) = Some w"
      "hm_get (ds_revisions st') (o', pi_content_revision_id i) = Some q" "payload_of cd i w q"
      using was or_insert_keeps [of "ds_variants st"] or_insert_keeps [of "ds_revisions st"]
      unfolding intent_stored_def variants revisions by blast
    ultimately show ?thesis
      using was c(2) old [OF i] unfolding intent_stored_def by blast
  qed
  have new_stored: "intent_stored cd st' owner (pi_logical_key intent) intent" if f: fresh
  proof -
    have "hm_get (ds_commands st') (owner, command_identity cd (pi_intent_id intent)) = Some command"
      using command [OF f] commands f by (simp add: command_of_def)
    moreover have "hm_get (ds_variants st') (owner, pi_variant_id intent) = Some v"
      "hm_get (ds_revisions st') (owner, pi_content_revision_id intent) = Some r"
      using payload_unchanged [OF payload] new [OF f] by (simp_all add: variants revisions payload_of_def)
    ultimately show ?thesis
      using new [OF f] command [OF f] unfolding intent_stored_def by blast
  qed
  have "intents_ok cd st'"
    using stored new_stored unfolding intents_ok_def intents by (auto split: if_splits)
  moreover have "commands_ok cd st'"
    unfolding commands_ok_def
  proof (intro allI impI)
    fix o' cid c
    assume get: "hm_get (ds_commands st') (o', cid) = Some c"
    show "cid = command_identity cd (pc_intent_id c) \<and> (\<exists>lk i. hm_get (ds_intents st') (o', lk) = Some i \<and> pi_intent_id i = pc_intent_id c)"
    proof (cases "fresh \<and> (o', cid) = (owner, pc_command_id command)")
      case True
      then show ?thesis using get command commands intents by (auto simp: command_of_def)
    next
      case False
      then have "hm_get (ds_commands st) (o', cid) = Some c" using get commands by (auto split: if_splits)
      then show ?thesis using before kept unfolding commands_ok_def by blast
    qed
  qed
  ultimately show ?thesis
    using before after unfolding dist_inv_def by (simp add: intents commands)
qed

end
