(* ===== verification/Distribution_Invariant.thy ===== *)
theory Distribution_Invariant
  imports Distribution_Ledger
begin

text \<open>The invariant of the logical publications is kept by every kind of step.\<close>

section \<open>Publishing a target\<close>

text \<open>The intent a successful publication of a target is about: the stored one, or the candidate.\<close>

definition chosen_intent :: "str \<Rightarrow> publication_intent \<Rightarrow> dist_state \<Rightarrow> publication_intent" where
  "chosen_intent owner candidate st =
     (case hm_get (ds_intents st) (owner, pi_logical_key candidate) of None \<Rightarrow> candidate | Some i \<Rightarrow> i)"

lemma candidate_fields:
  "pi_logical_key (fst (prepare_publication_intent cd scope m old v account at)) = digest cd (target_parts cd (owner_key cd scope) old v account)"
  "intent_parts cd (owner_key cd scope) (fst (prepare_publication_intent cd scope m old v account at)) =
     target_parts cd (owner_key cd scope) old v account"
  by (simp_all add: prepare_publication_intent_def prepare_publication_identity_def publication_logical_key_def Let_def
      target_parts_def intent_parts_def owner_key_def)

lemma record_target_frame [simp]:
  "ds_intents (snd (record_target key now old t st)) = ds_intents st"
  "ds_variants (snd (record_target key now old t st)) = ds_variants st"
  "ds_revisions (snd (record_target key now old t st)) = ds_revisions st"
  "ds_commands (snd (record_target key now old t st)) = ds_commands st"
  "ds_requests (snd (record_target key now old t st)) = ds_requests st"
  by (simp_all add: record_target_def push_version_def Let_def)

lemma record_target_target [simp]:
  "dt_variant_id (fst (record_target key now old t st)) = dt_variant_id t"
  "dt_account_id (fst (record_target key now old t st)) = dt_account_id t"
  "dt_publication_intent_id (fst (record_target key now old t st)) = dt_publication_intent_id t"
  by (simp_all add: record_target_def Let_def)

lemma record_target_histories:
  "fst (record_target key now old t st) = old \<and> ds_histories (snd (record_target key now old t st)) = ds_histories st \<or>
    ds_histories (snd (record_target key now old t st)) =
      ds_histories (push_version key now (fst (record_target key now old t st)) st)"
  by (simp add: record_target_def Let_def)

lemma push_version_cong:
  "ds_histories a = ds_histories b \<Longrightarrow> ds_histories (push_version key now t a) = ds_histories (push_version key now t b)"
  by (simp add: push_version_def history_of_def Let_def)

lemma refused_or: "(if P then (Some (Inl e), s) else r) = (Some (Inr x), s') \<longleftrightarrow> \<not> P \<and> r = (Some (Inr x), s')"
  by auto

lemma published_effect:
  assumes run: "publish_target cd d scope target m old revision v account st = (Some (Inr md), st')"
    and c: "prepare_publication_intent cd scope m old v account (now_at d 0) = (candidate, command)"
  defines "owner \<equiv> owner_key cd scope" and "i \<equiv> chosen_intent (owner_key cd scope) candidate st"
    and "fresh \<equiv> hm_get (ds_intents st) (owner_key cd scope, pi_logical_key candidate) = None"
  shows "\<not> payload_changed st owner revision v"
    and "dt_publication_intent_id old = None \<or> dt_publication_intent_id old = Some (pi_intent_id i) \<and> dt_account_id old = Some account"
    and "ds_intents st' = (if fresh then hm_insert (owner, pi_logical_key candidate) candidate (ds_intents st) else ds_intents st)"
    and "ds_commands st' = (if fresh then hm_insert (owner, pc_command_id command) command (ds_commands st) else ds_commands st)"
    and "ds_variants st' = or_insert (owner, cv_variant_id v) v (ds_variants st)"
    and "ds_revisions st' = or_insert (owner, cr_revision_id revision) revision (ds_revisions st)"
    and "ds_requests st' = ds_requests st"
    and "dt_variant_id (md_target md) = Some (cv_variant_id v) \<and> dt_account_id (md_target md) = Some account \<and>
      dt_publication_intent_id (md_target md) = Some (pi_intent_id i)"
    and "md_target md = old \<and> ds_histories st' = ds_histories st \<or>
      ds_histories st' = ds_histories (push_version (owner, target) (now_at d 1) (md_target md) st)"
proof -
  let ?i = "chosen_intent owner candidate st"
  let ?st1 = "store_publication owner fresh ?i command v revision st"
  let ?t = "old\<lparr>dt_variant_id := Some (cv_variant_id v), dt_account_id := Some account,
    dt_publication_intent_id := Some (pi_intent_id ?i),
    dt_status := reuse_status (hm_get (ds_intents st) (owner, pi_logical_key candidate)) old, dt_reason := None\<rparr>"
  let ?r = "record_target (owner, target) (now_at d 1) old ?t ?st1"
  have all: "\<not> payload_changed st owner revision v \<and>
    (dt_publication_intent_id old = None \<or> dt_publication_intent_id old = Some (pi_intent_id ?i) \<and> dt_account_id old = Some account) \<and>
    st' = snd ?r \<and> md_target md = fst ?r"
    using run unfolding publish_target_def Let_def c refused_or fst_conv snd_conv owner_def fresh_def chosen_intent_def
    by (simp add: option.case_eq_if) (blast | force)
  then show "\<not> payload_changed st owner revision v"
    and "dt_publication_intent_id old = None \<or> dt_publication_intent_id old = Some (pi_intent_id i) \<and> dt_account_id old = Some account"
    by (simp_all add: i_def owner_def)
  have i: "fresh \<Longrightarrow> ?i = candidate" by (simp add: fresh_def chosen_intent_def owner_def)
  show "ds_intents st' = (if fresh then hm_insert (owner, pi_logical_key candidate) candidate (ds_intents st) else ds_intents st)"
    "ds_commands st' = (if fresh then hm_insert (owner, pc_command_id command) command (ds_commands st) else ds_commands st)"
    "ds_variants st' = or_insert (owner, cv_variant_id v) v (ds_variants st)"
    "ds_revisions st' = or_insert (owner, cr_revision_id revision) revision (ds_revisions st)"
    "ds_requests st' = ds_requests st"
    using all i by (simp_all add: store_publication_def)
  show "dt_variant_id (md_target md) = Some (cv_variant_id v) \<and> dt_account_id (md_target md) = Some account \<and>
      dt_publication_intent_id (md_target md) = Some (pi_intent_id i)"
    using all by (simp add: i_def owner_def)
  show "md_target md = old \<and> ds_histories st' = ds_histories st \<or>
      ds_histories st' = ds_histories (push_version (owner, target) (now_at d 1) (md_target md) st)"
    using all record_target_histories [of "(owner, target)" "now_at d 1" old ?t ?st1]
      push_version_cong [of ?st1 st] by simp
qed


section \<open>The intent that is published\<close>

lemma prepared_intent_fields:
  assumes "prepare_publication_identity cd scope project platform slot origin v account fixture at = (i, c)"
  shows "intent_keyed cd (owner_key cd scope) (pi_logical_key i) i" and "command_of cd i c"
    and "pi_channel_target_id i = origin" and "pi_variant_id i = cv_variant_id v" and "pi_account_id i = account"
    and "pi_content_revision_id i = cv_content_revision_id v" and "pi_payload_hash i = cv_payload_hash v"
    and "pi_platform_id i = platform" and "pi_placement_slot i = slot" and "pi_project_id i = project"
  using assms
  by (auto simp: prepare_publication_identity_def publication_logical_key_def Let_def intent_keyed_def intent_parts_def
      command_of_def owner_key_def)

lemma prepared_payload:
  assumes "prepare_publication_identity cd scope project platform slot origin v account fixture at = (i, c)"
    and "prepared_from cd v revision placement" and "pp_platform_id placement = platform" and "pp_placement_slot placement = slot"
  shows "payload_of cd i v revision" and "cv_content_revision_id v = cr_revision_id revision"
  using prepared_intent_fields [OF assms(1)] prepared_variant_valid [OF assms(2)] assms(3,4)
  by (simp_all add: payload_of_def variant_valid_def)

lemma chosen_stored:
  assumes "ds_intents st' = (if hm_get (ds_intents st) (owner, pi_logical_key c) = None
      then hm_insert (owner, pi_logical_key c) c (ds_intents st) else ds_intents st)"
  shows "hm_get (ds_intents st') (owner, pi_logical_key c) = Some (chosen_intent owner c st)"
    and "hm_get (ds_intents st) key = Some i \<Longrightarrow> hm_get (ds_intents st') key = Some i"
  using assms by (auto simp: chosen_intent_def)

lemma requests_ok_grow:
  assumes "requests_ok st" and "ds_requests st' = ds_requests st"
    and "\<And>key i. hm_get (ds_intents st) key = Some i \<Longrightarrow> hm_get (ds_intents st') key = Some i"
  shows "requests_ok st'"
  using assms unfolding requests_ok_def by metis

lemma recorded_target:
  assumes inv: "coverage_inv cd st" and "sha_ok cd" and h: "hm_get (ds_histories st) (owner, target) = Some h" "h \<noteq> []"
    and old: "old = tv_target (last h)"
  shows "recorded st (owner, target) \<noteq> []" and "last (recorded st (owner, target)) = old" and "dt_target_id old = target"
    and "target \<noteq> 0"
proof -
  show ne: "recorded st (owner, target) \<noteq> []" and last: "last (recorded st (owner, target)) = old"
    using recorded_last [OF h] old by simp_all
  from recorded_last_cell [OF inv ne refl] obtain m c where c: "distribution_cell cd m (dt_ordinal old) = Some c"
    "same_cell old c" "dt_target_id c = target" using last by metis
  then show "dt_target_id old = target" by (simp add: same_cell_def)
  have "dt_target_id c \<noteq> 0"
    using c(1) identity_not_nil [OF assms(2)] by (auto simp: distribution_cell_def cell_of_def Let_def split: if_splits)
  then show "target \<noteq> 0" using c(3) by simp
qed

lemma published_recorded:
  assumes "recorded st (owner, target) \<noteq> []" and "last (recorded st (owner, target)) = old"
    and "t = old \<and> ds_histories st' = ds_histories st \<or> ds_histories st' = ds_histories (push_version (owner, target) now t st)"
  shows "recorded st' (owner, target) \<noteq> []" and "last (recorded st' (owner, target)) = t"
    and "key \<noteq> (owner, target) \<Longrightarrow> recorded st' key = recorded st key"
proof -
  from assms(3) have "t = old \<and> recorded st' = recorded st \<or> recorded st' = recorded (push_version (owner, target) now t st)"
    using recorded_cong by metis
  then show "recorded st' (owner, target) \<noteq> []" "last (recorded st' (owner, target)) = t"
    "key \<noteq> (owner, target) \<Longrightarrow> recorded st' key = recorded st key"
    using assms(1,2) by (auto simp: push_version_recorded)
qed

text \<open>Without collisions, a publication under a key that is taken is about the same things.\<close>

lemma chosen_same_parts:
  assumes "no_collision cd st'" and "intent_keyed cd owner (pi_logical_key c) (chosen_intent owner c st)"
    and "intent_keyed cd owner (pi_logical_key c) c"
    and "hm_get (ds_intents st') (owner, pi_logical_key c) = Some (chosen_intent owner c st)"
    and "intent_parts cd owner c \<in> stored_parts cd owner st'"
  shows "intent_parts cd owner (chosen_intent owner c st) = intent_parts cd owner c"
proof -
  have "inj_on (digest cd) (stored_parts cd owner st')" using assms(1) by (simp add: no_collision_def)
  moreover have "intent_parts cd owner (chosen_intent owner c st) \<in> stored_parts cd owner st'"
    using assms(4) unfolding stored_parts_def by blast
  moreover have "digest cd (intent_parts cd owner (chosen_intent owner c st)) = digest cd (intent_parts cd owner c)"
    using assms(2,3) by (simp add: intent_keyed_def)
  ultimately show ?thesis using assms(5) by (metis inj_onD)
qed

lemma intent_parts_eq:
  "inj (cd_uuid cd) \<Longrightarrow> intent_parts cd owner i = intent_parts cd owner j \<longleftrightarrow>
    pi_content_revision_id i = pi_content_revision_id j \<and> pi_variant_id i = pi_variant_id j \<and>
    pi_platform_id i = pi_platform_id j \<and> pi_placement_slot i = pi_placement_slot j \<and> pi_account_id i = pi_account_id j \<and>
    pi_payload_hash i = pi_payload_hash j"
  by (auto simp: intent_parts_def inj_eq)

end
