(* ===== verification/Distribution_Kept.thy ===== *)
theory Distribution_Kept
  imports Distribution_Invariant
begin

text \<open>Every step of a history without collisions keeps the invariant of the logical publications.\<close>

definition codecs_ok :: "codecs \<Rightarrow> bool" where
  "codecs_ok cd \<longleftrightarrow> sha_ok cd \<and> inj (cd_uuid cd)"

section \<open>Coverage targets\<close>

lemma published_inv:
  assumes inv: "dist_inv cd st" and after: "coverage_inv cd st'" "no_collision cd st'" and codecs: "codecs_ok cd"
    and h: "hm_get (ds_histories st) (owner_key cd scope, target) = Some h" "h \<noteq> []" and old: "old = tv_target (last h)"
    and revision: "dt_content_revision_id old = Some (cr_revision_id revision)"
    and placement: "pp_platform_id placement = dt_platform_id old" "pp_placement_slot placement = dt_placement_slot old"
    and v: "prepared_from cd v revision placement"
    and run: "publish_target cd d scope target m old revision v account st = (Some (Inr md), st')"
  shows "dist_inv cd st'"
proof -
  obtain c command where c: "prepare_publication_intent cd scope m old v account (now_at d 0) = (c, command)" by fastforce
  let ?owner = "owner_key cd scope"
  let ?i = "chosen_intent ?owner c st" and ?t = "md_target md"
  note effect = published_effect [OF run c]
  note before = inv [unfolded dist_inv_def]
  have covered: "coverage_inv cd st" using inv by (simp add: dist_inv_def)
  have cd: "sha_ok cd" "inj (cd_uuid cd)" using codecs by (simp_all add: codecs_ok_def)
  note target = recorded_target [OF covered cd(1) h old]
  note recorded' = published_recorded [OF target(1,2) effect(9)]
  note fields = prepared_intent_fields [OF c [unfolded prepare_publication_intent_def]]
  note payload = prepared_payload [OF c [unfolded prepare_publication_intent_def] v placement]
  note chosen = chosen_stored [OF effect(3)]
  have same: "same_cell ?t old" by (rule publish_target_shape(2) [OF run])
  have stored_variant: "hm_get (ds_variants st') (?owner, cv_variant_id v) = Some v"
    using payload_unchanged(1) [OF effect(1)] effect(5) by simp
  have "intent_parts cd ?owner c = target_parts cd ?owner ?t v account"
    using candidate_fields(2) [of cd scope m old v account "now_at d 0"] c same
    by (simp add: target_parts_def same_cell_def cell_key_def)
  moreover have "?t \<in> set (recorded st' (?owner, target))" using recorded'(1,2) last_in_set by metis
  ultimately have parts: "intent_parts cd ?owner c \<in> stored_parts cd ?owner st'"
    using effect(8) stored_variant unfolding stored_parts_def by blast
  have keyed: "intent_keyed cd ?owner (pi_logical_key c) ?i"
    using before fields(1) by (auto simp: chosen_intent_def intents_ok_def intent_stored_def split: option.split)
  have "pi_content_revision_id ?i = pi_content_revision_id c \<and> pi_variant_id ?i = pi_variant_id c \<and> pi_account_id ?i = pi_account_id c"
    using chosen_same_parts [OF after(2) keyed fields(1) chosen(1) parts] intent_parts_eq [OF cd(2)] by simp
  then have bound: "target_of ?i ?t"
    using effect(8) fields(4-6) payload(2) revision same by (simp add: target_of_def same_cell_def)
  show ?thesis
  proof (rule publication_stored [OF inv after _ refl effect(3-6,1)])
    show "requests_ok st'"
      using before by (intro requests_ok_grow [OF _ effect(7) chosen(2)]) simp_all
    show "command_of cd c command" by (rule fields(2))
    show "intent_keyed cd ?owner (pi_logical_key c) c \<and> payload_of cd c v revision \<and> origin_stored st' ?owner c"
      if "hm_get (ds_intents st) (?owner, pi_logical_key c) = None"
      using that fields(1,3) payload(1) bound recorded'(1,2) target(3,4) by (simp add: origin_stored_def chosen_intent_def)
    show "origin_stored st' o' j" if j: "hm_get (ds_intents st) (o', lk) = Some j" for o' lk j
    proof -
      have was: "origin_stored st o' j" using before j by (auto simp: intents_ok_def intent_stored_def)
      show ?thesis
      proof (cases "pi_channel_target_id j = 0 \<or> (o', pi_channel_target_id j) \<noteq> (?owner, target)")
        case True
        then show ?thesis using was effect(7) recorded'(3) [of "(o', pi_channel_target_id j)"] by (auto simp: origin_stored_def)
      next
        case False
        then have "target_of j old" using was target(2) by (auto simp: origin_stored_def)
        then have "pi_intent_id j = pi_intent_id ?i" using effect(2) by (auto simp: target_of_def)
        then have "j = ?i" using same_intent(2) [OF after(2) chosen(2) [OF j]] chosen(1) False by blast
        then show ?thesis using False bound recorded'(1,2) target(4) by (simp add: origin_stored_def)
      qed
    qed
  qed
qed


section \<open>Requests\<close>

lemma request_candidate:
  assumes "prepare_request_publication_intent cd scope request v at = Inr (c, command)"
  obtains project where "ts_project_id (dr_scope request) = Some project"
    and "prepare_publication_identity cd scope project (dr_platform_id request) (dr_placement_slot request) 0 v
      (dr_account_id request) False at = (c, command)"
  using assms by (auto simp: prepare_request_publication_intent_def rbind_eq_Inr ok_or_def split: if_splits option.splits)

lemma requested_effect:
  assumes run: "materialize_prepared_request cd d scope request revision v st = (Some (Inr i), st')"
  obtains c command where "prepare_request_publication_intent cd scope request v (now_at d 0) = Inr (c, command)"
    and "i = chosen_intent (owner_key cd scope) c st" and "\<not> payload_changed st (owner_key cd scope) revision v"
    and "ds_intents st' = (if hm_get (ds_intents st) (owner_key cd scope, pi_logical_key c) = None
      then hm_insert (owner_key cd scope, pi_logical_key c) c (ds_intents st) else ds_intents st)"
    and "ds_commands st' = (if hm_get (ds_intents st) (owner_key cd scope, pi_logical_key c) = None
      then hm_insert (owner_key cd scope, pc_command_id command) command (ds_commands st) else ds_commands st)"
    and "ds_variants st' = or_insert (owner_key cd scope, cv_variant_id v) v (ds_variants st)"
    and "ds_revisions st' = or_insert (owner_key cd scope, cr_revision_id revision) revision (ds_revisions st)"
    and "ds_requests st' = (if pi_channel_target_id i = 0 then or_insert (owner_key cd scope, pi_intent_id i)
      (request\<lparr>dr_publication_intent_id := Some (pi_intent_id i)\<rparr>) (ds_requests st) else ds_requests st)"
proof -
  obtain c command where c: "prepare_request_publication_intent cd scope request v (now_at d 0) = Inr (c, command)"
    using run by (cases "prepare_request_publication_intent cd scope request v (now_at d 0)")
      (auto simp: materialize_prepared_request_def)
  let ?owner = "owner_key cd scope"
  let ?i = "chosen_intent ?owner c st" and ?fresh = "hm_get (ds_intents st) (?owner, pi_logical_key c) = None"
  let ?st1 = "store_publication ?owner ?fresh ?i command v revision st"
  have all: "\<not> payload_changed st ?owner revision v \<and> i = ?i \<and>
    st' = (if is_nil (pi_channel_target_id ?i)
      then ?st1\<lparr>ds_requests := or_insert (?owner, pi_intent_id ?i)
        (request\<lparr>dr_publication_intent_id := Some (pi_intent_id ?i)\<rparr>) (ds_requests ?st1)\<rparr> else ?st1)"
    using run unfolding materialize_prepared_request_def c try_out_simps Let_def prod.case chosen_intent_def [symmetric]
      refused_or prod.inject option.inject sum.inject
    by blast
  have i: "?fresh \<Longrightarrow> ?i = c" by (simp add: chosen_intent_def)
  show thesis
    using all i by (intro that [OF c]) (simp_all add: store_publication_def is_nil_def)
qed

lemma requested_inv:
  assumes inv: "dist_inv cd st" and after: "coverage_inv cd st'" "no_collision cd st'"
    and revision: "dr_content_revision_id request = cr_revision_id revision"
    and placement: "pp_platform_id placement = dr_platform_id request" "pp_placement_slot placement = dr_placement_slot request"
    and v: "prepared_from cd v revision placement"
    and run: "materialize_prepared_request cd d scope request revision v st = (Some (Inr i), st')"
  shows "dist_inv cd st'"
proof -
  let ?owner = "owner_key cd scope"
  obtain c command where c: "prepare_request_publication_intent cd scope request v (now_at d 0) = Inr (c, command)"
    and i: "i = chosen_intent ?owner c st" and payload_same: "\<not> payload_changed st ?owner revision v"
    and intents: "ds_intents st' = (if hm_get (ds_intents st) (?owner, pi_logical_key c) = None
      then hm_insert (?owner, pi_logical_key c) c (ds_intents st) else ds_intents st)"
    and commands: "ds_commands st' = (if hm_get (ds_intents st) (?owner, pi_logical_key c) = None
      then hm_insert (?owner, pc_command_id command) command (ds_commands st) else ds_commands st)"
    and variants: "ds_variants st' = or_insert (?owner, cv_variant_id v) v (ds_variants st)"
    and revisions: "ds_revisions st' = or_insert (?owner, cr_revision_id revision) revision (ds_revisions st)"
    and requests: "ds_requests st' = (if pi_channel_target_id i = 0 then or_insert (?owner, pi_intent_id i)
      (request\<lparr>dr_publication_intent_id := Some (pi_intent_id i)\<rparr>) (ds_requests st) else ds_requests st)"
    by (rule requested_effect [OF run])
  obtain project where project: "ts_project_id (dr_scope request) = Some project"
    and identity: "prepare_publication_identity cd scope project (dr_platform_id request) (dr_placement_slot request) 0 v
      (dr_account_id request) False (now_at d 0) = (c, command)"
    by (rule request_candidate [OF c])
  note before = inv [unfolded dist_inv_def]
  note fields = prepared_intent_fields [OF identity]
  note payload = prepared_payload [OF identity v placement]
  note chosen = chosen_stored [OF intents]
  have histories: "recorded st' = recorded st" by (rule recorded_cong [OF requested_frame(2) [OF run]])
  have kept: "hm_get (ds_requests st') key = Some q" if "hm_get (ds_requests st) key = Some q" for key q
    using that requests or_insert_keeps by auto
  have taken: "\<exists>lk p. hm_get (ds_intents st') (o', lk) = Some p \<and> pi_intent_id p = k"
    if "hm_get (ds_requests st) (o', k) = Some q" for o' k q
    using that before chosen(2) unfolding requests_ok_def by blast
  show ?thesis
  proof (rule publication_stored [OF inv after _ refl intents commands variants revisions payload_same])
    show "requests_ok st'"
      unfolding requests_ok_def
    proof (intro allI impI)
      fix o' k q assume q: "hm_get (ds_requests st') (o', k) = Some q"
      show "\<exists>lk p. hm_get (ds_intents st') (o', lk) = Some p \<and> pi_intent_id p = k"
      proof (cases "hm_get (ds_requests st) (o', k) = Some q")
        case True
        then show ?thesis by (rule taken)
      next
        case False
        then have "o' = ?owner" "k = pi_intent_id i" using q requests by (auto simp: or_insert_get split: if_splits)
        then show ?thesis using chosen(1) i by blast
      qed
    qed
    show "command_of cd c command" by (rule fields(2))
    show "intent_keyed cd ?owner (pi_logical_key c) c \<and> payload_of cd c v revision \<and> origin_stored st' ?owner c"
      if fresh: "hm_get (ds_intents st) (?owner, pi_logical_key c) = None"
    proof -
      have same: "i = c" using i fresh by (simp add: chosen_intent_def)
      have "hm_get (ds_requests st) (?owner, pi_intent_id c) = None"
      proof (rule ccontr)
        assume "hm_get (ds_requests st) (?owner, pi_intent_id c) \<noteq> None"
        then obtain lk p where p: "hm_get (ds_intents st) (?owner, lk) = Some p" "pi_intent_id p = pi_intent_id c"
          using before unfolding requests_ok_def by blast
        then have "lk = pi_logical_key c"
          using same_intent(1) [OF after(2) chosen(2) [OF p(1)] chosen(1)] i same by simp
        then show False using p(1) fresh by simp
      qed
      then have "hm_get (ds_requests st') (?owner, pi_intent_id c) = Some (request\<lparr>dr_publication_intent_id := Some (pi_intent_id c)\<rparr>)"
        using requests same fields(3) by (simp add: or_insert_get)
      then show ?thesis
        using fields payload revision project by (simp add: origin_stored_def request_of_def)
    qed
    show "origin_stored st' o' j" if "hm_get (ds_intents st) (o', lk) = Some j" for o' lk j
    proof -
      have "origin_stored st o' j" using before that by (auto simp: intents_ok_def intent_stored_def)
      then show ?thesis using kept by (auto simp: origin_stored_def histories split: if_splits)
    qed
  qed
qed


section \<open>Verification\<close>

lemma update_first_get:
  "hm_wf m \<Longrightarrow> find P m = Some (k, x) \<Longrightarrow>
    hm_wf (update_first P (\<lambda>e. (fst e, y)) m) \<and>
    (\<forall>k'. hm_get (update_first P (\<lambda>e. (fst e, y)) m) k' = (if k' = k then Some y else hm_get m k')) \<and> hm_get m k = Some x \<and> P (k, x)"
proof (induction m)
  case (Cons e m)
  show ?case
  proof (cases "P e")
    case True
    then show ?thesis using Cons.prems by (auto simp: hm_wf_def hm_get_def)
  next
    case False
    then have "find P m = Some (k, x)" "hm_wf m" using Cons.prems by (simp_all add: hm_wf_def)
    with Cons.IH have IH: "hm_wf (update_first P (\<lambda>e. (fst e, y)) m)"
      "\<forall>k'. hm_get (update_first P (\<lambda>e. (fst e, y)) m) k' = (if k' = k then Some y else hm_get m k')" "hm_get m k = Some x" "P (k, x)"
      by blast+
    have new: "hm_get m (fst e) = None" using Cons.prems(1) by (simp add: hm_wf_def hm_get_def map_of_eq_None_iff)
    then have "fst e \<noteq> k" using IH(3) by auto
    moreover have "fst e \<notin> fst ` set (update_first P (\<lambda>e. (fst e, y)) m)"
      using IH(2) new \<open>fst e \<noteq> k\<close> by (simp add: hm_get_def map_of_eq_None_iff [symmetric])
    ultimately show ?thesis
      using False IH by (cases e) (simp add: hm_wf_def hm_get_def)
  qed
qed simp

text \<open>What a successful verification does: the verification of one stored intent is set.\<close>

definition verified_intent :: "intent_verification \<Rightarrow> uuid \<Rightarrow> publication_intent \<Rightarrow> publication_intent" where
  "verified_intent verification evidence i = i\<lparr>pi_verification := verification, pi_verification_evidence_id := Some evidence\<rparr>"

lemma verified_effect:
  assumes run: "record_intent_verification cd scope k verification evidence st = (Some (Inr i'), st')" and wf: "hm_wf (ds_intents st)"
  obtains lk i where "hm_get (ds_intents st) (owner_key cd scope, lk) = Some i" and "i' = verified_intent verification evidence i"
    and "verification \<noteq> IntentUnverified" and "pi_verification i = IntentVerified \<longrightarrow> verification \<noteq> IntentUnknown"
    and "\<forall>key. hm_get (ds_intents st') key = (if key = (owner_key cd scope, lk) then Some i' else hm_get (ds_intents st) key)"
    and "hm_wf (ds_intents st')" and "st' = st\<lparr>ds_intents := ds_intents st'\<rparr>"
proof -
  let ?P = "\<lambda>e. fst (fst e) = owner_key cd scope \<and> pi_intent_id (snd e) = k"
  obtain i where i: "find_intent (owner_key cd scope) k st = Some i"
    using run by (cases "find_intent (owner_key cd scope) k st") (auto simp: record_intent_verification_def split: if_splits)
  then obtain e where e: "find ?P (ds_intents st) = Some e" "i = snd e"
    by (auto simp: find_intent_def)
  have owner: "fst (fst e) = owner_key cd scope" using find_SomeD [OF e(1)] by blast
  have found: "find ?P (ds_intents st) = Some ((owner_key cd scope, snd (fst e)), i)"
    using e owner by (metis prod.collapse)
  have all: "\<not> (is_nil evidence \<or> verification = IntentUnverified)" "\<not> (pi_verification i = IntentVerified \<and> verification = IntentUnknown)"
    "i' = verified_intent verification evidence i" "st' = st\<lparr>ds_intents := update_first ?P (\<lambda>e. (fst e, i')) (ds_intents st)\<rparr>"
    using run i by (auto simp: record_intent_verification_def try_out_def verified_intent_def Let_def split: if_splits sum.splits)
  show thesis
    using update_first_get [OF wf found, of i'] all
    by (intro that [of "snd (fst e)" i]) (simp_all del: split_paired_All)
qed

lemma verified_intent_fields [simp]:
  "pi_intent_id (verified_intent w e i) = pi_intent_id i" "pi_logical_key (verified_intent w e i) = pi_logical_key i"
  "pi_variant_id (verified_intent w e i) = pi_variant_id i" "pi_account_id (verified_intent w e i) = pi_account_id i"
  "pi_content_revision_id (verified_intent w e i) = pi_content_revision_id i"
  "pi_payload_hash (verified_intent w e i) = pi_payload_hash i" "pi_platform_id (verified_intent w e i) = pi_platform_id i"
  "pi_placement_slot (verified_intent w e i) = pi_placement_slot i" "pi_project_id (verified_intent w e i) = pi_project_id i"
  "pi_channel_target_id (verified_intent w e i) = pi_channel_target_id i" "pi_verification (verified_intent w e i) = w"
  by (simp_all add: verified_intent_def)

lemma verified_intent_facts [simp]:
  "intent_keyed cd owner lk (verified_intent w e i) = intent_keyed cd owner lk i"
  "command_of cd (verified_intent w e i) c = command_of cd i c"
  "payload_of cd (verified_intent w e i) v r = payload_of cd i v r"
  "target_of (verified_intent w e i) t = target_of i t"
  "request_of (verified_intent w e i) q = request_of i q"
  by (simp_all only: intent_keyed_def intent_parts_def command_of_def payload_of_def target_of_def request_of_def
      verified_intent_fields)

lemma verified_intent_stored:
  assumes "intent_stored cd st owner lk i" and st': "st' = st\<lparr>ds_intents := intents\<rparr>"
  shows "intent_stored cd st' owner lk i" and "intent_stored cd st' owner lk (verified_intent w e i)"
proof -
  have "recorded st' = recorded st" by (rule recorded_cong) (simp add: st')
  then have "origin_stored st' owner j = origin_stored st owner j" for j
    by (simp only: origin_stored_def) (simp add: st')
  moreover have "origin_stored st owner (verified_intent w e i) = origin_stored st owner i"
    by (simp only: origin_stored_def verified_intent_facts verified_intent_fields)
  ultimately show "intent_stored cd st' owner lk i" "intent_stored cd st' owner lk (verified_intent w e i)"
    using assms(1) by (simp_all only: intent_stored_def verified_intent_facts verified_intent_fields) (simp_all add: st')
qed

lemma verified_inv:
  assumes inv: "dist_inv cd st" and after: "coverage_inv cd st'" "no_collision cd st'"
    and run: "record_intent_verification cd scope k verification evidence st = (Some (Inr i'), st')"
  shows "dist_inv cd st'"
proof -
  note before = inv [unfolded dist_inv_def]
  from before have wf: "hm_wf (ds_intents st)" by simp
  obtain lk i where i: "hm_get (ds_intents st) (owner_key cd scope, lk) = Some i" "i' = verified_intent verification evidence i"
    and "verification \<noteq> IntentUnverified" "pi_verification i = IntentVerified \<longrightarrow> verification \<noteq> IntentUnknown"
    and get: "\<forall>key. hm_get (ds_intents st') key = (if key = (owner_key cd scope, lk) then Some i' else hm_get (ds_intents st) key)"
    and wf': "hm_wf (ds_intents st')" and st': "st' = st\<lparr>ds_intents := ds_intents st'\<rparr>"
    by (rule verified_effect [OF run wf])
  have same: "ds_commands st' = ds_commands st" "ds_requests st' = ds_requests st" by (subst st', simp)+
  have "intents_ok cd st'"
    using before i verified_intent_stored [OF _ st'] get unfolding intents_ok_def by (auto split: if_splits)
  moreover have keep: "\<exists>p'. hm_get (ds_intents st') key = Some p' \<and> pi_intent_id p' = pi_intent_id p"
    if "hm_get (ds_intents st) key = Some p" for key p
    using that i spec [OF get, of key] by (cases "key = (owner_key cd scope, lk)") simp_all
  then have "commands_ok cd st'" "requests_ok st'"
    using before unfolding commands_ok_def requests_ok_def same by metis+
  ultimately show ?thesis
    using before after wf' by (simp add: dist_inv_def same)
qed


section \<open>Every step\<close>

lemma revised_keeps_targets:
  assumes "hm_get (ds_histories st) key = Some h" and "h \<noteq> []"
  shows "keeps_targets st (push_version key now ((tv_target (last h))\<lparr>dt_status := s, dt_reason := r, dt_version := w\<rparr>) st)"
proof -
  have "recorded st key \<noteq> []" "last (recorded st key) = tv_target (last h)"
    using recorded_last [OF assms] by simp_all
  then show ?thesis
    by (auto simp: keeps_targets_def push_version_recorded same_binding_def)
qed

lemma expanded_keeps_targets:
  assumes page: "next_page cd st owner i m rows"
    and recorded': "\<And>key. recorded st' key = recorded st key @
      (if fst key = owner then filter (\<lambda>r. dt_target_id r = snd key) rows else [])"
  shows "keeps_targets st st'"
proof -
  have "recorded st' (o', k) = recorded st (o', k)" if ne: "recorded st (o', k) \<noteq> []" for o' k
  proof -
    have "dt_target_id r \<noteq> k" if "r \<in> set rows" "o' = owner" for r
      using next_page_fresh [OF page] that ne by (metis in_set_conv_nth)
    then have "filter (\<lambda>r. dt_target_id r = k) rows = []" if "o' = owner" using that by (simp add: filter_empty_conv)
    then show ?thesis by (simp add: recorded')
  qed
  then show ?thesis by (simp add: keeps_targets_def same_binding_def)
qed

lemma push_rows_frame:
  "ds_intents (push_rows d n owner rows st) = ds_intents st" "ds_commands (push_rows d n owner rows st) = ds_commands st"
  "ds_variants (push_rows d n owner rows st) = ds_variants st" "ds_revisions (push_rows d n owner rows st) = ds_revisions st"
  "ds_requests (push_rows d n owner rows st) = ds_requests st"
  by (induction rows arbitrary: n st) (simp_all add: push_version_def Let_def)

theorem step_keeps:
  assumes inv: "dist_inv cd st" and step: "dist_step cd d st st'" and unique: "no_collision cd st'" and codecs: "codecs_ok cd"
  shows "dist_inv cd st'"
proof -
  have covered: "coverage_inv cd st" using inv by (simp add: dist_inv_def)
  have after: "coverage_inv cd st'"
    using step_coverage [OF covered step] unique by (simp add: no_collision_def)
  from step show ?thesis
  proof cases
    case (frozen fj scope input m)
    then show ?thesis by (intro publications_kept [OF inv after unique keeps_targets_same]) simp_all
  next
    case (expanded owner i m rows c)
    have recorded': "recorded st' key = recorded st key @ (if fst key = owner then filter (\<lambda>r. dt_target_id r = snd key) rows else [])" for key
      using recorded_cong [of st' "push_rows d 0 owner rows st"] expanded(1) by (simp add: push_rows_recorded)
    have "cells_unique st'" using unique by (simp add: no_collision_def)
    from expanded_keeps_targets [OF expanded_next_page [OF covered this expanded(2-4) recorded'] recorded'] show ?thesis
      using expanded(1) by (intro publications_kept [OF inv after unique]) (simp_all add: push_rows_frame)
  next
    case (revised key h old n s r w)
    show ?thesis
      using revised(1) revised_keeps_targets [OF revised(2,3)] revised(4)
      by (intro publications_kept [OF inv after unique]) (simp_all add: push_version_def Let_def)
  next
    case (published scope i m target h old revision placement v account md)
    show ?thesis
      by (rule published_inv [OF inv after unique codecs published(3-10)])
  next
    case (requested request revision placement v scope intent)
    show ?thesis by (rule requested_inv [OF inv after unique requested])
  next
    case (verified scope i verification evidence intent)
    show ?thesis by (rule verified_inv [OF inv after unique verified])
  qed (use inv in simp)
qed

end
