(* ===== verification/Distribution_Readback.thy ===== *)
theory Distribution_Readback
  imports Distribution_Kept
begin

text \<open>
  What the invariant of the logical publications gives: a stored publication reads back whole, the outbox
  holds one command for it, and a later step changes nothing of it but its verification.
\<close>

section \<open>Looking up by intent\<close>

lemma find_unique_entry:
  assumes "hm_wf m" and "hm_get m k = Some x" and "P (k, x)" and only: "\<And>e. e \<in> set m \<Longrightarrow> P e \<Longrightarrow> fst e = k"
  shows "find P m = Some (k, x)"
proof -
  have "(k, x) \<in> set m" using assms(2) by (simp add: hm_get_def map_of_SomeD)
  then obtain e where e: "find P m = Some e" using assms(3) by (cases "find P m") (auto simp: find_None_iff)
  then have "e \<in> set m" "fst e = k" using only find_SomeD [OF e] by blast+
  then have "e = (k, x)"
    using assms(1,2) by (metis hm_get_def hm_wf_def map_of_eq_Some_iff option.inject prod.collapse)
  then show ?thesis using e by simp
qed

lemma entry_get: "hm_wf m \<Longrightarrow> e \<in> set m \<Longrightarrow> hm_get m (fst e) = Some (snd e)"
  by (simp add: hm_wf_def hm_get_def)

lemma stored_publication:
  assumes inv: "dist_inv cd st" and i: "hm_get (ds_intents st) (owner, lk) = Some i"
  shows "find_intent owner (pi_intent_id i) st = Some i" and "intent_stored cd st owner lk i"
    and "\<exists>c. find_command owner (pi_intent_id i) st = Some c \<and> command_of cd i c \<and>
      hm_get (ds_commands st) (owner, pc_command_id c) = Some c"
proof -
  note facts = inv [unfolded dist_inv_def]
  have wf: "hm_wf (ds_intents st)" "hm_wf (ds_commands st)" and collision: "no_collision cd st" using facts by simp_all
  have "fst e = (owner, lk)" if "e \<in> set (ds_intents st)" "fst (fst e) = owner \<and> pi_intent_id (snd e) = pi_intent_id i" for e
  proof -
    have "hm_get (ds_intents st) (owner, snd (fst e)) = Some (snd e)" using entry_get [OF wf(1) that(1)] that(2) by (cases e) auto
    from same_intent(1) [OF collision this i] that(2) show ?thesis by (simp add: prod_eq_iff)
  qed
  from find_unique_entry [OF wf(1) i _ this] show "find_intent owner (pi_intent_id i) st = Some i"
    by (simp add: find_intent_def)
  show stored: "intent_stored cd st owner lk i" using facts i by (simp add: intents_ok_def)
  then obtain c where c: "hm_get (ds_commands st) (owner, command_identity cd (pi_intent_id i)) = Some c" "command_of cd i c"
    by (auto simp: intent_stored_def)
  have "fst e = (owner, command_identity cd (pi_intent_id i))"
    if "e \<in> set (ds_commands st)" "fst (fst e) = owner \<and> pc_intent_id (snd e) = pi_intent_id i" for e
  proof -
    have "hm_get (ds_commands st) (owner, snd (fst e)) = Some (snd e)" using entry_get [OF wf(2) that(1)] that(2) by (cases e) auto
    then have "snd (fst e) = command_identity cd (pc_intent_id (snd e))" using facts unfolding commands_ok_def by blast
    then show ?thesis using that(2) by (simp add: prod_eq_iff)
  qed
  from find_unique_entry [OF wf(2) c(1) _ this]
  have "find_command owner (pi_intent_id i) st = Some c" using c(2) by (simp add: find_command_def command_of_def)
  then show "\<exists>c. find_command owner (pi_intent_id i) st = Some c \<and> command_of cd i c \<and>
      hm_get (ds_commands st) (owner, pc_command_id c) = Some c"
    using c by (auto simp: command_of_def)
qed

section \<open>Bundles\<close>

definition bundle_of :: "publication_intent \<Rightarrow> publication_bundle \<Rightarrow> bool" where
  "bundle_of i b \<longleftrightarrow> pb_intent b = i \<and> pc_intent_id (pb_command b) = pi_intent_id i \<and>
     cv_variant_id (pb_variant b) = pi_variant_id i \<and> cr_revision_id (pb_revision b) = pi_content_revision_id i \<and>
     cv_payload_hash (pb_variant b) = pi_payload_hash i \<and> pc_payload_hash (pb_command b) = pi_payload_hash i"

lemma stored_origin:
  assumes inv: "coverage_inv cd st" and origin: "origin_stored st owner i" and c: "command_of cd i c"
  obtains o' where "publication_origin_of st owner i c = Inr o'"
    and "\<And>b. pb_origin b = o' \<Longrightarrow> pb_intent b = i \<Longrightarrow> payload_of cd i (pb_variant b) (pb_revision b) \<Longrightarrow>
      expected_origin b = Inr (pi_channel_target_id i)"
proof (cases "pi_channel_target_id i = 0")
  case True
  then obtain q where q: "hm_get (ds_requests st) (owner, pi_intent_id i) = Some q" "request_of i q"
    using origin by (auto simp: origin_stored_def)
  show thesis
  proof (rule that [of "ContentRequest q"])
    show "publication_origin_of st owner i c = Inr (ContentRequest q)"
      using True c q by (simp add: publication_origin_of_def command_of_def is_nil_def)
    show "expected_origin b = Inr (pi_channel_target_id i)"
      if "pb_origin b = ContentRequest q" "pb_intent b = i" "payload_of cd i (pb_variant b) (pb_revision b)" for b
      using that q(2) True by (simp add: expected_origin_def request_of_def payload_of_def)
  qed
next
  case False
  let ?k = "pi_channel_target_id i"
  have ne: "recorded st (owner, ?k) \<noteq> []" and t: "target_of i (last (recorded st (owner, ?k)))"
    using origin False by (simp_all add: origin_stored_def)
  obtain m x where "same_cell (last (recorded st (owner, ?k))) x" "dt_target_id x = ?k"
    by (rule recorded_last_cell [OF inv ne refl])
  then have key: "dt_target_id (last (recorded st (owner, ?k))) = ?k" by (simp add: same_cell_def)
  show thesis
  proof (rule that [of "CoverageTarget (last (recorded st (owner, ?k)))"])
    show "publication_origin_of st owner i c = Inr (CoverageTarget (last (recorded st (owner, ?k))))"
      using False c ne by (auto simp: publication_origin_of_def command_of_def is_nil_def recorded_def last_map)
    show "expected_origin b = Inr ?k"
      if "pb_origin b = CoverageTarget (last (recorded st (owner, ?k)))" "pb_intent b = i"
        "payload_of cd i (pb_variant b) (pb_revision b)" for b
      using that t key by (simp add: expected_origin_def target_of_def payload_of_def)
  qed
qed

lemma bundle_reads_back:
  assumes inv: "dist_inv cd st" and i: "hm_get (ds_intents st) (owner_key cd scope, lk) = Some i"
  shows "\<exists>b. get_publication_bundle cd scope (pi_intent_id i) st = Some (Inr b) \<and> bundle_of i b"
proof -
  let ?owner = "owner_key cd scope"
  note found = stored_publication [OF inv i]
  obtain c where c: "find_command ?owner (pi_intent_id i) st = Some c" "command_of cd i c" using found(3) by blast
  obtain v r where payload: "hm_get (ds_variants st) (?owner, pi_variant_id i) = Some v"
    "hm_get (ds_revisions st) (?owner, pi_content_revision_id i) = Some r" "payload_of cd i v r"
    and origin: "origin_stored st ?owner i"
    using found(2) unfolding intent_stored_def by blast
  have "coverage_inv cd st" using inv by (simp add: dist_inv_def)
  from stored_origin [OF this origin c(2)] obtain o' where o': "publication_origin_of st ?owner i c = Inr o'"
    "\<And>b. pb_origin b = o' \<Longrightarrow> pb_intent b = i \<Longrightarrow> payload_of cd i (pb_variant b) (pb_revision b) \<Longrightarrow>
      expected_origin b = Inr (pi_channel_target_id i)" by metis
  let ?b = "\<lparr>pb_revision = r, pb_variant = v, pb_intent = i, pb_origin = o', pb_command = c\<rparr>"
  have "validate_origin_variant cd ?b = Some (Inr ())"
    using payload(3) by (simp add: payload_of_def variant_valid_def)
  moreover have "expected_origin ?b = Inr (pi_channel_target_id i)" using o'(2) [of ?b] payload(3) by simp
  ultimately have "validate_origin cd ?b = Some (Inr ())"
    using c(2) payload(3) by (simp add: validate_origin_def command_of_def payload_of_def)
  then have "get_publication_bundle cd scope (pi_intent_id i) st = Some (Inr ?b)"
    using found(1) c(1) payload(1,2) o'(1) by (simp add: get_publication_bundle_def)
  moreover have "bundle_of i ?b" using c(2) payload(3) by (simp add: bundle_of_def command_of_def payload_of_def)
  ultimately show ?thesis by blast
qed

section \<open>The outbox\<close>

lemma outbox_commands:
  assumes inv: "dist_inv cd st"
  shows "distinct (map pc_intent_id (publication_commands cd scope st))"
    and "c \<in> set (publication_commands cd scope st) \<Longrightarrow>
      \<exists>lk i. hm_get (ds_intents st) (owner_key cd scope, lk) = Some i \<and> command_of cd i c"
    and "hm_get (ds_intents st) (owner_key cd scope, lk) = Some i \<Longrightarrow>
      \<exists>c\<in>set (publication_commands cd scope st). command_of cd i c"
proof -
  let ?owner = "owner_key cd scope"
  let ?es = "filter (\<lambda>e. fst (fst e) = ?owner) (ds_commands st)"
  note facts = inv [unfolded dist_inv_def]
  have wf: "hm_wf (ds_commands st)" using facts by simp
  have entry: "hm_get (ds_commands st) (?owner, snd (fst e)) = Some (snd e)" if "e \<in> set ?es" for e
    using entry_get [OF wf, of e] that by (cases e) auto
  have key: "snd (fst e) = command_identity cd (pc_intent_id (snd e)) \<and>
      (\<exists>lk i. hm_get (ds_intents st) (?owner, lk) = Some i \<and> pi_intent_id i = pc_intent_id (snd e))" if "e \<in> set ?es" for e
    using facts entry [OF that] unfolding commands_ok_def by blast
  have cs: "set (publication_commands cd scope st) = snd ` set ?es" by (simp add: publication_commands_def)
  have "inj_on (\<lambda>e. pc_intent_id (snd e)) (set ?es)"
  proof (rule inj_onI)
    fix e e' assume e: "e \<in> set ?es" "e' \<in> set ?es" and same: "pc_intent_id (snd e) = pc_intent_id (snd e')"
    then have id: "snd (fst e) = snd (fst e')" using key by metis
    then have "snd e = snd e'" using entry [OF e(1)] entry [OF e(2)] by simp
    then show "e = e'" using id e by (simp add: prod_eq_iff)
  qed
  moreover have "distinct ?es" using wf by (simp add: hm_wf_def distinct_map)
  ultimately have "distinct (map (\<lambda>e. pc_intent_id (snd e)) ?es)" by (simp add: distinct_map)
  moreover have "mset (map pc_intent_id (publication_commands cd scope st)) = mset (map (\<lambda>e. pc_intent_id (snd e)) ?es)"
    by (simp add: publication_commands_def image_mset.compositionality comp_def)
  ultimately show "distinct (map pc_intent_id (publication_commands cd scope st))"
    by (metis mset_eq_imp_distinct_iff)
  show "\<exists>lk i. hm_get (ds_intents st) (?owner, lk) = Some i \<and> command_of cd i c"
    if "c \<in> set (publication_commands cd scope st)"
  proof -
    from that [unfolded cs] obtain e where e: "c = snd e" "e \<in> set ?es" by (rule imageE)
    from key [OF e(2)] e(1) obtain lk i where i: "hm_get (ds_intents st) (?owner, lk) = Some i" "pi_intent_id i = pc_intent_id c"
      by (elim conjE exE) simp
    obtain c' where c': "hm_get (ds_commands st) (?owner, command_identity cd (pi_intent_id i)) = Some c'" "command_of cd i c'"
      using stored_publication(2) [OF inv i(1)] by (auto simp: intent_stored_def)
    then have "c' = c" using entry [OF e(2)] key [OF e(2)] e(1) i(2) by simp
    then show ?thesis using i(1) c'(2) by blast
  qed
  show "\<exists>c\<in>set (publication_commands cd scope st). command_of cd i c" if i: "hm_get (ds_intents st) (?owner, lk) = Some i"
  proof -
    obtain c where c: "hm_get (ds_commands st) (?owner, pc_command_id c) = Some c" "command_of cd i c"
      using stored_publication(3) [OF inv i] by blast
    then have "((?owner, pc_command_id c), c) \<in> set (ds_commands st)" by (simp add: hm_get_def map_of_SomeD)
    then show ?thesis using c(2) cs by force
  qed
qed

end
