(* ===== verification/Distribution_Frozen.thy ===== *)
theory Distribution_Frozen
  imports Distribution_Readback
begin

text \<open>What later steps do to a stored publication: its payload and its command stay, and a verified intent stays verified.\<close>

section \<open>Relations a machine moves along\<close>

locale evolving_machine = invariant_machine exec ok inv
  for exec :: "'s \<Rightarrow> 'e \<Rightarrow> 's"
    and ok :: "'s \<Rightarrow> 'e \<Rightarrow> bool"
    and inv :: "'s \<Rightarrow> bool" +
  fixes grows :: "'s \<Rightarrow> 's \<Rightarrow> bool"
  assumes grows_refl: "grows s s"
    and grows_trans: "grows s t \<Longrightarrow> grows t u \<Longrightarrow> grows s u"
    and grows_exec: "inv s \<Longrightarrow> ok s e \<Longrightarrow> grows s (exec s e)"
begin

lemma grows_run: "inv s \<Longrightarrow> ok_ops exec ok s es \<Longrightarrow> grows s (run_ops exec s es)"
proof (induction es arbitrary: s)
  case (Cons e es)
  then have "grows s (exec s e)" "grows (exec s e) (run_ops exec (exec s e) es)"
    by (auto intro: grows_exec inv_exec)
  then show ?case by (auto intro: grows_trans)
qed (simp add: grows_refl)

end

section \<open>Publications\<close>

text \<open>The same intent, up to a verification that may only go on.\<close>

definition intent_grows :: "publication_intent \<Rightarrow> publication_intent \<Rightarrow> bool" where
  "intent_grows i i' \<longleftrightarrow>
     i' = i\<lparr>pi_verification := pi_verification i', pi_verification_evidence_id := pi_verification_evidence_id i'\<rparr> \<and>
     (pi_verification i = IntentVerified \<longrightarrow> pi_verification i' = IntentVerified) \<and>
     (pi_verification i \<noteq> IntentUnverified \<longrightarrow> pi_verification i' \<noteq> IntentUnverified)"

definition keeps_entries :: "('k, 'v) hash_map \<Rightarrow> ('k, 'v) hash_map \<Rightarrow> bool" where
  "keeps_entries m m' \<longleftrightarrow> (\<forall>k v. hm_get m k = Some v \<longrightarrow> hm_get m' k = Some v)"

definition ledger_grows :: "dist_state \<Rightarrow> dist_state \<Rightarrow> bool" where
  "ledger_grows st st' \<longleftrightarrow>
     (\<forall>k i. hm_get (ds_intents st) k = Some i \<longrightarrow> (\<exists>i'. hm_get (ds_intents st') k = Some i' \<and> intent_grows i i')) \<and>
     keeps_entries (ds_commands st) (ds_commands st') \<and> keeps_entries (ds_variants st) (ds_variants st') \<and>
     keeps_entries (ds_revisions st) (ds_revisions st')"

lemma keeps_entries_refl [simp]: "keeps_entries m m"
  by (simp add: keeps_entries_def)

lemma keeps_entries_trans: "keeps_entries a b \<Longrightarrow> keeps_entries b c \<Longrightarrow> keeps_entries a c"
  by (simp add: keeps_entries_def)

lemma keeps_entries_or_insert [simp]: "keeps_entries m (or_insert k v m)"
  by (simp add: keeps_entries_def or_insert_get)

lemma intent_grows_refl [simp]: "intent_grows i i"
  by (simp add: intent_grows_def)

lemma intent_grows_trans: "intent_grows a b \<Longrightarrow> intent_grows b c \<Longrightarrow> intent_grows a c"
  by (cases a; cases b; cases c) (auto simp: intent_grows_def)

lemma ledger_grows_same:
  "ds_intents st' = ds_intents st \<Longrightarrow> ds_commands st' = ds_commands st \<Longrightarrow> ds_variants st' = ds_variants st \<Longrightarrow>
    ds_revisions st' = ds_revisions st \<Longrightarrow> ledger_grows st st'"
  by (simp add: ledger_grows_def)

lemma ledger_grows_refl: "ledger_grows st st"
  by (simp add: ledger_grows_same)

lemma ledger_grows_trans: "ledger_grows a b \<Longrightarrow> ledger_grows b c \<Longrightarrow> ledger_grows a c"
  unfolding ledger_grows_def by (meson intent_grows_trans keeps_entries_trans)

lemma publication_grows:
  assumes inv: "dist_inv cd st" and after: "no_collision cd st'"
    and intents: "ds_intents st' = (if hm_get (ds_intents st) (owner, pi_logical_key c) = None
      then hm_insert (owner, pi_logical_key c) c (ds_intents st) else ds_intents st)"
    and commands: "ds_commands st' = (if hm_get (ds_intents st) (owner, pi_logical_key c) = None
      then hm_insert (owner, pc_command_id command) command (ds_commands st) else ds_commands st)"
    and payload: "ds_variants st' = or_insert k v (ds_variants st)" "ds_revisions st' = or_insert k' r (ds_revisions st)"
    and command: "command_of cd c command"
  shows "ledger_grows st st'"
proof -
  note chosen = chosen_stored [OF intents]
  have "hm_get (ds_commands st') key = Some x" if x: "hm_get (ds_commands st) key = Some x" for key x
  proof (cases "hm_get (ds_intents st) (owner, pi_logical_key c) = None \<and> key = (owner, pc_command_id command)")
    case True
    then have fresh: "hm_get (ds_intents st) (owner, pi_logical_key c) = None" and key: "key = (owner, pc_command_id command)" by auto
    from inv x key obtain lk p where p: "hm_get (ds_intents st) (owner, lk) = Some p" "pi_intent_id p = pc_intent_id x"
      and id: "pc_command_id command = command_identity cd (pc_intent_id x)"
      unfolding dist_inv_def commands_ok_def by blast
    have "hm_get (ds_intents st') (owner, pi_logical_key c) = Some c" using intents fresh by simp
    then have "lk = pi_logical_key c"
      using same_intent(1) [OF after chosen(2) [OF p(1)]] p(2) id command by (simp add: command_of_def)
    then show ?thesis using p(1) fresh by simp
  next
    case False
    then show ?thesis using x commands by auto
  qed
  then have "keeps_entries (ds_commands st) (ds_commands st')" by (simp add: keeps_entries_def)
  then show ?thesis
    using chosen(2) payload by (auto simp: ledger_grows_def)
qed

lemma published_grows:
  assumes "dist_inv cd st" and "no_collision cd st'"
    and run: "publish_target cd d scope target m old revision v account st = (Some (Inr md), st')"
  shows "ledger_grows st st'"
proof -
  obtain c command where c: "prepare_publication_intent cd scope m old v account (now_at d 0) = (c, command)" by fastforce
  note effect = published_effect [OF run c]
  show ?thesis
    by (rule publication_grows [OF assms(1,2) effect(3-6) prepared_intent_fields(2) [OF c [unfolded prepare_publication_intent_def]]])
qed

lemma requested_grows:
  assumes "dist_inv cd st" and "no_collision cd st'"
    and run: "materialize_prepared_request cd d scope request revision v st = (Some (Inr i), st')"
  shows "ledger_grows st st'"
proof (rule requested_effect [OF run])
  fix c command
  assume c: "prepare_request_publication_intent cd scope request v (now_at d 0) = Inr (c, command)"
  assume intents: "ds_intents st' = (if hm_get (ds_intents st) (owner_key cd scope, pi_logical_key c) = None
      then hm_insert (owner_key cd scope, pi_logical_key c) c (ds_intents st) else ds_intents st)"
    and commands: "ds_commands st' = (if hm_get (ds_intents st) (owner_key cd scope, pi_logical_key c) = None
      then hm_insert (owner_key cd scope, pc_command_id command) command (ds_commands st) else ds_commands st)"
    and payload: "ds_variants st' = or_insert (owner_key cd scope, cv_variant_id v) v (ds_variants st)"
      "ds_revisions st' = or_insert (owner_key cd scope, cr_revision_id revision) revision (ds_revisions st)"
  obtain project where "prepare_publication_identity cd scope project (dr_platform_id request) (dr_placement_slot request) 0 v
      (dr_account_id request) False (now_at d 0) = (c, command)"
    by (rule request_candidate [OF c])
  from publication_grows [OF assms(1,2) intents commands payload prepared_intent_fields(2) [OF this]] show ?thesis .
qed

lemma verified_grows:
  assumes inv: "dist_inv cd st"
    and run: "record_intent_verification cd scope k verification evidence st = (Some (Inr i'), st')"
  shows "ledger_grows st st'"
proof -
  have wf: "hm_wf (ds_intents st)" using inv by (simp add: dist_inv_def)
  obtain lk i where i: "hm_get (ds_intents st) (owner_key cd scope, lk) = Some i" "i' = verified_intent verification evidence i"
    "verification \<noteq> IntentUnverified" "pi_verification i = IntentVerified \<longrightarrow> verification \<noteq> IntentUnknown"
    and get: "\<forall>key. hm_get (ds_intents st') key = (if key = (owner_key cd scope, lk) then Some i' else hm_get (ds_intents st) key)"
    and "hm_wf (ds_intents st')" and st': "st' = st\<lparr>ds_intents := ds_intents st'\<rparr>"
    by (rule verified_effect [OF run wf])
  have same: "ds_commands st' = ds_commands st" "ds_variants st' = ds_variants st" "ds_revisions st' = ds_revisions st"
    by (subst st', simp)+
  have "intent_grows i i'"
    using i by (cases verification) (auto simp: intent_grows_def verified_intent_def)
  then show ?thesis
    using get i(1) by (simp add: ledger_grows_def same del: split_paired_All)
qed

theorem step_grows:
  assumes inv: "dist_inv cd st" and step: "dist_step cd d st st'" and unique: "no_collision cd st'"
  shows "ledger_grows st st'"
  using step
proof cases
  case (published scope i m target h old revision placement v account md)
  show ?thesis by (rule published_grows [OF inv unique published(10)])
next
  case (requested request revision placement v scope intent)
  show ?thesis by (rule requested_grows [OF inv unique requested(5)])
next
  case (verified scope i verification evidence intent)
  show ?thesis by (rule verified_grows [OF inv verified])
qed (auto intro!: ledger_grows_same simp: push_rows_frame push_version_def Let_def)

section \<open>The machine\<close>

text \<open>An operation under which SHA-256 shows no collision among the stored values.\<close>

definition publications_ok :: "codecs \<Rightarrow> dist_state \<Rightarrow> dist_op \<Rightarrow> bool" where
  "publications_ok cd st op \<longleftrightarrow> codecs_ok cd \<and> no_collision cd (dist_exec cd st op)"

interpretation publications: evolving_machine "dist_exec cd" "publications_ok cd" "dist_inv cd" ledger_grows for cd
  by unfold_locales (auto simp: publications_ok_def intro: step_keeps exec_is_step step_grows
      ledger_grows_refl elim: ledger_grows_trans)

end
