(* ===== verification/Distribution_Cutoff.thy ===== *)
theory Distribution_Cutoff
  imports Distribution_Coverage
begin

text \<open>
  What a report reads at a cutoff: no operation that runs after the cutoff changes it. Versions are only
  appended, with a time that is not before the clock, and a manifest is frozen at the time of the clock.
\<close>

section \<open>Reading a map through a filter\<close>

text \<open>The operations write an entry in place or append it; \<open>g\<close> is what a reader sees of an entry.\<close>

lemma map_filter_insert:
  assumes "\<And>y. hm_get m k = Some y \<Longrightarrow> g (k, x) = g (k, y)" and "hm_get m k = None \<Longrightarrow> g (k, x) = None"
  shows "List.map_filter g (hm_insert k x m) = List.map_filter g m"
  using assms
proof (induction m)
  case (Cons e m)
  obtain k' y where e: "e = (k', y)" by fastforce
  show ?case
  proof (cases "k' = k")
    case True
    then show ?thesis
      using Cons.prems(1) [of y] e by (simp add: hm_insert_def hm_get_def List.map_filter_def)
  next
    case False
    have "List.map_filter g (hm_insert k x m) = List.map_filter g m"
      using Cons.prems e False by (intro Cons.IH) (simp_all add: hm_get_def)
    then show ?thesis
      using e False by (simp add: hm_insert_def List.map_filter_def)
  qed
qed (simp add: hm_insert_def hm_get_def List.map_filter_def)

lemma map_filter_filter: "List.map_filter f (filter p xs) = List.map_filter (\<lambda>x. if p x then f x else None) xs"
  by (induction xs) (simp_all add: List.map_filter_def)

lemma map_filter_as_map_filter: "map f (filter p xs) = List.map_filter (\<lambda>x. if p x then Some (f x) else None) xs"
  by (induction xs) (simp_all add: List.map_filter_def)

section \<open>Targets at a cutoff\<close>

lemma recorded_at_ge: "now \<le> recorded_at now h"
  by (simp add: recorded_at_def)

lemma version_at_append: "at < tv_recorded_at v \<Longrightarrow> version_at at (h @ [v]) = version_at at h"
  by (simp add: version_at_def)

definition seen_at :: "str \<Rightarrow> instant \<Rightarrow> (str \<times> uuid, target_version list) hash_map \<Rightarrow> target_version list" where
  "seen_at owner at m = List.map_filter (\<lambda>e. if fst (fst e) = owner then version_at at (snd e) else None) m"

lemma targets_at_seen:
  "targets_at owner i at insertion_order st = sort_key dt_ordinal (map tv_target (filter (\<lambda>v. dt_manifest_id (tv_target v) = i)
     (seen_at owner at (ds_histories st))))"
  by (simp add: targets_at_def seen_at_def map_filter_filter insertion_order_def)

lemma push_version_seen:
  assumes "at < now"
  shows "seen_at owner at (ds_histories (push_version key now t st)) = seen_at owner at (ds_histories st)"
proof -
  let ?h = "history_of st key"
  have "at < recorded_at now ?h"
    using assms recorded_at_ge [of now ?h] by simp
  then have v: "version_at at (?h @ [\<lparr>tv_recorded_at = recorded_at now ?h, tv_target = t\<rparr>]) = version_at at ?h"
    by (intro version_at_append) simp
  show ?thesis
    unfolding seen_at_def push_version_def Let_def
    by (simp, rule map_filter_insert) (use v in \<open>simp_all add: history_of_def version_at_def\<close>)
qed

lemma push_rows_seen:
  "(\<And>n. at < now_at d n) \<Longrightarrow> seen_at owner at (ds_histories (push_rows d i o' rows st)) = seen_at owner at (ds_histories st)"
  by (induction rows arbitrary: i st) (simp_all add: push_version_seen)

section \<open>Manifests at a cutoff\<close>

definition frozen_part :: "distribution_manifest \<Rightarrow> distribution_manifest" where
  "frozen_part m = m\<lparr>dm_expansion_cursor := 0, dm_complete := False\<rparr>"

lemma frozen_part_eqD:
  assumes "frozen_part m = frozen_part m'"
  shows "dm_sealed_at m = dm_sealed_at m'" "dm_expected_count m = dm_expected_count m'" "dm_project_id m = dm_project_id m'"
    "dm_cycle_id m = dm_cycle_id m'" "dm_revision m = dm_revision m'" "dm_manifest_id m = dm_manifest_id m'"
    "m\<lparr>dm_expansion_cursor := c, dm_complete := b\<rparr> = m'\<lparr>dm_expansion_cursor := c, dm_complete := b\<rparr>"
proof -
  have "P (frozen_part m) = P (frozen_part m')" for P :: "distribution_manifest \<Rightarrow> 'b" using assms by simp
  from this [of dm_sealed_at] this [of dm_expected_count] this [of dm_project_id] this [of dm_cycle_id]
    this [of dm_revision] this [of dm_manifest_id] this [of "\<lambda>m. m\<lparr>dm_expansion_cursor := c, dm_complete := b\<rparr>"]
  show "dm_sealed_at m = dm_sealed_at m'" "dm_expected_count m = dm_expected_count m'" "dm_project_id m = dm_project_id m'"
    "dm_cycle_id m = dm_cycle_id m'" "dm_revision m = dm_revision m'" "dm_manifest_id m = dm_manifest_id m'"
    "m\<lparr>dm_expansion_cursor := c, dm_complete := b\<rparr> = m'\<lparr>dm_expansion_cursor := c, dm_complete := b\<rparr>"
    by (simp_all add: frozen_part_def)
qed

lemma frozen_part_sel [simp]:
  "dm_sealed_at (frozen_part m) = dm_sealed_at m" "dm_expected_count (frozen_part m) = dm_expected_count m"
  "dm_project_id (frozen_part m) = dm_project_id m" "dm_cycle_id (frozen_part m) = dm_cycle_id m"
  "dm_revision (frozen_part m) = dm_revision m" "dm_manifest_id (frozen_part m) = dm_manifest_id m"
  "(frozen_part m)\<lparr>dm_expansion_cursor := c, dm_complete := b\<rparr> = m\<lparr>dm_expansion_cursor := c, dm_complete := b\<rparr>"
  by (simp_all add: frozen_part_def)

definition sealed_at :: "instant \<Rightarrow> (str \<times> uuid, distribution_manifest) hash_map \<Rightarrow> ((str \<times> uuid) \<times> distribution_manifest) list" where
  "sealed_at at m = List.map_filter (\<lambda>e. if dm_sealed_at (snd e) \<le> at then Some (fst e, frozen_part (snd e)) else None) m"

lemma sealed_at_simps:
  "sealed_at at [] = []"
  "sealed_at at (e # m) = (if dm_sealed_at (snd e) \<le> at then (fst e, frozen_part (snd e)) # sealed_at at m else sealed_at at m)"
  by (simp_all add: sealed_at_def List.map_filter_def del: split_paired_Ex)

definition sealed_get :: "instant \<Rightarrow> (str \<times> uuid, distribution_manifest) hash_map \<Rightarrow> str \<times> uuid \<Rightarrow> distribution_manifest option" where
  "sealed_get at m k = (case hm_get m k of None \<Rightarrow> None
     | Some x \<Rightarrow> if dm_sealed_at x \<le> at then Some (frozen_part x) else None)"

text \<open>What a reader at the cutoff sees of a state.\<close>

definition same_at :: "instant \<Rightarrow> dist_state \<Rightarrow> dist_state \<Rightarrow> bool" where
  "same_at at st st' \<longleftrightarrow> (\<forall>owner. seen_at owner at (ds_histories st') = seen_at owner at (ds_histories st)) \<and>
     sealed_at at (ds_manifests st') = sealed_at at (ds_manifests st) \<and>
     (\<forall>k. sealed_get at (ds_manifests st') k = sealed_get at (ds_manifests st) k)"

lemma same_at_refl: "same_at at st st"
  by (simp add: same_at_def)

lemma same_at_trans: "same_at at a b \<Longrightarrow> same_at at b c \<Longrightarrow> same_at at a c"
  by (simp add: same_at_def)

lemma manifest_insert_sealed:
  assumes "\<And>y. hm_get m k = Some y \<Longrightarrow> frozen_part x = frozen_part y" and "hm_get m k = None \<Longrightarrow> at < dm_sealed_at x"
  shows "sealed_at at (hm_insert k x m) = sealed_at at m" and "sealed_get at (hm_insert k x m) k' = sealed_get at m k'"
proof -
  show "sealed_at at (hm_insert k x m) = sealed_at at m"
    unfolding sealed_at_def
    by (rule map_filter_insert) (use assms in \<open>auto dest: frozen_part_eqD(1)\<close>)
  have "dm_sealed_at x = dm_sealed_at y" if "hm_get m k = Some y" for y
    by (rule frozen_part_eqD(1) [OF assms(1) [OF that]])
  then show "sealed_get at (hm_insert k x m) k' = sealed_get at m k'"
    using assms by (auto simp: sealed_get_def split: option.split)
qed

lemma record_target_seen:
  "at < now \<Longrightarrow> seen_at owner at (ds_histories (snd (record_target key now t old st))) = seen_at owner at (ds_histories st)"
  by (simp add: record_target_def Let_def push_version_seen)

lemma same_at_if: "ds_manifests st' = ds_manifests st \<Longrightarrow>
    (\<And>owner. seen_at owner at (ds_histories st') = seen_at owner at (ds_histories st)) \<Longrightarrow> same_at at st st'"
  by (simp add: same_at_def)

lemma step_same_at:
  assumes "dist_step cd d st st'" and "\<And>n. at < now_at d n"
  shows "same_at at st st'"
  using assms(1)
proof cases
  case (frozen fj scope input m)
  then show ?thesis
    using manifest_insert_sealed [of "ds_manifests st" "(owner_key cd scope, dm_manifest_id m)" "m\<lparr>dm_sealed_at := now_at d 0\<rparr>" at]
      assms(2) by (simp add: same_at_def)
next
  case (expanded owner i m rows c)
  let ?m = "m\<lparr>dm_expansion_cursor := c, dm_complete := (c = dm_expected_count m)\<rparr>"
  have "frozen_part ?m = frozen_part m" by (simp add: frozen_part_def)
  then show ?thesis
    using manifest_insert_sealed [of "ds_manifests st" "(owner, i)" ?m at] expanded(1,2) push_rows_seen [OF assms(2)]
    by (simp add: same_at_def)
next
  case (published scope i m target h old revision placement v account md)
  from published(10) show ?thesis
    by (intro same_at_if)
      (auto simp: publish_target_def Let_def record_target_seen [OF assms(2)] split: if_splits)
next
  case (requested request revision placement v scope intent)
  from requested(5) show ?thesis
    by (intro same_at_if) (auto simp: materialize_prepared_request_def try_out_def Let_def split: sum.splits if_splits)
next
  case (verified scope i verification evidence intent)
  then show ?thesis
    by (intro same_at_if) (auto simp: record_intent_verification_def try_out_def Let_def split: sum.splits if_splits)
qed (simp_all add: same_at_refl same_at_if push_version_seen [OF assms(2)])

lemma run_same_at:
  "\<forall>op\<in>set ops. \<forall>n. at < now_at (dist_draws op) n \<Longrightarrow> same_at at st (run_ops (dist_exec cd) st ops)"
proof (induction ops arbitrary: st)
  case (Cons op ops)
  have "same_at at st (dist_exec cd st op)"
    using Cons.prems by (intro step_same_at [OF exec_is_step]) simp
  then show ?case
    using Cons same_at_trans by fastforce
qed (simp add: same_at_refl)

section \<open>The readers\<close>

lemma sealed_get_SomeD:
  assumes "sealed_get at m' k = sealed_get at m k" and "hm_get m k = Some x" and "dm_sealed_at x \<le> at"
  obtains y where "hm_get m' k = Some y" and "frozen_part y = frozen_part x"
  using assms by (auto simp: sealed_get_def split: option.splits if_splits)

lemma as_of_same:
  assumes "same_at at st st'" and "as_of cd scope i at insertion_order st = Inr s"
  shows "as_of cd scope i at insertion_order st' = Inr s"
proof -
  from assms(2) obtain m where m: "hm_get (ds_manifests st) (owner_key cd scope, i) = Some m"
    "ts_project_id scope = Some (dm_project_id m)" "dm_sealed_at m \<le> at"
    by (auto simp: as_of_def rbind_eq_Inr scoped_manifest_Inr split: if_splits)
  have "sealed_get at (ds_manifests st') (owner_key cd scope, i) = sealed_get at (ds_manifests st) (owner_key cd scope, i)"
    using assms(1) by (simp add: same_at_def)
  from sealed_get_SomeD [OF this m(1,3)] obtain m' where m': "hm_get (ds_manifests st') (owner_key cd scope, i) = Some m'"
    "frozen_part m' = frozen_part m" by blast
  have targets: "targets_at owner i at insertion_order st' = targets_at owner i at insertion_order st" for owner
    using assms(1) by (simp add: targets_at_seen same_at_def)
  have read: "scoped_manifest cd st scope i = Inr m" "scoped_manifest cd st' scope i = Inr m'"
    using m m' frozen_part_eqD(3) [OF m'(2)] by (simp_all add: scoped_manifest_Inr)
  show ?thesis
    using assms(2) m(3) frozen_part_eqD [OF m'(2)]
    by (simp add: as_of_def read targets Let_def)
qed

section \<open>The order of a map\<close>

text \<open>The targets of a manifest have distinct ordinals, so sorting them forgets the order they were found in.\<close>

lemma version_at_recorded:
  assumes "histories_ok st" and "e \<in> set (ds_histories st)" and "version_at at (snd e) = Some v"
  shows "tv_target v \<in> set (recorded st (fst e))"
proof -
  have "v \<in> set (snd e)" using find_SomeD [OF assms(3) [unfolded version_at_def]] by simp
  moreover have "history_of st (fst e) = snd e" using history_entry [OF assms(1), of e] assms(2) by (simp add: history_of_def)
  ultimately show ?thesis by (simp add: recorded_def)
qed

lemma targets_at_order:
  assumes inv: "coverage_inv cd st" and m: "hm_get (ds_manifests st) (owner, i) = Some m" and ord: "order_ok ord"
  shows "targets_at owner i at ord st = targets_at owner i at insertion_order st"
proof -
  have ok: "histories_ok st" using inv by (simp add: coverage_inv_def)
  let ?versions = "\<lambda>es. filter (\<lambda>v. dt_manifest_id (tv_target v) = i)
    (List.map_filter (\<lambda>e. version_at at (snd e)) (filter (\<lambda>e. fst (fst e) = owner) es))"
  have "mset (mo_histories ord (ds_histories st)) = mset (ds_histories st)" using ord by (simp add: order_ok_def)
  then have "mset (List.map_filter (\<lambda>e. version_at at (snd e)) (filter (\<lambda>e. fst (fst e) = owner) (mo_histories ord (ds_histories st)))) =
      mset (List.map_filter (\<lambda>e. version_at at (snd e)) (filter (\<lambda>e. fst (fst e) = owner) (ds_histories st)))"
    by (intro mset_map_filter) simp
  then have versions: "mset (?versions (mo_histories ord (ds_histories st))) = mset (?versions (ds_histories st))" by simp
  have entry: "\<exists>e. e \<in> set (ds_histories st) \<and> fst (fst e) = owner \<and> version_at at (snd e) = Some v \<and> dt_manifest_id (tv_target v) = i"
    if "v \<in> set (?versions (ds_histories st))" for v
    using that by (auto simp: List.map_filter_def simp del: split_paired_Ex)
  have "inj_on (\<lambda>v. dt_ordinal (tv_target v)) (set (?versions (ds_histories st)))"
  proof (rule inj_onI)
    fix v w
    assume v: "v \<in> set (?versions (ds_histories st))" and w: "w \<in> set (?versions (ds_histories st))"
      and same: "dt_ordinal (tv_target v) = dt_ordinal (tv_target w)"
    obtain e where e: "e \<in> set (ds_histories st)" "fst (fst e) = owner" "version_at at (snd e) = Some v" "dt_manifest_id (tv_target v) = i"
      using entry [OF v] by metis
    obtain f where f: "f \<in> set (ds_histories st)" "fst (fst f) = owner" "version_at at (snd f) = Some w" "dt_manifest_id (tv_target w) = i"
      using entry [OF w] by metis
    have "tv_target v \<in> set (recorded st (owner, snd (fst e)))" "tv_target w \<in> set (recorded st (owner, snd (fst f)))"
      using version_at_recorded [OF ok e(1,3)] version_at_recorded [OF ok f(1,3)] e(2) f(2) by (metis prod.collapse)+
    then have "snd (fst e) = snd (fst f)" using recorded_ordinal [OF inv m] e(4) f(4) same by metis
    then have "fst e = fst f" using e(2) f(2) by (simp add: prod_eq_iff)
    then have "snd e = snd f" using e(1) f(1) history_entry [OF ok, of e] history_entry [OF ok, of f] by simp
    then show "v = w" using e(3) f(3) by simp
  qed
  then have "inj_on dt_ordinal (set (map tv_target (?versions (ds_histories st))))"
    by (auto simp: inj_on_def)
  moreover have "mset (map tv_target (?versions (mo_histories ord (ds_histories st)))) = mset (map tv_target (?versions (ds_histories st)))"
    using versions by simp
  ultimately have "sort_key dt_ordinal (map tv_target (?versions (ds_histories st))) =
      sort_key dt_ordinal (map tv_target (?versions (mo_histories ord (ds_histories st))))"
    by (intro sort_key_eq_sort_key) (simp_all only:)
  then show ?thesis by (simp add: targets_at_def insertion_order_def)
qed

lemma as_of_order:
  assumes "coverage_inv cd st" and "order_ok ord"
  shows "as_of cd scope i at ord st = as_of cd scope i at insertion_order st"
proof (cases "scoped_manifest cd st scope i")
  case (Inr m)
  then have "hm_get (ds_manifests st) (owner_key cd scope, i) = Some m" by (simp add: scoped_manifest_Inr)
  from targets_at_order [OF assms(1) this assms(2)] show ?thesis by (simp add: as_of_def Inr)
qed (simp add: as_of_def)

section \<open>The inputs of a cycle\<close>

text \<open>The manifests of a cycle that are sealed at the cutoff, in the order in which the map yields them.\<close>

definition sealed_manifests :: "codecs \<Rightarrow> tenant_scope \<Rightarrow> uuid \<Rightarrow> instant \<Rightarrow> map_order \<Rightarrow> dist_state \<Rightarrow> distribution_manifest list" where
  "sealed_manifests cd scope cycle at ord st = map snd (filter (\<lambda>e. fst (fst e) = owner_key cd scope \<and>
     ts_project_id scope = Some (dm_project_id (snd e)) \<and> dm_cycle_id (snd e) = cycle \<and> dm_sealed_at (snd e) \<le> at)
     (mo_manifests ord (ds_manifests st)))"

definition cycle_manifests :: "codecs \<Rightarrow> tenant_scope \<Rightarrow> uuid \<Rightarrow> instant \<Rightarrow> dist_state \<Rightarrow> distribution_manifest set" where
  "cycle_manifests cd scope cycle at st = set (sealed_manifests cd scope cycle at insertion_order st)"

definition greatest_revision :: "distribution_manifest set \<Rightarrow> distribution_manifest \<Rightarrow> bool" where
  "greatest_revision ms m \<longleftrightarrow> m \<in> ms \<and> (\<forall>x\<in>ms. sint (dm_revision x) \<le> sint (dm_revision m))"

definition inputs_of :: "distribution_manifest \<Rightarrow> distribution_snapshot \<Rightarrow> distribution_cycle_inputs" where
  "inputs_of m s = \<lparr>ci_manifest = Some (sn_manifest s), ci_targets = sn_targets s,
     ci_temporally_complete = (of_nat (length (sn_targets s)) = dm_expected_count m)\<rparr>"

definition none_inputs :: distribution_cycle_inputs where
  "none_inputs = \<lparr>ci_manifest = None, ci_targets = [], ci_temporally_complete = False\<rparr>"

lemma sealed_manifests_mset:
  "order_ok ord \<Longrightarrow> mset (sealed_manifests cd scope cycle at ord st) = mset (sealed_manifests cd scope cycle at insertion_order st)"
  by (simp add: sealed_manifests_def order_ok_def insertion_order_def)

lemma sealed_manifests_set: "order_ok ord \<Longrightarrow> set (sealed_manifests cd scope cycle at ord st) = cycle_manifests cd scope cycle at st"
  unfolding cycle_manifests_def by (rule mset_eq_setD [OF sealed_manifests_mset])

lemma cycle_inputs_conv:
  assumes "coverage_inv cd st" and "order_ok ord"
  shows "dist_cycle_inputs cd scope cycle at ord st =
    (case max_by_key (\<lambda>m. sint (dm_revision m)) (sealed_manifests cd scope cycle at ord st) of
       None \<Rightarrow> Inr none_inputs
     | Some m \<Rightarrow> rbind (as_of cd scope (dm_manifest_id m) at insertion_order st) (\<lambda>s. Inr (inputs_of m s)))"
  using as_of_order [OF assms]
  by (simp add: dist_cycle_inputs_def sealed_manifests_def inputs_of_def none_inputs_def split: option.split)

lemma max_by_key_greatest:
  assumes "max_by_key (\<lambda>m. sint (dm_revision m)) ms = Some m"
  shows "greatest_revision (set ms) m"
  using max_by_key_in [OF assms] max_by_key_ge [OF assms] by (simp add: greatest_revision_def)

lemma max_by_key_last:
  "(\<And>x. x \<in> set xs \<Longrightarrow> f x \<le> f m) \<Longrightarrow> ys \<noteq> [] \<Longrightarrow> set ys \<subseteq> {m} \<Longrightarrow> max_by_key f (xs @ ys) = Some m"
proof (induction xs)
  case Nil
  then obtain x where x: "max_by_key f ys = Some x" by (cases "max_by_key f ys") auto
  then have "x = m" using max_by_key_in [OF x] Nil.prems(3) by blast
  then show ?case using x by simp
next
  case (Cons x xs)
  then have "max_by_key f (xs @ ys) = Some m" "f x \<le> f m" by simp_all
  then show ?case by simp
qed

text \<open>Of several greatest revisions any may be the last one the map yields.\<close>

definition last_order :: "distribution_manifest \<Rightarrow> map_order" where
  "last_order m = \<lparr>mo_manifests = (\<lambda>es. filter (\<lambda>e. snd e \<noteq> m) es @ filter (\<lambda>e. snd e = m) es), mo_histories = (\<lambda>h. h)\<rparr>"

lemma last_order_ok: "order_ok (last_order m)"
proof -
  have "mset (filter (\<lambda>e. snd e \<noteq> m) es @ filter (\<lambda>e. snd e = m) es) = mset es" for es :: "stored_manifest list"
    by (induction es) simp_all
  then show ?thesis by (simp add: order_ok_def last_order_def)
qed

lemma last_order_latest:
  assumes "greatest_revision (cycle_manifests cd scope cycle at st) m"
  shows "max_by_key (\<lambda>m. sint (dm_revision m)) (sealed_manifests cd scope cycle at (last_order m) st) = Some m"
proof -
  let ?P = "\<lambda>e. fst (fst e) = owner_key cd scope \<and> ts_project_id scope = Some (dm_project_id (snd e)) \<and>
    dm_cycle_id (snd e) = cycle \<and> dm_sealed_at (snd e) \<le> at"
  let ?xs = "map snd (filter ?P (filter (\<lambda>e. snd e \<noteq> m) (ds_manifests st)))"
  let ?ys = "map snd (filter ?P (filter (\<lambda>e. snd e = m) (ds_manifests st)))"
  have ms: "cycle_manifests cd scope cycle at st = snd ` {e \<in> set (ds_manifests st). ?P e}"
    by (simp add: cycle_manifests_def sealed_manifests_def insertion_order_def)
  have "sealed_manifests cd scope cycle at (last_order m) st = ?xs @ ?ys"
    by (simp add: sealed_manifests_def last_order_def)
  moreover have "max_by_key (\<lambda>m. sint (dm_revision m)) (?xs @ ?ys) = Some m"
  proof (rule max_by_key_last)
    show "sint (dm_revision x) \<le> sint (dm_revision m)" if "x \<in> set ?xs" for x
    proof -
      have "x \<in> cycle_manifests cd scope cycle at st" using that unfolding ms by auto
      then show ?thesis using assms by (simp add: greatest_revision_def)
    qed
    have "m \<in> snd ` {e \<in> set (ds_manifests st). ?P e}" using assms ms by (simp add: greatest_revision_def)
    then show "?ys \<noteq> []" by (auto simp: filter_empty_conv simp del: split_paired_All)
    show "set ?ys \<subseteq> {m}" by auto
  qed
  ultimately show ?thesis by simp
qed

text \<open>What \<open>cycle_inputs\<close> may return, over every order of the maps.\<close>

definition possible_inputs :: "codecs \<Rightarrow> tenant_scope \<Rightarrow> uuid \<Rightarrow> instant \<Rightarrow> dist_state \<Rightarrow> distribution_cycle_inputs set" where
  "possible_inputs cd scope cycle at st = {r. \<exists>ord. order_ok ord \<and> dist_cycle_inputs cd scope cycle at ord st = Inr r}"

lemma possible_inputs_iff:
  assumes inv: "coverage_inv cd st"
  shows "r \<in> possible_inputs cd scope cycle at st \<longleftrightarrow>
    cycle_manifests cd scope cycle at st = {} \<and> r = none_inputs \<or>
    (\<exists>m s. greatest_revision (cycle_manifests cd scope cycle at st) m \<and>
      as_of cd scope (dm_manifest_id m) at insertion_order st = Inr s \<and> r = inputs_of m s)" (is "?possible \<longleftrightarrow> ?chosen")
proof
  assume ?possible
  then obtain ord where ord: "order_ok ord" and run: "dist_cycle_inputs cd scope cycle at ord st = Inr r"
    by (auto simp: possible_inputs_def)
  note conv = run [unfolded cycle_inputs_conv [OF inv ord]]
  show ?chosen
  proof (cases "max_by_key (\<lambda>m. sint (dm_revision m)) (sealed_manifests cd scope cycle at ord st)")
    case None
    then have "cycle_manifests cd scope cycle at st = {}" using sealed_manifests_set [OF ord, of cd scope cycle at st] by simp
    then show ?thesis using conv None by simp
  next
    case (Some m)
    then have "greatest_revision (cycle_manifests cd scope cycle at st) m"
      using max_by_key_greatest sealed_manifests_set [OF ord] by metis
    then show ?thesis using conv Some by (auto simp: rbind_eq_Inr)
  qed
next
  assume ?chosen
  then show ?possible
  proof (elim disjE conjE exE)
    assume "cycle_manifests cd scope cycle at st = {}" "r = none_inputs"
    then have "dist_cycle_inputs cd scope cycle at insertion_order st = Inr r"
      by (simp add: cycle_inputs_conv [OF inv] cycle_manifests_def)
    then show ?thesis unfolding possible_inputs_def using insertion_order_ok by blast
  next
    fix m s
    assume m: "greatest_revision (cycle_manifests cd scope cycle at st) m"
      and s: "as_of cd scope (dm_manifest_id m) at insertion_order st = Inr s" "r = inputs_of m s"
    have "dist_cycle_inputs cd scope cycle at (last_order m) st = Inr r"
      using s by (simp add: cycle_inputs_conv [OF inv last_order_ok] last_order_latest [OF m])
    then show ?thesis unfolding possible_inputs_def using last_order_ok by blast
  qed
qed

lemma greatest_unique:
  assumes "inj_on dm_revision ms" and "greatest_revision ms m" and "greatest_revision ms n"
  shows "m = n"
proof -
  have ms: "m \<in> ms" "n \<in> ms" using assms(2,3) by (simp_all add: greatest_revision_def)
  then have "sint (dm_revision m) = sint (dm_revision n)"
    using assms(2,3) by (intro order_antisym) (simp_all add: greatest_revision_def)
  then have "dm_revision m = dm_revision n" by (rule signed_word_eqI)
  then show ?thesis using inj_onD [OF assms(1)] ms by blast
qed

text \<open>With distinct revisions there is one greatest, and the order does not matter.\<close>

lemma cycle_inputs_order:
  assumes inv: "coverage_inv cd st" and ord: "order_ok ord" and distinct: "inj_on dm_revision (cycle_manifests cd scope cycle at st)"
  shows "dist_cycle_inputs cd scope cycle at ord st = dist_cycle_inputs cd scope cycle at insertion_order st"
proof -
  let ?f = "\<lambda>m. sint (dm_revision m)"
  let ?xs = "sealed_manifests cd scope cycle at ord st" and ?ys = "sealed_manifests cd scope cycle at insertion_order st"
  have sets: "set ?xs = cycle_manifests cd scope cycle at st" "set ?ys = cycle_manifests cd scope cycle at st"
    using sealed_manifests_set [OF ord] by (simp_all add: cycle_manifests_def)
  have "max_by_key ?f ?xs = max_by_key ?f ?ys"
  proof (cases "max_by_key ?f ?xs")
    case None
    then have "set ?ys = {}" using sets by simp
    then show ?thesis using None by simp
  next
    case (Some m)
    then have "?xs \<noteq> []" by auto
    then have "?ys \<noteq> []" using sets by (metis set_empty)
    then obtain n where n: "max_by_key ?f ?ys = Some n" by (cases "max_by_key ?f ?ys") auto
    have "m = n"
      by (rule greatest_unique [OF distinct]) (use max_by_key_greatest [OF Some] max_by_key_greatest [OF n] sets in simp_all)
    then show ?thesis using Some n by simp
  qed
  then show ?thesis by (simp add: cycle_inputs_conv [OF inv ord] cycle_inputs_conv [OF inv insertion_order_ok])
qed

section \<open>The inputs of a cycle at a cutoff\<close>

lemma cycle_manifests_sealed:
  "frozen_part ` cycle_manifests cd scope cycle at st = snd ` {e \<in> set (sealed_at at (ds_manifests st)).
     fst (fst e) = owner_key cd scope \<and> ts_project_id scope = Some (dm_project_id (snd e)) \<and> dm_cycle_id (snd e) = cycle}"
proof -
  have "map frozen_part (map snd (filter (\<lambda>e. fst (fst e) = owner_key cd scope \<and>
     ts_project_id scope = Some (dm_project_id (snd e)) \<and> dm_cycle_id (snd e) = cycle \<and> dm_sealed_at (snd e) \<le> at) m)) =
    map snd (filter (\<lambda>e. fst (fst e) = owner_key cd scope \<and>
     ts_project_id scope = Some (dm_project_id (snd e)) \<and> dm_cycle_id (snd e) = cycle) (sealed_at at m))" for m
    by (induction m) (auto simp: sealed_at_simps)
  then have "set (map frozen_part (sealed_manifests cd scope cycle at insertion_order st)) =
    set (map snd (filter (\<lambda>e. fst (fst e) = owner_key cd scope \<and>
     ts_project_id scope = Some (dm_project_id (snd e)) \<and> dm_cycle_id (snd e) = cycle) (sealed_at at (ds_manifests st))))"
    by (simp only: sealed_manifests_def insertion_order_def map_order.simps)
  then show ?thesis by (simp only: cycle_manifests_def set_map set_filter)
qed

lemma cycle_manifests_same:
  assumes "same_at at st st'" and "m \<in> cycle_manifests cd scope cycle at st"
  obtains m' where "m' \<in> cycle_manifests cd scope cycle at st'" and "frozen_part m' = frozen_part m"
proof -
  have "frozen_part ` cycle_manifests cd scope cycle at st' = frozen_part ` cycle_manifests cd scope cycle at st"
    using assms(1) by (simp only: cycle_manifests_sealed same_at_def)
  then have "frozen_part m \<in> frozen_part ` cycle_manifests cd scope cycle at st'" using assms(2) by simp
  then show thesis using that by (metis imageE)
qed

lemma same_at_sym: "same_at at st st' \<Longrightarrow> same_at at st' st"
  by (simp add: same_at_def)

lemma greatest_revision_same:
  assumes same: "same_at at st st'" and m: "greatest_revision (cycle_manifests cd scope cycle at st) m"
  obtains m' where "greatest_revision (cycle_manifests cd scope cycle at st') m'" and "frozen_part m' = frozen_part m"
proof -
  obtain m' where m': "m' \<in> cycle_manifests cd scope cycle at st'" "frozen_part m' = frozen_part m"
    by (rule cycle_manifests_same [OF same]) (use m in \<open>auto simp: greatest_revision_def\<close>)
  have "sint (dm_revision x) \<le> sint (dm_revision m')" if x: "x \<in> cycle_manifests cd scope cycle at st'" for x
  proof -
    obtain y where "y \<in> cycle_manifests cd scope cycle at st" "frozen_part y = frozen_part x"
      by (rule cycle_manifests_same [OF same_at_sym [OF same] x])
    then show ?thesis using m frozen_part_eqD(5) [of y x] frozen_part_eqD(5) [OF m'(2)] by (auto simp: greatest_revision_def)
  qed
  then have "greatest_revision (cycle_manifests cd scope cycle at st') m'" using m'(1) by (simp add: greatest_revision_def)
  then show thesis using that m'(2) by blast
qed

lemma possible_inputs_mono:
  assumes same: "same_at at st st'" and inv: "coverage_inv cd st" "coverage_inv cd st'"
  shows "possible_inputs cd scope cycle at st \<subseteq> possible_inputs cd scope cycle at st'"
proof
  fix r assume "r \<in> possible_inputs cd scope cycle at st"
  then consider "cycle_manifests cd scope cycle at st = {}" "r = none_inputs"
    | m s where "greatest_revision (cycle_manifests cd scope cycle at st) m"
        "as_of cd scope (dm_manifest_id m) at insertion_order st = Inr s" "r = inputs_of m s"
    unfolding possible_inputs_iff [OF inv(1)] by blast
  then show "r \<in> possible_inputs cd scope cycle at st'"
  proof cases
    case 1
    then have "cycle_manifests cd scope cycle at st' = {}" using cycle_manifests_same [OF same_at_sym [OF same]] by blast
    then show ?thesis using 1 by (simp add: possible_inputs_iff [OF inv(2)])
  next
    case (2 m s)
    obtain m' where m': "greatest_revision (cycle_manifests cd scope cycle at st') m'" "frozen_part m' = frozen_part m"
      by (rule greatest_revision_same [OF same 2(1)])
    have "as_of cd scope (dm_manifest_id m') at insertion_order st' = Inr s" "inputs_of m' s = inputs_of m s"
      using as_of_same [OF same 2(2)] frozen_part_eqD(2,6) [OF m'(2)] by (simp_all add: inputs_of_def)
    then show ?thesis using m'(1) 2(3) unfolding possible_inputs_iff [OF inv(2)] by metis
  qed
qed

lemma possible_inputs_same:
  assumes "same_at at st st'" and "coverage_inv cd st" and "coverage_inv cd st'"
  shows "possible_inputs cd scope cycle at st' = possible_inputs cd scope cycle at st"
  using possible_inputs_mono [OF assms] possible_inputs_mono [OF same_at_sym [OF assms(1)] assms(3,2)] by (rule equalityI [rotated])

lemma cycle_inputs_answered:
  assumes same: "same_at at st st'" and inv: "coverage_inv cd st" "coverage_inv cd st'" and ord: "order_ok ord"
    and distinct: "inj_on dm_revision (cycle_manifests cd scope cycle at st)" and r: "r \<in> possible_inputs cd scope cycle at st"
  shows "\<exists>r'. dist_cycle_inputs cd scope cycle at ord st' = Inr r'"
proof (cases "max_by_key (\<lambda>m. sint (dm_revision m)) (sealed_manifests cd scope cycle at ord st')")
  case (Some m')
  then have m': "greatest_revision (cycle_manifests cd scope cycle at st') m'"
    using max_by_key_greatest sealed_manifests_set [OF ord] by metis
  obtain m where m: "greatest_revision (cycle_manifests cd scope cycle at st) m" "frozen_part m = frozen_part m'"
    by (rule greatest_revision_same [OF same_at_sym [OF same] m'])
  then have "cycle_manifests cd scope cycle at st \<noteq> {}" by (auto simp: greatest_revision_def)
  then obtain n s where n: "greatest_revision (cycle_manifests cd scope cycle at st) n"
    "as_of cd scope (dm_manifest_id n) at insertion_order st = Inr s"
    using r unfolding possible_inputs_iff [OF inv(1)] by blast
  have "n = m" by (rule greatest_unique [OF distinct n(1) m(1)])
  then have "as_of cd scope (dm_manifest_id m') at insertion_order st' = Inr s"
    using as_of_same [OF same n(2)] frozen_part_eqD(6) [OF m(2)] by simp
  then show ?thesis using Some by (simp add: cycle_inputs_conv [OF inv(2) ord])
qed (simp add: cycle_inputs_conv [OF inv(2) ord])

lemma cycle_inputs_same:
  assumes same: "same_at at st st'" and inv: "coverage_inv cd st" "coverage_inv cd st'" and ord: "order_ok ord" "order_ok ord'"
    and distinct: "inj_on dm_revision (cycle_manifests cd scope cycle at st)"
  shows "dist_cycle_inputs cd scope cycle at ord' st' = Inr r \<longleftrightarrow> dist_cycle_inputs cd scope cycle at ord st = Inr r"
proof -
  note possible = possible_inputs_same [OF same inv, of scope cycle]
  have only: "dist_cycle_inputs cd scope cycle at ord st = Inr q" if "q \<in> possible_inputs cd scope cycle at st'" for q
  proof -
    have "q \<in> possible_inputs cd scope cycle at st" using that possible by simp
    then obtain o1 where o1: "order_ok o1" "dist_cycle_inputs cd scope cycle at o1 st = Inr q"
      unfolding possible_inputs_def by blast
    then show ?thesis
      using cycle_inputs_order [OF inv(1) o1(1) distinct] cycle_inputs_order [OF inv(1) ord(1) distinct] by simp
  qed
  show ?thesis
  proof
    assume "dist_cycle_inputs cd scope cycle at ord' st' = Inr r"
    then show "dist_cycle_inputs cd scope cycle at ord st = Inr r"
      using ord(2) by (intro only) (unfold possible_inputs_def, blast)
  next
    assume r: "dist_cycle_inputs cd scope cycle at ord st = Inr r"
    then have "r \<in> possible_inputs cd scope cycle at st" using ord(1) unfolding possible_inputs_def by blast
    from cycle_inputs_answered [OF same inv ord(2) distinct this] obtain q where
      q: "dist_cycle_inputs cd scope cycle at ord' st' = Inr q" ..
    then have "dist_cycle_inputs cd scope cycle at ord st = Inr q"
      using ord(2) by (intro only) (unfold possible_inputs_def, blast)
    then show "dist_cycle_inputs cd scope cycle at ord' st' = Inr r" using q r by simp
  qed
qed

text \<open>C16: What a report reads at a cutoff is final, whatever order the maps are iterated in before and after. In
  every state that a history reaches without two cells of a history having the same identifier, no further such
  history of operations that run after the cutoff changes the snapshot of a manifest at the cutoff, or makes one
  appear. It does not change the set of inputs that a cycle may be given at the cutoff either; and they
  are the same inputs when the manifests of the cycle frozen by then have distinct revisions, as the database
  requires.\<close>

theorem report_cutoff_is_immutable:
  assumes past: "ok_ops (dist_exec cd) (cells_ok cd) dist_empty past" "st = run_ops (dist_exec cd) dist_empty past"
    and later: "ok_ops (dist_exec cd) (cells_ok cd) st later" "st' = run_ops (dist_exec cd) st later"
    and after: "\<forall>op\<in>set later. \<forall>n. at < now_at (dist_draws op) n"
    and ord: "order_ok ord" "order_ok ord'"
  shows "(as_of cd scope i at ord' st' = Inr s \<longleftrightarrow> as_of cd scope i at ord st = Inr s) \<and>
    possible_inputs cd scope cycle at st' = possible_inputs cd scope cycle at st \<and>
    (inj_on dm_revision (cycle_manifests cd scope cycle at st) \<longrightarrow>
      (dist_cycle_inputs cd scope cycle at ord' st' = Inr r \<longleftrightarrow> dist_cycle_inputs cd scope cycle at ord st = Inr r))"
proof -
  have inv: "coverage_inv cd st" using coverage.inv_run [OF coverage_empty past(1)] past(2) by simp
  have inv': "coverage_inv cd st'" using coverage.inv_run [OF inv later(1)] later(2) by simp
  have same: "same_at at st st'" using run_same_at [OF after] later(2) by simp
  have "as_of cd scope i at insertion_order st' = Inr s \<longleftrightarrow> as_of cd scope i at insertion_order st = Inr s"
    using as_of_same [OF same] as_of_same [OF same_at_sym [OF same]] by blast
  then have "as_of cd scope i at ord' st' = Inr s \<longleftrightarrow> as_of cd scope i at ord st = Inr s"
    using as_of_order [OF inv ord(1)] as_of_order [OF inv' ord(2)] by simp
  then show ?thesis
    using possible_inputs_same [OF same inv inv'] cycle_inputs_same [OF same inv inv' ord] by blast
qed

end
