(* ===== verification/Distribution_Example.thy ===== *)
theory Distribution_Example
  imports Distribution_Coverage Distribution_Cutoff "HOL-Library.Code_Target_Nat"
begin

text \<open>
  The start of a distribution: two documents on one platform are frozen and expanded, one of them ready, the
  other blocked. The hash is the sum of the bytes.
\<close>

lemma be_bytes_small [code]:
  "be_bytes n = (if n < 65536 then [0, 0, 0, 0, 0, 0, n div 256, n mod 256]
     else map (\<lambda>i. n div 256 ^ i mod 256) [7, 6, 5, 4, 3, 2, 1, 0])"
  by (simp add: be_bytes_def div_eq_0_iff)

lemma take_bit_uuid [code]: "take_bit n (k::int) = (if 0 \<le> k \<and> k < 65536 \<and> 16 \<le> n then k
    else if 0 \<le> k \<and> k < 9223372036854775808 \<and> 63 \<le> n then k
    else if 0 \<le> k \<and> k < 340282366920938463463374607431768211456 \<and> 128 \<le> n then k else k mod 2 ^ n)"
proof -
  have "(2::int) ^ 128 \<le> 2 ^ n" if "128 \<le> n" using that by (intro power_increasing) simp_all
  then show ?thesis by (auto simp: take_bit_small take_bit_eq_mod)
qed

definition dx_hash :: "nat list \<Rightarrow> 8 word list" where
  "dx_hash bs = (let h = sum_list bs in [of_nat (h mod 256), of_nat (h div 256)] @ replicate 30 0)"

definition dx_codecs :: codecs where
  "dx_codecs = \<lparr>cd_uuid = (\<lambda>i. [unat i]), cd_sha256 = dx_hash, cd_datetime = (\<lambda>s. None),
     cd_datetime_json = (\<lambda>j. None), cd_parse_json = (\<lambda>s. None), cd_json_len = (\<lambda>j. 0),
     cd_payload_json = (\<lambda>p. Inr []), cd_urls = \<lparr>url_parse = (\<lambda>s. None), url_join = (\<lambda>u s. None)\<rparr>\<rparr>"

definition dx_scope :: tenant_scope where
  "dx_scope = \<lparr>ts_operator_id = Ident 1, ts_tenant_id = Ident 2, ts_project_id = Some (Ident 3)\<rparr>"

definition dx_item :: "uuid \<Rightarrow> document_manifest_item" where
  "dx_item i = \<lparr>di_document_manifest_item_id = i, di_manifest_id = 20, di_knowledge_release_id = 21, di_document_key = [unat i],
     di_content_type = lit ''a'', di_product_id = None, di_market = [], di_language = [], di_state = ItemPlanned,
     di_block_reason = None, di_dependency_hash = [], di_source_version_refs = []\<rparr>"

definition dx_coverage :: content_coverage where
  "dx_coverage = \<lparr>cg_total = 2, cg_ready = 1, cg_blocked = 1, cg_deferred = 0, cg_not_applicable = 0, cg_cancelled = 0,
     cg_incomplete = 0\<rparr>"

definition dx_handoff :: content_handoff where
  "dx_handoff = \<lparr>ch_handoff_id = 30, ch_execution_id = 31, ch_revision = 1, ch_supersedes_handoff_id = None,
     ch_coverage = dx_coverage,
     ch_items = [\<lparr>hi_item_id = 40, hi_document_key = [40], hi_status = ContentReady, hi_reason = None, hi_revision_id = Some 11\<rparr>,
       \<lparr>hi_item_id = 41, hi_document_key = [41], hi_status = ContentBlocked, hi_reason = Some (lit ''r''), hi_revision_id = None\<rparr>],
     ch_created_at = 0\<rparr>"

definition dx_input :: freeze_input where
  "dx_input = \<lparr>fd_cycle_id = 50, fd_revision = 1,
     fd_document_manifest = \<lparr>dom_manifest_id = 20, dom_operator_id = Ident 1, dom_tenant_id = Ident 2, dom_project_id = Ident 3,
       dom_revision = 1, dom_knowledge_release_id = 21, dom_planner_version = [], dom_state = ManifestReady, dom_sealed = True,
       dom_expected_count = Some 2, dom_scope_hash = [], dom_items = [dx_item 40, dx_item 41],
       dom_coverage = \<lparr>dmc_total = 2, dmc_planned = 2, dmc_blocked = 0, dmc_deferred = 0, dmc_not_applicable = 0\<rparr>\<rparr>,
     fd_content_execution = \<lparr>cx_execution_id = 31, cx_project_id = Ident 3, cx_origin = OriginCycle 50, cx_manifest_id = 20,
       cx_manifest_revision = 1, cx_policy_version = [], cx_input_hash = [], cx_status = ExecutionClosed, cx_expected_count = 2,
       cx_coverage = dx_coverage, cx_handoff_id = Some 30\<rparr>,
     fd_content_handoff = dx_handoff,
     fd_placements = [\<lparr>pp_platform_id = lit ''p'', pp_placement_slot = lit ''s'', pp_capability_version = lit ''1'',
       pp_supported_formats = [lit ''a''], pp_unavailable_reason = None, pp_fixture = False\<rparr>],
     fd_sealed_at = 0\<rparr>"

definition dx_draws :: "instant \<Rightarrow> draws" where
  "dx_draws t = \<lparr>uuid_at = (\<lambda>_. 0), now_at = (\<lambda>_. t)\<rparr>"

definition dx_manifest_id :: uuid where
  "dx_manifest_id = 57161996115610295161034235696855908352"

definition dx_owner :: str where
  "dx_owner = [1, 58, 2, 58, 3]"

definition dx_manifest :: "u64 \<Rightarrow> distribution_manifest" where
  "dx_manifest c = \<lparr>dm_manifest_id = dx_manifest_id, dm_project_id = Ident 3, dm_cycle_id = 50, dm_revision = 1,
     dm_document_manifest_id = 20, dm_document_manifest_revision = 1, dm_content_execution_id = 31, dm_content_handoff_id = 30,
     dm_platform_scope = fd_placements dx_input,
     dm_document_roster = [\<lparr>dd_document_item_id = 40, dd_document_key = [40], dd_content_type = lit ''a'',
         dd_status = ContentReady, dd_reason = None, dd_content_revision_id = Some 11\<rparr>,
       \<lparr>dd_document_item_id = 41, dd_document_key = [41], dd_content_type = lit ''a'', dd_status = ContentBlocked,
         dd_reason = Some (lit ''r''), dd_content_revision_id = None\<rparr>],
     dm_input_hash = [55, 102] @ replicate 62 48, dm_expected_count = 2, dm_sealed_at = 10, dm_expansion_cursor = c,
     dm_complete = (c = 2)\<rparr>"

definition dx_ready :: distribution_target where
  "dx_ready = \<lparr>dt_target_id = 172815216342615045758922510933904326656, dt_manifest_id = dx_manifest_id, dt_ordinal = 0,
     dt_document_item_id = 40, dt_content_revision_id = Some 11, dt_platform_id = lit ''p'', dt_placement_slot = lit ''s'',
     dt_variant_id = None, dt_account_id = None, dt_publication_intent_id = None, dt_status = DistPending, dt_reason = None,
     dt_version = 1\<rparr>"

definition dx_blocked :: distribution_target where
  "dx_blocked = \<lparr>dt_target_id = 174144444338399961631826317994184671232, dt_manifest_id = dx_manifest_id, dt_ordinal = 1,
     dt_document_item_id = 41, dt_content_revision_id = None, dt_platform_id = lit ''p'', dt_placement_slot = lit ''s'',
     dt_variant_id = None, dt_account_id = None, dt_publication_intent_id = None, dt_status = DistBlocked,
     dt_reason = Some (lit ''r''), dt_version = 1\<rparr>"

definition dx_freeze :: dist_op where
  "dx_freeze = DistFreeze (\<lambda>doc roster placements h handoff. Some []) (dx_draws 10) dx_scope dx_input"

definition dx_commit :: dist_op where
  "dx_commit = DistCommit (dx_draws 20) dx_scope dx_manifest_id 0 [dx_ready, dx_blocked]"

definition dx_frozen :: dist_state where
  "dx_frozen = dist_empty\<lparr>ds_manifests := [((dx_owner, dx_manifest_id), dx_manifest 0)]\<rparr>"

definition dx_expanded :: dist_state where
  "dx_expanded = dist_empty\<lparr>ds_manifests := [((dx_owner, dx_manifest_id), dx_manifest 2)],
     ds_histories := [((dx_owner, dt_target_id dx_ready), [\<lparr>tv_recorded_at = 20, tv_target = dx_ready\<rparr>]),
       ((dx_owner, dt_target_id dx_blocked), [\<lparr>tv_recorded_at = 20, tv_target = dx_blocked\<rparr>])]\<rparr>"

lemma dx_freeze_run: "dist_exec dx_codecs dist_empty dx_freeze = dx_frozen"
  by code_simp

lemma dx_commit_run: "dist_exec dx_codecs dx_frozen dx_commit = dx_expanded"
  by code_simp

end
