(* ===== verification/Distribution_Theorems.thy ===== *)
theory Distribution_Theorems
  imports Distribution_Example
begin

text \<open>
  What a distribution guarantees: the coverage list is exact, and what a report reads at a cutoff is final.
\<close>

section \<open>Coverage\<close>

text \<open>C17: In every state reached without two cells of a history having the same identifier, the list of
  targets of a manifest is exactly its coverage up to the cursor: one target per ordinal, in order and none
  twice, each with the document, the placement and the revision of its cell in the product of roster and
  placements; and the manifest is complete exactly when every pair of the product is listed, whatever order the map of
  histories is iterated in.\<close>

theorem coverage_list_is_exact:
  assumes run: "ok_ops (dist_exec cd) (cells_ok cd) dist_empty ops" "st = run_ops (dist_exec cd) dist_empty ops"
    and m: "scoped_manifest cd st scope i = Inr m" and limit: "0 < limit" "unat (dm_expansion_cursor m) \<le> limit"
    and ord: "order_ok ord" and page: "list_dist_targets cd scope i None limit ord st = Inr page"
  shows "map dt_ordinal (tp_rows page) = map of_nat [0..<unat (dm_expansion_cursor m)] \<and> tp_next_ordinal page = None \<and>
    (\<forall>t\<in>set (tp_rows page). \<exists>c. distribution_cell cd m (dt_ordinal t) = Some c \<and> same_cell t c) \<and>
    (dm_complete m \<longleftrightarrow> length (tp_rows page) = length (dm_document_roster m) * length (dm_platform_scope m))"
proof -
  have inv: "coverage_inv cd st" using coverage.inv_run [OF coverage_empty run(1)] run(2) by simp
  note list = coverage_list [OF inv m limit ord page]
  have ok: "manifest_ok m" using coverage_manifest [OF inv] m by (auto simp: scoped_manifest_Inr)
  have "length (tp_rows page) = unat (dm_expansion_cursor m)" using arg_cong [OF list(1), of length] by simp
  then have "dm_complete m \<longleftrightarrow> length (tp_rows page) = length (dm_document_roster m) * length (dm_platform_scope m)"
    using ok by (auto simp: manifest_ok_def word_unat_eq_iff)
  then show ?thesis using list by blast
qed

lemma dx_ok: "ok_ops (dist_exec dx_codecs) (cells_ok dx_codecs) dist_empty [dx_freeze, dx_commit]"
  by (simp add: cells_ok_def dx_freeze_run dx_commit_run)
    (auto simp: cells_unique_def recorded_def history_of_def dx_frozen_def dx_expanded_def dist_empty_def hm_get_def)

lemma dx_list_facts:
  "scoped_manifest dx_codecs dx_expanded dx_scope dx_manifest_id = Inr (dx_manifest 2)"
  "list_dist_targets dx_codecs dx_scope dx_manifest_id None 5 insertion_order dx_expanded =
     Inr \<lparr>tp_manifest_id = dx_manifest_id, tp_rows = [dx_ready, dx_blocked], tp_next_ordinal = None, tp_expected_count = 2\<rparr>"
  by code_simp+

theorem coverage_list_is_exact_witness:
  "map dt_ordinal [dx_ready, dx_blocked] = [0, 1] \<and> dm_complete (dx_manifest 2)"
proof -
  have st: "dx_expanded = run_ops (dist_exec dx_codecs) dist_empty [dx_freeze, dx_commit]"
    by (simp add: dx_freeze_run dx_commit_run)
  have "unat (dm_expansion_cursor (dx_manifest 2)) \<le> 5" by (simp add: dx_manifest_def)
  from coverage_list_is_exact [OF dx_ok st dx_list_facts(1) _ this insertion_order_ok dx_list_facts(2)] show ?thesis
    by (simp add: dx_manifest_def upt_rec)
qed

section \<open>Cutoffs\<close>

text \<open>The ready target is deferred after the cutoff, and the maps are iterated the other way round.\<close>

definition dx_defer :: dist_op where
  "dx_defer = DistMaterialize (dx_draws 40) dx_scope \<lparr>pd_manifest_id = dx_manifest_id, pd_target_id = dt_target_id dx_ready,
     pd_revision = None, pd_account_id = None, pd_defer_reason = Some DeferSourceChanged\<rparr>"

definition dx_deferred :: dist_state where
  "dx_deferred = dx_expanded\<lparr>ds_histories := [((dx_owner, dt_target_id dx_ready), [\<lparr>tv_recorded_at = 20, tv_target = dx_ready\<rparr>,
       \<lparr>tv_recorded_at = 40, tv_target = dx_ready\<lparr>dt_status := DistDeferred, dt_reason := Some (lit ''source_changed''), dt_version := 2\<rparr>\<rparr>]),
     ((dx_owner, dt_target_id dx_blocked), [\<lparr>tv_recorded_at = 20, tv_target = dx_blocked\<rparr>])]\<rparr>"

definition reverse_order :: map_order where
  "reverse_order = \<lparr>mo_manifests = rev, mo_histories = rev\<rparr>"

lemma reverse_order_ok: "order_ok reverse_order"
  by (simp add: order_ok_def reverse_order_def)

lemma dx_defer_run: "dist_exec dx_codecs dx_expanded dx_defer = dx_deferred"
  by code_simp

lemma dx_defer_ok: "ok_ops (dist_exec dx_codecs) (cells_ok dx_codecs) dx_expanded [dx_defer]"
  by (simp add: cells_ok_def dx_defer_run)
    (auto simp: cells_unique_def recorded_def history_of_def dx_deferred_def dx_expanded_def dist_empty_def hm_get_def cell_key_def)

lemma dx_snapshot:
  "as_of dx_codecs dx_scope dx_manifest_id 30 insertion_order dx_expanded =
     Inr \<lparr>sn_manifest = dx_manifest 2, sn_targets = [dx_ready, dx_blocked], sn_as_of = 30\<rparr>"
  "dist_cycle_inputs dx_codecs dx_scope 50 30 insertion_order dx_expanded =
     Inr \<lparr>ci_manifest = Some (dx_manifest 2), ci_targets = [dx_ready, dx_blocked], ci_temporally_complete = True\<rparr>"
  by code_simp+

lemma dx_one_revision: "inj_on dm_revision (cycle_manifests dx_codecs dx_scope 50 30 dx_expanded)"
proof -
  have "cycle_manifests dx_codecs dx_scope 50 30 dx_expanded \<subseteq> {dx_manifest 2}"
    by (auto simp: cycle_manifests_def sealed_manifests_def insertion_order_def dx_expanded_def)
  then show ?thesis by (rule inj_on_subset [rotated]) simp
qed

theorem report_cutoff_is_immutable_witness:
  "as_of dx_codecs dx_scope dx_manifest_id 30 reverse_order dx_deferred =
     Inr \<lparr>sn_manifest = dx_manifest 2, sn_targets = [dx_ready, dx_blocked], sn_as_of = 30\<rparr> \<and>
   dist_cycle_inputs dx_codecs dx_scope 50 30 reverse_order dx_deferred =
     Inr \<lparr>ci_manifest = Some (dx_manifest 2), ci_targets = [dx_ready, dx_blocked], ci_temporally_complete = True\<rparr>"
proof -
  have st: "dx_expanded = run_ops (dist_exec dx_codecs) dist_empty [dx_freeze, dx_commit]"
    by (simp add: dx_freeze_run dx_commit_run)
  have st': "dx_deferred = run_ops (dist_exec dx_codecs) dx_expanded [dx_defer]" by (simp add: dx_defer_run)
  have after: "\<forall>op\<in>set [dx_defer]. \<forall>n. 30 < now_at (dist_draws op) n" by (simp add: dx_defer_def dx_draws_def)
  note final = report_cutoff_is_immutable [OF dx_ok st dx_defer_ok st' after insertion_order_ok reverse_order_ok]
  show ?thesis using final dx_snapshot dx_one_revision by blast
qed

section \<open>Equal revisions\<close>

text \<open>Two manifests of one cycle may be frozen with one revision; then the inputs of the cycle follow the order
  in which the map is iterated. The unique index of the database refuses the second manifest.\<close>

definition dx_refreeze :: dist_op where
  "dx_refreeze = DistFreeze (\<lambda>doc roster placements h handoff. Some []) (dx_draws 12) dx_scope
     (dx_input\<lparr>fd_document_manifest := (fd_document_manifest dx_input)\<lparr>dom_revision := 2\<rparr>,
       fd_content_execution := (fd_content_execution dx_input)\<lparr>cx_manifest_revision := 2\<rparr>\<rparr>)"

definition dx_other :: distribution_manifest where
  "dx_other = (dx_manifest 0)\<lparr>dm_manifest_id := 58491224111395211033938042757136252928, dm_document_manifest_revision := 2,
     dm_sealed_at := 12\<rparr>"

definition dx_tied :: dist_state where
  "dx_tied = dist_empty\<lparr>ds_manifests := [((dx_owner, dx_manifest_id), dx_manifest 0), ((dx_owner, dm_manifest_id dx_other), dx_other)]\<rparr>"

lemma dx_refreeze_run: "dist_exec dx_codecs dx_frozen dx_refreeze = dx_tied"
  by code_simp

theorem cycle_inputs_follow_the_order:
  "dx_tied = run_ops (dist_exec dx_codecs) dist_empty [dx_freeze, dx_refreeze] \<and>
   dm_revision dx_other = dm_revision (dx_manifest 0) \<and>
   dist_cycle_inputs dx_codecs dx_scope 50 30 insertion_order dx_tied =
     Inr \<lparr>ci_manifest = Some dx_other, ci_targets = [], ci_temporally_complete = False\<rparr> \<and>
   dist_cycle_inputs dx_codecs dx_scope 50 30 reverse_order dx_tied =
     Inr \<lparr>ci_manifest = Some (dx_manifest 0), ci_targets = [], ci_temporally_complete = False\<rparr>"
proof (intro conjI)
  show "dx_tied = run_ops (dist_exec dx_codecs) dist_empty [dx_freeze, dx_refreeze]"
    by (simp add: dx_freeze_run dx_refreeze_run)
qed code_simp+

end
