(* ===== verification/Distribution_Sample.thy ===== *)
theory Distribution_Sample
  imports Distribution_Frozen Distribution_Theorems
begin

text \<open>
  A complete history of one publication: the ready target of the example is published under an account, and the
  publication is verified. No two of its values have the same hash, the sum of their bytes.
\<close>

section \<open>The history\<close>

definition dx_document :: structured_document where
  "dx_document = \<lparr>sd_title = lit ''t'', sd_blocks = [\<lparr>cb_block_id = 1, cb_kind = BlockParagraph, cb_text = lit ''b'',
     cb_citation_ids = [], cb_items = [], cb_rich = None\<rparr>], sd_schema_version = 2\<rparr>"

definition dx_revision :: content_revision where
  "dx_revision = \<lparr>cr_revision_id = 11, cr_asset_id = 12, cr_revision = 1, cr_base_revision_id = None,
     cr_derived_from_revision_id = None, cr_document = dx_document, cr_markdown = lit ''# t'' @ [10, 10] @ lit ''b'',
     cr_evidence = [], cr_quotes = [], cr_findings = [], cr_created_at = 0\<rparr>"

definition dx_publish :: dist_op where
  "dx_publish = DistMaterialize (dx_draws 40) dx_scope \<lparr>pd_manifest_id = dx_manifest_id, pd_target_id = dt_target_id dx_ready,
     pd_revision = Some dx_revision, pd_account_id = Some 7, pd_defer_reason = None\<rparr>"

definition dx_variant :: channel_variant where
  "dx_variant = \<lparr>cv_variant_id = 122408398439958939141148452569835634688, cv_content_revision_id = 11,
     cv_platform_id = lit ''p'', cv_placement_slot = lit ''s'', cv_policy_version = channel_variant_policy, cv_title = lit ''t'',
     cv_markdown = lit ''# t'' @ [10, 10] @ lit ''b'', cv_payload_hash = lit ''a801'' @ replicate 60 48, cv_evidence = [],
     cv_rich_payload = None\<rparr>"

definition dx_intent :: publication_intent where
  "dx_intent = \<lparr>pi_intent_id = 102412863237741317943677511206009044992, pi_project_id = Ident 3,
     pi_channel_target_id = dt_target_id dx_ready, pi_variant_id = cv_variant_id dx_variant, pi_content_revision_id = 11,
     pi_platform_id = lit ''p'', pi_placement_slot = lit ''s'', pi_account_id = 7, pi_payload_hash = cv_payload_hash dx_variant,
     pi_logical_key = lit ''661'' @ replicate 61 48, pi_verification = IntentUnverified, pi_verification_evidence_id = None,
     pi_created_at = 40\<rparr>"

definition dx_command :: publication_command where
  "dx_command = \<lparr>pc_command_id = 151557953003773461447718658962077253632, pc_intent_id = pi_intent_id dx_intent,
     pc_target_id = dt_target_id dx_ready, pc_payload_hash = cv_payload_hash dx_variant, pc_fixture = False\<rparr>"

definition dx_target :: distribution_target where
  "dx_target = dx_ready\<lparr>dt_variant_id := Some (cv_variant_id dx_variant), dt_account_id := Some 7,
     dt_publication_intent_id := Some (pi_intent_id dx_intent), dt_status := DistReady, dt_version := 2\<rparr>"

definition dx_published :: "publication_intent \<Rightarrow> dist_state" where
  "dx_published i = dist_empty\<lparr>ds_manifests := [((dx_owner, dx_manifest_id), dx_manifest 2)],
     ds_histories := [((dx_owner, dt_target_id dx_ready), [\<lparr>tv_recorded_at = 20, tv_target = dx_ready\<rparr>,
         \<lparr>tv_recorded_at = 40, tv_target = dx_target\<rparr>]),
       ((dx_owner, dt_target_id dx_blocked), [\<lparr>tv_recorded_at = 20, tv_target = dx_blocked\<rparr>])],
     ds_intents := [((dx_owner, pi_logical_key dx_intent), i)],
     ds_variants := [((dx_owner, cv_variant_id dx_variant), dx_variant)],
     ds_revisions := [((dx_owner, 11), dx_revision)],
     ds_commands := [((dx_owner, pc_command_id dx_command), dx_command)]\<rparr>"

definition dx_verify :: dist_op where
  "dx_verify = DistVerify (dx_draws 50) dx_scope (pi_intent_id dx_intent) IntentVerified 99"

definition dx_verified :: publication_intent where
  "dx_verified = dx_intent\<lparr>pi_verification := IntentVerified, pi_verification_evidence_id := Some 99\<rparr>"

lemma dx_document_valid: "validate_document urls [] dx_document = Inr ()"
  by (simp add: validate_document_def dx_document_def validate_block_def lit_def trim_def is_whitespace_def byte_len_def
      utf8_width_def max_nodes_def max_text_bytes_def saturating_add_def)

lemma dx_document_markdown: "document_markdown show_uuid dx_document = Some (cr_markdown dx_revision)"
  by (simp add: document_markdown_def expect_ok_def render_rich_markdown_def dx_document_def dx_revision_def
      block_markdown_def lit_def markdown_punctuation_def trim_end_def is_whitespace_def)

lemma dx_digest:
  assumes "sum_list (digest_input parts) = h" and "of_nat (h mod 256) = a" and "of_nat (h div 256) = b"
    and "hex_encode ([a, b] @ replicate 30 0) = x"
  shows "digest dx_codecs parts = x"
  using assms by (simp add: digest_def sha256_hex_def dx_codecs_def dx_hash_def Let_def)

lemma dx_payload_hash: "digest dx_codecs [lit ''t'', cr_markdown dx_revision] = cv_payload_hash dx_variant"
proof (rule dx_digest)
  show "sum_list (digest_input [lit ''t'', cr_markdown dx_revision]) = 424" by code_simp
  show "hex_encode ([168, 1] @ replicate 30 0) = cv_payload_hash dx_variant" by code_simp
qed simp_all

lemma dx_variant_identity: "variant_identity dx_codecs 11 (lit ''p'') (lit ''s'') channel_variant_policy (cv_payload_hash dx_variant) =
    cv_variant_id dx_variant"
  by code_simp

lemma dx_logical_key: "digest dx_codecs (intent_parts dx_codecs dx_owner dx_intent) = pi_logical_key dx_intent"
proof (rule dx_digest)
  show "sum_list (digest_input (intent_parts dx_codecs dx_owner dx_intent)) = 466950982818446880879014787944550" by code_simp
  show "hex_encode ([102, 16] @ replicate 30 0) = pi_logical_key dx_intent" by code_simp
qed simp_all

lemma dx_intent_identity: "identity_of dx_codecs [pi_logical_key dx_intent] = pi_intent_id dx_intent"
  by code_simp

lemma dx_command_identity: "command_identity dx_codecs (pi_intent_id dx_intent) = pc_command_id dx_command"
  by code_simp

lemma dx_prepared:
  "prepare_variant dx_codecs dx_revision \<lparr>pp_platform_id = lit ''p'', pp_placement_slot = lit ''s'', pp_capability_version = lit ''1'',
       pp_supported_formats = [lit ''a''], pp_unavailable_reason = None, pp_fixture = False\<rparr> = Some (Inr dx_variant)"
proof -
  have "cr_document dx_revision = dx_document" "cr_evidence dx_revision = []" "cr_revision_id dx_revision = 11"
    by (simp_all add: dx_revision_def)
  moreover have "document_media_references dx_document = []" "\<not> requires_rich_publication dx_document" "sd_title dx_document = lit ''t''"
    by (simp_all add: dx_document_def document_media_references_def requires_rich_publication_def)
  ultimately show ?thesis
    using dx_document_valid dx_document_markdown dx_payload_hash dx_variant_identity
    by (simp add: prepare_variant_def prepare_versioned_variant_def obind_def short_post_slot_def)
      (simp add: dx_variant_def lit_def dx_revision_def)
qed

lemma dx_owner_key: "owner_key dx_codecs dx_scope = dx_owner"
  by code_simp

lemma dx_candidate:
  "prepare_publication_intent dx_codecs dx_scope (dx_manifest 2) dx_ready dx_variant 7 40 = (dx_intent, dx_command)"
proof -
  have intent: "pi_content_revision_id dx_intent = cv_content_revision_id dx_variant" "pi_variant_id dx_intent = cv_variant_id dx_variant"
    "pi_platform_id dx_intent = dt_platform_id dx_ready" "pi_placement_slot dx_intent = dt_placement_slot dx_ready"
    "pi_account_id dx_intent = 7" "pi_payload_hash dx_intent = cv_payload_hash dx_variant"
    by (simp_all add: dx_intent_def dx_variant_def dx_ready_def)
  have "publication_logical_key dx_codecs dx_scope (dt_platform_id dx_ready) (dt_placement_slot dx_ready) dx_variant 7 = pi_logical_key dx_intent"
    using dx_logical_key dx_owner_key intent by (simp add: publication_logical_key_def intent_parts_def owner_key_def)
  then show ?thesis
    using dx_intent_identity dx_command_identity
    by (simp add: prepare_publication_intent_def prepare_publication_identity_def)
      (simp add: dx_intent_def dx_command_def dx_variant_def dx_ready_def dx_manifest_def dx_input_def)
qed

lemma dx_publish_run: "dist_exec dx_codecs dx_expanded dx_publish = dx_published dx_intent"
proof -
  have manifest: "scoped_manifest dx_codecs dx_expanded dx_scope dx_manifest_id = Inr (dx_manifest 2)" by (rule dx_list_facts)
  have history: "hm_get (ds_histories dx_expanded) (dx_owner, dt_target_id dx_ready) = Some [\<lparr>tv_recorded_at = 20, tv_target = dx_ready\<rparr>]"
    by (simp add: dx_expanded_def hm_get_def)
  have placement: "find_placement (dx_manifest 2) dx_ready = Some (hd (fd_placements dx_input))"
    by (simp add: find_placement_def dx_manifest_def dx_input_def dx_ready_def)
  have variant: "prepare_target_variant dx_codecs dx_scope (hd (fd_placements dx_input)) dx_revision [] = Some (Inr dx_variant)"
    using dx_prepared by (simp add: prepare_target_variant_def dx_input_def)
      (simp add: dx_revision_def dx_document_def requires_rich_publication_def)
  have rich: "\<not> requires_rich_publication (cr_document dx_revision)"
    by (simp add: dx_revision_def dx_document_def requires_rich_publication_def)
  have target: "dt_manifest_id dx_ready = dx_manifest_id" "dt_status dx_ready = DistPending" "dt_content_revision_id dx_ready = Some 11"
    "dt_publication_intent_id dx_ready = None" "dm_manifest_id (dx_manifest 2) = dx_manifest_id" "cr_revision_id dx_revision = 11"
    by (simp_all add: dx_ready_def dx_manifest_def dx_revision_def)
  have empty: "ds_intents dx_expanded = []" "ds_revisions dx_expanded = []" "ds_variants dx_expanded = []"
    by (simp_all add: dx_expanded_def dist_empty_def)
  have "publish_target dx_codecs (dx_draws 40) dx_scope (dt_target_id dx_ready) (dx_manifest 2) dx_ready dx_revision dx_variant 7 dx_expanded =
    (Some (Inr \<lparr>md_target = dx_target, md_variant = Some dx_variant, md_intent = Some dx_intent,
       md_publication_commands = [dx_command]\<rparr>), dx_published dx_intent)"
    using target empty
    by (simp add: publish_target_def dx_owner_key payload_changed_def hm_get_def dx_draws_def dx_candidate)
      code_simp
  then show ?thesis
    using manifest history placement variant rich target
    by (simp add: dx_publish_def materialize_def materialize_rich_def dx_owner_key publishable_status_def dx_draws_def)
qed

lemma dx_verify_run: "dist_exec dx_codecs (dx_published dx_intent) dx_verify = dx_published dx_verified"
proof -
  have find: "find_intent dx_owner (pi_intent_id dx_intent) (dx_published dx_intent) = Some dx_intent"
    by (simp add: find_intent_def dx_published_def)
  have scope: "check_dist_scope dx_scope (pi_project_id dx_intent) = Inr ()" "pi_verification dx_intent = IntentUnverified"
    by (simp_all add: check_dist_scope_def dx_scope_def dx_intent_def)
  show ?thesis
    using find scope
    by (simp add: dx_verify_def record_intent_verification_def dx_owner_key is_nil_def)
      (simp add: dx_published_def dx_verified_def Let_def)
qed

section \<open>No collisions\<close>

lemma dx_codecs_ok: "codecs_ok dx_codecs"
  by (simp add: codecs_ok_def sha_ok_def dx_codecs_def dx_hash_def Let_def inj_def word_unat_eq_iff)

lemma recorded_cases:
  assumes "ds_histories st = [((o1, k1), h1), ((o2, k2), h2)]"
  shows "recorded st key = (if key = (o1, k1) then map tv_target h1 else if key = (o2, k2) then map tv_target h2 else [])"
  using assms by (auto simp: recorded_def history_of_def hm_get_def)

lemma dx_unpublished:
  assumes "cells_unique st" and "ds_intents st = []" and "ds_variants st = []"
  shows "no_collision cd st"
  using assms by (simp add: no_collision_def stored_parts_def hm_get_def)

lemma dx_published_parts:
  assumes "i = dx_intent \<or> i = dx_verified"
  shows "stored_parts dx_codecs owner (dx_published i) \<subseteq> {intent_parts dx_codecs owner dx_intent}"
proof -
  have histories: "ds_histories (dx_published i) = [((dx_owner, dt_target_id dx_ready), [\<lparr>tv_recorded_at = 20, tv_target = dx_ready\<rparr>,
         \<lparr>tv_recorded_at = 40, tv_target = dx_target\<rparr>]),
       ((dx_owner, dt_target_id dx_blocked), [\<lparr>tv_recorded_at = 20, tv_target = dx_blocked\<rparr>])]"
    by (simp add: dx_published_def)
  have targets: "t = dx_target" if "t \<in> set (recorded (dx_published i) key)" "dt_account_id t = Some a" for t key a
    using that by (auto simp: recorded_cases [OF histories] dx_ready_def dx_blocked_def split: if_splits)
  have variants: "v = dx_variant" if "hm_get (ds_variants (dx_published i)) k = Some v" for k v
    using that by (simp add: dx_published_def hm_get_def split: if_splits)
  have intents: "x = i" if "hm_get (ds_intents (dx_published i)) k = Some x" for k x
    using that by (simp add: dx_published_def hm_get_def split: if_splits)
  have account: "dt_account_id dx_target = Some 7" by (simp add: dx_target_def)
  have target: "target_parts dx_codecs owner dx_target dx_variant 7 = intent_parts dx_codecs owner dx_intent"
    by (simp add: target_parts_def intent_parts_def dx_target_def dx_ready_def dx_variant_def dx_intent_def)
  have intent: "intent_parts dx_codecs owner i = intent_parts dx_codecs owner dx_intent"
    using assms by (auto simp: intent_parts_def dx_verified_def)
  show ?thesis
  proof
    fix x assume "x \<in> stored_parts dx_codecs owner (dx_published i)"
    then consider lk j where "hm_get (ds_intents (dx_published i)) (owner, lk) = Some j" "x = intent_parts dx_codecs owner j"
      | k t v a where "t \<in> set (recorded (dx_published i) (owner, k))" "dt_account_id t = Some a"
          "hm_get (ds_variants (dx_published i)) (owner, cv_variant_id v) = Some v" "x = target_parts dx_codecs owner t v a"
      unfolding stored_parts_def by blast
    then show "x \<in> {intent_parts dx_codecs owner dx_intent}"
    proof cases
      case 1
      then show ?thesis using intents intent by blast
    next
      case 2
      have "t = dx_target" "v = dx_variant" using targets [OF 2(1,2)] variants [OF 2(3)] by simp_all
      then show ?thesis using 2(2,4) account target by simp
    qed
  qed
qed

lemma dx_published_unique:
  assumes "i = dx_intent \<or> i = dx_verified"
  shows "no_collision dx_codecs (dx_published i)"
proof -
  have "cells_unique (dx_published i)"
    by (auto simp: cells_unique_def recorded_def history_of_def dx_published_def hm_get_def cell_key_def dx_target_def split: if_splits)
  moreover have "inj_on (digest dx_codecs) (stored_parts dx_codecs owner (dx_published i))" for owner
    by (rule inj_on_subset [OF _ dx_published_parts [OF assms]]) simp
  ultimately show ?thesis
    by (simp add: no_collision_def dx_published_def hm_get_def)
qed

lemma dx_publications_ok:
  "ok_ops (dist_exec dx_codecs) (publications_ok dx_codecs) dist_empty [dx_freeze, dx_commit, dx_publish, dx_verify]"
proof -
  have "cells_unique dx_frozen" "cells_unique dx_expanded"
    using dx_ok by (simp_all add: cells_ok_def dx_freeze_run dx_commit_run)
  then have "no_collision dx_codecs dx_frozen" "no_collision dx_codecs dx_expanded"
    by (auto intro!: dx_unpublished simp: dx_frozen_def dx_expanded_def dist_empty_def)
  then show ?thesis
    using dx_published_unique dx_codecs_ok
    by (simp add: publications_ok_def dx_freeze_run dx_commit_run dx_publish_run dx_verify_run)
qed

end
