(* ===== verification/Distribution_Outbox.thy ===== *)
theory Distribution_Outbox
  imports Distribution_Sample
begin

text \<open>
  What the repository guarantees for logical publications, over every history in which SHA-256 shows no
  collision: they read back whole, they have one outbox command each, and their payload is final.
\<close>

lemma publications_reached:
  assumes "ok_ops (dist_exec cd) (publications_ok cd) dist_empty ops"
  shows "dist_inv cd (run_ops (dist_exec cd) dist_empty ops)"
  by (rule publications.inv_run [OF dist_inv_empty assms])

section \<open>Reading back\<close>

text \<open>C7: Every logical publication that a history without hash collisions has stored, from a coverage target or from a
  request, reads back as one consistent bundle: its revision, its prepared variant, its origin and its command are
  all stored, they agree with the intent in identifiers and payload hash, and the final check of the bundle accepts.\<close>

theorem publications_read_back:
  assumes "ok_ops (dist_exec cd) (publications_ok cd) dist_empty ops" and "st = run_ops (dist_exec cd) dist_empty ops"
    and "hm_get (ds_intents st) (owner_key cd scope, lk) = Some i"
  shows "\<exists>b. get_publication_bundle cd scope (pi_intent_id i) st = Some (Inr b) \<and> bundle_of i b"
  using bundle_reads_back publications_reached [OF assms(1)] assms(2,3) by simp

lemma dx_published_st: "dx_published dx_intent = run_ops (dist_exec dx_codecs) dist_empty [dx_freeze, dx_commit, dx_publish]"
  by (simp add: dx_freeze_run dx_commit_run dx_publish_run)

lemma dx_published_ok: "ok_ops (dist_exec dx_codecs) (publications_ok dx_codecs) dist_empty [dx_freeze, dx_commit, dx_publish]"
  using dx_publications_ok by simp

lemma dx_stored: "hm_get (ds_intents (dx_published i)) (owner_key dx_codecs dx_scope, pi_logical_key dx_intent) = Some i"
  by (simp add: dx_published_def dx_owner_key hm_get_def)

theorem publications_read_back_witness:
  "\<exists>b. get_publication_bundle dx_codecs dx_scope (pi_intent_id dx_intent) (dx_published dx_intent) = Some (Inr b) \<and>
     bundle_of dx_intent b"
  by (rule publications_read_back [OF dx_published_ok dx_published_st dx_stored])

section \<open>The outbox\<close>

text \<open>C5: In every state that a history without hash collisions reaches, the outbox of a scope holds exactly one command
  for every logical publication and none besides: no two commands name the same intent, however often a target or a
  request was materialized, and each carries the identifier, the origin and the payload hash of its intent.\<close>

theorem one_command_per_publication:
  assumes "ok_ops (dist_exec cd) (publications_ok cd) dist_empty ops" and "st = run_ops (dist_exec cd) dist_empty ops"
    and "cs = publication_commands cd scope st"
  shows "distinct (map pc_intent_id cs) \<and>
    (\<forall>c\<in>set cs. \<exists>lk i. hm_get (ds_intents st) (owner_key cd scope, lk) = Some i \<and> command_of cd i c) \<and>
    (\<forall>lk i. hm_get (ds_intents st) (owner_key cd scope, lk) = Some i \<longrightarrow> (\<exists>c\<in>set cs. command_of cd i c))"
proof -
  have inv: "dist_inv cd st" using publications_reached [OF assms(1)] assms(2) by simp
  show ?thesis using outbox_commands [OF inv, where scope = scope] assms(3) by blast
qed

theorem one_command_per_publication_witness:
  "publication_commands dx_codecs dx_scope (dx_published dx_intent) = [dx_command] \<and> command_of dx_codecs dx_intent dx_command"
proof -
  have cs: "[dx_command] = publication_commands dx_codecs dx_scope (dx_published dx_intent)"
    by (simp add: publication_commands_def dx_owner_key dx_published_def)
  from one_command_per_publication [OF dx_published_ok dx_published_st cs]
  have "\<exists>c\<in>set [dx_command]. command_of dx_codecs dx_intent c" using dx_stored by blast
  then have "command_of dx_codecs dx_intent dx_command" by simp
  then show ?thesis by (intro conjI cs [symmetric])
qed

section \<open>Later steps\<close>

text \<open>C6: A stored publication is final: whatever operations follow in a history without hash collisions, the intent
  stays under its key with every field but its verification, a verified intent stays verified, and no stored command,
  variant or revision is changed or removed.\<close>

theorem stored_publications_are_final:
  assumes "ok_ops (dist_exec cd) (publications_ok cd) dist_empty ops" and "st = run_ops (dist_exec cd) dist_empty ops"
    and "ok_ops (dist_exec cd) (publications_ok cd) st later" and "st' = run_ops (dist_exec cd) st later"
    and "hm_get (ds_intents st) (owner, lk) = Some i"
  shows "(\<exists>i'. hm_get (ds_intents st') (owner, lk) = Some i' \<and> intent_grows i i') \<and>
    keeps_entries (ds_commands st) (ds_commands st') \<and> keeps_entries (ds_variants st) (ds_variants st') \<and>
    keeps_entries (ds_revisions st) (ds_revisions st')"
proof -
  have "dist_inv cd st" using publications_reached [OF assms(1)] assms(2) by simp
  from publications.grows_run [OF this assms(3)] show ?thesis
    using assms(4,5) by (simp add: ledger_grows_def del: split_paired_All)
qed

theorem stored_publications_are_final_witness:
  "\<exists>i'. hm_get (ds_intents (dx_published dx_verified)) (dx_owner, pi_logical_key dx_intent) = Some i' \<and> intent_grows dx_intent i'"
proof -
  have later: "ok_ops (dist_exec dx_codecs) (publications_ok dx_codecs) (dx_published dx_intent) [dx_verify]"
    using dx_publications_ok by (simp add: dx_freeze_run dx_commit_run dx_publish_run)
  have st': "dx_published dx_verified = run_ops (dist_exec dx_codecs) (dx_published dx_intent) [dx_verify]"
    by (simp add: dx_verify_run)
  from stored_publications_are_final [OF dx_published_ok dx_published_st later st' dx_stored [unfolded dx_owner_key]]
  show ?thesis by (rule conjunct1)
qed

end
