(* ===== verification/Spec2Isabelle.thy ===== *)
theory Spec2Isabelle
  imports Agent_Theorems Agent_Contracts Agent_Outcomes Agent_Safety Agent_Inputs Login_Queue_Theorems Csv_Theorems Rich_Theorems Structured_Document Channel_Board Auth_Theorems Distribution_Outbox
begin

text \<open>
  A verification development of the domain crate of Memeloop GEO (\<open>crates/domain\<close>): the contracts between
  the HTTP API, the background roles and the storage adapters, and the in-memory repositories that
  define what every adapter has to do. All paths below are relative to \<open>src/crates\<close>.

  \<^bold>\<open>The program and its parts.\<close> An operator hosts tenants, a tenant owns projects. Users log in to an
  operator (authentication). In a project, conversations with an agent are recorded as turns and runs
  that workers execute (agent). Knowledge is imported as quoted evidence (CSV ingestion), content is
  written as structured documents of rich text (rich content) with frozen media. Content is frozen into
  publication targets, which runners execute through an operator's browser accounts; their outcomes are
  recorded and measured (channel jobs), and a dispatcher hands pending targets to execution. Browser
  accounts have networks, exclusive browser operations and queues of logins. The repositories share no
  memory; they meet in the records they exchange and, for the channel jobs, in one lock under which
  targets, reservations, browser operations, networks and login queues are kept together.

  \<^bold>\<open>Which theory models what.\<close>
  \<^item> \<open>Prelude\<close>: strings, integers, time, \<open>Result\<close> (\<open>rbind\<close>, \<open>try_in\<close>), JSON, iterators; \<open>Hash_Maps\<close>: hash maps
    with the locales \<open>dictionary\<close> and \<open>keyed_dictionary\<close>; \<open>Machines\<close>: histories of operations with the
    locales \<open>invariant_machine\<close>, \<open>one_shot\<close> and \<open>versioned\<close>, interpreted on each repository (\<open>Distribution_Frozen\<close> adds
    \<open>evolving_machine\<close>); \<open>Platform\<close>:
    errors, identifiers, tenant scopes, event envelopes (\<open>error.rs\<close>, \<open>event.rs\<close>, \<open>operation.rs\<close>,
    \<open>projects/tenancy.rs\<close>).
  \<^item> \<open>Agent_Types\<close>, \<open>Agent_Validate\<close>, \<open>Agent_Repository\<close>, \<open>Agent_Ledger\<close>, \<open>Agent_History\<close>: \<open>agent/mod.rs\<close>, the record
    \<open>agent_state\<close> standing for the locked state of \<open>MemoryAgentRepository\<close>, one definition per method, named
    after it; the run input that \<open>turn_input\<close> assembles. \<open>Agent_Invariant\<close> (well-formedness), \<open>Agent_Machine\<close>
    (the operations as a machine), \<open>Agent_Evolution\<close> (what only grows), \<open>Agent_Isolation\<close> (frames of a tenant),
    \<open>Agent_Properties\<close> (permissions handed out once); \<open>Agent_Example\<close> a concrete history; \<open>Agent_Theorems\<close>,
    \<open>Agent_Contracts\<close>, \<open>Agent_Outcomes\<close>, \<open>Agent_Safety\<close>, \<open>Agent_Inputs\<close> the properties.
  \<^item> \<open>Auth\<close>: \<open>accounts/auth.rs\<close> and \<open>projects/appearance.rs\<close>, the record \<open>auth_data\<close> and every method of
    \<open>MemoryAuthRepository\<close>; \<open>Auth_Theorems\<close>: unique addresses, final revocation, exact login.
  \<^item> \<open>Knowledge_Types\<close>, \<open>Csv_Ingestion\<close>: \<open>knowledge/knowledge_csv.rs\<close> and the evidence chunks of
    \<open>knowledge/mod.rs\<close>; \<open>Csv_Grammar\<close> the language of the guard, \<open>Csv_Properties\<close> and \<open>Csv_Theorems\<close> what an
    import quotes, that it returns, and its bounds.
  \<^item> \<open>Rich_Content\<close>, \<open>Rich_Validate\<close>, \<open>Rich_Render\<close>: \<open>content/rich_content.rs\<close>; \<open>Content_Media\<close>:
    \<open>content/content_media.rs\<close>; \<open>Structured_Document\<close>: the structured documents of \<open>content/mod.rs\<close>.
    \<open>Rich_Trees\<close> describes accepted trees, tables and survivors without limits counters; \<open>Rich_Theorems\<close>:
    exact validation, tiling tables, safe HTML, survivors.
  \<^item> \<open>Distribution\<close>, \<open>Distribution_Prepare\<close>, \<open>Distribution_Repository\<close>, \<open>Distribution_Materialize\<close>:
    \<open>publishing/distribution.rs\<close>: frozen manifests and their cells, the prepared variants and logical
    publications, and \<open>dist_state\<close>, the locked state of \<open>MemoryDistributionRepository\<close>, with its methods.
    \<open>Distribution_Steps\<close> gives the seven kinds of steps the operations make, \<open>Distribution_Coverage\<close> and
    \<open>Distribution_Cutoff\<close> what they keep, \<open>Distribution_Example\<close> a history, \<open>Distribution_Theorems\<close> the
    properties: the coverage list is exact, what a report reads at a cutoff is final. The invariant of the
    logical publications is in \<open>Distribution_Publications\<close>, \<open>Distribution_Ledger\<close> shows when storing a
    publication keeps it, \<open>Distribution_Invariant\<close> and \<open>Distribution_Kept\<close> that every step does;
    \<open>Distribution_Readback\<close> and \<open>Distribution_Frozen\<close> say what it gives, \<open>Distribution_Sample\<close> publishes and
    verifies a target, and \<open>Distribution_Outbox\<close> has the properties: a publication reads back whole, has one
    outbox command and stays as it is.
  \<^item> \<open>Publication_Types\<close>: the publication bundle of \<open>publishing/distribution.rs\<close> with its digests and checks.
    \<open>Channel_Types\<close>, \<open>Channel_Evidence\<close>: the data of \<open>publishing/channel_jobs.rs\<close> and the inputs of a report.
    \<open>Channel_State\<close> (\<open>channel_state\<close> is the locked state of \<open>MemoryChannelJobRepository\<close>: cycles with their
    targets, attempts, bindings and send registrations, account reservations, browser operations, networks,
    login queues), \<open>Channel_Claims\<close> (reservations, claims, outcomes, bindings), \<open>Channel_Sends\<close> (one-shot send
    authorization of \<open>publication_send_authorization.rs\<close>, withdrawals), \<open>Account_Networks\<close>,
    \<open>Browser_Operations\<close>, \<open>Browser_Repository\<close> (\<open>accounts/account_networks.rs\<close>, \<open>accounts/browser_operations.rs\<close>
    and their repository), \<open>Login_Queue\<close>, \<open>Login_Repository\<close> (\<open>accounts/operator_login_queue.rs\<close> and its
    repository), with \<open>Login_Queue_Properties\<close> and \<open>Login_Queue_Theorems\<close> about the queue.
  \<^item> \<open>Channel_Machine\<close>: all 25 state-changing operations of that repository as one machine, and the relation
    \<open>cycles_step\<close> that abstracts them; \<open>Channel_Steps\<close>: every operation is such a step; \<open>Channel_Invariant\<close>,
    \<open>Channel_Evolution\<close>: the invariant and what is never taken back; \<open>Channel_Theorems\<close>, \<open>Channel_Flights\<close>,
    \<open>Channel_Outcomes\<close>, \<open>Channel_Rich\<close>: a target is claimed once, an account has one publication in flight,
    outcomes are final, rich publications are sent once and never reported as published without it;
    \<open>Channel_Example\<close>: a complete history; \<open>Channel_Dispatch\<close>: the dispatcher's tick of \<open>app/src/dispatch.rs\<close>
    with the other processes interleaved between its pages; \<open>Channel_Board\<close>: the abstract board of targets
    that the repository refines.

  \<^bold>\<open>How code becomes definitions.\<close> A struct is a record with the source's fields under a short prefix, an
  enum a datatype, \<open>Uuid\<close>, \<open>u32\<close>, \<open>u64\<close> and \<open>i64\<close> are words of their width (so counters wrap as in a release
  build, and \<open>checked_add\<close> is written out), \<open>usize\<close> lengths are naturals, times are nanoseconds as integers.
  A string is the list of its code points; \<open>len()\<close> is \<open>byte_len\<close>. A hash map is an association list. The order in
  which \<open>HashMap::iter\<close> yields its entries is not specified and may change as the map grows: the reads of
  distributions that iterate take it as an argument (\<open>map_order\<close>), and \<open>report_cutoff_is_immutable\<close> and
  \<open>coverage_list_is_exact\<close> hold for every order (\<open>cycle_inputs_follow_the_order\<close> shows where it matters);
  \<open>authentication_is_exact\<close> characterizes a search by the entries alone. Elsewhere the list is iterated in its own
  order. A method returns its \<open>Result\<close> and the state it
  leaves, also on an error, since several methods of the source write before they fail. \<open>Uuid::new_v4\<close> and
  \<open>Utc::now\<close> are drawn from the record \<open>draws\<close> in program order. Code that can panic returns an \<open>outcome\<close>,
  with \<open>None\<close> for the panic. An operation runs under the lock of its repository, so a concurrent history is
  a list of operations; the guards of the machines (\<open>agent_fresh\<close>, \<open>channel_ok\<close>, \<open>auth_ok\<close>) say that drawn
  identifiers are not in use, and those of the distributions (\<open>cells_ok\<close>, \<open>publications_ok\<close>) that
  SHA-256 gave no two stored values the same identifier.

  \<^bold>\<open>Parameters.\<close> The \<open>csv\<close>, \<open>serde_json\<close>, \<open>url\<close>, \<open>uuid\<close>, \<open>chrono\<close>, \<open>sha2\<close> and \<open>argon2\<close> crates are arguments
  (\<open>codecs\<close>, \<open>url_crate\<close>, \<open>argon\<close>, the readers of CSV records). The channel and knowledge repositories,
  the distribution requests and the committed media bytes are result-valued functions where a modelled
  operation calls them. A theorem needs of a parameter only what its hypotheses say.

  \<^bold>\<open>Loops, bounds and fuel.\<close> The loops of CSV ingestion are functions with a measure or carry the number of
  remaining characters as fuel; \<open>csv_import_returns\<close> proves that they end and that no assertion fails. Trees
  recurse structurally. The dispatcher's loop has fuel, one unit per page; \<open>every_pending_target_is_dispatched\<close>
  proves that one page per hundred targets is enough whatever else happens to the repository. Limits of the
  source (128 KiB of history, 20 turns, 256 columns, 1600 characters per slice, 32 MiB per import, depth 24
  and 10000 nodes per tree, pages of 1000) are constants of the definitions.

  \<^bold>\<open>Not modelled.\<close> The broadcast channel of live events has no buffer limit in the model (a lagging receiver
  is outside it). The HTTP handlers (\<open>api\<close>), the SQL adapters (\<open>persistence\<close>), model providers (\<open>provider\<close>),
  the worker hosts (\<open>worker\<close>) and process wiring (\<open>app\<close>, but for the dispatcher's loop) are I/O around the
  domain crate. Of the domain crate itself, the projects and cycles, the generation of content, the
  knowledge repository with its PDF and Office parsers, the measurement modules, partners, and the memory
  repositories of distribution requests and channels are not modelled; where a modelled
  operation calls one of them it is a parameter. Serde derives and OpenAPI annotations are not modelled.
\<close>

end
